(* ===== verification/GoPrelude.thy ===== *)
theory GoPrelude
  imports Main "HOL-Library.List_Lexorder" "HOL-Library.Char_ord" "HOL-Library.Sublist"
begin

text \<open>
  The part of Go's \<open>strings\<close>, \<open>bytes\<close> and \<open>strconv\<close> packages that the modelled
  components call, with the lemmas about it that several components share. A Go string and a
  byte slice are both a \<open>string\<close>: a HOL \<open>char\<close> is exactly one byte, so \<open>length\<close> is
  Go's \<open>len\<close>, and the order on strings (\<open>List_Lexorder\<close> over \<open>Char_ord\<close>) is Go's bytewise
  \<open><\<close> and SQLite's BINARY collation. White space and letter case are modelled for ASCII:
  \<open>TrimSpace\<close>, \<open>Fields\<close>, \<open>ToLower\<close> and \<open>EqualFold\<close> leave a byte above 127 alone.
\<close>

type_synonym bytes = "char list"

named_theorems go_string \<open>defining equations of the Go string functions\<close>

section \<open>Prefixes, suffixes and search\<close>

definition has_prefix :: "'a list \<Rightarrow> 'a list \<Rightarrow> bool" where
  "has_prefix s p \<longleftrightarrow> take (length p) s = p"

definition has_suffix :: "'a list \<Rightarrow> 'a list \<Rightarrow> bool" where
  "has_suffix s p \<longleftrightarrow> length p \<le> length s \<and> drop (length s - length p) s = p"

definition trim_prefix :: "'a list \<Rightarrow> 'a list \<Rightarrow> 'a list" where
  "trim_prefix s p = (if has_prefix s p then drop (length p) s else s)"

definition trim_suffix :: "'a list \<Rightarrow> 'a list \<Rightarrow> 'a list" where
  "trim_suffix s p = (if has_suffix s p then take (length s - length p) s else s)"

text \<open>\<open>index_of s p\<close> is \<open>strings.Index(s, p)\<close>, with \<open>None\<close> for \<open>-1\<close>.\<close>

fun index_of :: "'a list \<Rightarrow> 'a list \<Rightarrow> nat option" where
  "index_of [] p = (if p = [] then Some 0 else None)"
| "index_of (c # s) p = (if has_prefix (c # s) p then Some 0 else map_option Suc (index_of s p))"

definition contains :: "'a list \<Rightarrow> 'a list \<Rightarrow> bool" where
  "contains s p \<longleftrightarrow> index_of s p \<noteq> None"

lemma has_prefix_iff: "has_prefix s p \<longleftrightarrow> (\<exists>t. s = p @ t)"
  unfolding has_prefix_def by (metis append_eq_conv_conj append_take_drop_id)

lemma has_prefix_append [simp]: "has_prefix (p @ t) p"
  by (simp add: has_prefix_def)

lemma has_prefix_Nil [simp]: "has_prefix s []"
  by (simp add: has_prefix_def)

lemma has_prefix_length: "has_prefix s p \<Longrightarrow> length p \<le> length s"
  by (auto simp: has_prefix_iff)

lemma has_prefix_extend: "has_prefix s p \<Longrightarrow> has_prefix (s @ t) p"
  by (auto simp: has_prefix_iff)

lemma has_prefix_extend_iff: "length p \<le> length s \<Longrightarrow> has_prefix (s @ t) p = has_prefix s p"
  by (simp add: has_prefix_def)

lemma has_suffix_iff: "has_suffix s p \<longleftrightarrow> (\<exists>t. s = t @ p)"
proof
  assume "has_suffix s p"
  then have "s = take (length s - length p) s @ p"
    unfolding has_suffix_def by (metis append_take_drop_id)
  then show "\<exists>t. s = t @ p" ..
qed (auto simp: has_suffix_def)

lemma trim_prefix_append [simp]: "trim_prefix (p @ t) p = t"
  by (simp add: trim_prefix_def)

lemma index_of_bound: "index_of s p = Some i \<Longrightarrow> i + length p \<le> length s"
proof (induction s arbitrary: i)
  case (Cons c s)
  then show ?case
    by (auto split: if_splits dest: has_prefix_length)
qed (auto split: if_splits)

lemma index_of_Some: "index_of s p = Some i \<Longrightarrow> take (length p) (drop i s) = p"
proof (induction s arbitrary: i)
  case (Cons c s)
  then show ?case by (auto simp: has_prefix_def split: if_splits)
qed (auto split: if_splits)

lemma index_of_extend: "index_of s p = Some i \<Longrightarrow> index_of (s @ t) p = Some i"
proof (induction s arbitrary: i)
  case Nil
  then show ?case by (cases t) (auto split: if_splits)
next
  case (Cons c s)
  show ?case
  proof (cases "has_prefix (c # s) p")
    case True
    with Cons.prems show ?thesis using has_prefix_extend [OF True, of t] by simp
  next
    case False
    with Cons.prems obtain j where j: "index_of s p = Some j" "i = Suc j" by auto
    have "length p \<le> length (c # s)"
      using index_of_bound [OF j(1)] by simp
    with False have "\<not> has_prefix ((c # s) @ t) p"
      by (simp only: has_prefix_extend_iff not_False_eq_True)
    with j Cons.IH show ?thesis by simp
  qed
qed

lemma index_of_None: "index_of s p = None \<Longrightarrow> i \<le> length s \<Longrightarrow> \<not> has_prefix (drop i s) p"
proof (induction s arbitrary: i)
  case Nil
  then show ?case by (auto simp: has_prefix_def split: if_splits)
next
  case (Cons c s)
  then show ?case by (cases i) (auto split: if_splits)
qed

lemma contains_iff: "contains s p \<longleftrightarrow> (\<exists>u v. s = u @ p @ v)"
proof
  assume "contains s p"
  then obtain i where i: "index_of s p = Some i" by (auto simp: contains_def)
  have "s = take i s @ p @ drop (length p) (drop i s)"
    using index_of_Some [OF i] by (metis append_take_drop_id)
  then show "\<exists>u v. s = u @ p @ v" by blast
next
  assume "\<exists>u v. s = u @ p @ v"
  then obtain u v where s: "s = u @ p @ v" by blast
  show "contains s p"
  proof (rule ccontr)
    assume "\<not> contains s p"
    then have "index_of s p = None" by (simp add: contains_def)
    from index_of_None [OF this, of "length u"] s show False by simp
  qed
qed

lemma contains_sublist: "contains s p \<longleftrightarrow> sublist p s"
  by (auto simp: contains_iff sublist_def)

lemma contains_append_left: "contains s p \<Longrightarrow> contains (t @ s) p"
  by (metis contains_iff append.assoc)

lemma contains_append_right: "contains s p \<Longrightarrow> contains (s @ t) p"
  by (metis contains_iff append.assoc)

text \<open>Two strings cut at the first occurrence of a separator agree piece by piece.\<close>

lemma append_sep_inj:
  "c \<notin> set a \<Longrightarrow> c \<notin> set a' \<Longrightarrow> a @ c # r = a' @ c # r' \<longleftrightarrow> a = a' \<and> r = r'"
proof (induction a arbitrary: a')
  case Nil
  then show ?case by (cases a') auto
next
  case (Cons x a)
  then show ?case by (cases a') auto
qed

section \<open>Trimming, splitting and joining\<close>

definition is_space :: "char \<Rightarrow> bool" where
  "is_space c \<longleftrightarrow> c \<in> {CHR '' '', CHR 0x09, CHR 0x0A, CHR 0x0B, CHR 0x0C, CHR 0x0D}"

definition trim_left :: "('a \<Rightarrow> bool) \<Rightarrow> 'a list \<Rightarrow> 'a list" where
  "trim_left P s = dropWhile P s"

definition trim_right :: "('a \<Rightarrow> bool) \<Rightarrow> 'a list \<Rightarrow> 'a list" where
  "trim_right P s = rev (dropWhile P (rev s))"

definition trim_space :: "string \<Rightarrow> string" where
  "trim_space s = trim_right is_space (trim_left is_space s)"

definition ascii_lower :: "char \<Rightarrow> char" where
  "ascii_lower c =
     (if CHR ''A'' \<le> c \<and> c \<le> CHR ''Z'' then char_of (of_char c + 32 :: nat) else c)"

definition to_lower :: "string \<Rightarrow> string" where
  "to_lower s = map ascii_lower s"

definition equal_fold :: "string \<Rightarrow> string \<Rightarrow> bool" where
  "equal_fold s t \<longleftrightarrow> to_lower s = to_lower t"

fun split_char :: "'a \<Rightarrow> 'a list \<Rightarrow> 'a list list" where
  "split_char sep [] = [[]]"
| "split_char sep (c # s) =
     (if c = sep then [] # split_char sep s
      else (case split_char sep s of [] \<Rightarrow> [[c]] | w # ws \<Rightarrow> (c # w) # ws))"

fun join :: "'a list \<Rightarrow> 'a list list \<Rightarrow> 'a list" where
  "join sep [] = []"
| "join sep [x] = x"
| "join sep (x # y # ys) = x @ sep @ join sep (y # ys)"

text \<open>\<open>strings.Fields\<close>: the maximal runs of characters that are not white space.\<close>

definition fields :: "string \<Rightarrow> string list" where
  "fields s = filter (\<lambda>w. w \<noteq> [])
     (split_char (CHR '' '') (map (\<lambda>c. if is_space c then CHR '' '' else c) s))"

function replace_all :: "'a list \<Rightarrow> 'a list \<Rightarrow> 'a list \<Rightarrow> 'a list" where
  "replace_all old new s =
     (if old = [] then s
      else if has_prefix s old then new @ replace_all old new (drop (length old) s)
      else (case s of [] \<Rightarrow> [] | c # cs \<Rightarrow> c # replace_all old new cs))"
  by pat_completeness auto
termination
proof (relation "measure (\<lambda>(old, new, s). length s)")
  fix old new s :: "'a list"
  assume "old \<noteq> []" and "has_prefix s old"
  then show "((old, new, drop (length old) s), old, new, s) \<in> measure (\<lambda>(old, new, s). length s)"
    using has_prefix_length [of s old] by (cases old) auto
qed auto

declare replace_all.simps [simp del]

lemma split_char_neq_Nil [simp]: "split_char sep s \<noteq> []"
  by (induction s) (auto split: list.split)

lemma join_split_char: "join [sep] (split_char sep s) = s"
proof (induction s)
  case (Cons c s)
  obtain w ws where "split_char sep s = w # ws"
    by (cases "split_char sep s") auto
  with Cons show ?case by (cases ws) auto
qed simp

lemma split_char_no_sep: "w \<in> set (split_char sep s) \<Longrightarrow> sep \<notin> set w"
proof (induction s arbitrary: w)
  case (Cons c s)
  then show ?case by (auto split: if_splits list.splits)
qed simp

lemma split_char_single: "sep \<notin> set s \<Longrightarrow> split_char sep s = [s]"
  by (induction s) auto

lemma split_char_append_sep:
  "sep \<notin> set w \<Longrightarrow> split_char sep (w @ sep # s) = w # split_char sep s"
  by (induction w) auto

lemma split_char_join:
  "xs \<noteq> [] \<Longrightarrow> \<forall>x \<in> set xs. sep \<notin> set x \<Longrightarrow> split_char sep (join [sep] xs) = xs"
proof (induction xs rule: induct_list012)
  case (3 x y zs)
  then show ?case using split_char_append_sep [of sep x "join [sep] (y # zs)"] by simp
qed (auto simp: split_char_single)

lemma trim_right_id: "s = [] \<or> \<not> P (last s) \<Longrightarrow> trim_right P s = s"
  by (cases s rule: rev_cases) (auto simp: trim_right_def)

lemma trim_space_Nil [simp]: "trim_space [] = []"
  by (simp add: trim_space_def trim_left_def trim_right_def)

lemma trim_space_no_space: "\<forall>c \<in> set s. \<not> is_space c \<Longrightarrow> trim_space s = s"
proof -
  assume *: "\<forall>c \<in> set s. \<not> is_space c"
  then have "dropWhile is_space s = s" by (cases s) auto
  moreover have "dropWhile is_space (rev s) = rev s" using * by (cases s rule: rev_cases) auto
  ultimately show ?thesis by (simp add: trim_space_def trim_left_def trim_right_def)
qed

section \<open>Numbers in a base\<close>

text \<open>
  \<open>show_base b n\<close> is the numeral \<open>fmt\<close> prints for \<open>%d\<close> (base 10) and \<open>%x\<close> (base 16);
  \<open>parse_base\<close> reads digits of either letter case, as \<open>strconv\<close> does, and fails on the empty
  string and on any other byte.
\<close>

definition digit_char :: "nat \<Rightarrow> char" where
  "digit_char d = (if d < 10 then char_of (48 + d) else char_of (87 + d))"

definition digit_val :: "char \<Rightarrow> nat option" where
  "digit_val c = (let n = of_char c :: nat in
     if 48 \<le> n \<and> n \<le> 57 then Some (n - 48)
     else if 97 \<le> n \<and> n \<le> 122 then Some (n - 87)
     else if 65 \<le> n \<and> n \<le> 90 then Some (n - 55) else None)"

function show_base :: "nat \<Rightarrow> nat \<Rightarrow> string" where
  "show_base b n =
     (if b < 2 \<or> n < b then [digit_char n] else show_base b (n div b) @ [digit_char (n mod b)])"
  by pat_completeness auto
termination
  by (relation "measure snd") auto

declare show_base.simps [simp del]

abbreviation show_nat :: "nat \<Rightarrow> string" where
  "show_nat \<equiv> show_base 10"

fun parse_digits :: "nat \<Rightarrow> nat \<Rightarrow> string \<Rightarrow> nat option" where
  "parse_digits b acc [] = Some acc"
| "parse_digits b acc (c # s) =
     (case digit_val c of
        None \<Rightarrow> None
      | Some d \<Rightarrow> if d < b then parse_digits b (acc * b + d) s else None)"

definition parse_base :: "nat \<Rightarrow> string \<Rightarrow> nat option" where
  "parse_base b s = (if s = [] then None else parse_digits b 0 s)"

lemma of_digit_char: "d < 16 \<Longrightarrow> of_char (digit_char d) = (if d < 10 then 48 + d else 87 + d)"
  by (simp add: digit_char_def)

lemma digit_val_char: "d < 16 \<Longrightarrow> digit_val (digit_char d) = Some d"
proof (cases "d < 10")
  case True
  then show ?thesis unfolding digit_val_def Let_def by (subst of_digit_char | simp)+
next
  case False
  assume "d < 16"
  with False show ?thesis unfolding digit_val_def Let_def by (subst of_digit_char | simp)+
qed

lemma digit_char_inj: "d < 16 \<Longrightarrow> e < 16 \<Longrightarrow> digit_char d = digit_char e \<Longrightarrow> d = e"
  by (metis digit_val_char option.inject)

lemma parse_digits_append:
  "parse_digits b acc (s @ t) = Option.bind (parse_digits b acc s) (\<lambda>a. parse_digits b a t)"
  by (induction s arbitrary: acc) (auto split: option.split)

lemma parse_show_digits:
  assumes "2 \<le> b" "b \<le> 16"
  shows "parse_digits b 0 (show_base b n) = Some n"
  using assms
proof (induction n rule: less_induct)
  case (less n)
  show ?case
  proof (cases "n < b")
    case True
    with less.prems show ?thesis by (subst show_base.simps) (simp add: digit_val_char)
  next
    case False
    with less.prems have "n div b < n" by simp
    then have IH: "parse_digits b 0 (show_base b (n div b)) = Some (n div b)"
      using less.IH less.prems by blast
    have "n mod b < b" using less.prems by simp
    then have "n mod b < b" "n mod b < 16" using less.prems by linarith+
    with False less.prems IH show ?thesis
      by (subst show_base.simps) (simp add: parse_digits_append digit_val_char)
  qed
qed

lemma show_base_neq_Nil [simp]: "show_base b n \<noteq> []"
  by (subst show_base.simps) auto

lemma parse_show_base: "2 \<le> b \<Longrightarrow> b \<le> 16 \<Longrightarrow> parse_base b (show_base b n) = Some n"
  by (simp add: parse_base_def parse_show_digits)

lemma show_base_inj: "2 \<le> b \<Longrightarrow> b \<le> 16 \<Longrightarrow> show_base b m = show_base b n \<Longrightarrow> m = n"
  by (metis option.inject parse_show_base)

lemma show_base_chars:
  assumes "2 \<le> b"
  shows "set (show_base b n) \<subseteq> digit_char ` {..<b}"
  using assms
proof (induction n rule: less_induct)
  case (less n)
  show ?case
  proof (cases "n < b")
    case True
    with less.prems show ?thesis by (subst show_base.simps) auto
  next
    case False
    then have "set (show_base b (n div b)) \<subseteq> digit_char ` {..<b}"
      using less.IH [of "n div b"] less.prems by simp
    with False less.prems show ?thesis by (subst show_base.simps) auto
  qed
qed

lemma digit_char_not_space: "d < 16 \<Longrightarrow> \<not> is_space (digit_char d)"
proof -
  assume d: "d < 16"
  have "of_char (digit_char d) \<ge> (48 :: nat)" using d by (simp add: of_digit_char)
  moreover have "is_space c \<Longrightarrow> of_char c \<le> (32 :: nat)" for c
    by (auto simp: is_space_def)
  ultimately show ?thesis by fastforce
qed

lemma show_base_no_space:
  "2 \<le> b \<Longrightarrow> b \<le> 16 \<Longrightarrow> c \<in> set (show_base b n) \<Longrightarrow> \<not> is_space c"
  using show_base_chars [of b n] digit_char_not_space by fastforce

section \<open>Results\<close>

fun first_some :: "('a \<Rightarrow> 'b option) \<Rightarrow> 'a list \<Rightarrow> 'b option" where
  "first_some f [] = None"
| "first_some f (x # xs) = (case f x of None \<Rightarrow> first_some f xs | Some y \<Rightarrow> Some y)"

text \<open>A fallible call is \<open>Inl error\<close> or \<open>Inr value\<close>; \<open>res_bind\<close> is \<open>if err != nil { return err }\<close>.\<close>

definition res_bind :: "'e + 'a \<Rightarrow> ('a \<Rightarrow> 'e + 'b) \<Rightarrow> 'e + 'b" where
  "res_bind r f = (case r of Inl e \<Rightarrow> Inl e | Inr x \<Rightarrow> f x)"

fun res_map :: "('a \<Rightarrow> 'e + 'b) \<Rightarrow> 'a list \<Rightarrow> 'e + 'b list" where
  "res_map f [] = Inr []"
| "res_map f (x # xs) = res_bind (f x) (\<lambda>y. res_bind (res_map f xs) (\<lambda>ys. Inr (y # ys)))"

lemma res_bind_simps [simp]: "res_bind (Inl e) f = Inl e" "res_bind (Inr x) f = f x"
  by (simp_all add: res_bind_def)

lemma res_bind_Inr_iff: "res_bind r f = Inr y \<longleftrightarrow> (\<exists>x. r = Inr x \<and> f x = Inr y)"
  by (cases r) auto

lemma res_bind_Inl_iff: "res_bind r f = Inl e \<longleftrightarrow> r = Inl e \<or> (\<exists>x. r = Inr x \<and> f x = Inl e)"
  by (cases r) auto

lemma res_map_Inr: "res_map f xs = Inr ys \<Longrightarrow> list_all2 (\<lambda>x y. f x = Inr y) xs ys"
  by (induction xs arbitrary: ys) (auto simp: res_bind_Inr_iff)

lemma res_map_Inl: "res_map f xs = Inl e \<Longrightarrow> \<exists>x \<in> set xs. f x = Inl e"
  by (induction xs) (auto simp: res_bind_Inl_iff)

text \<open>The row a \<open>SELECT\<close> by key finds.\<close>

definition find_row :: "'e \<Rightarrow> ('r \<Rightarrow> bool) \<Rightarrow> 'r list \<Rightarrow> 'e + 'r" where
  "find_row e P rs = (case find P rs of None \<Rightarrow> Inl e | Some r \<Rightarrow> Inr r)"

lemma find_row_Inr: "find_row e P rs = Inr r \<Longrightarrow> r \<in> set rs \<and> P r"
  by (auto simp: find_row_def find_Some_iff split: option.splits)

lemma find_row_Inl: "find_row e P rs = Inl e' \<Longrightarrow> e' = e \<and> (\<forall>r \<in> set rs. \<not> P r)"
  by (auto simp: find_row_def find_None_iff split: option.splits)

section \<open>Literals\<close>

lemma char_codes:
  "char_of (43 :: nat) = CHR ''+''" "char_of (47 :: nat) = CHR ''/''" "char_of (34 :: nat) = CHR 0x22"
  "char_of (92 :: nat) = CHR 0x5C" "char_of (8 :: nat) = CHR 0x08" "char_of (12 :: nat) = CHR 0x0C"
  "char_of (10 :: nat) = CHR 0x0A" "char_of (13 :: nat) = CHR 0x0D" "char_of (9 :: nat) = CHR 0x09"
  "char_of (49 :: nat) = CHR ''1''"
  by code_simp+

end
