(* ===== verification/Attest.thy ===== *)
theory Attest
  imports GoPrelude
begin

text \<open>
  \<open>internal/attest/attest.go\<close>: DSSE envelopes over in-toto statements. Base64 is written out;
  ed25519 and the JSON codec of the statement are the functions of a record \<open>attest_prims\<close> that
  every operation takes. The lemmas show that the pre-authentication encoding is injective, that
  \<open>Verify\<close> accepts what \<open>Sign\<close> produced, and that it accepts nothing whose type and payload
  were not signed.
\<close>

section \<open>Base64, standard alphabet with padding\<close>

definition b64_char :: "nat \<Rightarrow> char" where
  "b64_char n = char_of (if n < 26 then n + 65 else if n < 52 then n + 71
     else if n < 62 then n - 4 else if n = 62 then 43 else 47)"

definition b64_val :: "char \<Rightarrow> nat option" where
  "b64_val c = (let n = of_char c :: nat in
     if 65 \<le> n \<and> n \<le> 90 then Some (n - 65)
     else if 97 \<le> n \<and> n \<le> 122 then Some (n - 71)
     else if 48 \<le> n \<and> n \<le> 57 then Some (n + 4)
     else if n = 43 then Some 62 else if n = 47 then Some 63 else None)"

fun b64_encode :: "bytes \<Rightarrow> string" where
  "b64_encode [] = []"
| "b64_encode [a] =
     (let x = of_char a in [b64_char (x div 4), b64_char (x mod 4 * 16), CHR ''='', CHR ''=''])"
| "b64_encode [a, b] =
     (let x = of_char a; y = of_char b
      in [b64_char (x div 4), b64_char (x mod 4 * 16 + y div 16), b64_char (y mod 16 * 4), CHR ''=''])"
| "b64_encode (a # b # c # rest) =
     (let x = of_char a; y = of_char b; z = of_char c
      in b64_char (x div 4) # b64_char (x mod 4 * 16 + y div 16)
         # b64_char (y mod 16 * 4 + z div 64) # b64_char (z mod 64) # b64_encode rest)"

definition b64_full_quad :: "char \<Rightarrow> char \<Rightarrow> char \<Rightarrow> char \<Rightarrow> bytes option" where
  "b64_full_quad a b c d =
     (case (b64_val a, b64_val b, b64_val c, b64_val d) of
        (Some p, Some q, Some r, Some s) \<Rightarrow>
          Some [char_of (p * 4 + q div 16), char_of (q mod 16 * 16 + r div 4), char_of (r mod 4 * 64 + s)]
      | _ \<Rightarrow> None)"

definition b64_last_quad :: "char \<Rightarrow> char \<Rightarrow> char \<Rightarrow> char \<Rightarrow> bytes option" where
  "b64_last_quad a b c d =
     (if d = CHR ''='' then
        (case (b64_val a, b64_val b) of
           (Some p, Some q) \<Rightarrow>
             if c = CHR ''='' then Some [char_of (p * 4 + q div 16)]
             else (case b64_val c of
                     Some r \<Rightarrow> Some [char_of (p * 4 + q div 16), char_of (q mod 16 * 16 + r div 4)]
                   | None \<Rightarrow> None)
         | _ \<Rightarrow> None)
      else b64_full_quad a b c d)"

fun b64_quads :: "string \<Rightarrow> bytes option" where
  "b64_quads [] = Some []"
| "b64_quads (a # b # c # d # rest) =
     (if rest = [] then b64_last_quad a b c d
      else (case (b64_full_quad a b c d, b64_quads rest) of
              (Some u, Some v) \<Rightarrow> Some (u @ v) | _ \<Rightarrow> None))"
| "b64_quads _ = None"

definition b64_decode :: "string \<Rightarrow> bytes option" where
  "b64_decode s = b64_quads (filter (\<lambda>c. c \<noteq> CHR 0x0A \<and> c \<noteq> CHR 0x0D) s)"

lemma of_b64_char:
  "n < 64 \<Longrightarrow> of_char (b64_char n) =
     (if n < 26 then n + 65 else if n < 52 then n + 71
      else if n < 62 then n - 4 else if n = 62 then 43 else 47)"
  by (simp add: b64_char_def)

lemma b64_val_char: "n < 64 \<Longrightarrow> b64_val (b64_char n) = Some n"
  by (auto simp: b64_val_def of_b64_char Let_def)

lemma b64_char_plain:
  assumes "n < 64"
  shows "b64_char n \<noteq> CHR ''=''" "b64_char n \<noteq> CHR 0x0A" "b64_char n \<noteq> CHR 0x0D"
proof -
  have "b64_val (CHR ''='') = None" "b64_val (CHR 0x0A) = None" "b64_val (CHR 0x0D) = None"
    by (simp_all add: b64_val_def)
  then show "b64_char n \<noteq> CHR ''=''" "b64_char n \<noteq> CHR 0x0A" "b64_char n \<noteq> CHR 0x0D"
    using b64_val_char [OF assms] by (metis option.distinct(1))+
qed

lemma sextet_bounds:
  fixes x :: nat
  shows "x mod 4 * 16 < 64" "x mod 16 * 4 < 64" "x mod 64 < 64"
proof -
  have "x mod 4 < 4" "x mod 16 < 16" by simp_all
  then show "x mod 4 * 16 < 64" "x mod 16 * 4 < 64" by linarith+
qed simp

lemma sextet_bounds_256:
  fixes y :: nat
  assumes "y < 256"
  shows "y div 4 < 64" "x mod 4 * 16 + y div 16 < 64" "x mod 16 * 4 + y div 64 < 64"
proof -
  have "x mod 4 < 4" "x mod 16 < 16" by simp_all
  moreover have "y div 16 < 16" "y div 64 < 4" using assms by simp_all
  ultimately show "x mod 4 * 16 + y div 16 < 64" "x mod 16 * 4 + y div 64 < 64" by linarith+
qed (use assms in simp)

lemma sextet_join:
  fixes y z :: nat
  shows "y < 256 \<Longrightarrow> y div 16 div 16 = 0" "z < 256 \<Longrightarrow> z div 64 div 4 = 0"
    "y < 256 \<Longrightarrow> y div 16 mod 16 = y div 16" "z < 256 \<Longrightarrow> z div 64 mod 4 = z div 64"
  by simp_all

lemmas sextets = sextet_bounds sextet_bounds_256 b64_val_char b64_char_plain

lemma b64_encode_Nil_iff: "b64_encode b = [] \<longleftrightarrow> b = []"
  by (cases b rule: b64_encode.cases) (auto simp: Let_def)

lemma b64_full_quad_encode:
  "b64_full_quad (b64_char (of_char a div 4)) (b64_char (of_char a mod 4 * 16 + of_char b div 16))
     (b64_char (of_char b mod 16 * 4 + of_char c div 64)) (b64_char (of_char c mod 64)) = Some [a, b, c]"
  by (simp add: b64_full_quad_def sextets sextet_join)

lemma b64_quads_encode: "b64_quads (b64_encode b) = Some b"
proof (induction b rule: b64_encode.induct)
  case (2 a)
  then show ?case
    by (simp add: Let_def b64_last_quad_def sextets sextet_join)
next
  case (3 a b)
  then show ?case
    by (simp add: Let_def b64_last_quad_def sextets sextet_join)
next
  case (4 a b c rest)
  then show ?case
    by (simp add: Let_def b64_full_quad_encode b64_encode_Nil_iff b64_last_quad_def
        sextets)
qed simp

lemma b64_encode_no_newline: "filter (\<lambda>c. c \<noteq> CHR 0x0A \<and> c \<noteq> CHR 0x0D) (b64_encode b) = b64_encode b"
  by (induction b rule: b64_encode.induct) (simp_all add: Let_def sextets)

lemma b64_decode_encode [simp]: "b64_decode (b64_encode b) = Some b"
  by (simp add: b64_decode_def b64_encode_no_newline b64_quads_encode)

section \<open>Statements, envelopes, signing and verification\<close>

record subject =
  su_name :: string
  su_digest :: "(string \<times> string) list"

record 'p statement =
  st_type :: string
  st_subject :: "subject list"
  st_predicate_type :: string
  st_predicate :: 'p

record signature =
  sg_keyid :: string
  sg_sig :: string

record envelope =
  en_payload_type :: string
  en_payload :: string
  en_signatures :: "signature list"

record 'p attest_prims =
  json_marshal :: "'p statement \<Rightarrow> bytes option"
  json_unmarshal :: "bytes \<Rightarrow> 'p statement option"
  ed_sign :: "bytes \<Rightarrow> bytes \<Rightarrow> bytes"
  ed_verify :: "bytes \<Rightarrow> bytes \<Rightarrow> bytes \<Rightarrow> bool"

datatype attest_error =
    BadPrivateKeySize
  | MarshalStatement
  | BadPublicKeySize
  | DecodePayload
  | NoValidSignature
  | UnmarshalStatement

definition statement_type :: string where
  "statement_type = ''https://in-toto.io/Statement/v1''"

definition default_predicate_type :: string where
  "default_predicate_type = ''https://agentprovenance.dev/Evidence/v1''"

definition dsse_payload_type :: string where
  "dsse_payload_type = ''application/vnd.in-toto+json''"

definition new_statement :: "string \<Rightarrow> string \<Rightarrow> 'p \<Rightarrow> 'p statement" where
  "new_statement name sha predicate =
     \<lparr>st_type = statement_type,
      st_subject = [\<lparr>su_name = name, su_digest = [(''sha256'', sha)]\<rparr>],
      st_predicate_type = default_predicate_type, st_predicate = predicate\<rparr>"

definition pae :: "string \<Rightarrow> bytes \<Rightarrow> bytes" where
  "pae payload_type body = ''DSSEv1 '' @ show_nat (length payload_type) @ '' '' @ payload_type
     @ '' '' @ show_nat (length body) @ '' '' @ body"

definition sign ::
  "'p attest_prims \<Rightarrow> 'p statement \<Rightarrow> bytes \<Rightarrow> string \<Rightarrow> attest_error + envelope" where
  "sign P stmt key key_id =
     (if length key \<noteq> 64 then Inl BadPrivateKeySize
      else case json_marshal P stmt of
          None \<Rightarrow> Inl MarshalStatement
        | Some payload \<Rightarrow>
            Inr \<lparr>en_payload_type = dsse_payload_type, en_payload = b64_encode payload,
                 en_signatures = [\<lparr>sg_keyid = key_id,
                   sg_sig = b64_encode (ed_sign P key (pae dsse_payload_type payload))\<rparr>]\<rparr>)"

fun any_valid :: "'p attest_prims \<Rightarrow> bytes \<Rightarrow> bytes \<Rightarrow> signature list \<Rightarrow> bool" where
  "any_valid P pub signed [] = False"
| "any_valid P pub signed (s # ss) =
     (case b64_decode (sg_sig s) of
        None \<Rightarrow> any_valid P pub signed ss
      | Some raw \<Rightarrow> if ed_verify P pub signed raw then True else any_valid P pub signed ss)"

definition verify :: "'p attest_prims \<Rightarrow> envelope \<Rightarrow> bytes \<Rightarrow> attest_error + 'p statement" where
  "verify P env pub =
     (if length pub \<noteq> 32 then Inl BadPublicKeySize
      else case b64_decode (en_payload env) of
          None \<Rightarrow> Inl DecodePayload
        | Some payload \<Rightarrow>
            if any_valid P pub (pae (en_payload_type env) payload) (en_signatures env)
            then (case json_unmarshal P payload of
                    None \<Rightarrow> Inl UnmarshalStatement | Some stmt \<Rightarrow> Inr stmt)
            else Inl NoValidSignature)"

lemma show_nat_no_blank: "CHR '' '' \<notin> set (show_nat n)"
  using show_base_no_space [of 10 "CHR '' ''" n] by (auto simp: is_space_def)

lemma pae_eq_iff: "pae t b = pae t' b' \<longleftrightarrow> t = t' \<and> b = b'"
proof
  assume "pae t b = pae t' b'"
  then have "show_nat (length t) @ CHR '' '' # (t @ CHR '' '' # show_nat (length b) @ CHR '' '' # b)
    = show_nat (length t') @ CHR '' '' # (t' @ CHR '' '' # show_nat (length b') @ CHR '' '' # b')"
    by (simp add: pae_def)
  then have "show_nat (length t) = show_nat (length t')"
    and rest: "t @ CHR '' '' # show_nat (length b) @ CHR '' '' # b
      = t' @ CHR '' '' # show_nat (length b') @ CHR '' '' # b'"
    by (simp_all add: append_sep_inj show_nat_no_blank)
  then have "length t = length t'" using show_base_inj [of 10] by simp
  with rest have "t = t'" and "show_nat (length b) @ CHR '' '' # b = show_nat (length b') @ CHR '' '' # b'"
    by simp_all
  then show "t = t' \<and> b = b'" by (simp add: append_sep_inj show_nat_no_blank)
qed simp

lemma any_valid_iff:
  "any_valid P pub m ss \<longleftrightarrow>
     (\<exists>s \<in> set ss. \<exists>raw. b64_decode (sg_sig s) = Some raw \<and> ed_verify P pub m raw)"
  by (induction ss) (auto split: option.splits)

lemma verify_InrD:
  assumes "verify P env pub = Inr st"
  obtains payload raw where "b64_decode (en_payload env) = Some payload"
    "ed_verify P pub (pae (en_payload_type env) payload) raw" "json_unmarshal P payload = Some st"
  using assms by (auto simp: verify_def any_valid_iff split: if_splits option.splits)

subsection \<open>Properties\<close>

text \<open>\<open>Verify\<close> accepts every envelope \<open>Sign\<close> produces, and returns the signed statement.
For a key pair whose public half verifies the signatures of the private half (the documented
contract of ed25519) and a statement the JSON codec reads back, signing succeeds and verifying the
envelope gives the statement, whatever the key id.\<close>

theorem verify_sign:
  assumes "length key = 64" "length pub = 32"
    and "\<forall>m. ed_verify P pub m (ed_sign P key m)"
    and "json_marshal P stmt = Some payload" "json_unmarshal P payload = Some stmt"
  shows "\<exists>env. sign P stmt key key_id = Inr env \<and> verify P env pub = Inr stmt"
  using assms by (simp add: sign_def verify_def)

definition toy_prims :: "bytes attest_prims" where
  "toy_prims = \<lparr>json_marshal = (\<lambda>s. Some (st_predicate s)),
     json_unmarshal = (\<lambda>b. Some (new_statement ''n'' ''d'' b)),
     ed_sign = (\<lambda>key m. rev m), ed_verify = (\<lambda>pub m raw. raw = rev m)\<rparr>"

lemma verify_sign_witness:
  "\<exists>env. sign toy_prims (new_statement ''n'' ''d'' ''7'') (replicate 64 CHR ''k'') ''id'' = Inr env
     \<and> verify toy_prims env (replicate 32 CHR ''p'') = Inr (new_statement ''n'' ''d'' ''7'')"
  by (rule verify_sign [where payload = "''7''"]) (simp_all add: toy_prims_def new_statement_def)


definition toy_prims_once :: "bytes attest_prims" where
  "toy_prims_once = toy_prims
     \<lparr>ed_verify := (\<lambda>pub m raw. m = pae dsse_payload_type ''7'' \<and> raw = rev m)\<rparr>"

definition toy_envelope :: envelope where
  "toy_envelope = \<lparr>en_payload_type = dsse_payload_type, en_payload = b64_encode ''7'',
     en_signatures = [\<lparr>sg_keyid = ''id'', sg_sig = b64_encode (rev (pae dsse_payload_type ''7''))\<rparr>]\<rparr>"

lemma toy_envelope_verifies:
  "verify toy_prims_once toy_envelope (replicate 32 CHR ''p'') = Inr (new_statement ''n'' ''d'' ''7'')"
  by (simp add: verify_def toy_envelope_def toy_prims_once_def toy_prims_def del: b64_encode.simps)


end
