(* ===== verification/Schema.thy ===== *)
theory Schema
  imports GoPrelude Complex_Main
begin

text \<open>
  The tables of \<open>internal/store/store.go\<close> (\<open>EnsureSchema\<close>, columns added by the migrations
  included) that the modelled components read or write: a row is a record with one field per column
  and a table is the list of its rows in insertion order. \<open>TEXT\<close> is a \<open>string\<close>, \<open>INTEGER\<close> an \<open>int\<close>,
  \<open>REAL\<close> a \<open>rat\<close>, and a column that may be NULL is an \<open>option\<close>. The statements the components run
  are the functions \<open>tbl_insert\<close>, \<open>tbl_replace\<close>, \<open>tbl_update\<close> and \<open>tbl_delete\<close>; the locale \<open>table\<close>
  states what they promise and is interpreted on every table.
\<close>

section \<open>Rows\<close>

record lease =
  le_id :: string
  le_run_id :: string
  le_task_path :: string
  le_task_yaml :: string
  le_status :: string
  le_created_at :: string
  le_updated_at :: string

record session =
  se_id :: string
  se_lease_id :: string
  se_run_id :: string
  se_container_id :: "string option"
  se_workspace_host_path :: string
  se_runtime :: string
  se_parent_snapshot_id :: string
  se_resumed_from_snapshot_id :: string
  se_status :: string
  se_startup_cold_ms :: int
  se_created_at :: string
  se_updated_at :: string

record process =
  pr_id :: string
  pr_session_id :: string
  pr_container_id :: "string option"
  pr_exec_id :: "string option"
  pr_tool_call_id :: string
  pr_command :: string
  pr_status :: string
  pr_exit_code :: "int option"
  pr_started_at :: string
  pr_ended_at :: "string option"

record binding =
  bi_id :: string
  bi_run_id :: string
  bi_session_id :: string
  bi_attempt_id :: string
  bi_tool_call_id :: string
  bi_process_id :: string
  bi_container_id :: string
  bi_cgroup_id :: string
  bi_root_pid :: int
  bi_pid :: int
  bi_started_at :: string
  bi_ended_at :: string
  bi_binding_source :: string
  bi_confidence :: rat
  bi_created_at :: string

record snapshot =
  sn_id :: string
  sn_name :: "string option"
  sn_session_id :: "string option"
  sn_parent_id :: "string option"
  sn_kind :: string
  sn_source :: string
  sn_path :: string
  sn_manifest_hash :: string
  sn_file_count :: int
  sn_bytes :: int
  sn_snapshot_create_ms :: int
  sn_delta_parent_id :: string
  sn_delta_files_added :: int
  sn_delta_files_modified :: int
  sn_delta_files_deleted :: int
  sn_planner_score :: rat
  sn_snapshot_semantic_type :: string
  sn_snapshot_physical_type :: string
  sn_logical_bytes :: int
  sn_physical_bytes :: int
  sn_dirty_bytes_estimate :: int
  sn_inode_estimate :: int
  sn_storage_amplification_ratio :: rat
  sn_hot_metadata_paths :: string
  sn_metadata_ops_estimate :: int
  sn_copy_up_risk :: string
  sn_upperdir_device :: string
  sn_tainted :: int
  sn_status :: string
  sn_created_at :: string

record snapshot_file =
  sf_snapshot_id :: string
  sf_path :: string
  sf_sha256 :: string
  sf_size_bytes :: int
  sf_mode :: string

record snapshot_edge =
  sx_id :: string
  sx_parent_id :: string
  sx_child_id :: string
  sx_edge_type :: string
  sx_plan :: string
  sx_plan_reason :: string
  sx_planner_score :: rat
  sx_created_at :: string

record fork_attempt =
  fa_id :: string
  fa_rollout_id :: string
  fa_tool_call_id :: string
  fa_snapshot_id :: string
  fa_workspace_path :: string
  fa_fork_ms :: int
  fa_strategy :: string
  fa_command :: string
  fa_status :: string
  fa_exit_code :: "int option"
  fa_wall_ms :: int
  fa_output_summary :: string
  fa_score :: rat
  fa_is_winner :: int
  fa_budget_seconds :: int
  fa_artifact_result :: string
  fa_cost_estimate :: rat
  fa_saved_cost :: rat
  fa_risk_status :: string
  fa_budget_exceeded :: int
  fa_created_at :: string

record tool_call =
  tc_id :: string
  tc_run_id :: string
  tc_rollout_id :: string
  tc_attempt_id :: string
  tc_session_id :: string
  tc_command :: string
  tc_args_hash :: string
  tc_status :: string
  tc_exit_code :: "int option"
  tc_wall_ms :: int
  tc_cost_estimate :: rat
  tc_result_ref :: string
  tc_policy_decision :: string
  tc_created_at :: string
  tc_started_at :: string
  tc_ended_at :: string
  tc_agent_id :: string

record agent =
  ag_id :: string
  ag_run_id :: string
  ag_name :: string
  ag_agent_type :: string
  ag_parent_agent_id :: string
  ag_binding_source :: string
  ag_created_at :: string
  ag_started_at :: string
  ag_ended_at :: string

record rollout =
  ro_id :: string
  ro_run_id :: string
  ro_task_path :: string
  ro_base_snapshot_id :: string
  ro_status :: string
  ro_fanout :: int
  ro_budget_seconds :: int
  ro_max_cost :: rat
  ro_winner_attempt_id :: string
  ro_promotion_id :: string
  ro_cost_estimate :: rat
  ro_risk_status :: string
  ro_created_at :: string
  ro_updated_at :: string

record promotion =
  pm_id :: string
  pm_rollout_id :: string
  pm_attempt_id :: string
  pm_base_snapshot_id :: string
  pm_status :: string
  pm_telemetry_watermark :: string
  pm_drain_started_at :: string
  pm_drain_completed_at :: string
  pm_drain_queued_before :: int
  pm_drain_processed :: int
  pm_drain_pending_after :: int
  pm_risk_status :: string
  pm_reason :: string
  pm_created_at :: string
  pm_updated_at :: string

record evidence_event =
  ee_id :: string
  ee_run_id :: string
  ee_rollout_id :: string
  ee_attempt_id :: string
  ee_session_id :: string
  ee_tool_call_id :: string
  ee_snapshot_id :: string
  ee_event_type :: string
  ee_priority :: string
  ee_payload :: string
  ee_status :: string
  ee_created_at :: string
  ee_processed_at :: string

record external_effect =
  ef_id :: string
  ef_run_id :: string
  ef_rollout_id :: string
  ef_attempt_id :: string
  ef_session_id :: string
  ef_tool_call_id :: string
  ef_process_id :: string
  ef_effect_type :: string
  ef_target :: string
  ef_mode :: string
  ef_decision :: string
  ef_compensation_ref :: string
  ef_payload :: string
  ef_status :: string
  ef_created_at :: string

record graph_edge =
  ge_id :: string
  ge_run_id :: string
  ge_rollout_id :: string
  ge_from_id :: string
  ge_to_id :: string
  ge_edge_type :: string
  ge_source_event_id :: string
  ge_created_at :: string

record event =
  ev_id :: string
  ev_run_id :: "string option"
  ev_session_id :: "string option"
  ev_tool_call_id :: string
  ev_process_id :: string
  ev_snapshot_id :: string
  ev_raw_event_id :: string
  ev_correlation_method :: string
  ev_correlation_confidence :: rat
  ev_container_id :: string
  ev_cgroup_id :: string
  ev_pid :: int
  ev_tgid :: int
  ev_ppid :: int
  ev_binding_source :: string
  ev_source :: string
  ev_event_type :: string
  ev_payload :: string
  ev_created_at :: string

record telemetry_batch =
  tb_id :: string
  tb_run_id :: string
  tb_format :: string
  tb_path :: string
  tb_file_sha256 :: string
  tb_read_count :: int
  tb_ingested_count :: int
  tb_skipped_count :: int
  tb_failed_count :: int
  tb_event_ids_json :: string
  tb_event_ids_sha256 :: string
  tb_created_at :: string

record spool_batch =
  sp_id :: string
  sp_run_id :: string
  sp_format :: string
  sp_source_path :: string
  sp_spool_path :: string
  sp_file_sha256 :: string
  sp_size_bytes :: int
  sp_status :: string
  sp_priority :: int
  sp_attempts :: int
  sp_policy_enabled :: int
  sp_ingest_batch_id :: string
  sp_ingested_count :: int
  sp_failed_count :: int
  sp_error :: string
  sp_created_at :: string
  sp_updated_at :: string
  sp_processed_at :: string
  sp_dropped_at :: string
  sp_drop_reason :: string

record policy_decision =
  pd_id :: string
  pd_event_id :: "string option"
  pd_run_id :: "string option"
  pd_session_id :: "string option"
  pd_rule_id :: string
  pd_decision :: string
  pd_reason :: string
  pd_created_at :: string

record risk_signal =
  rk_id :: string
  rk_run_id :: string
  rk_session_id :: string
  rk_tool_call_id :: string
  rk_process_id :: string
  rk_snapshot_id :: string
  rk_event_id :: string
  rk_policy_decision_id :: string
  rk_signal_type :: string
  rk_severity :: string
  rk_reason :: string
  rk_recommended_action :: string
  rk_payload :: string
  rk_created_at :: string

record baseline_deviation =
  bd_id :: string
  bd_run_id :: string
  bd_template_name :: string
  bd_profile_id :: string
  bd_deviation_type :: string
  bd_status :: string
  bd_expected_value :: rat
  bd_observed_value :: rat
  bd_recommended_action :: string
  bd_payload :: string
  bd_created_at :: string

record response_action =
  ra_id :: string
  ra_run_id :: string
  ra_session_id :: string
  ra_process_id :: string
  ra_snapshot_id :: string
  ra_risk_signal_id :: string
  ra_policy_decision_id :: string
  ra_action_type :: string
  ra_target_type :: string
  ra_target_id :: string
  ra_status :: string
  ra_result_ref :: string
  ra_payload :: string
  ra_created_at :: string

record cost_sample =
  cs_id :: string
  cs_run_id :: string
  cs_session_id :: "string option"
  cs_active_cpu_seconds :: rat
  cs_idle_seconds :: rat
  cs_wall_seconds :: rat
  cs_snapshot_bytes :: int
  cs_policy_block_count :: int
  cs_quarantine_count :: int
  cs_node_id :: string
  cs_fanout_cost :: rat
  cs_saved_cost :: rat
  cs_created_at :: string

record template =
  tm_id :: string
  tm_name :: string
  tm_task_path :: string
  tm_image :: string
  tm_risk_tier :: string
  tm_network_mode :: string
  tm_manifest_hash :: string
  tm_bytes :: int
  tm_status :: string
  tm_created_at :: string

record baseline_profile =
  bp_id :: string
  bp_template_name :: string
  bp_exec_count :: int
  bp_network_event_count :: int
  bp_policy_block_count :: int
  bp_active_cpu_seconds :: rat
  bp_payload :: string
  bp_status :: string
  bp_created_at :: string

record provenance_object =
  po_hash :: string
  po_object_type :: string
  po_source_id :: string
  po_run_id :: string
  po_rollout_id :: string
  po_parent_hashes :: string
  po_path :: string
  po_size_bytes :: int
  po_created_at :: string

record signal_row =
  si_id :: string
  si_dimension :: string
  si_signal_type :: string
  si_graph_ref_kind :: string
  si_graph_ref_id :: string
  si_run_id :: string
  si_session_id :: string
  si_tool_call_id :: string
  si_process_id :: string
  si_event_id :: string
  si_object_ref :: string
  si_severity :: string
  si_label :: string
  si_value :: rat
  si_reference :: string
  si_confidence :: rat
  si_recommended_action :: string
  si_produced_by :: string
  si_evidence_refs :: string
  si_payload :: string
  si_source_table :: string
  si_source_id :: string
  si_created_at :: string

record intent_diff_row =
  idr_id :: string
  idr_run_id :: string
  idr_agent_id :: string
  idr_tool_call_id :: string
  idr_contract_kind :: string
  idr_operation :: string
  idr_target :: string
  idr_status :: string
  idr_finding :: string
  idr_confidence :: rat
  idr_declared_effects :: string
  idr_forbidden_effects :: string
  idr_observed_effects :: string
  idr_mismatch_reason :: string
  idr_source :: string
  idr_created_at :: string

record event_window =
  ew_run_id :: string
  ew_session_id :: string
  ew_tool_call_id :: string
  ew_source :: string
  ew_event_type :: string
  ew_window_seconds :: int
  ew_window_start :: string
  ew_event_count :: int
  ew_resolved_count :: int
  ew_unresolved_count :: int
  ew_high_risk_count :: int
  ew_updated_at :: string

record cpu_sample =
  cu_id :: string
  cu_run_id :: string
  cu_session_id :: string
  cu_node_id :: string
  cu_active_cpu_seconds :: rat
  cu_idle_seconds :: rat
  cu_cpu_percent :: rat
  cu_ewma_active_cpu :: rat
  cu_throttling :: string
  cu_memory_pressure :: string
  cu_created_at :: string

record session_window =
  sw_run_id :: string
  sw_session_id :: string
  sw_node_id :: string
  sw_window_seconds :: int
  sw_window_start :: string
  sw_active_cpu_seconds :: rat
  sw_idle_seconds :: rat
  sw_avg_cpu_percent :: rat
  sw_ewma_active_cpu :: rat
  sw_throttling_count :: int
  sw_memory_pressure_count :: int
  sw_sample_count :: int
  sw_updated_at :: string

record node_window =
  nw_node_id :: string
  nw_window_seconds :: int
  nw_window_start :: string
  nw_active_cpu_seconds :: rat
  nw_idle_seconds :: rat
  nw_avg_cpu_percent :: rat
  nw_ewma_active_cpu :: rat
  nw_throttling_count :: int
  nw_memory_pressure_count :: int
  nw_session_count :: int
  nw_sample_count :: int
  nw_updated_at :: string

record port =
  pt_id :: string
  pt_session_id :: string
  pt_run_id :: string
  pt_container_id :: string
  pt_container_port :: int
  pt_host_port :: int
  pt_preview_url :: string
  pt_pid :: int
  pt_status :: string
  pt_created_at :: string
  pt_updated_at :: string

record record_batch =
  rb_id :: string
  rb_input_sha256 :: string
  rb_started_at :: string
  rb_ended_at :: string
  rb_job_count :: int
  rb_passed :: int
  rb_failed :: int
  rb_skipped :: int
  rb_status_counts_json :: string
  rb_run_ids_json :: string
  rb_shards_json :: string
  rb_result_set_id :: string
  rb_page_hash :: string
  rb_created_at :: string

record record_batch_item =
  rbi_batch_id :: string
  rbi_idx :: int
  rbi_job_id :: string
  rbi_shard_id :: string
  rbi_run_id :: string
  rbi_attempt_id :: string
  rbi_tool_call_id :: string
  rbi_process_id :: string
  rbi_workdir :: string
  rbi_command :: string
  rbi_status :: string
  rbi_exit_code :: int
  rbi_wall_ms :: int
  rbi_changed_file_count :: int
  rbi_changed_files_json :: string
  rbi_error :: string
  rbi_evidence_manifest_command :: string
  rbi_eval_context_command :: string
  rbi_explain_command :: string
  rbi_created_at :: string

record gc_job =
  gj_id :: string
  gj_run_id :: string
  gj_rollout_id :: string
  gj_attempt_id :: string
  gj_workspace_path :: string
  gj_status :: string
  gj_reclaimed_bytes :: int
  gj_reclaimed_inodes :: int
  gj_gc_latency_ms :: int
  gj_failure_reason :: string
  gj_created_at :: string
  gj_updated_at :: string

record forensics_bundle =
  fx_id :: string
  fx_run_id :: string
  fx_path :: string
  fx_sha256 :: string
  fx_size_bytes :: int
  fx_status :: string
  fx_created_at :: string

record db =
  db_leases :: "lease list"
  db_sessions :: "session list"
  db_processes :: "process list"
  db_execution_context_bindings :: "binding list"
  db_snapshots :: "snapshot list"
  db_snapshot_files :: "snapshot_file list"
  db_snapshot_edges :: "snapshot_edge list"
  db_fork_attempts :: "fork_attempt list"
  db_tool_calls :: "tool_call list"
  db_agents :: "agent list"
  db_rollouts :: "rollout list"
  db_promotions :: "promotion list"
  db_evidence_events :: "evidence_event list"
  db_external_effects :: "external_effect list"
  db_graph_edges :: "graph_edge list"
  db_events :: "event list"
  db_telemetry_batches :: "telemetry_batch list"
  db_telemetry_spool_batches :: "spool_batch list"
  db_policy_decisions :: "policy_decision list"
  db_risk_signals :: "risk_signal list"
  db_baseline_deviations :: "baseline_deviation list"
  db_response_actions :: "response_action list"
  db_cost_samples :: "cost_sample list"
  db_templates :: "template list"
  db_baseline_profiles :: "baseline_profile list"
  db_provenance_objects :: "provenance_object list"
  db_signals :: "signal_row list"
  db_intent_diffs :: "intent_diff_row list"
  db_telemetry_event_windows :: "event_window list"
  db_cpu_samples :: "cpu_sample list"
  db_session_resource_windows :: "session_window list"
  db_node_resource_windows :: "node_window list"
  db_ports :: "port list"
  db_record_batches :: "record_batch list"
  db_record_batch_items :: "record_batch_item list"
  db_gc_jobs :: "gc_job list"
  db_forensics_bundles :: "forensics_bundle list"

definition empty_db :: db where
  "empty_db = \<lparr>db_leases = [],
    db_sessions = [],
    db_processes = [],
    db_execution_context_bindings = [],
    db_snapshots = [],
    db_snapshot_files = [],
    db_snapshot_edges = [],
    db_fork_attempts = [],
    db_tool_calls = [],
    db_agents = [],
    db_rollouts = [],
    db_promotions = [],
    db_evidence_events = [],
    db_external_effects = [],
    db_graph_edges = [],
    db_events = [],
    db_telemetry_batches = [],
    db_telemetry_spool_batches = [],
    db_policy_decisions = [],
    db_risk_signals = [],
    db_baseline_deviations = [],
    db_response_actions = [],
    db_cost_samples = [],
    db_templates = [],
    db_baseline_profiles = [],
    db_provenance_objects = [],
    db_signals = [],
    db_intent_diffs = [],
    db_telemetry_event_windows = [],
    db_cpu_samples = [],
    db_session_resource_windows = [],
    db_node_resource_windows = [],
    db_ports = [],
    db_record_batches = [],
    db_record_batch_items = [],
    db_gc_jobs = [],
    db_forensics_bundles = []\<rparr>"

section \<open>Statements\<close>

definition coalesce :: "string option \<Rightarrow> string" where
  "coalesce x = (case x of None \<Rightarrow> [] | Some s \<Rightarrow> s)"

definition tbl_insert ::
  "('d \<Rightarrow> 'r list) \<Rightarrow> (('r list \<Rightarrow> 'r list) \<Rightarrow> 'd \<Rightarrow> 'd) \<Rightarrow> ('r \<Rightarrow> 'k) \<Rightarrow> 'r \<Rightarrow> 'd \<Rightarrow> 'd option" where
  "tbl_insert get upd key r d =
     (if key r \<in> key ` set (get d) then None else Some (upd (\<lambda>rs. rs @ [r]) d))"

definition tbl_replace ::
  "(('r list \<Rightarrow> 'r list) \<Rightarrow> 'd \<Rightarrow> 'd) \<Rightarrow> ('r \<Rightarrow> 'k) \<Rightarrow> 'r \<Rightarrow> 'd \<Rightarrow> 'd" where
  "tbl_replace upd key r d = upd (\<lambda>rs. filter (\<lambda>x. key x \<noteq> key r) rs @ [r]) d"

definition tbl_update ::
  "(('r list \<Rightarrow> 'r list) \<Rightarrow> 'd \<Rightarrow> 'd) \<Rightarrow> ('r \<Rightarrow> bool) \<Rightarrow> ('r \<Rightarrow> 'r) \<Rightarrow> 'd \<Rightarrow> 'd" where
  "tbl_update upd P f d = upd (map (\<lambda>r. if P r then f r else r)) d"

definition tbl_delete :: "(('r list \<Rightarrow> 'r list) \<Rightarrow> 'd \<Rightarrow> 'd) \<Rightarrow> ('r \<Rightarrow> bool) \<Rightarrow> 'd \<Rightarrow> 'd" where
  "tbl_delete upd P d = upd (filter (\<lambda>r. \<not> P r)) d"

text \<open>\<open>ORDER BY k ASC\<close> over the insertion order, \<open>ORDER BY k DESC\<close>, and \<open>ORDER BY k DESC LIMIT 1\<close>.\<close>

definition order_asc :: "('r \<Rightarrow> 'k :: linorder) \<Rightarrow> 'r list \<Rightarrow> 'r list" where
  "order_asc k rs = sort_key k rs"

definition order_desc :: "('r \<Rightarrow> 'k :: linorder) \<Rightarrow> 'r list \<Rightarrow> 'r list" where
  "order_desc k rs = rev (sort_key k (rev rs))"

fun first_max :: "('r \<Rightarrow> 'k :: linorder) \<Rightarrow> 'r list \<Rightarrow> 'r option" where
  "first_max k [] = None"
| "first_max k (r # rs) =
     (case first_max k rs of None \<Rightarrow> Some r | Some r' \<Rightarrow> if k r < k r' then Some r' else Some r)"

lemma first_max_None [simp]: "first_max k rs = None \<longleftrightarrow> rs = []"
  by (cases rs) (auto split: option.split)

lemma first_max_Some:
  "first_max k rs = Some r \<Longrightarrow> r \<in> set rs \<and> (\<forall>x \<in> set rs. k x \<le> k r)"
proof (induction rs arbitrary: r)
  case (Cons a rs)
  show ?case
  proof (cases "first_max k rs")
    case None
    with Cons.prems show ?thesis by auto
  next
    case (Some b)
    with Cons.IH have "b \<in> set rs \<and> (\<forall>x \<in> set rs. k x \<le> k b)" by simp
    with Cons.prems Some show ?thesis by (auto split: if_splits)
  qed
qed simp

section \<open>The interface of a table\<close>

text \<open>
  \<open>get\<close> reads a table and \<open>upd\<close> maps a function over it; the laws say that they are a lens. Every
  fact about the statements follows from them.
\<close>

locale table =
  fixes get :: "'d \<Rightarrow> 'r list"
    and upd :: "('r list \<Rightarrow> 'r list) \<Rightarrow> 'd \<Rightarrow> 'd"
    and key :: "'r \<Rightarrow> 'k"
  assumes get_upd: "get (upd f d) = f (get d)"
    and upd_upd: "upd f (upd g d) = upd (\<lambda>rs. f (g rs)) d"
begin

definition keyed :: "'d \<Rightarrow> bool" where
  "keyed d \<longleftrightarrow> distinct (map key (get d))"

lemma insert_get: "tbl_insert get upd key r d = Some d' \<Longrightarrow> get d' = get d @ [r]"
  by (auto simp: tbl_insert_def get_upd split: if_splits)

lemma insert_fresh: "key r \<notin> key ` set (get d) \<Longrightarrow>
  tbl_insert get upd key r d = Some (upd (\<lambda>rs. rs @ [r]) d)"
  by (simp add: tbl_insert_def)

lemma insert_clash: "key r \<in> key ` set (get d) \<Longrightarrow> tbl_insert get upd key r d = None"
  by (simp add: tbl_insert_def)

lemma insert_keyed: "keyed d \<Longrightarrow> tbl_insert get upd key r d = Some d' \<Longrightarrow> keyed d'"
  by (auto simp: keyed_def tbl_insert_def get_upd split: if_splits)

lemma replace_get: "get (tbl_replace upd key r d) = filter (\<lambda>x. key x \<noteq> key r) (get d) @ [r]"
  by (simp add: tbl_replace_def get_upd)

lemma replace_keyed: "keyed d \<Longrightarrow> keyed (tbl_replace upd key r d)"
  by (auto simp: keyed_def replace_get distinct_map inj_on_def)

lemma update_get: "get (tbl_update upd P f d) = map (\<lambda>r. if P r then f r else r) (get d)"
  by (simp add: tbl_update_def get_upd)

lemma update_keyed: "keyed d \<Longrightarrow> (\<And>r. key (f r) = key r) \<Longrightarrow> keyed (tbl_update upd P f d)"
proof -
  assume "keyed d" and "\<And>r. key (f r) = key r"
  then have "map key (get (tbl_update upd P f d)) = map key (get d)"
    by (simp add: update_get)
  with \<open>keyed d\<close> show ?thesis by (simp add: keyed_def)
qed

lemma delete_get: "get (tbl_delete upd P d) = filter (\<lambda>r. \<not> P r) (get d)"
  by (simp add: tbl_delete_def get_upd)

lemma delete_keyed: "keyed d \<Longrightarrow> keyed (tbl_delete upd P d)"
  by (auto simp: keyed_def delete_get distinct_map inj_on_def)

lemma delete_idem: "tbl_delete upd P (tbl_delete upd P d) = tbl_delete upd P d"
  by (simp add: tbl_delete_def upd_upd)

lemmas get_simps = replace_get update_get delete_get get_upd

end

text \<open>Every table of the database provides the interface.\<close>

interpretation leases: table db_leases db_leases_update "le_id"
  by unfold_locales simp_all

interpretation sessions: table db_sessions db_sessions_update "se_id"
  by unfold_locales simp_all

interpretation processes: table db_processes db_processes_update "pr_id"
  by unfold_locales simp_all

interpretation execution_context_bindings: table db_execution_context_bindings db_execution_context_bindings_update "bi_id"
  by unfold_locales simp_all

interpretation snapshots: table db_snapshots db_snapshots_update "sn_id"
  by unfold_locales simp_all

interpretation snapshot_files: table db_snapshot_files db_snapshot_files_update "(\<lambda>r. (sf_snapshot_id r, sf_path r))"
  by unfold_locales simp_all

interpretation snapshot_edges: table db_snapshot_edges db_snapshot_edges_update "sx_id"
  by unfold_locales simp_all

interpretation fork_attempts: table db_fork_attempts db_fork_attempts_update "fa_id"
  by unfold_locales simp_all

interpretation tool_calls: table db_tool_calls db_tool_calls_update "tc_id"
  by unfold_locales simp_all

interpretation agents: table db_agents db_agents_update "(\<lambda>r. (ag_run_id r, ag_id r))"
  by unfold_locales simp_all

interpretation rollouts: table db_rollouts db_rollouts_update "ro_id"
  by unfold_locales simp_all

interpretation promotions: table db_promotions db_promotions_update "pm_id"
  by unfold_locales simp_all

interpretation evidence_events: table db_evidence_events db_evidence_events_update "ee_id"
  by unfold_locales simp_all

interpretation external_effects: table db_external_effects db_external_effects_update "ef_id"
  by unfold_locales simp_all

interpretation graph_edges: table db_graph_edges db_graph_edges_update "ge_id"
  by unfold_locales simp_all

interpretation events: table db_events db_events_update "ev_id"
  by unfold_locales simp_all

interpretation telemetry_batches: table db_telemetry_batches db_telemetry_batches_update "tb_id"
  by unfold_locales simp_all

interpretation telemetry_spool_batches: table db_telemetry_spool_batches db_telemetry_spool_batches_update "sp_id"
  by unfold_locales simp_all

interpretation policy_decisions: table db_policy_decisions db_policy_decisions_update "pd_id"
  by unfold_locales simp_all

interpretation risk_signals: table db_risk_signals db_risk_signals_update "rk_id"
  by unfold_locales simp_all

interpretation baseline_deviations: table db_baseline_deviations db_baseline_deviations_update "bd_id"
  by unfold_locales simp_all

interpretation response_actions: table db_response_actions db_response_actions_update "ra_id"
  by unfold_locales simp_all

interpretation cost_samples: table db_cost_samples db_cost_samples_update "cs_id"
  by unfold_locales simp_all

interpretation templates: table db_templates db_templates_update "tm_id"
  by unfold_locales simp_all

interpretation baseline_profiles: table db_baseline_profiles db_baseline_profiles_update "bp_id"
  by unfold_locales simp_all

interpretation provenance_objects: table db_provenance_objects db_provenance_objects_update "po_hash"
  by unfold_locales simp_all

interpretation signals: table db_signals db_signals_update "si_id"
  by unfold_locales simp_all

interpretation intent_diffs: table db_intent_diffs db_intent_diffs_update "idr_id"
  by unfold_locales simp_all

interpretation telemetry_event_windows: table db_telemetry_event_windows db_telemetry_event_windows_update "(\<lambda>r. (ew_run_id r, ew_session_id r, ew_tool_call_id r, ew_source r, ew_event_type r, ew_window_seconds r, ew_window_start r))"
  by unfold_locales simp_all

interpretation cpu_samples: table db_cpu_samples db_cpu_samples_update "cu_id"
  by unfold_locales simp_all

interpretation session_resource_windows: table db_session_resource_windows db_session_resource_windows_update "(\<lambda>r. (sw_session_id r, sw_window_seconds r, sw_window_start r))"
  by unfold_locales simp_all

interpretation node_resource_windows: table db_node_resource_windows db_node_resource_windows_update "(\<lambda>r. (nw_node_id r, nw_window_seconds r, nw_window_start r))"
  by unfold_locales simp_all

interpretation ports: table db_ports db_ports_update "pt_id"
  by unfold_locales simp_all

interpretation record_batches: table db_record_batches db_record_batches_update "rb_id"
  by unfold_locales simp_all

interpretation record_batch_items: table db_record_batch_items db_record_batch_items_update "(\<lambda>r. (rbi_batch_id r, rbi_idx r))"
  by unfold_locales simp_all

interpretation gc_jobs: table db_gc_jobs db_gc_jobs_update "gj_id"
  by unfold_locales simp_all

interpretation forensics_bundles: table db_forensics_bundles db_forensics_bundles_update "fx_id"
  by unfold_locales simp_all

end
