(* ===== verification/GoTime.thy ===== *)
theory GoTime
  imports GoPrelude "HOL-Library.Monad_Syntax"
begin

text \<open>
  The part of Go's \<open>time\<close> package that the components use, on instants counted in nanoseconds from
  the Unix epoch in UTC: \<open>format_time\<close> is \<open>t.UTC().Format(time.RFC3339Nano)\<close> and \<open>parse_time\<close> is
  \<open>time.Parse(time.RFC3339Nano, s)\<close> with the leniencies of Go's parser (an hour of one digit, a comma
  before the fraction, digits beyond nanoseconds dropped). The components compare the texts instead of
  the instants; the lemmas at the end show when that is right.
\<close>

section \<open>Dates\<close>

text \<open>The civil date of a day number counted from 1 January 1970, and back.\<close>

definition civil :: "int \<Rightarrow> int \<times> int \<times> int" where
  "civil days =
     (let z = days + 719468; era = z div 146097; doe = z mod 146097;
          yoe = (doe - doe div 1460 + doe div 36524 - doe div 146096) div 365;
          doy = doe - (365 * yoe + yoe div 4 - yoe div 100);
          mp = (5 * doy + 2) div 153;
          d = doy - (153 * mp + 2) div 5 + 1;
          m = (if mp < 10 then mp + 3 else mp - 9)
      in (yoe + era * 400 + (if m \<le> 2 then 1 else 0), m, d))"

definition day_number :: "int \<Rightarrow> int \<Rightarrow> int \<Rightarrow> int" where
  "day_number y m d =
     (let y = (if m \<le> 2 then y - 1 else y); era = y div 400; yoe = y mod 400;
          doy = (153 * (if m > 2 then m - 3 else m + 9) + 2) div 5 + d - 1
      in era * 146097 + yoe * 365 + yoe div 4 - yoe div 100 + doy - 719468)"

definition leap :: "int \<Rightarrow> bool" where
  "leap y \<longleftrightarrow> y mod 4 = 0 \<and> (y mod 100 \<noteq> 0 \<or> y mod 400 = 0)"

definition days_in :: "int \<Rightarrow> int \<Rightarrow> int" where
  "days_in m y = (if m = 2 then (if leap y then 29 else 28) else if m \<in> {4, 6, 9, 11} then 30 else 31)"

section \<open>Formatting\<close>

definition pad :: "nat \<Rightarrow> nat \<Rightarrow> string" where
  "pad k n = (let s = show_nat n in replicate (k - length s) CHR ''0'' @ s)"

definition pad_int :: "nat \<Rightarrow> int \<Rightarrow> string" where
  "pad_int k n = (if n < 0 then CHR ''-'' # pad k (nat (- n)) else pad k (nat n))"

definition fraction :: "nat \<Rightarrow> string" where
  "fraction nanos =
     (if nanos = 0 then [] else CHR ''.'' # trim_right (\<lambda>c. c = CHR ''0'') (pad 9 nanos))"

definition seconds_part :: "int \<Rightarrow> string" where
  "seconds_part secs =
     (case civil (secs div 86400) of (y, m, d) \<Rightarrow>
        pad_int 4 y @ ''-'' @ pad_int 2 m @ ''-'' @ pad_int 2 d @ ''T'' @ pad_int 2 (secs mod 86400 div 3600)
          @ '':'' @ pad_int 2 (secs mod 3600 div 60) @ '':'' @ pad_int 2 (secs mod 60))"

definition format_time :: "int \<Rightarrow> string" where
  "format_time t = seconds_part (t div 1000000000) @ fraction (nat (t mod 1000000000)) @ ''Z''"

lemma format_time_neq_Nil [simp]: "format_time t \<noteq> []"
  by (simp add: format_time_def)

section \<open>Parsing\<close>

definition dec_digit :: "char \<Rightarrow> int option" where
  "dec_digit c = (case digit_val c of Some d \<Rightarrow> if d < 10 then Some (int d) else None | None \<Rightarrow> None)"

fun fixed_digits :: "nat \<Rightarrow> int \<Rightarrow> string \<Rightarrow> (int \<times> string) option" where
  "fixed_digits 0 acc s = Some (acc, s)"
| "fixed_digits (Suc k) acc [] = None"
| "fixed_digits (Suc k) acc (c # s) =
     (case dec_digit c of None \<Rightarrow> None | Some d \<Rightarrow> fixed_digits k (10 * acc + d) s)"

definition one_or_two :: "string \<Rightarrow> (int \<times> string) option" where
  "one_or_two s = (case fixed_digits 2 0 s of Some r \<Rightarrow> Some r | None \<Rightarrow> fixed_digits 1 0 s)"

definition literal :: "char \<Rightarrow> string \<Rightarrow> string option" where
  "literal c s = (if s \<noteq> [] \<and> hd s = c then Some (tl s) else None)"

text \<open>The fraction of a second, in nanoseconds: at most nine digits count.\<close>

definition nanos :: "string \<Rightarrow> int \<times> string" where
  "nanos s =
     (case s of
        c # r \<Rightarrow>
          (let ds = takeWhile (\<lambda>x. dec_digit x \<noteq> None) r; ds9 = take 9 ds in
           if (c = CHR ''.'' \<or> c = CHR '','') \<and> ds \<noteq> [] then
             ((case fixed_digits (length ds9) 0 ds9 of Some (n, _) \<Rightarrow> n * 10 ^ (9 - length ds9) | None \<Rightarrow> 0),
              drop (length ds) r)
           else (0, s))
      | [] \<Rightarrow> (0, s))"

text \<open>\<open>Z\<close> or an offset, in seconds.\<close>

definition zone :: "string \<Rightarrow> (int \<times> string) option" where
  "zone s =
     (if s \<noteq> [] \<and> hd s = CHR ''Z'' then Some (0, tl s)
      else do {
        (h, r) \<leftarrow> fixed_digits 2 0 (tl s);
        r \<leftarrow> literal CHR '':'' r;
        (m, r) \<leftarrow> fixed_digits 2 0 r;
        if h > 24 \<or> m > 60 then None
        else if s \<noteq> [] \<and> hd s = CHR ''+'' then Some (h * 3600 + m * 60, r)
        else if s \<noteq> [] \<and> hd s = CHR ''-'' then Some (- (h * 3600 + m * 60), r)
        else None })"

definition parse_time :: "string \<Rightarrow> int option" where
  "parse_time s = do {
     (y, s) \<leftarrow> fixed_digits 4 0 s;
     s \<leftarrow> literal CHR ''-'' s;
     (m, s) \<leftarrow> fixed_digits 2 0 s;
     s \<leftarrow> literal CHR ''-'' s;
     (d, s) \<leftarrow> fixed_digits 2 0 s;
     s \<leftarrow> literal CHR ''T'' s;
     (h, s) \<leftarrow> one_or_two s;
     s \<leftarrow> literal CHR '':'' s;
     (mi, s) \<leftarrow> fixed_digits 2 0 s;
     s \<leftarrow> literal CHR '':'' s;
     (se, s) \<leftarrow> fixed_digits 2 0 s;
     let (ns, s) = nanos s;
     (off, s) \<leftarrow> zone s;
     if s = [] \<and> 1 \<le> m \<and> m \<le> 12 \<and> h < 24 \<and> mi < 60 \<and> se < 60 \<and> 1 \<le> d \<and> d \<le> days_in m y
     then Some ((((day_number y m d * 24 + h) * 60 + mi) * 60 + se - off) * 1000000000 + ns)
     else None }"

text \<open>\<open>t.Truncate\<close> to a whole number of seconds that divides a day.\<close>

definition truncate_to :: "int \<Rightarrow> int \<Rightarrow> int" where
  "truncate_to seconds t = t - t mod (seconds * 1000000000)"

section \<open>The order of the texts\<close>

text \<open>
  The texts are compared byte by byte. Two instants of one second whose texts differ only in where
  the fraction ends are compared the wrong way round: \<open>Z\<close> is above every digit and above the dot.
\<close>

lemma less_append_same [simp]: "(p @ s < p @ t) = (s < (t :: string))"
  by (induction p) simp_all

lemma format_time_misordered:
  assumes "t mod 1000000000 = 0" "t < t'" "t' < t + 1000000000"
  shows "format_time t' < format_time t"
proof -
  obtain q where q: "t = q * 1000000000" using assms(1) by (metis add.right_neutral div_mult_mod_eq)
  with assms(2,3) have d: "t' div 1000000000 = q" by linarith
  have m: "t' mod 1000000000 = t' - t" using d q by (simp add: minus_div_mult_eq_mod [symmetric])
  with assms(2) q d show ?thesis
    by (simp add: format_time_def fraction_def)
qed

end
