(* ===== verification/World.thy ===== *)
theory World
  imports Schema GoTime
begin

text \<open>
  What the handlers touch besides their arguments: the database, the identifiers that
  \<open>internal/ids/ids.go\<close> draws, the clock, and the faults of the store. The entropy, the clock and
  the faults are functions of a counter, so a run is determined by the initial \<open>world\<close> and a theorem
  over all worlds covers every sequence of random bytes, of times and of failing statements.
\<close>

section \<open>Time stamps\<close>

definition rfc3339_nano :: "nat \<Rightarrow> string" where
  "rfc3339_nano t = format_time (int t)"

lemma rfc3339_nano_neq_Nil [simp]: "rfc3339_nano t \<noteq> []"
  by (simp add: rfc3339_nano_def)

section \<open>The world\<close>

datatype go_error = SqlError | NoRows | Errorf string

record world =
  w_db :: db
  w_entropy :: "nat \<Rightarrow> string option"
  w_ids :: nat
  w_clock :: "nat \<Rightarrow> nat"
  w_ticks :: nat
  w_fault :: "nat \<Rightarrow> bool"
  w_stmts :: nat

text \<open>\<open>ids.New\<close>: the prefix and twelve hex digits, or the time when no random bytes come.\<close>

definition new_id :: "string \<Rightarrow> world \<Rightarrow> string \<times> world" where
  "new_id p w =
     (case w_entropy w (w_ids w) of
        Some hex \<Rightarrow> (p @ ''-'' @ hex, w\<lparr>w_ids := Suc (w_ids w)\<rparr>)
      | None \<Rightarrow> (p @ ''-'' @ show_nat (w_clock w (w_ticks w)),
                 w\<lparr>w_ids := Suc (w_ids w), w_ticks := Suc (w_ticks w)\<rparr>))"

definition now :: "world \<Rightarrow> string \<times> world" where
  "now w = (rfc3339_nano (w_clock w (w_ticks w)), w\<lparr>w_ticks := Suc (w_ticks w)\<rparr>)"

text \<open>
  \<open>exec f\<close> runs one statement: it fails when the store does or when \<open>f\<close> violates a constraint, and
  then changes nothing. \<open>query f\<close> reads.
\<close>

definition exec :: "(db \<Rightarrow> db option) \<Rightarrow> world \<Rightarrow> bool \<times> world" where
  "exec f w =
     (let w' = w\<lparr>w_stmts := Suc (w_stmts w)\<rparr>
      in if w_fault w (w_stmts w) then (False, w')
         else case f (w_db w) of None \<Rightarrow> (False, w') | Some d \<Rightarrow> (True, w'\<lparr>w_db := d\<rparr>))"

text \<open>A statement whose result is read: \<open>RowsAffected\<close> and the like.\<close>

definition exec_with :: "(db \<Rightarrow> (db \<times> 'a) option) \<Rightarrow> world \<Rightarrow> 'a option \<times> world" where
  "exec_with f w =
     (let w' = w\<lparr>w_stmts := Suc (w_stmts w)\<rparr>
      in if w_fault w (w_stmts w) then (None, w')
         else case f (w_db w) of None \<Rightarrow> (None, w') | Some (d, a) \<Rightarrow> (Some a, w'\<lparr>w_db := d\<rparr>))"

definition exec_total :: "(db \<Rightarrow> db) \<Rightarrow> world \<Rightarrow> bool \<times> world" where
  "exec_total f = exec (\<lambda>d. Some (f d))"

definition exec_ignore :: "(db \<Rightarrow> db option) \<Rightarrow> world \<Rightarrow> world" where
  "exec_ignore f w = snd (exec f w)"

definition exec_total_ignore :: "(db \<Rightarrow> db) \<Rightarrow> world \<Rightarrow> world" where
  "exec_total_ignore f w = snd (exec_total f w)"

definition query :: "(db \<Rightarrow> 'a) \<Rightarrow> world \<Rightarrow> 'a option \<times> world" where
  "query f w =
     (let w' = w\<lparr>w_stmts := Suc (w_stmts w)\<rparr>
      in if w_fault w (w_stmts w) then (None, w') else (Some (f (w_db w)), w'))"

definition no_faults :: "world \<Rightarrow> bool" where
  "no_faults w \<longleftrightarrow> w_fault w = (\<lambda>_. False)"

section \<open>Lemmas\<close>

named_theorems world_simps \<open>statements of a store that does not fail\<close>

lemma exec_no_faults [world_simps]: "no_faults w \<Longrightarrow>
  exec f w = (case f (w_db w) of
      None \<Rightarrow> (False, w\<lparr>w_stmts := Suc (w_stmts w)\<rparr>)
    | Some d \<Rightarrow> (True, w\<lparr>w_stmts := Suc (w_stmts w), w_db := d\<rparr>))"
  by (simp add: exec_def no_faults_def Let_def split: option.split)

lemma exec_with_no_faults [world_simps]: "no_faults w \<Longrightarrow>
  exec_with f w = (case f (w_db w) of
      None \<Rightarrow> (None, w\<lparr>w_stmts := Suc (w_stmts w)\<rparr>)
    | Some (d, a) \<Rightarrow> (Some a, w\<lparr>w_stmts := Suc (w_stmts w), w_db := d\<rparr>))"
  by (simp add: exec_with_def no_faults_def Let_def split: option.split)

lemma exec_total_no_faults [world_simps]: "no_faults w \<Longrightarrow>
  exec_total f w = (True, w\<lparr>w_stmts := Suc (w_stmts w), w_db := f (w_db w)\<rparr>)"
  by (simp add: exec_total_def exec_no_faults)

lemma exec_total_ignore_no_faults [world_simps]: "no_faults w \<Longrightarrow>
  exec_total_ignore f w = w\<lparr>w_stmts := Suc (w_stmts w), w_db := f (w_db w)\<rparr>"
  by (simp add: exec_total_ignore_def exec_total_no_faults)

lemma query_no_faults [world_simps]: "no_faults w \<Longrightarrow>
  query f w = (Some (f (w_db w)), w\<lparr>w_stmts := Suc (w_stmts w)\<rparr>)"
  by (simp add: query_def no_faults_def)

lemma no_faults_update [simp]:
  "no_faults (w\<lparr>w_db := d\<rparr>) = no_faults w" "no_faults (w\<lparr>w_stmts := n\<rparr>) = no_faults w"
  "no_faults (w\<lparr>w_ids := n\<rparr>) = no_faults w" "no_faults (w\<lparr>w_ticks := n\<rparr>) = no_faults w"
  by (simp_all add: no_faults_def)

text \<open>What a statement does to the database, whatever the store does.\<close>

lemma exec_db: "exec f w = (ok, w') \<Longrightarrow>
  (if ok then f (w_db w) = Some (w_db w') else w_db w' = w_db w)"
  by (auto simp: exec_def Let_def split: if_splits option.splits)

lemma exec_total_db: "exec_total f w = (ok, w') \<Longrightarrow>
  w_db w' = (if ok then f (w_db w) else w_db w)"
  by (auto simp: exec_total_def dest: exec_db split: if_splits)

lemma exec_with_db: "exec_with f w = (r, w') \<Longrightarrow>
  (case r of None \<Rightarrow> w_db w' = w_db w | Some a \<Rightarrow> f (w_db w) = Some (w_db w', a))"
  by (auto simp: exec_with_def Let_def split: if_splits option.splits)

lemma exec_ignore_db: "w_db (exec_ignore f w) = w_db w \<or> f (w_db w) = Some (w_db (exec_ignore f w))"
  by (cases "exec f w") (auto simp: exec_ignore_def dest: exec_db split: if_splits)

lemma exec_total_ignore_db:
  "w_db (exec_total_ignore f w) = w_db w \<or> w_db (exec_total_ignore f w) = f (w_db w)"
  by (cases "exec_total f w") (auto simp: exec_total_ignore_def dest: exec_total_db split: if_splits)

lemma query_db: "query f w = (r, w') \<Longrightarrow> w_db w' = w_db w \<and> (r = None \<or> r = Some (f (w_db w)))"
  by (auto simp: query_def Let_def split: if_splits)

lemma new_id_db [simp]: "w_db (snd (new_id p w)) = w_db w"
  by (simp add: new_id_def split: option.split)

lemma now_db [simp]: "w_db (snd (now w)) = w_db w"
  by (simp add: now_def)

text \<open>Identifiers drawn from entropy that does not repeat: \<open>drawn p w i\<close> is the one the counter
\<open>i\<close> gives. The digits contain no dash, so an identifier determines them; that they number twelve
is left open, since no infinite stream of twelve digits is free of repetition.\<close>

definition drawn :: "string \<Rightarrow> world \<Rightarrow> nat \<Rightarrow> string" where
  "drawn p w i = p @ ''-'' @ the (w_entropy w i)"

definition good_entropy :: "world \<Rightarrow> bool" where
  "good_entropy w \<longleftrightarrow>
     (\<forall>i \<ge> w_ids w. \<exists>hex. w_entropy w i = Some hex \<and> CHR ''-'' \<notin> set hex) \<and>
     inj_on (w_entropy w) {w_ids w..}"

lemma new_id_good: "good_entropy w \<Longrightarrow>
  new_id p w = (drawn p w (w_ids w), w\<lparr>w_ids := Suc (w_ids w)\<rparr>)"
  by (auto simp: new_id_def drawn_def good_entropy_def split: option.split)

lemma good_entropy_update [simp]:
  "good_entropy (w\<lparr>w_db := d\<rparr>) = good_entropy w" "good_entropy (w\<lparr>w_stmts := n\<rparr>) = good_entropy w"
  "good_entropy (w\<lparr>w_ticks := n\<rparr>) = good_entropy w"
  by (simp_all add: good_entropy_def)

lemma good_entropy_later: "good_entropy w \<Longrightarrow> w_ids w \<le> n \<Longrightarrow> good_entropy (w\<lparr>w_ids := n\<rparr>)"
  by (auto simp: good_entropy_def inj_on_def)

lemma drawn_update [simp]:
  "drawn p (w\<lparr>w_db := d\<rparr>) = drawn p w" "drawn p (w\<lparr>w_stmts := n\<rparr>) = drawn p w"
  "drawn p (w\<lparr>w_ticks := n\<rparr>) = drawn p w" "drawn p (w\<lparr>w_ids := n\<rparr>) = drawn p w"
  by (auto simp: drawn_def)

lemma dash_suffix:
  assumes "p @ c # s = q @ c # t" "c \<notin> set s" "c \<notin> set t"
  shows "s = t"
proof -
  have "takeWhile (\<lambda>x. x \<noteq> c) (rev (p @ c # s)) = rev s" "takeWhile (\<lambda>x. x \<noteq> c) (rev (q @ c # t)) = rev t"
    using assms(2,3) by (simp_all add: takeWhile_append)
  with assms(1) show ?thesis by (metis rev_is_rev_conv)
qed

lemma drawn_inj:
  assumes "good_entropy w" "w_ids w \<le> i" "w_ids w \<le> j" "drawn p w i = drawn q w j"
  shows "i = j"
proof -
  obtain s t where s: "w_entropy w i = Some s" "CHR ''-'' \<notin> set s"
    and t: "w_entropy w j = Some t" "CHR ''-'' \<notin> set t"
    using assms(1-3) unfolding good_entropy_def by blast
  have "s = t" using assms(4) s t by (intro dash_suffix [of p "CHR ''-''" s q t]) (simp_all add: drawn_def)
  with s t assms(1-3) show ?thesis unfolding good_entropy_def inj_on_def by auto
qed

end
