(* ===== verification/Json.thy ===== *)
theory Json
  imports GoPrelude Complex_Main
begin

text \<open>
  The part of \<open>encoding/json\<close> that the components use: decoding bytes into \<open>any\<close>, struct-field
  lookup, and encoding. A number is the exact rational the text denotes, where Go rounds to
  float64. Bytes above 127 inside strings are copied, as Go does for valid UTF-8.
\<close>

datatype json =
    JNull
  | JBool bool
  | JNum rat
  | JStr string
  | JArr "json list"
  | JObj "(string \<times> json) list"

section \<open>Lookup\<close>

text \<open>
  Decoding keeps the last value of a repeated key (\<open>add_member\<close> below), as a Go map does. A struct
  field also takes a key that differs in letter case, the last one in the text.
\<close>

definition jget :: "string \<Rightarrow> (string \<times> json) list \<Rightarrow> json option" where
  "jget k kvs = map_of kvs k"

definition jfield :: "string \<Rightarrow> (string \<times> json) list \<Rightarrow> json option" where
  "jfield k kvs = map_option snd (find (\<lambda>(k', v). equal_fold k' k) (rev kvs))"

lemma json_obj_size: "jget k kvs = Some v \<Longrightarrow> size v < size (JObj kvs)"
proof -
  assume "jget k kvs = Some v"
  then have "(k, v) \<in> set kvs" by (auto simp: jget_def dest!: map_of_SomeD)
  then have "size v \<le> size_list (size_prod (\<lambda>_. 0) size) kvs"
    by (rule size_list_estimation') simp
  then show ?thesis by simp
qed

lemma json_arr_size: "v \<in> set vs \<Longrightarrow> size v < size (JArr vs)"
  using size_list_estimation' [of v vs "size v" size] by simp

section \<open>Encoding\<close>

definition show_int :: "int \<Rightarrow> string" where
  "show_int i = (if i < 0 then CHR ''-'' # show_nat (nat (- i)) else show_nat (nat i))"

fun decimals :: "nat \<Rightarrow> rat \<Rightarrow> string" where
  "decimals 0 r = []"
| "decimals (Suc n) r =
     (if r = 0 then [] else digit_char (nat \<lfloor>10 * r\<rfloor>) # decimals n (10 * r - of_int \<lfloor>10 * r\<rfloor>))"

definition show_num :: "rat \<Rightarrow> string" where
  "show_num r =
     (let a = \<bar>r\<bar>; whole = \<lfloor>a\<rfloor>; frac = a - of_int whole
      in (if r < 0 then ''-'' else []) @ show_int whole
           @ (if frac = 0 then [] else CHR ''.'' # decimals 17 frac))"

definition escape_char :: "char \<Rightarrow> string" where
  "escape_char c =
     (let n = of_char c :: nat in
      if n = 34 then [CHR 0x5C, CHR 0x22]
      else if n = 92 then [CHR 0x5C, CHR 0x5C]
      else if n = 8 then [CHR 0x5C, CHR ''b'']
      else if n = 12 then [CHR 0x5C, CHR ''f'']
      else if n = 10 then [CHR 0x5C, CHR ''n'']
      else if n = 13 then [CHR 0x5C, CHR ''r'']
      else if n = 9 then [CHR 0x5C, CHR ''t'']
      else if n < 32 \<or> n = 60 \<or> n = 62 \<or> n = 38
        then [CHR 0x5C, CHR ''u'', CHR ''0'', CHR ''0'', digit_char (n div 16), digit_char (n mod 16)]
      else [c])"

definition escape :: "string \<Rightarrow> string" where
  "escape s = concat (map escape_char s)"

definition quote :: "string \<Rightarrow> string" where
  "quote s = CHR 0x22 # escape s @ [CHR 0x22]"

text \<open>Maps are written with their keys sorted.\<close>

definition sort_pairs :: "(string \<times> string) list \<Rightarrow> (string \<times> string) list" where
  "sort_pairs kvs = sort_key fst kvs"

fun marshal :: "json \<Rightarrow> string" where
  "marshal JNull = ''null''"
| "marshal (JBool b) = (if b then ''true'' else ''false'')"
| "marshal (JNum r) = show_num r"
| "marshal (JStr s) = quote s"
| "marshal (JArr vs) = ''['' @ join '','' (map marshal vs) @ '']''"
| "marshal (JObj kvs) =
     CHR 0x7B # join '','' (map (\<lambda>(k, s). quote k @ '':'' @ s)
       (sort_pairs (map (\<lambda>(k, v). (k, marshal v)) kvs))) @ [CHR 0x7D]"

section \<open>Decoding\<close>

definition utf8 :: "nat \<Rightarrow> string" where
  "utf8 n =
     (if n < 128 then [char_of n]
      else if n < 2048 then [char_of (192 + n div 64), char_of (128 + n mod 64)]
      else if n < 65536
        then [char_of (224 + n div 4096), char_of (128 + n div 64 mod 64), char_of (128 + n mod 64)]
      else [char_of (240 + n div 262144), char_of (128 + n div 4096 mod 64),
            char_of (128 + n div 64 mod 64), char_of (128 + n mod 64)])"

definition hex4 :: "char \<Rightarrow> char \<Rightarrow> char \<Rightarrow> char \<Rightarrow> nat option" where
  "hex4 a b c d = parse_base 16 [a, b, c, d]"

definition is_high_surrogate :: "nat \<Rightarrow> bool" where
  "is_high_surrogate n \<longleftrightarrow> 0xD800 \<le> n \<and> n < 0xDC00"

definition is_low_surrogate :: "nat \<Rightarrow> bool" where
  "is_low_surrogate n \<longleftrightarrow> 0xDC00 \<le> n \<and> n < 0xE000"

definition simple_escape :: "char \<Rightarrow> char option" where
  "simple_escape e =
     (if e \<in> {CHR 0x22, CHR 0x5C, CHR ''/''} then Some e
      else if e = CHR ''b'' then Some (CHR 0x08) else if e = CHR ''f'' then Some (CHR 0x0C)
      else if e = CHR ''n'' then Some (CHR 0x0A) else if e = CHR ''r'' then Some (CHR 0x0D)
      else if e = CHR ''t'' then Some (CHR 0x09) else None)"

definition add_str :: "string \<Rightarrow> (string \<times> string) option \<Rightarrow> (string \<times> string) option" where
  "add_str u r = map_option (\<lambda>(t, s). (u @ t, s)) r"

text \<open>\<open>jstring s\<close> reads the rest of a string literal up to its closing quote.\<close>

fun jstring :: "string \<Rightarrow> (string \<times> string) option" where
  "jstring [] = None"
| "jstring (c # s) =
     (if c = CHR 0x22 then Some ([], s)
      else if of_char c < (32 :: nat) then None
      else if c \<noteq> CHR 0x5C then add_str [c] (jstring s)
      else (case s of
          [] \<Rightarrow> None
        | e # s1 \<Rightarrow>
            if e \<noteq> CHR ''u'' then
              (case simple_escape e of None \<Rightarrow> None | Some x \<Rightarrow> add_str [x] (jstring s1))
            else (case s1 of
                h1 # h2 # h3 # h4 # s2 \<Rightarrow>
                  (case hex4 h1 h2 h3 h4 of
                     None \<Rightarrow> None
                   | Some n \<Rightarrow>
                       if is_high_surrogate n then
                         (case s2 of
                            b # u # l1 # l2 # l3 # l4 # s3 \<Rightarrow>
                              (if b = CHR 0x5C \<and> u = CHR ''u'' then
                                 (case hex4 l1 l2 l3 l4 of
                                    Some m \<Rightarrow>
                                      if is_low_surrogate m
                                      then add_str (utf8 (65536 + (n - 0xD800) * 1024 + (m - 0xDC00))) (jstring s3)
                                      else add_str (utf8 0xFFFD) (jstring s2)
                                  | None \<Rightarrow> add_str (utf8 0xFFFD) (jstring s2))
                               else add_str (utf8 0xFFFD) (jstring s2))
                          | _ \<Rightarrow> add_str (utf8 0xFFFD) (jstring s2))
                       else if is_low_surrogate n then add_str (utf8 0xFFFD) (jstring s2)
                       else add_str (utf8 n) (jstring s2))
              | _ \<Rightarrow> None)))"

definition is_digit :: "char \<Rightarrow> bool" where
  "is_digit c \<longleftrightarrow> CHR ''0'' \<le> c \<and> c \<le> CHR ''9''"

definition digits :: "string \<Rightarrow> string \<times> string" where
  "digits s = (takeWhile is_digit s, dropWhile is_digit s)"

definition digits_val :: "string \<Rightarrow> nat" where
  "digits_val s = (case parse_digits 10 0 s of Some n \<Rightarrow> n | None \<Rightarrow> 0)"

definition jexponent :: "rat \<Rightarrow> string \<Rightarrow> (rat \<times> string) option" where
  "jexponent r s =
     (case s of
        e # s1 \<Rightarrow>
          if e = CHR ''e'' \<or> e = CHR ''E'' then
            (let neg = (s1 \<noteq> [] \<and> hd s1 = CHR ''-'');
                 s2 = (if s1 \<noteq> [] \<and> (hd s1 = CHR ''-'' \<or> hd s1 = CHR ''+'') then tl s1 else s1)
             in (case digits s2 of (ds, s3) \<Rightarrow>
                   if ds = [] then None
                   else Some (if neg then r / 10 ^ digits_val ds else r * 10 ^ digits_val ds, s3)))
          else Some (r, s)
      | [] \<Rightarrow> Some (r, s))"

definition jfraction :: "rat \<Rightarrow> string \<Rightarrow> (rat \<times> string) option" where
  "jfraction r s =
     (if s \<noteq> [] \<and> hd s = CHR ''.'' then
        (case digits (tl s) of (ds, s1) \<Rightarrow>
           if ds = [] then None else Some (r + of_nat (digits_val ds) / 10 ^ length ds, s1))
      else Some (r, s))"

definition jnumber :: "string \<Rightarrow> (json \<times> string) option" where
  "jnumber s =
     (let neg = (s \<noteq> [] \<and> hd s = CHR ''-''); s0 = (if neg then tl s else s)
      in (case digits s0 of (ds, s1) \<Rightarrow>
            if ds = [] \<or> (hd ds = CHR ''0'' \<and> length ds > 1) then None
            else (case jfraction (of_nat (digits_val ds)) s1 of
                    None \<Rightarrow> None
                  | Some (r, s2) \<Rightarrow>
                      (case jexponent r s2 of
                         None \<Rightarrow> None | Some (q, s3) \<Rightarrow> Some (JNum (if neg then - q else q), s3)))))"

definition is_jspace :: "char \<Rightarrow> bool" where
  "is_jspace c \<longleftrightarrow> c \<in> {CHR '' '', CHR 0x09, CHR 0x0A, CHR 0x0D}"

definition skip :: "string \<Rightarrow> string" where
  "skip s = dropWhile is_jspace s"

definition jliteral :: "string \<Rightarrow> json \<Rightarrow> string \<Rightarrow> (json \<times> string) option" where
  "jliteral lit v s = (if has_prefix s lit then Some (v, drop (length lit) s) else None)"

definition add_member :: "string \<Rightarrow> json \<Rightarrow> (string \<times> json) list \<Rightarrow> (string \<times> json) list" where
  "add_member k v kvs = (if k \<in> fst ` set kvs then kvs else (k, v) # kvs)"

text \<open>
  The recursion takes fuel; every call that recurses has consumed a character, so the length of the
  input plus one is enough (\<open>decode\<close>).
\<close>

fun jvalue :: "nat \<Rightarrow> string \<Rightarrow> (json \<times> string) option"
  and jelems :: "nat \<Rightarrow> string \<Rightarrow> (json list \<times> string) option"
  and jmembers :: "nat \<Rightarrow> string \<Rightarrow> ((string \<times> json) list \<times> string) option" where
  "jvalue 0 s = None"
| "jvalue (Suc n) s =
     (case skip s of
        [] \<Rightarrow> None
      | c # s1 \<Rightarrow>
          if c = CHR 0x7B then
            (if skip s1 \<noteq> [] \<and> hd (skip s1) = CHR 0x7D then Some (JObj [], tl (skip s1))
             else map_option (\<lambda>(kvs, r). (JObj kvs, r)) (jmembers n s1))
          else if c = CHR ''['' then
            (if skip s1 \<noteq> [] \<and> hd (skip s1) = CHR '']'' then Some (JArr [], tl (skip s1))
             else map_option (\<lambda>(vs, r). (JArr vs, r)) (jelems n s1))
          else if c = CHR 0x22 then map_option (\<lambda>(t, r). (JStr t, r)) (jstring s1)
          else if c = CHR ''t'' then jliteral ''true'' (JBool True) (c # s1)
          else if c = CHR ''f'' then jliteral ''false'' (JBool False) (c # s1)
          else if c = CHR ''n'' then jliteral ''null'' JNull (c # s1)
          else jnumber (c # s1))"
| "jelems 0 s = None"
| "jelems (Suc n) s =
     (case jvalue n s of
        None \<Rightarrow> None
      | Some (v, s1) \<Rightarrow>
          (case skip s1 of
             [] \<Rightarrow> None
           | c # s2 \<Rightarrow>
               if c = CHR '']'' then Some ([v], s2)
               else if c = CHR '','' then map_option (\<lambda>(vs, r). (v # vs, r)) (jelems n s2)
               else None))"
| "jmembers 0 s = None"
| "jmembers (Suc n) s =
     (case skip s of
        [] \<Rightarrow> None
      | c # s1 \<Rightarrow>
          if c \<noteq> CHR 0x22 then None
          else (case jstring s1 of
                  None \<Rightarrow> None
                | Some (k, s2) \<Rightarrow>
                    (case skip s2 of
                       [] \<Rightarrow> None
                     | c2 # s3 \<Rightarrow>
                         if c2 \<noteq> CHR '':'' then None
                         else (case jvalue n s3 of
                                 None \<Rightarrow> None
                               | Some (v, s4) \<Rightarrow>
                                   (case skip s4 of
                                      [] \<Rightarrow> None
                                    | c3 # s5 \<Rightarrow>
                                        if c3 = CHR 0x7D then Some ([(k, v)], s5)
                                        else if c3 = CHR '','' then
                                          map_option (\<lambda>(kvs, r). (add_member k v kvs, r)) (jmembers n s5)
                                        else None)))))"

definition decode :: "string \<Rightarrow> json option" where
  "decode s =
     (case jvalue (2 * length s + 2) s of
        Some (v, rest) \<Rightarrow> if skip rest = [] then Some v else None
      | None \<Rightarrow> None)"

section \<open>Fields of a struct\<close>

text \<open>\<open>None\<close> is Go's \<open>UnmarshalTypeError\<close>; an absent field and \<open>null\<close> leave the zero value.\<close>

definition string_field :: "string \<Rightarrow> (string \<times> json) list \<Rightarrow> string option" where
  "string_field k kvs =
     (case jfield k kvs of
        None \<Rightarrow> Some [] | Some JNull \<Rightarrow> Some [] | Some (JStr s) \<Rightarrow> Some s | Some _ \<Rightarrow> None)"

definition int64_field :: "string \<Rightarrow> (string \<times> json) list \<Rightarrow> int option" where
  "int64_field k kvs =
     (case jfield k kvs of
        None \<Rightarrow> Some 0
      | Some JNull \<Rightarrow> Some 0
      | Some (JNum r) \<Rightarrow> if of_int \<lfloor>r\<rfloor> = r \<and> - (2 ^ 63) \<le> r \<and> r < 2 ^ 63 then Some \<lfloor>r\<rfloor> else None
      | Some _ \<Rightarrow> None)"

definition bool_field :: "string \<Rightarrow> (string \<times> json) list \<Rightarrow> bool option" where
  "bool_field k kvs =
     (case jfield k kvs of
        None \<Rightarrow> Some False | Some JNull \<Rightarrow> Some False | Some (JBool b) \<Rightarrow> Some b | Some _ \<Rightarrow> None)"

definition string_items :: "json list \<Rightarrow> string list option" where
  "string_items vs =
     those (map (\<lambda>v. case v of JStr s \<Rightarrow> Some s | JNull \<Rightarrow> Some [] | _ \<Rightarrow> None) vs)"

text \<open>The normal form that \<open>normalizedJSON\<close> compares.\<close>

fun normal_json :: "json \<Rightarrow> json" where
  "normal_json (JArr vs) = JArr (map normal_json vs)"
| "normal_json (JObj kvs) = JObj (sort_key fst (map (\<lambda>(k, v). (k, normal_json v)) kvs))"
| "normal_json v = v"

text \<open>What \<open>simp\<close> needs to run the decoder on a literal.\<close>

lemmas json_eval = decode_def skip_def is_jspace_def add_str_def add_member_def jliteral_def jnumber_def
  jfraction_def jexponent_def digits_def is_digit_def digits_val_def digit_val_def numeral_eq_Suc
  has_prefix_def simple_escape_def hex4_def jget_def jfield_def equal_fold_def to_lower_def ascii_lower_def

end
