(* ===== verification/Signals.thy ===== *)
theory Signals
  imports World Json
begin

text \<open>
  \<open>internal/signals\<close>: the unified signal table. A Go \<open>Signal\<close> is a \<open>signal_row\<close>. \<open>record_signal\<close> is
  \<open>record\<close> of \<open>signals.go\<close>, the projections and \<open>backfill\<close> are those of \<open>project.go\<close>, and
  \<open>validate_signal\<close>, \<open>validate_set\<close> the contract checks of \<open>conformance.go\<close>. The lemmas show that
  a source row is projected at most once, that \<open>Backfill\<close> is complete and idempotent, and where
  \<open>ValidateSet\<close> falls short of the consistency it describes.
\<close>

section \<open>The model\<close>

definition valid_dimension :: "string \<Rightarrow> bool" where
  "valid_dimension d \<longleftrightarrow> d \<in> {''behavior'', ''cost'', ''quality'', ''security''}"

datatype signal_error =
    InvalidDimension string
  | EmptyType
  | HalfSource string string
  | RecordFailed
  | ReadFailed string
  | ScanNull string
  | ConfidenceRange rat
  | MissingGraphRef string string
  | EvidenceNotArray
  | PayloadNotObject
  | SchemaMismatch string
  | CountMismatch nat nat
  | RunMismatch nat
  | CountsMismatch string nat

text \<open>The insert of \<open>record\<close>; \<open>True\<close> when a row was added.\<close>

definition insert_signal :: "signal_row \<Rightarrow> db \<Rightarrow> (db \<times> bool) option" where
  "insert_signal s d =
     (if si_source_table s \<noteq> [] \<and>
         list_ex (\<lambda>r. si_source_table r = si_source_table s \<and> si_source_id r = si_source_id s) (db_signals d)
      then Some (d, False)
      else map_option (\<lambda>d'. (d', True)) (tbl_insert db_signals db_signals_update si_id s d))"

text \<open>The defaults \<open>record\<close> fills in: the id, the confidence and the JSON columns, the time.\<close>

definition default_id :: "signal_row \<Rightarrow> world \<Rightarrow> signal_row \<times> world" where
  "default_id s w =
     (if si_id s = [] then (case new_id ''sig'' w of (i, w) \<Rightarrow> (s\<lparr>si_id := i\<rparr>, w)) else (s, w))"

definition default_fields :: "signal_row \<Rightarrow> signal_row" where
  "default_fields s = s\<lparr>
     si_confidence := (if si_confidence s \<le> 0 then 1 else si_confidence s),
     si_evidence_refs := (if si_evidence_refs s = [] then ''[]'' else si_evidence_refs s),
     si_payload := (if si_payload s = [] then [CHR 0x7B, CHR 0x7D] else si_payload s)\<rparr>"

definition default_time :: "signal_row \<Rightarrow> world \<Rightarrow> signal_row \<times> world" where
  "default_time s w =
     (if si_created_at s = [] then (case now w of (t, w) \<Rightarrow> (s\<lparr>si_created_at := t\<rparr>, w)) else (s, w))"

definition record_signal :: "signal_row \<Rightarrow> world \<Rightarrow> (signal_error + string \<times> bool) \<times> world" where
  "record_signal s w =
     (if \<not> valid_dimension (si_dimension s) then (Inl (InvalidDimension (si_dimension s)), w)
      else if trim_space (si_signal_type s) = [] then (Inl EmptyType, w)
      else if (si_source_table s = []) \<noteq> (si_source_id s = [])
        then (Inl (HalfSource (si_source_table s) (si_source_id s)), w)
      else
        let (s, w) = default_id s w;
            (s, w) = default_time (default_fields s) w
        in (case exec_with (insert_signal s) w of
              (None, w) \<Rightarrow> (Inl RecordFailed, w)
            | (Some inserted, w) \<Rightarrow> (Inr (si_id s, inserted), w)))"

definition blank_signal :: signal_row where
  "blank_signal = \<lparr>si_id = [], si_dimension = [], si_signal_type = [], si_graph_ref_kind = [],
     si_graph_ref_id = [], si_run_id = [], si_session_id = [], si_tool_call_id = [], si_process_id = [],
     si_event_id = [], si_object_ref = [], si_severity = [], si_label = [], si_value = 0,
     si_reference = [], si_confidence = 0, si_recommended_action = [], si_produced_by = [],
     si_evidence_refs = [], si_payload = [], si_source_table = [], si_source_id = [],
     si_created_at = []\<rparr>"

definition graph_kind :: "string \<Rightarrow> string \<Rightarrow> string" where
  "graph_kind process tool_call =
     (if process \<noteq> [] then ''process'' else if tool_call \<noteq> [] then ''tool_call'' else ''run'')"

definition graph_id :: "string \<Rightarrow> string \<Rightarrow> string \<Rightarrow> string" where
  "graph_id process tool_call run =
     (if process \<noteq> [] then process else if tool_call \<noteq> [] then tool_call else run)"

definition risk_to_signal :: "risk_signal \<Rightarrow> signal_row" where
  "risk_to_signal r = blank_signal\<lparr>si_dimension := ''security'', si_signal_type := rk_signal_type r,
     si_graph_ref_kind := graph_kind (rk_process_id r) (rk_tool_call_id r),
     si_graph_ref_id := graph_id (rk_process_id r) (rk_tool_call_id r) (rk_run_id r),
     si_run_id := rk_run_id r, si_session_id := rk_session_id r, si_tool_call_id := rk_tool_call_id r,
     si_process_id := rk_process_id r, si_event_id := rk_event_id r, si_severity := rk_severity r,
     si_reference := rk_reason r, si_recommended_action := rk_recommended_action r,
     si_produced_by := ''security.policy'', si_payload := rk_payload r, si_created_at := rk_created_at r,
     si_source_table := ''risk_signals'', si_source_id := rk_id r\<rparr>"

definition deviation_to_signal :: "baseline_deviation \<Rightarrow> signal_row" where
  "deviation_to_signal b = blank_signal\<lparr>si_dimension := ''security'',
     si_signal_type := ''baseline_deviation:'' @ bd_deviation_type b,
     si_graph_ref_kind := ''run'', si_graph_ref_id := bd_run_id b, si_run_id := bd_run_id b,
     si_severity := bd_status b, si_value := bd_observed_value b,
     si_reference := ''expected='' @ show_num (bd_expected_value b),
     si_recommended_action := bd_recommended_action b, si_produced_by := ''baseline'',
     si_payload := bd_payload b, si_created_at := bd_created_at b,
     si_source_table := ''baseline_deviations'', si_source_id := bd_id b\<rparr>"

definition cost_to_signal :: "cost_sample \<Rightarrow> signal_row option" where
  "cost_to_signal c =
     (case cs_session_id c of
        None \<Rightarrow> None
      | Some session \<Rightarrow> Some (blank_signal\<lparr>si_dimension := ''cost'', si_signal_type := ''resource_sample'',
          si_graph_ref_kind := (if session \<noteq> [] then ''session'' else ''run''),
          si_graph_ref_id := (if session \<noteq> [] then session else cs_run_id c),
          si_run_id := cs_run_id c, si_session_id := session, si_value := cs_active_cpu_seconds c,
          si_reference := ''active_cpu_seconds'', si_produced_by := ''cost'', si_created_at := cs_created_at c,
          si_source_table := ''cost_samples'', si_source_id := cs_id c\<rparr>))"

fun record_all :: "signal_row list \<Rightarrow> nat \<Rightarrow> world \<Rightarrow> (nat \<times> signal_error option) \<times> world" where
  "record_all [] n w = ((n, None), w)"
| "record_all (s # ss) n w =
     (case record_signal s w of
        (Inl e, w) \<Rightarrow> ((n, Some e), w)
      | (Inr (i, inserted), w) \<Rightarrow> record_all ss (if inserted then Suc n else n) w)"

definition project_with ::
  "string \<Rightarrow> (db \<Rightarrow> signal_row option list) \<Rightarrow> world \<Rightarrow> (nat \<times> signal_error option) \<times> world" where
  "project_with name read w =
     (case query read w of
        (None, w) \<Rightarrow> ((0, Some (ReadFailed name)), w)
      | (Some rows, w) \<Rightarrow>
          if None \<in> set rows then ((0, Some (ScanNull name)), w)
          else record_all (map the rows) 0 w)"

definition project_risk_signals :: "world \<Rightarrow> (nat \<times> signal_error option) \<times> world" where
  "project_risk_signals = project_with ''risk_signals'' (\<lambda>d. map (\<lambda>r. Some (risk_to_signal r)) (db_risk_signals d))"

definition project_baseline_deviations :: "world \<Rightarrow> (nat \<times> signal_error option) \<times> world" where
  "project_baseline_deviations = project_with ''baseline_deviations''
     (\<lambda>d. map (\<lambda>b. Some (deviation_to_signal b)) (db_baseline_deviations d))"

definition project_cost_samples :: "world \<Rightarrow> (nat \<times> signal_error option) \<times> world" where
  "project_cost_samples = project_with ''cost_samples'' (\<lambda>d. map cost_to_signal (db_cost_samples d))"

fun run_projections ::
  "(world \<Rightarrow> (nat \<times> signal_error option) \<times> world) list \<Rightarrow> nat \<Rightarrow> world \<Rightarrow> (nat \<times> signal_error option) \<times> world" where
  "run_projections [] acc w = ((acc, None), w)"
| "run_projections (p # ps) acc w =
     (case p w of
        ((n, Some e), w) \<Rightarrow> ((acc, Some e), w)
      | ((n, None), w) \<Rightarrow> run_projections ps (acc + n) w)"

definition backfill :: "world \<Rightarrow> (nat \<times> signal_error option) \<times> world" where
  "backfill w =
     run_projections [project_risk_signals, project_baseline_deviations, project_cost_samples] 0 w"

text \<open>\<open>Query\<close>, \<open>Counts\<close> and \<open>Export\<close>.\<close>

record signal_filter =
  sq_run :: string
  sq_dimension :: string
  sq_kind :: string
  sq_ref :: string
  sq_process :: string

definition filter_matches :: "signal_filter \<Rightarrow> signal_row \<Rightarrow> bool" where
  "filter_matches f s \<longleftrightarrow>
     (sq_run f = [] \<or> si_run_id s = sq_run f) \<and> (sq_dimension f = [] \<or> si_dimension s = sq_dimension f) \<and>
     (sq_kind f = [] \<or> si_graph_ref_kind s = sq_kind f) \<and> (sq_ref f = [] \<or> si_graph_ref_id s = sq_ref f) \<and>
     (sq_process f = [] \<or> si_process_id s = sq_process f)"

definition query_signals :: "signal_filter \<Rightarrow> db \<Rightarrow> signal_row list" where
  "query_signals f d =
     rev (sort_key si_created_at (sort_key si_id (filter (filter_matches f) (db_signals d))))"

definition tally :: "signal_row list \<Rightarrow> string \<Rightarrow> nat" where
  "tally ss dname = length (filter (\<lambda>s. si_dimension s = dname) ss)"

definition counts_of :: "signal_row list \<Rightarrow> (string \<times> nat) list" where
  "counts_of ss = map (\<lambda>dname. (dname, tally ss dname)) (remdups (map si_dimension ss))"

record signal_set =
  ss_schema :: string
  ss_run :: string
  ss_count :: nat
  ss_counts :: "(string \<times> nat) list"
  ss_signals :: "signal_row list"

definition schema_version :: string where
  "schema_version = ''agentprovenance.signals/v1''"

definition export_signals :: "string \<Rightarrow> db \<Rightarrow> signal_set" where
  "export_signals run d =
     (let ss = query_signals \<lparr>sq_run = run, sq_dimension = [], sq_kind = [], sq_ref = [], sq_process = []\<rparr> d
      in \<lparr>ss_schema = schema_version, ss_run = run, ss_count = length ss, ss_counts = counts_of ss,
          ss_signals = ss\<rparr>)"

definition is_string_array :: "json \<Rightarrow> bool" where
  "is_string_array v =
     (case v of JNull \<Rightarrow> True
      | JArr vs \<Rightarrow> list_all (\<lambda>x. case x of JStr _ \<Rightarrow> True | JNull \<Rightarrow> True | _ \<Rightarrow> False) vs | _ \<Rightarrow> False)"

definition is_object :: "json \<Rightarrow> bool" where
  "is_object v = (case v of JNull \<Rightarrow> True | JObj _ \<Rightarrow> True | _ \<Rightarrow> False)"

definition validate_signal :: "signal_row \<Rightarrow> signal_error option" where
  "validate_signal s =
     (if \<not> valid_dimension (si_dimension s) then Some (InvalidDimension (si_dimension s))
      else if trim_space (si_signal_type s) = [] then Some EmptyType
      else if si_confidence s < 0 \<or> si_confidence s > 1 then Some (ConfidenceRange (si_confidence s))
      else if si_graph_ref_kind s = [] \<or> si_graph_ref_id s = []
        then Some (MissingGraphRef (si_graph_ref_kind s) (si_graph_ref_id s))
      else if (si_source_table s = []) \<noteq> (si_source_id s = [])
        then Some (HalfSource (si_source_table s) (si_source_id s))
      else if si_evidence_refs s \<noteq> [] \<and>
          (case decode (si_evidence_refs s) of None \<Rightarrow> True | Some v \<Rightarrow> \<not> is_string_array v)
        then Some EvidenceNotArray
      else if si_payload s \<noteq> [] \<and>
          (case decode (si_payload s) of None \<Rightarrow> True | Some v \<Rightarrow> \<not> is_object v)
        then Some PayloadNotObject
      else None)"

fun validate_signals :: "string \<Rightarrow> nat \<Rightarrow> signal_row list \<Rightarrow> signal_error option" where
  "validate_signals run i [] = None"
| "validate_signals run i (s # ss) =
     (case validate_signal s of
        Some e \<Rightarrow> Some e
      | None \<Rightarrow> if si_run_id s \<noteq> [] \<and> run \<noteq> [] \<and> si_run_id s \<noteq> run then Some (RunMismatch i)
                else validate_signals run (Suc i) ss)"

definition validate_set :: "signal_set \<Rightarrow> signal_error option" where
  "validate_set sset =
     (if ss_schema sset \<noteq> schema_version then Some (SchemaMismatch (ss_schema sset))
      else if ss_count sset \<noteq> length (ss_signals sset)
        then Some (CountMismatch (ss_count sset) (length (ss_signals sset)))
      else case validate_signals (ss_run sset) 0 (ss_signals sset) of
          Some e \<Rightarrow> Some e
        | None \<Rightarrow>
            (case find (\<lambda>(dname, n). tally (ss_signals sset) dname \<noteq> n) (ss_counts sset) of
               Some (dname, n) \<Rightarrow> Some (CountsMismatch dname n) | None \<Rightarrow> None))"

section \<open>Lemmas\<close>

definition source_of :: "signal_row \<Rightarrow> string \<times> string" where
  "source_of s = (si_source_table s, si_source_id s)"

definition unique_sources :: "db \<Rightarrow> bool" where
  "unique_sources d \<longleftrightarrow>
     distinct (map source_of (filter (\<lambda>s. si_source_table s \<noteq> []) (db_signals d)))"

definition recordable :: "signal_row \<Rightarrow> bool" where
  "recordable s \<longleftrightarrow> valid_dimension (si_dimension s) \<and> trim_space (si_signal_type s) \<noteq> [] \<and>
     (si_source_table s = [] \<longleftrightarrow> si_source_id s = [])"

definition signals_only :: "db \<Rightarrow> db \<Rightarrow> bool" where
  "signals_only d d' \<longleftrightarrow> d' = d\<lparr>db_signals := db_signals d'\<rparr>"

lemma signals_only_refl [simp]: "signals_only d d"
  by (simp add: signals_only_def)

lemma signals_only_trans: "signals_only a b \<Longrightarrow> signals_only b c \<Longrightarrow> signals_only a c"
  unfolding signals_only_def by (metis db.surjective db.update_convs(27))

lemma signals_only_tables: "signals_only d d' \<Longrightarrow> db_risk_signals d' = db_risk_signals d \<and>
    db_baseline_deviations d' = db_baseline_deviations d \<and> db_cost_samples d' = db_cost_samples d"
  unfolding signals_only_def by (metis db.select_convs(20,21,23) db.surjective db.update_convs(27))

lemma insert_signal_cases:
  assumes "insert_signal s d = Some (d', ins)"
  shows "if ins then db_signals d' = db_signals d @ [s] \<and> signals_only d d' \<and>
           (si_source_table s \<noteq> [] \<longrightarrow> source_of s \<notin> source_of ` set (db_signals d))
         else d' = d \<and> si_source_table s \<noteq> [] \<and> source_of s \<in> source_of ` set (db_signals d)"
proof (cases "si_source_table s \<noteq> [] \<and>
    list_ex (\<lambda>r. si_source_table r = si_source_table s \<and> si_source_id r = si_source_id s) (db_signals d)")
  case True
  then obtain r where r: "r \<in> set (db_signals d)" "source_of s = source_of r"
    by (auto simp: list_ex_iff source_of_def)
  have "d' = d" "\<not> ins" using True assms by (auto simp: insert_signal_def)
  with True r show ?thesis by (simp add: image_iff) blast
next
  case False
  then have "ins" "tbl_insert db_signals db_signals_update si_id s d = Some d'"
    using assms unfolding insert_signal_def by auto
  moreover from this have "d' = d\<lparr>db_signals := db_signals d @ [s]\<rparr>"
    by (auto simp: tbl_insert_def split: if_splits)
  ultimately show ?thesis using False
    by (auto simp: signals_only_def source_of_def list_ex_iff)
qed

lemma new_id_no_faults [simp]: "no_faults (snd (new_id p w)) = no_faults w"
  by (simp add: new_id_def split: option.split)

lemma now_no_faults [simp]: "no_faults (snd (now w)) = no_faults w"
  by (simp add: now_def)

lemma default_id_spec:
  assumes "default_id s w = (s', w')"
  shows "source_of s' = source_of s \<and> w_db w' = w_db w \<and> no_faults w' = no_faults w"
proof -
  have "s' = fst (default_id s w)" "w' = snd (default_id s w)" using assms by simp_all
  then show ?thesis by (simp add: default_id_def source_of_def case_prod_unfold)
qed

lemma default_time_spec:
  assumes "default_time s w = (s', w')"
  shows "source_of s' = source_of s \<and> w_db w' = w_db w \<and> no_faults w' = no_faults w"
proof -
  have "s' = fst (default_time s w)" "w' = snd (default_time s w)" using assms by simp_all
  then show ?thesis by (simp add: default_time_def source_of_def case_prod_unfold)
qed

lemma default_fields_source [simp]: "source_of (default_fields s) = source_of s"
  by (simp add: default_fields_def source_of_def)

lemma record_signal_eq:
  assumes "recordable s"
  obtains s' w1 where "source_of s' = source_of s" "w_db w1 = w_db w" "no_faults w1 = no_faults w"
    "record_signal s w = (case exec_with (insert_signal s') w1 of
           (None, w) \<Rightarrow> (Inl RecordFailed, w)
         | (Some inserted, w) \<Rightarrow> (Inr (si_id s', inserted), w))"
proof -
  obtain s1 w1 where 1: "default_id s w = (s1, w1)" by (cases "default_id s w")
  obtain s2 w2 where 2: "default_time (default_fields s1) w1 = (s2, w2)"
    by (cases "default_time (default_fields s1) w1")
  show ?thesis
  proof (rule that)
    show "source_of s2 = source_of s" "w_db w2 = w_db w" "no_faults w2 = no_faults w"
      using default_id_spec [OF 1] default_time_spec [OF 2] by simp_all
  qed (use assms 1 2 in \<open>simp add: record_signal_def recordable_def\<close>)
qed

lemma record_signal_cases:
  assumes "record_signal s w = (r, w')"
  shows "case r of Inl e \<Rightarrow> w_db w' = w_db w
    | Inr (i, ins) \<Rightarrow> recordable s \<and>
        (\<exists>s'. source_of s' = source_of s \<and> insert_signal s' (w_db w) = Some (w_db w', ins))"
proof (cases "recordable s")
  case False
  with assms show ?thesis
    by (auto simp: record_signal_def recordable_def split: if_splits)
next
  case True
  then obtain s' w1 where s': "source_of s' = source_of s" "w_db w1 = w_db w"
    "record_signal s w = (case exec_with (insert_signal s') w1 of
           (None, w) \<Rightarrow> (Inl RecordFailed, w)
         | (Some inserted, w) \<Rightarrow> (Inr (si_id s', inserted), w))"
    by (rule record_signal_eq)
  obtain q w2 where q: "exec_with (insert_signal s') w1 = (q, w2)" by (cases "exec_with (insert_signal s') w1")
  with assms s'(3) have "w2 = w'" "r = (case q of None \<Rightarrow> Inl RecordFailed | Some ins \<Rightarrow> Inr (si_id s', ins))"
    by (auto split: option.splits)
  with exec_with_db [OF q] True s'(1,2) show ?thesis by (auto split: option.splits)
qed

lemma record_signal_step:
  assumes "record_signal s w = (r, w')"
  shows "signals_only (w_db w) (w_db w')"
    and "source_of ` set (db_signals (w_db w)) \<subseteq> source_of ` set (db_signals (w_db w'))"
    and "unique_sources (w_db w) \<Longrightarrow> unique_sources (w_db w')"
    and "r = Inr x \<Longrightarrow> recordable s \<and>
           (si_source_table s \<noteq> [] \<longrightarrow> source_of s \<in> source_of ` set (db_signals (w_db w')))"
proof -
  have "signals_only (w_db w) (w_db w') \<and>
      source_of ` set (db_signals (w_db w)) \<subseteq> source_of ` set (db_signals (w_db w')) \<and>
      (unique_sources (w_db w) \<longrightarrow> unique_sources (w_db w')) \<and>
      (\<forall>x. r = Inr x \<longrightarrow> recordable s \<and>
         (si_source_table s \<noteq> [] \<longrightarrow> source_of s \<in> source_of ` set (db_signals (w_db w'))))"
  proof (cases r)
    case (Inl e)
    with record_signal_cases [OF assms] show ?thesis by simp
  next
    case (Inr y)
    obtain i ins where "y = (i, ins)" by (cases y)
    with Inr record_signal_cases [OF assms] obtain s' where s': "recordable s" "source_of s' = source_of s"
        "insert_signal s' (w_db w) = Some (w_db w', ins)" by auto
    have t: "si_source_table s' = si_source_table s" using s'(2) by (simp add: source_of_def)
    from insert_signal_cases [OF s'(3)] s'(1,2) t show ?thesis
      by (cases ins) (auto simp: unique_sources_def)
  qed
  then show "signals_only (w_db w) (w_db w')"
    and "source_of ` set (db_signals (w_db w)) \<subseteq> source_of ` set (db_signals (w_db w'))"
    and "unique_sources (w_db w) \<Longrightarrow> unique_sources (w_db w')"
    and "r = Inr x \<Longrightarrow> recordable s \<and>
           (si_source_table s \<noteq> [] \<longrightarrow> source_of s \<in> source_of ` set (db_signals (w_db w')))"
    by blast+
qed

lemma record_all_step:
  "record_all ss n w = ((m, e), w') \<Longrightarrow> signals_only (w_db w) (w_db w') \<and>
     source_of ` set (db_signals (w_db w)) \<subseteq> source_of ` set (db_signals (w_db w')) \<and>
     (unique_sources (w_db w) \<longrightarrow> unique_sources (w_db w')) \<and>
     (e = None \<longrightarrow> (\<forall>s \<in> set ss. recordable s \<and>
        (si_source_table s \<noteq> [] \<longrightarrow> source_of s \<in> source_of ` set (db_signals (w_db w')))))"
proof (induction ss arbitrary: n w)
  case (Cons s ss)
  obtain r w1 where r: "record_signal s w = (r, w1)" by (cases "record_signal s w")
  note step = record_signal_step [OF r]
  show ?case
  proof (cases r)
    case (Inl f)
    with Cons.prems r step show ?thesis by auto
  next
    case (Inr y)
    obtain i ins where y: "y = (i, ins)" by (cases y)
    with Cons.prems r Inr have "record_all ss (if ins then Suc n else n) w1 = ((m, e), w')" by simp
    note IH = Cons.IH [OF this]
    show ?thesis using IH step(1-3) step(4) [OF Inr] by (auto intro: signals_only_trans)
  qed
qed simp

text \<open>A signal whose source is already recorded is left alone.\<close>

definition settled :: "db \<Rightarrow> signal_row \<Rightarrow> bool" where
  "settled d s \<longleftrightarrow> recordable s \<and> si_source_table s \<noteq> [] \<and> source_of s \<in> source_of ` set (db_signals d)"

lemma insert_signal_settled:
  "si_source_table s \<noteq> [] \<Longrightarrow> source_of s \<in> source_of ` set (db_signals d) \<Longrightarrow>
     insert_signal s d = Some (d, False)"
  by (auto simp: insert_signal_def source_of_def list_ex_iff)

lemma record_signal_settled:
  assumes "no_faults w" "settled (w_db w) s"
  obtains i w' where "record_signal s w = (Inr (i, False), w')" "w_db w' = w_db w" "no_faults w'"
proof -
  from assms(2) have "recordable s" by (simp add: settled_def)
  then obtain s' w1 where s': "source_of s' = source_of s" "w_db w1 = w_db w" "no_faults w1 = no_faults w"
    "record_signal s w = (case exec_with (insert_signal s') w1 of
           (None, w) \<Rightarrow> (Inl RecordFailed, w)
         | (Some inserted, w) \<Rightarrow> (Inr (si_id s', inserted), w))"
    by (rule record_signal_eq)
  have "insert_signal s' (w_db w1) = Some (w_db w1, False)"
    using assms(2) s'(1,2) by (intro insert_signal_settled) (auto simp: settled_def source_of_def)
  then have "exec_with (insert_signal s') w1 = (Some False, w1\<lparr>w_stmts := Suc (w_stmts w1), w_db := w_db w1\<rparr>)"
    using s'(3) assms(1) by (simp add: exec_with_no_faults)
  with s' assms(1) show ?thesis
    by (intro that [of "si_id s'" "w1\<lparr>w_stmts := Suc (w_stmts w1), w_db := w_db w1\<rparr>"]) auto
qed

lemma record_all_settled:
  "no_faults w \<Longrightarrow> \<forall>s \<in> set ss. settled (w_db w) s \<Longrightarrow>
     \<exists>w'. record_all ss n w = ((n, None), w') \<and> w_db w' = w_db w \<and> no_faults w'"
proof (induction ss arbitrary: w)
  case (Cons s ss)
  then have "settled (w_db w) s" by simp
  then obtain i w1 where w1: "record_signal s w = (Inr (i, False), w1)" "w_db w1 = w_db w" "no_faults w1"
    using record_signal_settled [OF Cons.prems(1)] by metis
  then have "\<exists>w'. record_all ss n w1 = ((n, None), w') \<and> w_db w' = w_db w1 \<and> no_faults w'"
    using Cons.prems by (intro Cons.IH) simp_all
  with w1 show ?case by simp
qed simp

text \<open>The three projections, and what they leave behind.\<close>

lemma run_projections_three:
  "run_projections [p, q, r] 0 w = ((n, None), w') \<longleftrightarrow>
     (\<exists>a b c w1 w2. p w = ((a, None), w1) \<and> q w1 = ((b, None), w2) \<and> r w2 = ((c, None), w') \<and> n = a + b + c)"
proof -
  obtain a e1 w1 where 1: "p w = ((a, e1), w1)" by (metis surj_pair)
  obtain b e2 w2 where 2: "q w1 = ((b, e2), w2)" by (metis surj_pair)
  obtain c e3 w3 where 3: "r w2 = ((c, e3), w3)" by (metis surj_pair)
  show ?thesis by (cases e1; cases e2; cases e3) (auto simp: 1 2 3)
qed

lemma project_with_step:
  assumes "project_with name read w = ((m, None), w')"
  shows "signals_only (w_db w) (w_db w')"
    and "source_of ` set (db_signals (w_db w)) \<subseteq> source_of ` set (db_signals (w_db w'))"
    and "None \<notin> set (read (w_db w))"
    and "s \<in> set (map the (read (w_db w))) \<Longrightarrow> si_source_table s \<noteq> [] \<Longrightarrow> settled (w_db w') s"
proof -
  obtain q w1 where q: "query read w = (q, w1)" by (cases "query read w")
  with assms obtain rows where rows: "q = Some rows" "None \<notin> set rows"
      "record_all (map the rows) 0 w1 = ((m, None), w')"
    by (auto simp: project_with_def split: option.splits if_splits)
  with query_db [OF q] have db: "w_db w1 = w_db w" "rows = read (w_db w)" by auto
  note record_all_step [OF rows(3)]
  then show "signals_only (w_db w) (w_db w')"
    "source_of ` set (db_signals (w_db w)) \<subseteq> source_of ` set (db_signals (w_db w'))"
    "None \<notin> set (read (w_db w))"
    "s \<in> set (map the (read (w_db w))) \<Longrightarrow> si_source_table s \<noteq> [] \<Longrightarrow> settled (w_db w') s"
    using db rows(2) by (auto simp: settled_def)
qed

lemma project_with_settled:
  assumes "no_faults w" "None \<notin> set (read (w_db w))" "\<forall>s \<in> set (map the (read (w_db w))). settled (w_db w) s"
  shows "\<exists>w'. project_with name read w = ((0, None), w') \<and> w_db w' = w_db w \<and> no_faults w'"
proof -
  have "\<exists>w'. record_all (map the (read (w_db w))) 0 (w\<lparr>w_stmts := Suc (w_stmts w)\<rparr>) = ((0, None), w')
      \<and> w_db w' = w_db w \<and> no_faults w'"
    using record_all_settled [of "w\<lparr>w_stmts := Suc (w_stmts w)\<rparr>" "map the (read (w_db w))" 0] assms by simp
  with assms show ?thesis by (auto simp: project_with_def query_no_faults)
qed

lemma project_with_unique:
  "project_with name read w = (r, w') \<Longrightarrow> unique_sources (w_db w) \<Longrightarrow> unique_sources (w_db w')"
proof -
  assume *: "project_with name read w = (r, w')" "unique_sources (w_db w)"
  obtain q w1 where q: "query read w = (q, w1)" by (cases "query read w")
  have db: "w_db w1 = w_db w" using query_db [OF q] by simp
  show ?thesis
  proof (cases "q = None \<or> None \<in> set (the q)")
    case True
    with * q db show ?thesis by (cases q) (auto simp: project_with_def)
  next
    case False
    with * q have "record_all (map the (the q)) 0 w1 = (r, w')" by (cases q) (auto simp: project_with_def)
    then have "\<exists>m e. record_all (map the (the q)) 0 w1 = ((m, e), w')" by (cases r) auto
    then show ?thesis using record_all_step *(2) db by metis
  qed
qed

lemmas project_defs =
  project_risk_signals_def project_baseline_deviations_def project_cost_samples_def

lemma run_projections_unique:
  "run_projections ps n w = (r, w') \<Longrightarrow> unique_sources (w_db w) \<Longrightarrow>
     (\<And>p v r v'. p \<in> set ps \<Longrightarrow> p v = (r, v') \<Longrightarrow> unique_sources (w_db v) \<Longrightarrow> unique_sources (w_db v')) \<Longrightarrow>
     unique_sources (w_db w')"
proof (induction ps arbitrary: n w)
  case (Cons p ps)
  obtain a e w1 where p: "p w = ((a, e), w1)" by (metis surj_pair)
  have "unique_sources (w_db w1)" using Cons.prems(2,3) p by (meson list.set_intros(1))
  then show ?case using Cons.prems(1,3) p Cons.IH
    by (cases e) (fastforce split: prod.splits)+
qed simp

text \<open>Every row of the three silos has its signal.\<close>

definition projected :: "db \<Rightarrow> bool" where
  "projected d \<longleftrightarrow>
     (\<forall>r \<in> set (db_risk_signals d). settled d (risk_to_signal r)) \<and>
     (\<forall>b \<in> set (db_baseline_deviations d). settled d (deviation_to_signal b)) \<and>
     (\<forall>c \<in> set (db_cost_samples d). \<exists>s. cost_to_signal c = Some s \<and> settled d s)"

lemma settled_mono:
  "settled d s \<Longrightarrow> source_of ` set (db_signals d) \<subseteq> source_of ` set (db_signals d') \<Longrightarrow> settled d' s"
  by (auto simp: settled_def)

lemma backfill_projected:
  assumes "backfill w = ((n, None), w')"
  shows "projected (w_db w') \<and> signals_only (w_db w) (w_db w')"
proof -
  from assms obtain a b c w1 w2 where
    1: "project_with ''risk_signals'' (\<lambda>d. map (\<lambda>r. Some (risk_to_signal r)) (db_risk_signals d)) w = ((a, None), w1)" and
    2: "project_with ''baseline_deviations'' (\<lambda>d. map (\<lambda>b. Some (deviation_to_signal b)) (db_baseline_deviations d)) w1
         = ((b, None), w2)" and
    3: "project_with ''cost_samples'' (\<lambda>d. map cost_to_signal (db_cost_samples d)) w2 = ((c, None), w')"
    unfolding backfill_def project_defs run_projections_three by blast
  note s1 = project_with_step [OF 1] and s2 = project_with_step [OF 2] and s3 = project_with_step [OF 3]
  have t: "signals_only (w_db w) (w_db w')" "signals_only (w_db w1) (w_db w')"
    using s1(1) s2(1) s3(1) signals_only_trans by blast+
  have "settled (w_db w') (risk_to_signal r)" if "r \<in> set (db_risk_signals (w_db w'))" for r
  proof -
    have "settled (w_db w1) (risk_to_signal r)"
    proof (rule s1(4))
      show "risk_to_signal r \<in> set (map the (map (\<lambda>r. Some (risk_to_signal r)) (db_risk_signals (w_db w))))"
        using that signals_only_tables [OF t(1)] by (auto simp only: list.set_map image_image option.sel)
    qed (simp add: risk_to_signal_def)
    then show ?thesis using s2(2) s3(2) by (rule settled_mono [OF settled_mono])
  qed
  moreover have "settled (w_db w') (deviation_to_signal b)" if "b \<in> set (db_baseline_deviations (w_db w'))" for b
  proof -
    have "settled (w_db w2) (deviation_to_signal b)"
    proof (rule s2(4))
      show "deviation_to_signal b \<in>
          set (map the (map (\<lambda>b. Some (deviation_to_signal b)) (db_baseline_deviations (w_db w1))))"
        using that signals_only_tables [OF t(2)] by (auto simp only: list.set_map image_image option.sel)
    qed (simp add: deviation_to_signal_def)
    then show ?thesis using s3(2) by (rule settled_mono)
  qed
  moreover have "\<exists>s. cost_to_signal c = Some s \<and> settled (w_db w') s" if "c \<in> set (db_cost_samples (w_db w'))" for c
  proof -
    have c: "c \<in> set (db_cost_samples (w_db w2))" using that signals_only_tables [OF s3(1)] by simp
    then obtain s where s: "cost_to_signal c = Some s" using s3(3) by (metis image_eqI list.set_map option.exhaust)
    then have "s \<in> set (map the (map cost_to_signal (db_cost_samples (w_db w2))))"
      using c by (force simp: image_iff)
    moreover have "si_source_table s \<noteq> []"
      using s by (auto simp: cost_to_signal_def split: option.splits)
    ultimately have "settled (w_db w') s" by (rule s3(4))
    with s show ?thesis by blast
  qed
  ultimately show ?thesis using t(1) by (simp add: projected_def)
qed

lemma backfill_settled:
  assumes "no_faults w" "projected (w_db w)"
  shows "\<exists>w'. backfill w = ((0, None), w') \<and> w_db w' = w_db w"
proof -
  obtain w1 where 1: "project_risk_signals w = ((0, None), w1)" "w_db w1 = w_db w" "no_faults w1"
    using project_with_settled [OF assms(1), of "\<lambda>d. map (\<lambda>r. Some (risk_to_signal r)) (db_risk_signals d)"] assms(2)
    unfolding project_defs projected_def by fastforce
  obtain w2 where 2: "project_baseline_deviations w1 = ((0, None), w2)" "w_db w2 = w_db w" "no_faults w2"
    using project_with_settled [OF 1(3), of "\<lambda>d. map (\<lambda>b. Some (deviation_to_signal b)) (db_baseline_deviations d)"]
      assms(2) 1(2) unfolding project_defs projected_def by fastforce
  obtain w3 where 3: "project_cost_samples w2 = ((0, None), w3)" "w_db w3 = w_db w"
    using project_with_settled [OF 2(3), of "\<lambda>d. map cost_to_signal (db_cost_samples d)"]
      assms(2) 2(2) unfolding project_defs projected_def by fastforce
  show ?thesis using 1 2 3 by (simp add: backfill_def)
qed

subsection \<open>Properties\<close>


definition toy_world :: "db \<Rightarrow> world" where
  "toy_world d = \<lparr>w_db = d, w_entropy = (\<lambda>i. Some (pad 12 i)), w_ids = 0, w_clock = (\<lambda>i. i),
     w_ticks = 0, w_fault = (\<lambda>_. False), w_stmts = 0\<rparr>"

definition toy_risk :: risk_signal where
  "toy_risk = \<lparr>rk_id = ''risk-1'', rk_run_id = ''run-1'', rk_session_id = [], rk_tool_call_id = [],
     rk_process_id = [], rk_snapshot_id = [], rk_event_id = ''evt-1'', rk_policy_decision_id = ''dec-1'',
     rk_signal_type = ''p'', rk_severity = ''high'', rk_reason = [], rk_recommended_action = ''deny'',
     rk_payload = [CHR 0x7B, CHR 0x7D], rk_created_at = ''t''\<rparr>"

lemma toy_world_good [simp]: "no_faults (toy_world d)" "w_db (toy_world d) = d"
  by (simp_all add: toy_world_def no_faults_def)


text \<open>\<open>Backfill\<close> is complete and idempotent. When it succeeds, every risk signal, baseline
deviation and cost sample of the store has its unified signal and nothing but the signal table has
changed; running it again on a store that does not fail inserts nothing and changes nothing.\<close>

theorem backfill_complete_idempotent:
  assumes "backfill w = ((n, None), w')" "no_faults w'"
  shows "projected (w_db w') \<and> signals_only (w_db w) (w_db w') \<and>
    (\<exists>w2. backfill w' = ((0, None), w2) \<and> w_db w2 = w_db w')"
  using backfill_projected [OF assms(1)] backfill_settled [OF assms(2)] by blast

definition toy_silo :: db where
  "toy_silo = empty_db\<lparr>db_risk_signals := [toy_risk]\<rparr>"

lemma toy_backfill: "\<exists>w'. backfill (toy_world toy_silo) = ((1, None), w') \<and> no_faults w'"
  by (simp add: backfill_def project_defs project_with_def world_simps toy_silo_def empty_db_def toy_world_def
      no_faults_def record_signal_def risk_to_signal_def toy_risk_def valid_dimension_def blank_signal_def
      trim_space_def trim_left_def trim_right_def is_space_def default_id_def default_fields_def
      default_time_def new_id_def insert_signal_def tbl_insert_def exec_with_def query_def Let_def)

lemma backfill_complete_idempotent_witness:
  "\<exists>w'. backfill (toy_world toy_silo) = ((1, None), w') \<and> projected (w_db w')"
  using backfill_complete_idempotent toy_backfill by blast

text \<open>\<open>ValidateSet\<close> accepts a set whose \<open>counts\<close> omit a dimension that has signals. It only
compares the entries that are present, so the "count/counts consistency" of its comment holds for
the listed dimensions alone; what \<open>Export\<close> writes lists them all.\<close>

theorem validate_set_counts:
  "(validate_set sset = None \<longrightarrow> (\<forall>(dname, n) \<in> set (ss_counts sset). tally (ss_signals sset) dname = n)) \<and>
   (validate_set sset = None \<longrightarrow> validate_set (sset\<lparr>ss_counts := []\<rparr>) = None) \<and>
   (\<forall>s \<in> set (ss_signals (export_signals run d)).
      (si_dimension s, tally (ss_signals (export_signals run d)) (si_dimension s))
        \<in> set (ss_counts (export_signals run d)))"
proof (intro conjI impI)
  assume v: "validate_set sset = None"
  then have f: "find (\<lambda>(dname, n). tally (ss_signals sset) dname \<noteq> n) (ss_counts sset) = None"
    by (auto simp: validate_set_def split: if_splits option.splits)
  then show "\<forall>(dname, n) \<in> set (ss_counts sset). tally (ss_signals sset) dname = n"
    by (auto simp: find_None_iff)
  from v show "validate_set (sset\<lparr>ss_counts := []\<rparr>) = None"
    by (auto simp: validate_set_def split: if_splits option.splits)
qed (auto simp: export_signals_def counts_of_def Let_def)

definition toy_set :: signal_set where
  "toy_set = \<lparr>ss_schema = schema_version, ss_run = ''run-1'', ss_count = 0, ss_counts = [], ss_signals = []\<rparr>"

lemma validate_set_counts_witness: "validate_set (toy_set\<lparr>ss_counts := []\<rparr>) = None"
proof -
  have "validate_set toy_set = None" by (simp add: validate_set_def toy_set_def)
  then show ?thesis using validate_set_counts [of toy_set "[]" empty_db] by blast
qed

end
