(* ===== verification/Policy.thy ===== *)
theory Policy
  imports Json
begin

text \<open>
  \<open>internal/security/policy.go\<close>, the engine: events, rules, decisions, \<open>Matches\<close>, \<open>Evaluate\<close>, the
  default rules, and the extraction of an event's fields from a stored payload. \<open>net.ParseIP\<close> and
  \<open>IsPrivate\<close> are written out. The lemmas characterise a match and the rule that decides, and show
  that a detect rule never enforces.
\<close>

section \<open>Addresses\<close>

definition ipv4_octet :: "string \<Rightarrow> nat option" where
  "ipv4_octet s =
     (if s = [] \<or> \<not> list_all is_digit s \<or> (length s > 1 \<and> hd s = CHR ''0'') then None
      else case parse_base 10 s of None \<Rightarrow> None | Some n \<Rightarrow> if n \<le> 255 then Some n else None)"

definition parse_ipv4 :: "string \<Rightarrow> (nat \<times> nat \<times> nat \<times> nat) option" where
  "parse_ipv4 s =
     (case split_char CHR ''.'' s of
        [a, b, c, d] \<Rightarrow>
          (case (ipv4_octet a, ipv4_octet b, ipv4_octet c, ipv4_octet d) of
             (Some a, Some b, Some c, Some d) \<Rightarrow> Some (a, b, c, d) | _ \<Rightarrow> None)
      | _ \<Rightarrow> None)"

definition hex_group :: "string \<Rightarrow> nat option" where
  "hex_group g = (if length g > 4 then None else parse_base 16 g)"

text \<open>The 16-bit groups of a part of an IPv6 address; the last part may end in a dotted quad.\<close>

fun ipv6_groups :: "bool \<Rightarrow> string list \<Rightarrow> nat list option" where
  "ipv6_groups dotted [] = Some []"
| "ipv6_groups dotted [g] =
     (if dotted \<and> CHR ''.'' \<in> set g
      then map_option (\<lambda>(a, b, c, d). [a * 256 + b, c * 256 + d]) (parse_ipv4 g)
      else map_option (\<lambda>n. [n]) (hex_group g))"
| "ipv6_groups dotted (g # gs) =
     (case (hex_group g, ipv6_groups dotted gs) of (Some n, Some ns) \<Rightarrow> Some (n # ns) | _ \<Rightarrow> None)"

definition ipv6_part :: "bool \<Rightarrow> string \<Rightarrow> nat list option" where
  "ipv6_part dotted s = (if s = [] then Some [] else ipv6_groups dotted (split_char CHR '':'' s))"

definition parse_ipv6 :: "string \<Rightarrow> nat list option" where
  "parse_ipv6 s =
     (case index_of s ''::'' of
        None \<Rightarrow>
          (case ipv6_part True s of
             Some gs \<Rightarrow> if length gs = 8 then Some gs else None | None \<Rightarrow> None)
      | Some i \<Rightarrow>
          (case (ipv6_part False (take i s), ipv6_part True (drop (i + 2) s)) of
             (Some l, Some r) \<Rightarrow>
               if length l + length r < 8 then Some (l @ replicate (8 - length l - length r) 0 @ r) else None
           | _ \<Rightarrow> None))"

definition private_ipv4 :: "nat \<times> nat \<times> nat \<times> nat \<Rightarrow> bool" where
  "private_ipv4 q = (case q of (a, b, c, d) \<Rightarrow>
     a = 10 \<or> (a = 172 \<and> b div 16 = 1) \<or> (a = 192 \<and> b = 168))"

definition private_groups :: "nat list \<Rightarrow> bool" where
  "private_groups gs =
     (if take 6 gs = [0, 0, 0, 0, 0, 0xFFFF]
      then private_ipv4 (gs ! 6 div 256, gs ! 6 mod 256, gs ! 7 div 256, gs ! 7 mod 256)
      else hd gs div 512 = 126)"

definition is_private_ip :: "string \<Rightarrow> bool" where
  "is_private_ip raw =
     (if CHR '':'' \<in> set raw
      then (case parse_ipv6 raw of None \<Rightarrow> False | Some gs \<Rightarrow> private_groups gs)
      else (case parse_ipv4 raw of None \<Rightarrow> False | Some q \<Rightarrow> private_ipv4 q))"

section \<open>Events, rules, decisions\<close>

text \<open>\<open>None\<close> for the arguments is Go's nil slice.\<close>

record policy_event =
  pe_source :: string
  pe_event_type :: string
  pe_run_id :: string
  pe_session_id :: string
  pe_tool_call_id :: string
  pe_process_id :: string
  pe_snapshot_id :: string
  pe_dst_ip :: string
  pe_path :: string
  pe_args :: "string list option"

record decision =
  de_decision :: string
  de_reason :: string
  de_rule_id :: string
  de_mode :: string
  de_intended :: string

record rule_match =
  rm_source :: string
  rm_event_type :: string
  rm_dst_ip :: string
  rm_private_cidr :: bool
  rm_path_contains :: "string list"
  rm_args_contains :: "string list"

record rule =
  ru_id :: string
  ru_match :: rule_match
  ru_decision :: string
  ru_reason :: string
  ru_mode :: string
  ru_controls :: "string list"

record engine =
  en_secret_patterns :: "string list"
  en_rules :: "rule list"

definition joined_args :: "policy_event \<Rightarrow> string" where
  "joined_args e = join '' '' (case pe_args e of None \<Rightarrow> [] | Some xs \<Rightarrow> xs)"

definition detect_mode :: "rule \<Rightarrow> bool" where
  "detect_mode r = equal_fold (ru_mode r) ''detect''"

definition is_enforcing :: "string \<Rightarrow> bool" where
  "is_enforcing d \<longleftrightarrow> d = ''deny'' \<or> d = ''quarantine'' \<or> d = ''kill''"

definition matches :: "rule \<Rightarrow> policy_event \<Rightarrow> bool" where
  "matches r e =
     (let m = ru_match r in
      if rm_source m \<noteq> [] \<and> rm_source m \<noteq> pe_source e then False
      else if rm_event_type m \<noteq> [] \<and> rm_event_type m \<noteq> pe_event_type e then False
      else if rm_dst_ip m \<noteq> [] \<and> pe_dst_ip e \<noteq> rm_dst_ip m \<and> \<not> contains (joined_args e) (rm_dst_ip m) then False
      else if rm_private_cidr m \<and> \<not> is_private_ip (pe_dst_ip e) then False
      else if length (rm_path_contains m) > 0 \<or> length (rm_args_contains m) > 0 then
        (if list_ex (\<lambda>p. p \<noteq> [] \<and> contains (pe_path e) p) (rm_path_contains m) then True
         else list_ex (\<lambda>p. p \<noteq> [] \<and> contains (joined_args e) p) (rm_args_contains m))
      else rm_source m \<noteq> [] \<or> rm_event_type m \<noteq> [] \<or> rm_dst_ip m \<noteq> [] \<or> rm_private_cidr m)"

definition rule_reason :: "rule \<Rightarrow> string" where
  "rule_reason r = (if ru_reason r = [] then ru_id r else ru_reason r)"

definition decide :: "rule \<Rightarrow> decision" where
  "decide r =
     (if detect_mode r then
        \<lparr>de_decision = ''audit'',
         de_reason = rule_reason r @ '' (detect-only; would '' @ ru_decision r @ '')'',
         de_rule_id = ru_id r, de_mode = ''detect'', de_intended = ru_decision r\<rparr>
      else
        \<lparr>de_decision = ru_decision r, de_reason = rule_reason r, de_rule_id = ru_id r,
         de_mode = ''enforce'', de_intended = ru_decision r\<rparr>)"

definition no_match :: decision where
  "no_match = \<lparr>de_decision = ''allow'', de_reason = ''no policy matched'', de_rule_id = [],
     de_mode = [], de_intended = []\<rparr>"

fun eval_rules :: "rule list \<Rightarrow> policy_event \<Rightarrow> decision" where
  "eval_rules [] e = no_match"
| "eval_rules (r # rs) e = (if matches r e then decide r else eval_rules rs e)"

definition evaluate :: "engine \<Rightarrow> policy_event \<Rightarrow> decision" where
  "evaluate en e = eval_rules (en_rules en) e"

section \<open>The default rules\<close>

definition any_match :: rule_match where
  "any_match = \<lparr>rm_source = [], rm_event_type = [], rm_dst_ip = [], rm_private_cidr = False,
     rm_path_contains = [], rm_args_contains = []\<rparr>"

definition mk_rule :: "string \<Rightarrow> rule_match \<Rightarrow> string \<Rightarrow> string \<Rightarrow> string \<Rightarrow> string list \<Rightarrow> rule" where
  "mk_rule i m d reason mode controls =
     \<lparr>ru_id = i, ru_match = m, ru_decision = d, ru_reason = reason, ru_mode = mode, ru_controls = controls\<rparr>"

definition default_rules :: "rule list" where
  "default_rules =
    [mk_rule ''metadata_ip_dst'' (any_match\<lparr>rm_dst_ip := ''169.254.169.254''\<rparr>) ''quarantine''
       ''metadata IP access'' [] [''ASI03'', ''Q1'', ''Q2''],
     mk_rule ''metadata_ip_args'' (any_match\<lparr>rm_args_contains := [''169.254.169.254'']\<rparr>) ''quarantine''
       ''metadata IP access'' [] [''ASI03'', ''Q1'', ''Q2''],
     mk_rule ''private_cidr_access'' (any_match\<lparr>rm_private_cidr := True\<rparr>) ''deny''
       ''private CIDR access'' [] [''ASI02'', ''Q1'', ''Q2''],
     mk_rule ''self_credential_access''
       (any_match\<lparr>rm_path_contains := [''.claude/'', ''deepseek-claude.env'', ''.agentprov-demo/'', ''.agentprov/'']\<rparr>)
       ''allow'' (''agent'' @ [CHR 0x27] @ ''s own credential/config access (not an exfil target)'') [] [''ASI03''],
     mk_rule ''secret_path_access''
       (any_match\<lparr>rm_path_contains := [''.env'', ''id_rsa'', ''secret'', ''credentials'']\<rparr>) ''kill''
       ''secret path access'' [] [''ASI03'', ''Q1'', ''Q2''],
     mk_rule ''privilege_escalation'' (any_match\<lparr>rm_args_contains := [''setuid_root'', ''setgid_root'']\<rparr>)
       ''quarantine'' ''privilege escalation to root'' [] [''ASI03'', ''Q1'', ''Q2''],
     mk_rule ''ptrace_access'' (any_match\<lparr>rm_event_type := ''ptrace''\<rparr>) ''quarantine''
       ''process injection (ptrace)'' [] [''ASI05'', ''Q1'', ''Q2''],
     mk_rule ''supply_chain_install''
       (any_match\<lparr>rm_args_contains := [''pip install'', ''pip3 install'', ''npm install'', ''npm i '',
          ''poetry add'', ''uv pip install'']\<rparr>) ''quarantine''
       ''dependency install (supply-chain surface)'' ''detect'' [''ASI04'', ''Q1'', ''Q3''],
     mk_rule ''anomalous_process_tree'' (any_match\<lparr>rm_event_type := ''abnormal_process_tree''\<rparr>) ''quarantine''
       ''anomalous process tree (possible rogue behaviour)'' ''detect'' [''ASI10'', ''Q1'', ''Q3''],
     mk_rule ''resource_pressure'' (any_match\<lparr>rm_event_type := ''resource_pressure''\<rparr>) ''deny''
       ''resource pressure / event drop (cascade risk)'' ''detect'' [''ASI08'', ''Q3'']]"

definition default_engine :: engine where
  "default_engine = \<lparr>en_secret_patterns = [''.env'', ''id_rsa'', ''secret'', ''credentials''],
     en_rules = default_rules\<rparr>"

section \<open>Fields of a stored payload\<close>

definition own_values :: "string \<Rightarrow> (string \<times> json) list \<Rightarrow> json list" where
  "own_values key kvs =
     (case jget key kvs of None \<Rightarrow> [] | Some (JArr items) \<Rightarrow> items | Some v \<Rightarrow> [v])"

function find_policy_values :: "json \<Rightarrow> string \<Rightarrow> json list" where
  "find_policy_values v key =
     (case v of
        JObj kvs \<Rightarrow> own_values key kvs
          @ (case jget ''payload'' kvs of None \<Rightarrow> [] | Some n \<Rightarrow> find_policy_values n key)
          @ (case jget ''raw'' kvs of None \<Rightarrow> [] | Some n \<Rightarrow> find_policy_values n key)
          @ (case jget ''event'' kvs of None \<Rightarrow> [] | Some n \<Rightarrow> find_policy_values n key)
      | JArr vs \<Rightarrow> concat (map (\<lambda>x. find_policy_values x key) vs)
      | _ \<Rightarrow> [])"
  by pat_completeness auto
termination
  by (relation "measure (\<lambda>(v, key). size v)") (auto dest: json_obj_size json_arr_size)

declare find_policy_values.simps [simp del]

definition non_blank :: "json \<Rightarrow> string option" where
  "non_blank v = (case v of JStr t \<Rightarrow> if trim_space t \<noteq> [] then Some (trim_space t) else None | _ \<Rightarrow> None)"

definition is_bracket :: "char \<Rightarrow> bool" where
  "is_bracket c \<longleftrightarrow> c = CHR ''['' \<or> c = CHR '']''"

definition host_of :: "string \<Rightarrow> string" where
  "host_of t = trim_right is_bracket (trim_left is_bracket (hd (split_char CHR '':'' t)))"

definition first_policy_string :: "string \<Rightarrow> string list \<Rightarrow> string" where
  "first_policy_string payload keys =
     (case decode payload of
        None \<Rightarrow> []
      | Some v \<Rightarrow>
          (case first_some (\<lambda>key. map_option (\<lambda>t. if key = ''dst'' then host_of t else t)
                  (first_some non_blank (find_policy_values v key))) keys of
             None \<Rightarrow> [] | Some t \<Rightarrow> t))"

definition policy_args :: "string \<Rightarrow> string list option" where
  "policy_args payload =
     (case decode payload of
        None \<Rightarrow> None
      | Some v \<Rightarrow> Some (List.map_filter non_blank (find_policy_values v ''argv'')))"

text \<open>\<open>int64(n)\<close> truncates toward zero.\<close>

definition trunc :: "rat \<Rightarrow> int" where
  "trunc r = (if r < 0 then - \<lfloor>- r\<rfloor> else \<lfloor>r\<rfloor>)"

definition json_number :: "json \<Rightarrow> int option" where
  "json_number v = (case v of JNum n \<Rightarrow> Some (trunc n) | _ \<Rightarrow> None)"

definition policy_number :: "string \<Rightarrow> string list \<Rightarrow> int option" where
  "policy_number payload keys =
     (case decode payload of
        None \<Rightarrow> None
      | Some v \<Rightarrow> first_some (\<lambda>key. first_some json_number (find_policy_values v key)) keys)"

section \<open>What a decision entails\<close>

definition severity_for :: "string \<Rightarrow> string" where
  "severity_for d =
     (if d = ''kill'' \<or> d = ''quarantine'' then ''high'' else if d = ''deny'' then ''medium''
      else if d = ''audit'' then ''low'' else ''info'')"

definition recommended_action_for :: "string \<Rightarrow> string" where
  "recommended_action_for d =
     (if d = ''kill'' then ''kill'' else if d = ''quarantine'' then ''quarantine''
      else if d = ''deny'' then ''deny'' else if d = ''audit'' then ''audit'' else ''audit'')"

definition response_target :: "policy_event \<Rightarrow> string \<Rightarrow> string \<times> string" where
  "response_target e action =
     (if action = ''kill'' \<and> pe_process_id e \<noteq> [] then (''process'', pe_process_id e)
      else if action = ''quarantine'' \<and> pe_session_id e \<noteq> [] then (''session'', pe_session_id e)
      else if action = ''deny'' \<and> pe_event_type e \<noteq> [] then (''event'', pe_event_type e)
      else if pe_session_id e \<noteq> [] then (''session'', pe_session_id e)
      else if pe_process_id e \<noteq> [] then (''process'', pe_process_id e)
      else (''run'', pe_run_id e))"

section \<open>Lemmas\<close>

lemma guard_logic:
  "(if s \<and> p then False else if t \<and> q then False else if u \<and> v \<and> \<not> w then False
    else if x \<and> \<not> y then False else if a \<or> b then (if h then True else k) else z)
   \<longleftrightarrow> ((s \<longrightarrow> \<not> p) \<and> (t \<longrightarrow> \<not> q) \<and> (u \<longrightarrow> \<not> v \<or> w) \<and> (x \<longrightarrow> y)) \<and> (if \<not> a \<and> \<not> b then z else h \<or> k)"
  by (simp only: if_bool_eq_conj) blast

text \<open>The conditions every rule checks, and the content patterns.\<close>

definition constraints_hold :: "rule_match \<Rightarrow> policy_event \<Rightarrow> bool" where
  "constraints_hold m e \<longleftrightarrow>
     (rm_source m \<noteq> [] \<longrightarrow> pe_source e = rm_source m) \<and>
     (rm_event_type m \<noteq> [] \<longrightarrow> pe_event_type e = rm_event_type m) \<and>
     (rm_dst_ip m \<noteq> [] \<longrightarrow> pe_dst_ip e = rm_dst_ip m \<or> contains (joined_args e) (rm_dst_ip m)) \<and>
     (rm_private_cidr m \<longrightarrow> is_private_ip (pe_dst_ip e))"

definition content_hit :: "rule_match \<Rightarrow> policy_event \<Rightarrow> bool" where
  "content_hit m e \<longleftrightarrow>
     (\<exists>p \<in> set (rm_path_contains m). p \<noteq> [] \<and> sublist p (pe_path e)) \<or>
     (\<exists>p \<in> set (rm_args_contains m). p \<noteq> [] \<and> sublist p (joined_args e))"

definition constrained :: "rule_match \<Rightarrow> bool" where
  "constrained m \<longleftrightarrow> rm_source m \<noteq> [] \<or> rm_event_type m \<noteq> [] \<or> rm_dst_ip m \<noteq> [] \<or> rm_private_cidr m"

lemma eval_rules_split:
  "(\<forall>r \<in> set rs. \<not> matches r e) \<and> eval_rules rs e = no_match \<or>
   (\<exists>pre r post. rs = pre @ r # post \<and> matches r e \<and> (\<forall>q \<in> set pre. \<not> matches q e) \<and> eval_rules rs e = decide r)"
proof (induction rs)
  case (Cons r rs)
  show ?case
  proof (cases "matches r e")
    case True
    then have "r # rs = [] @ r # rs \<and> matches r e \<and> (\<forall>q \<in> set []. \<not> matches q e) \<and> eval_rules (r # rs) e = decide r"
      by simp
    then show ?thesis by blast
  next
    case False
    then have ev: "eval_rules (r # rs) e = eval_rules rs e" by simp
    from Cons show ?thesis
    proof (elim disjE exE conjE)
      fix pre q post
      assume "rs = pre @ q # post" "matches q e" "\<forall>q \<in> set pre. \<not> matches q e" "eval_rules rs e = decide q"
      with False ev have "r # rs = (r # pre) @ q # post \<and> matches q e \<and> (\<forall>q \<in> set (r # pre). \<not> matches q e)
          \<and> eval_rules (r # rs) e = decide q" by simp
      then show ?thesis by blast
    qed (use False ev in simp)
  qed
qed simp

lemma eval_rules_first:
  "\<forall>q \<in> set pre. \<not> matches q e \<Longrightarrow> matches r e \<Longrightarrow> eval_rules (pre @ r # post) e = decide r"
  by (induction pre) auto

subsection \<open>Properties\<close>

text \<open>What \<open>Matches\<close> means. A rule matches exactly when every field condition it sets holds and,
if it lists content patterns, at least one non-empty pattern occurs in the path or in the joined
arguments; a rule that sets no condition and no pattern never matches, and neither does one whose
patterns are all empty.\<close>

theorem matches_iff:
  "matches r e \<longleftrightarrow> constraints_hold (ru_match r) e \<and>
     (if rm_path_contains (ru_match r) = [] \<and> rm_args_contains (ru_match r) = []
      then constrained (ru_match r) else content_hit (ru_match r) e)"
proof -
  define m where "m = ru_match r"
  define hit where "hit = content_hit m e"
  have hit: "hit \<longleftrightarrow> list_ex (\<lambda>p. p \<noteq> [] \<and> contains (pe_path e) p) (rm_path_contains m) \<or>
      list_ex (\<lambda>p. p \<noteq> [] \<and> contains (joined_args e) p) (rm_args_contains m)"
    unfolding hit_def content_hit_def list_ex_iff contains_sublist ..
  have "matches r e \<longleftrightarrow> constraints_hold m e \<and>
     (if rm_path_contains m = [] \<and> rm_args_contains m = [] then constrained m else hit)"
    unfolding matches_def Let_def m_def [symmetric] constraints_hold_def constrained_def hit
      guard_logic length_greater_0_conv by (simp only: not_not eq_commute)
  then show ?thesis by (simp only: m_def hit_def)
qed

text \<open>C10: \<open>Evaluate\<close> is first match. The decision is that of the first rule in file order that
matches, and it is "allow" with no rule id exactly as written when none does; the decision never
depends on the rules after the first match.\<close>

theorem evaluate_first_match:
  "(list_all (\<lambda>r. \<not> matches r e) (en_rules en) \<and> evaluate en e = no_match) \<or>
   (\<exists>pre r post. en_rules en = pre @ r # post \<and> matches r e \<and> list_all (\<lambda>q. \<not> matches q e) pre \<and>
      evaluate en e = decide r \<and> (\<forall>post'. evaluate (en\<lparr>en_rules := pre @ r # post'\<rparr>) e = decide r))"
proof -
  have first: "list_all (\<lambda>q. \<not> matches q e) pre \<Longrightarrow> matches r e \<Longrightarrow>
      evaluate (en\<lparr>en_rules := pre @ r # post'\<rparr>) e = decide r" for pre r post'
    using eval_rules_first [of pre e r post'] by (simp add: evaluate_def list_all_iff)
  have "(\<forall>r \<in> set (en_rules en). \<not> matches r e) \<and> eval_rules (en_rules en) e = no_match \<or>
   (\<exists>pre r post. en_rules en = pre @ r # post \<and> matches r e \<and> (\<forall>q \<in> set pre. \<not> matches q e) \<and>
      eval_rules (en_rules en) e = decide r)" by (rule eval_rules_split)
  then show ?thesis
  proof (elim disjE exE conjE)
    fix pre r post
    assume *: "en_rules en = pre @ r # post" "matches r e" "\<forall>q \<in> set pre. \<not> matches q e"
      "eval_rules (en_rules en) e = decide r"
    then have "en_rules en = pre @ r # post \<and> matches r e \<and> list_all (\<lambda>q. \<not> matches q e) pre \<and>
        evaluate en e = decide r \<and> (\<forall>post'. evaluate (en\<lparr>en_rules := pre @ r # post'\<rparr>) e = decide r)"
      using first [of pre r] by (simp add: evaluate_def list_all_iff)
    then show ?thesis by blast
  qed (simp add: evaluate_def list_all_iff)
qed

text \<open>C11: Detect mode never blocks. If the decision of an evaluation enforces (deny, quarantine or
kill) then the rule that produced it is not in detect mode and it is the decision that rule states;
and a detect rule that decides yields "audit" while its intended decision is preserved.\<close>

theorem evaluate_detect_never_enforces:
  "(is_enforcing (de_decision (evaluate en e)) \<longrightarrow>
      (\<exists>r \<in> set (en_rules en). matches r e \<and> \<not> detect_mode r \<and> evaluate en e = decide r \<and>
         de_decision (evaluate en e) = ru_decision r \<and> de_mode (evaluate en e) = ''enforce'')) \<and>
   (\<forall>r. detect_mode r \<longrightarrow> de_decision (decide r) = ''audit'' \<and> \<not> is_enforcing (de_decision (decide r)) \<and>
      de_intended (decide r) = ru_decision r)"
proof (intro conjI impI allI)
  assume enf: "is_enforcing (de_decision (evaluate en e))"
  then have "evaluate en e \<noteq> no_match" by (auto simp: is_enforcing_def no_match_def)
  then obtain pre r post where r: "en_rules en = pre @ r # post" "matches r e" "evaluate en e = decide r"
    using eval_rules_split [of "en_rules en" e] unfolding evaluate_def by blast
  then have "\<not> detect_mode r" using enf by (auto simp: decide_def is_enforcing_def)
  with r show "\<exists>r \<in> set (en_rules en). matches r e \<and> \<not> detect_mode r \<and> evaluate en e = decide r \<and>
         de_decision (evaluate en e) = ru_decision r \<and> de_mode (evaluate en e) = ''enforce''"
    by (intro bexI [of _ r]) (simp_all add: decide_def)
qed (simp_all add: decide_def is_enforcing_def)

definition toy_event :: policy_event where
  "toy_event = \<lparr>pe_source = ''ebpf'', pe_event_type = ''ptrace'', pe_run_id = ''run-1'', pe_session_id = ''s-1'',
     pe_tool_call_id = [], pe_process_id = [], pe_snapshot_id = [], pe_dst_ip = [], pe_path = [],
     pe_args = None\<rparr>"

lemma toy_ptrace: "evaluate default_engine toy_event = decide (default_rules ! 6)"
  by (simp add: evaluate_def default_engine_def default_rules_def mk_rule_def any_match_def toy_event_def
      matches_def joined_args_def is_private_ip_def parse_ipv4_def Let_def contains_def)

lemma evaluate_detect_never_enforces_witness:
  "\<exists>r \<in> set default_rules. matches r toy_event \<and> \<not> detect_mode r \<and> ru_decision r = ''quarantine''"
proof -
  have d: "de_decision (evaluate default_engine toy_event) = ''quarantine''"
    by (simp add: toy_ptrace default_rules_def decide_def mk_rule_def detect_mode_def equal_fold_def to_lower_def
        ascii_lower_def)
  then have "is_enforcing (de_decision (evaluate default_engine toy_event))" by (simp add: is_enforcing_def)
  then obtain r where "r \<in> set (en_rules default_engine)" "matches r toy_event" "\<not> detect_mode r"
      "de_decision (evaluate default_engine toy_event) = ru_decision r"
    using evaluate_detect_never_enforces by blast
  with d show ?thesis by (auto simp: default_engine_def)
qed

text \<open>A destination stored as \<open>"dst": "[v6]:port"\<close> loses its address. \<open>firstPolicyString\<close> cuts
the text at its first colon, so what it returns never has a colon and is never read as an IPv6
address: \<open>fd00::1\<close> is a private address, but the event whose destination is \<open>[fd00::1]:443\<close> carries
\<open>fd00\<close>, which is not, and the private-CIDR rule does not fire for it.\<close>

theorem ipv6_destination_lost:
  "CHR '':'' \<notin> set (host_of t) \<and> is_private_ip ''fd00::1'' \<and>
   host_of ''[fd00::1]:443'' = ''fd00'' \<and> \<not> is_private_ip (host_of ''[fd00::1]:443'')"
proof -
  have "hd (split_char CHR '':'' t) \<in> set (split_char CHR '':'' t)" by (rule hd_in_set) simp
  then have c: "CHR '':'' \<notin> set (hd (split_char CHR '':'' t))" by (rule split_char_no_sep)
  have "set (host_of t) \<subseteq> set (hd (split_char CHR '':'' t))"
    by (auto simp: host_of_def trim_left_def trim_right_def dest!: set_dropWhileD)
  with c have 1: "CHR '':'' \<notin> set (host_of t)" by blast
  have d: "digit_val CHR ''f'' = Some 15" "digit_val CHR ''d'' = Some 13" "digit_val CHR ''0'' = Some 0"
    "digit_val CHR ''1'' = Some 1" by (simp_all add: digit_val_def)
  have g: "parse_base 16 ''fd00'' = Some 64768" "parse_base 16 ''1'' = Some 1"
    by (simp_all add: parse_base_def d)
  have i: "index_of ''fd00::1'' ''::'' = Some 4" "take 4 ''fd00::1'' = ''fd00''" "drop (4 + 2) ''fd00::1'' = ''1''"
    by (simp_all add: has_prefix_def)
  have "ipv6_part False ''fd00'' = Some [64768]" "ipv6_part True ''1'' = Some [1]"
    by (simp_all add: ipv6_part_def hex_group_def g parse_ipv4_def)
  moreover have "replicate 6 (0 :: nat) = [0, 0, 0, 0, 0, 0]" by (simp add: numeral_eq_Suc)
  ultimately have p: "parse_ipv6 ''fd00::1'' = Some [0xFD00, 0, 0, 0, 0, 0, 0, 1]"
    by (simp add: parse_ipv6_def i del: index_of.simps)
  have 2: "is_private_ip ''fd00::1''" by (simp add: is_private_ip_def p private_groups_def)
  have 3: "host_of ''[fd00::1]:443'' = ''fd00''"
    by (simp add: host_of_def trim_left_def trim_right_def is_bracket_def)
  have 4: "\<not> is_private_ip ''fd00''" by (simp add: is_private_ip_def parse_ipv4_def)
  from 1 2 3 4 show ?thesis by simp
qed

end
