(* ===== verification/PolicyStore.thy ===== *)
theory PolicyStore
  imports Signals Policy
begin

text \<open>
  \<open>internal/security/policy.go\<close>, the persistent half: recording a decision as a policy decision, a
  risk signal, a unified signal, graph edges, a response action and a cost sample; the side effects of
  kill and quarantine; evaluation of a stored event; \<open>ReevaluateRun\<close>; \<open>evaluateJSONL\<close> and the
  listings. A statement whose error the code discards is \<open>exec_ignore\<close>. The lemmas compute the tables
  a decision leaves on a store that does not fail.
\<close>

section \<open>Recording a decision\<close>

definition edge_row :: "string \<Rightarrow> string \<Rightarrow> string \<Rightarrow> string \<Rightarrow> string \<Rightarrow> string \<Rightarrow> string \<Rightarrow> graph_edge" where
  "edge_row i run src dst ty ev t = \<lparr>ge_id = i, ge_run_id = run, ge_rollout_id = [], ge_from_id = src,
     ge_to_id = dst, ge_edge_type = ty, ge_source_event_id = ev, ge_created_at = t\<rparr>"

definition add_edge ::
  "string \<Rightarrow> string \<Rightarrow> string \<Rightarrow> string \<Rightarrow> string \<Rightarrow> string \<Rightarrow> world \<Rightarrow> world" where
  "add_edge run src dst ty ev t w =
     (let (i, w) = new_id ''edge'' w
      in exec_total_ignore (tbl_replace db_graph_edges_update ge_id (edge_row i run src dst ty ev t)) w)"

definition event_row :: "string \<Rightarrow> policy_event \<Rightarrow> string \<Rightarrow> string \<Rightarrow> string \<Rightarrow> string \<Rightarrow> event" where
  "event_row i e source ty payload t = \<lparr>ev_id = i, ev_run_id = Some (pe_run_id e),
     ev_session_id = Some (pe_session_id e), ev_tool_call_id = pe_tool_call_id e,
     ev_process_id = pe_process_id e, ev_snapshot_id = [], ev_raw_event_id = [], ev_correlation_method = [],
     ev_correlation_confidence = 0, ev_container_id = [], ev_cgroup_id = [], ev_pid = 0, ev_tgid = 0,
     ev_ppid = 0, ev_binding_source = [], ev_source = source, ev_event_type = ty, ev_payload = payload,
     ev_created_at = t\<rparr>"

definition decision_row :: "string \<Rightarrow> string \<Rightarrow> policy_event \<Rightarrow> decision \<Rightarrow> string \<Rightarrow> policy_decision" where
  "decision_row i ev e d t = \<lparr>pd_id = i, pd_event_id = Some ev, pd_run_id = Some (pe_run_id e),
     pd_session_id = Some (pe_session_id e), pd_rule_id = de_rule_id d, pd_decision = de_decision d,
     pd_reason = de_reason d, pd_created_at = t\<rparr>"

definition args_json :: "policy_event \<Rightarrow> json" where
  "args_json e = (case pe_args e of None \<Rightarrow> JNull | Some xs \<Rightarrow> JArr (map JStr xs))"

definition risk_payload :: "policy_event \<Rightarrow> decision \<Rightarrow> string" where
  "risk_payload e d = marshal (JObj
     [(''source'', JStr (pe_source e)), (''event_type'', JStr (pe_event_type e)), (''dst_ip'', JStr (pe_dst_ip e)),
      (''path'', JStr (pe_path e)), (''args'', args_json e), (''rule_id'', JStr (de_rule_id d)),
      (''decision'', JStr (de_decision d))])"

definition risk_row :: "string \<Rightarrow> string \<Rightarrow> string \<Rightarrow> policy_event \<Rightarrow> decision \<Rightarrow> string \<Rightarrow> risk_signal" where
  "risk_row i ev pol e d t = \<lparr>rk_id = i, rk_run_id = pe_run_id e, rk_session_id = pe_session_id e,
     rk_tool_call_id = pe_tool_call_id e, rk_process_id = pe_process_id e, rk_snapshot_id = pe_snapshot_id e,
     rk_event_id = ev, rk_policy_decision_id = pol, rk_signal_type = ''policy_violation'',
     rk_severity = severity_for (de_decision d), rk_reason = de_reason d,
     rk_recommended_action = recommended_action_for (de_decision d), rk_payload = risk_payload e d,
     rk_created_at = t\<rparr>"

definition policy_signal :: "string \<Rightarrow> string \<Rightarrow> policy_event \<Rightarrow> decision \<Rightarrow> string \<Rightarrow> signal_row" where
  "policy_signal risk ev e d t =
     (let (kind, ref) =
        (if pe_process_id e \<noteq> [] then (''process'', pe_process_id e)
         else if pe_tool_call_id e \<noteq> [] then (''tool_call'', pe_tool_call_id e) else (''run'', pe_run_id e))
      in blank_signal\<lparr>si_dimension := ''security'', si_signal_type := ''policy_violation'',
        si_graph_ref_kind := kind, si_graph_ref_id := ref, si_run_id := pe_run_id e,
        si_session_id := pe_session_id e, si_tool_call_id := pe_tool_call_id e, si_process_id := pe_process_id e,
        si_event_id := ev, si_severity := severity_for (de_decision d), si_reference := de_reason d,
        si_recommended_action := recommended_action_for (de_decision d), si_produced_by := ''security.policy'',
        si_payload := risk_payload e d, si_created_at := t, si_source_table := ''risk_signals'',
        si_source_id := risk\<rparr>)"

text \<open>The text of the error that \<open>signals.Record\<close> returned.\<close>

definition signal_error_text :: "signal_error \<Rightarrow> string" where
  "signal_error_text x =
     (case x of
        InvalidDimension d \<Rightarrow> ''signals: invalid dimension '' @ quote d
      | EmptyType \<Rightarrow> ''signals: empty signal type''
      | HalfSource a b \<Rightarrow> ''signals: source_table and source_id must both be set or both empty''
      | _ \<Rightarrow> ''signals: record'')"

definition writeback_failed ::
  "signal_error \<Rightarrow> string \<Rightarrow> string \<Rightarrow> policy_event \<Rightarrow> string \<Rightarrow> world \<Rightarrow> world" where
  "writeback_failed x risk pol e t w =
     (let payload = marshal (JObj [(''error'', JStr (signal_error_text x)), (''risk_signal_id'', JStr risk),
            (''policy_decision_id'', JStr pol), (''dimension'', JStr ''security'')]);
          (i, w) = new_id ''evt'' w
      in exec_ignore (tbl_insert db_events db_events_update ev_id
           (event_row i e ''signal_writeback'' ''unified_signal_write_failed'' payload t)) w)"

definition persist_risk ::
  "string \<Rightarrow> string \<Rightarrow> policy_event \<Rightarrow> decision \<Rightarrow> string \<Rightarrow> world \<Rightarrow> (go_error + string) \<times> world" where
  "persist_risk ev pol e d t w =
     (let (risk, w) = new_id ''risk'' w;
          (ok, w) = exec (tbl_insert db_risk_signals db_risk_signals_update rk_id (risk_row risk ev pol e d t)) w
      in if \<not> ok then (Inl SqlError, w)
         else
           let w = (case record_signal (policy_signal risk ev e d t) w of
                      (Inr _, w) \<Rightarrow> w
                    | (Inl x, w) \<Rightarrow> writeback_failed x risk pol e t w);
               w = add_edge (pe_run_id e) (''policy_decision/'' @ pol) (''risk_signal/'' @ risk)
                     ''policy_decision_risk_signal'' ev t w
           in (Inr risk, w))"

text \<open>The side effects of quarantine and kill on the session, its snapshots and the process.\<close>

definition taint_snapshots :: "string \<Rightarrow> db \<Rightarrow> db" where
  "taint_snapshots session =
     tbl_update db_snapshots_update (\<lambda>s. sn_session_id s = Some session) (\<lambda>s. s\<lparr>sn_status := ''tainted''\<rparr>)"

definition set_session_status :: "string \<Rightarrow> string \<Rightarrow> string \<Rightarrow> db \<Rightarrow> db" where
  "set_session_status session status t =
     tbl_update db_sessions_update (\<lambda>s. se_id s = session) (\<lambda>s. s\<lparr>se_status := status, se_updated_at := t\<rparr>)"

definition kill_process_row :: "string \<Rightarrow> string \<Rightarrow> db \<Rightarrow> db" where
  "kill_process_row process t =
     tbl_update db_processes_update (\<lambda>p. pr_id p = process) (\<lambda>p. p\<lparr>pr_status := ''killed'', pr_ended_at := Some t\<rparr>)"

definition enforce :: "policy_event \<Rightarrow> string \<Rightarrow> string \<Rightarrow> world \<Rightarrow> world" where
  "enforce e d t w =
     (if d = ''quarantine'' then
        (if pe_session_id e \<noteq> [] then
           exec_total_ignore (taint_snapshots (pe_session_id e))
             (exec_total_ignore (set_session_status (pe_session_id e) ''quarantined'' t) w)
         else w)
      else if d = ''kill'' then
        (let w = (if pe_session_id e \<noteq> [] then
                    exec_total_ignore (taint_snapshots (pe_session_id e))
                      (exec_total_ignore (set_session_status (pe_session_id e) ''stopped'' t) w)
                  else w)
         in if pe_process_id e \<noteq> [] then exec_total_ignore (kill_process_row (pe_process_id e) t) w else w)
      else w)"

definition action_row ::
  "string \<Rightarrow> string \<Rightarrow> string \<Rightarrow> policy_event \<Rightarrow> decision \<Rightarrow> string \<Rightarrow> response_action" where
  "action_row i risk pol e d t =
     (let action = recommended_action_for (de_decision d); target = response_target e action in
      \<lparr>ra_id = i, ra_run_id = pe_run_id e, ra_session_id = pe_session_id e, ra_process_id = pe_process_id e,
       ra_snapshot_id = pe_snapshot_id e, ra_risk_signal_id = risk, ra_policy_decision_id = pol,
       ra_action_type = action, ra_target_type = fst target, ra_target_id = snd target,
       ra_status = ''recorded'', ra_result_ref = [],
       ra_payload = marshal (JObj [(''decision'', JStr (de_decision d)), (''rule_id'', JStr (de_rule_id d)),
         (''reason'', JStr (de_reason d))]),
       ra_created_at = t\<rparr>)"

definition record_response ::
  "string \<Rightarrow> string \<Rightarrow> string \<Rightarrow> policy_event \<Rightarrow> decision \<Rightarrow> string \<Rightarrow> world \<Rightarrow> world" where
  "record_response risk ev pol e d t w =
     (let (i, w) = new_id ''action'' w;
          w = exec_ignore (tbl_insert db_response_actions db_response_actions_update ra_id
                (action_row i risk pol e d t)) w
      in add_edge (pe_run_id e) (''risk_signal/'' @ risk) (''response_action/'' @ i)
           ''risk_signal_response_action'' ev t w)"

definition cost_row :: "string \<Rightarrow> policy_event \<Rightarrow> string \<Rightarrow> string \<Rightarrow> cost_sample" where
  "cost_row i e d t = \<lparr>cs_id = i, cs_run_id = pe_run_id e, cs_session_id = Some (pe_session_id e),
     cs_active_cpu_seconds = 0, cs_idle_seconds = 0, cs_wall_seconds = 0, cs_snapshot_bytes = 0,
     cs_policy_block_count = (if is_enforcing d then 1 else 0),
     cs_quarantine_count = (if d = ''quarantine'' then 1 else 0), cs_node_id = ''local'', cs_fanout_cost = 0,
     cs_saved_cost = 0, cs_created_at = t\<rparr>"

definition record_cost :: "policy_event \<Rightarrow> string \<Rightarrow> string \<Rightarrow> world \<Rightarrow> world" where
  "record_cost e d t w =
     (if pe_run_id e \<noteq> [] then
        (let (i, w) = new_id ''cost'' w
         in exec_ignore (tbl_insert db_cost_samples db_cost_samples_update cs_id (cost_row i e d t)) w)
      else w)"

definition persist_existing ::
  "string \<Rightarrow> policy_event \<Rightarrow> decision \<Rightarrow> string \<Rightarrow> world \<Rightarrow> (go_error + policy_decision) \<times> world" where
  "persist_existing ev e d t w =
     (let (pol, w) = new_id ''dec'' w; row = decision_row pol ev e d t;
          (ok, w) = exec (tbl_insert db_policy_decisions db_policy_decisions_update pd_id row) w
      in if \<not> ok then (Inl SqlError, w)
         else
           let (r, w) = (if de_decision d \<noteq> ''allow'' then persist_risk ev pol e d t w else (Inr [], w))
           in (case r of
                 Inl x \<Rightarrow> (Inl x, w)
               | Inr risk \<Rightarrow>
                   let w = add_edge (pe_run_id e) (''runtime_event/'' @ ev) (''policy_decision/'' @ pol)
                             ''runtime_event_policy_decision'' ev t w;
                       w = (if pe_session_id e \<noteq> []
                            then add_edge (pe_run_id e) (''policy_decision/'' @ pol) (pe_session_id e)
                                   ''policy_decision_session'' ev t w else w);
                       w = enforce e (de_decision d) t w;
                       w = (if de_decision d \<noteq> ''allow'' then record_response risk ev pol e d t w else w);
                       w = record_cost e (de_decision d) t w
                   in (Inr row, w)))"

definition persist_decision ::
  "policy_event \<Rightarrow> string \<Rightarrow> decision \<Rightarrow> world \<Rightarrow> (go_error + policy_decision) \<times> world" where
  "persist_decision e raw d w =
     (let (t, w) = now w; (ev, w) = new_id ''evt'' w;
          row = (event_row ev e (pe_source e) (pe_event_type e) raw t)\<lparr>ev_snapshot_id := pe_snapshot_id e\<rparr>;
          (ok, w) = exec (tbl_insert db_events db_events_update ev_id row) w
      in if \<not> ok then (Inl SqlError, w) else persist_existing ev e d t w)"

definition persist_decision_for_event ::
  "string \<Rightarrow> policy_event \<Rightarrow> decision \<Rightarrow> world \<Rightarrow> (go_error + policy_decision) \<times> world" where
  "persist_decision_for_event ev e d w = (let (t, w) = now w in persist_existing ev e d t w)"

section \<open>Evaluating stored events\<close>

definition mark_root :: "string \<Rightarrow> string \<Rightarrow> string list option \<Rightarrow> string list option" where
  "mark_root ty payload args =
     (if (ty = ''setuid'' \<or> ty = ''setgid'') \<and> policy_number payload [''uid'', ''gid''] = Some 0
      then Some ((case args of None \<Rightarrow> [] | Some xs \<Rightarrow> xs) @ [ty @ ''_root'']) else args)"

definition policy_event_of :: "event \<Rightarrow> policy_event" where
  "policy_event_of e =
     (let payload = ev_payload e in
      \<lparr>pe_source = ev_source e, pe_event_type = ev_event_type e, pe_run_id = coalesce (ev_run_id e),
       pe_session_id = coalesce (ev_session_id e), pe_tool_call_id = ev_tool_call_id e,
       pe_process_id = ev_process_id e, pe_snapshot_id = ev_snapshot_id e,
       pe_dst_ip = first_policy_string payload [''dst_ip'', ''dst'', ''host''],
       pe_path = first_policy_string payload [''path'', ''file''],
       pe_args = mark_root (ev_event_type e) payload (policy_args payload)\<rparr>)"

definition runtime_event_for_policy :: "string \<Rightarrow> db \<Rightarrow> (policy_event \<times> string) option" where
  "runtime_event_for_policy i d =
     map_option (\<lambda>e. (policy_event_of e, ev_payload e)) (find (\<lambda>e. ev_id e = i) (db_events d))"

definition evaluate_runtime_event ::
  "engine \<Rightarrow> string \<Rightarrow> world \<Rightarrow> (go_error + policy_decision option) \<times> world" where
  "evaluate_runtime_event en i w =
     (case query (runtime_event_for_policy i) w of
        (None, w) \<Rightarrow> (Inl SqlError, w)
      | (Some None, w) \<Rightarrow> (Inl NoRows, w)
      | (Some (Some (e, raw)), w) \<Rightarrow>
          let d = evaluate en e in
          if de_decision d = ''allow'' then (Inr None, w)
          else (case persist_decision_for_event i e d w of
                  (Inl x, w) \<Rightarrow> (Inl x, w) | (Inr row, w) \<Rightarrow> (Inr (Some row), w)))"

definition persist_deny_for_event ::
  "string \<Rightarrow> string \<Rightarrow> string \<Rightarrow> world \<Rightarrow> (go_error + policy_decision) \<times> world" where
  "persist_deny_for_event i rule reason w =
     (case query (runtime_event_for_policy i) w of
        (None, w) \<Rightarrow> (Inl SqlError, w)
      | (Some None, w) \<Rightarrow> (Inl NoRows, w)
      | (Some (Some (e, raw)), w) \<Rightarrow>
          persist_decision_for_event i e \<lparr>de_decision = ''deny'', de_reason = reason, de_rule_id = rule,
            de_mode = [], de_intended = []\<rparr> w)"

section \<open>\<open>ReevaluateRun\<close>\<close>

definition derived_edge :: "string \<Rightarrow> graph_edge \<Rightarrow> bool" where
  "derived_edge run g \<longleftrightarrow> ge_run_id g = run \<and> ge_edge_type g \<in> {''policy_decision_risk_signal'',
     ''runtime_event_policy_decision'', ''policy_decision_session'', ''risk_signal_response_action''}"

definition reevaluate_clears :: "string \<Rightarrow> (db \<Rightarrow> db) list" where
  "reevaluate_clears run =
     [tbl_delete db_graph_edges_update (derived_edge run),
      tbl_delete db_signals_update (\<lambda>s. si_run_id s = run \<and> si_source_table s = ''risk_signals''),
      tbl_delete db_response_actions_update (\<lambda>a. ra_run_id a = run),
      tbl_delete db_risk_signals_update (\<lambda>r. rk_run_id r = run),
      tbl_delete db_policy_decisions_update (\<lambda>p. pd_run_id p = Some run),
      tbl_delete db_cost_samples_update (\<lambda>c. cs_run_id c = run \<and> (cs_policy_block_count c > 0 \<or> cs_quarantine_count c > 0))]"

fun exec_list :: "(db \<Rightarrow> db) list \<Rightarrow> world \<Rightarrow> bool \<times> world" where
  "exec_list [] w = (True, w)"
| "exec_list (f # fs) w = (case exec_total f w of (True, w) \<Rightarrow> exec_list fs w | (False, w) \<Rightarrow> (False, w))"

fun evaluate_events :: "engine \<Rightarrow> string list \<Rightarrow> nat \<Rightarrow> nat \<Rightarrow> world \<Rightarrow> (nat \<times> nat \<times> go_error option) \<times> world" where
  "evaluate_events en [] n a w = ((n, a, None), w)"
| "evaluate_events en (i # ids) n a w =
     (case evaluate_runtime_event en i w of
        (Inl x, w) \<Rightarrow> ((n, a, Some x), w)
      | (Inr r, w) \<Rightarrow> evaluate_events en ids (Suc n) (if r \<noteq> None then Suc a else a) w)"

definition run_event_ids :: "string \<Rightarrow> db \<Rightarrow> string list" where
  "run_event_ids run d =
     map ev_id (order_asc ev_created_at (order_asc ev_id (filter (\<lambda>e. ev_run_id e = Some run) (db_events d))))"

definition reevaluate_run :: "string \<Rightarrow> engine \<Rightarrow> world \<Rightarrow> (nat \<times> nat \<times> go_error option) \<times> world" where
  "reevaluate_run run en w =
     (if run = [] then ((0, 0, Some (Errorf ''reevaluate: run id is required'')), w)
      else
        let en = (if en_rules en = [] then default_engine else en) in
        (case exec_list (reevaluate_clears run) w of
           (False, w) \<Rightarrow> ((0, 0, Some SqlError), w)
         | (True, w) \<Rightarrow>
             (case query (run_event_ids run) w of
                (None, w) \<Rightarrow> ((0, 0, Some SqlError), w)
              | (Some ids, w) \<Rightarrow> evaluate_events en ids 0 0 w)))"

section \<open>JSON lines\<close>

text \<open>The lines \<open>bufio.Scanner\<close> delivers, and whether it stopped at a line that does not fit its
64 KiB buffer.\<close>

definition drop_cr :: "string \<Rightarrow> string" where
  "drop_cr l = (if l \<noteq> [] \<and> last l = CHR 0x0D then butlast l else l)"

fun scan :: "string list \<Rightarrow> string list \<times> bool" where
  "scan [] = ([], False)"
| "scan (l # ls) =
     (if length l \<ge> 65536 then ([], True) else (case scan ls of (xs, long) \<Rightarrow> (drop_cr l # xs, long)))"

definition scan_lines :: "string \<Rightarrow> string list \<times> bool" where
  "scan_lines text =
     (let ls = split_char CHR 0x0A text in scan (if last ls = [] then butlast ls else ls))"

definition decode_policy_event :: "string \<Rightarrow> policy_event option" where
  "decode_policy_event line =
     (let blank = \<lparr>pe_source = [], pe_event_type = [], pe_run_id = [], pe_session_id = [], pe_tool_call_id = [],
            pe_process_id = [], pe_snapshot_id = [], pe_dst_ip = [], pe_path = [], pe_args = None\<rparr> in
      case decode line of
        Some JNull \<Rightarrow> Some blank
      | Some (JObj kvs) \<Rightarrow>
          (case (those (map (\<lambda>k. string_field k kvs) [''source'', ''event_type'', ''run_id'', ''session_id'',
                   ''tool_call_id'', ''process_id'', ''snapshot_id'', ''dst_ip'', ''path'']),
                 (case jfield ''args'' kvs of None \<Rightarrow> Some None | Some JNull \<Rightarrow> Some None
                   | Some (JArr vs) \<Rightarrow> map_option Some (string_items vs) | Some _ \<Rightarrow> None)) of
             (Some [src, ty, run, se, tc, pr, sn, dst, p], Some args) \<Rightarrow>
               Some \<lparr>pe_source = src, pe_event_type = ty, pe_run_id = run, pe_session_id = se, pe_tool_call_id = tc,
                 pe_process_id = pr, pe_snapshot_id = sn, pe_dst_ip = dst, pe_path = p, pe_args = args\<rparr>
           | _ \<Rightarrow> None)
      | _ \<Rightarrow> None)"

text \<open>\<open>None\<close> for the world is a nil database; the result lists what was printed and the error.\<close>

fun evaluate_lines ::
  "engine \<Rightarrow> string list \<Rightarrow> world option \<Rightarrow> ((policy_event \<times> decision) list \<times> go_error option) \<times> world option" where
  "evaluate_lines en [] w = (([], None), w)"
| "evaluate_lines en (l # ls) w =
     (let line = trim_space l in
      if line = [] then evaluate_lines en ls w
      else case decode_policy_event line of
          None \<Rightarrow> (([], Some (Errorf ''json'')), w)
        | Some e \<Rightarrow>
            let d = evaluate en e;
                (x, w) = (case w of
                    None \<Rightarrow> (None, None)
                  | Some w \<Rightarrow> (case persist_decision e line d w of
                        (Inl x, w) \<Rightarrow> (Some x, Some w) | (Inr _, w) \<Rightarrow> (None, Some w)))
            in (case x of
                  Some x \<Rightarrow> (([], Some x), w)
                | None \<Rightarrow> (case evaluate_lines en ls w of ((out, x), w) \<Rightarrow> (((e, d) # out, x), w))))"

definition evaluate_jsonl ::
  "(string \<Rightarrow> bytes option) \<Rightarrow> engine \<Rightarrow> string \<Rightarrow> world option
     \<Rightarrow> ((policy_event \<times> decision) list \<times> go_error option) \<times> world option" where
  "evaluate_jsonl fs en path w =
     (case fs path of
        None \<Rightarrow> (([], Some (Errorf ''open'')), w)
      | Some text \<Rightarrow>
          (case scan_lines text of (ls, long) \<Rightarrow>
             (case evaluate_lines en ls w of ((out, x), w) \<Rightarrow>
                ((out, if x = None \<and> long then Some (Errorf ''bufio.Scanner: token too long'') else x), w))))"

section \<open>Listings\<close>

definition list_decisions :: "string \<Rightarrow> db \<Rightarrow> policy_decision list" where
  "list_decisions run d =
     order_desc pd_created_at (filter (\<lambda>p. run = [] \<or> pd_run_id p = Some run) (db_policy_decisions d))"

definition list_risk_signals :: "string \<Rightarrow> db \<Rightarrow> risk_signal list" where
  "list_risk_signals run d =
     order_desc rk_created_at (filter (\<lambda>r. run = [] \<or> rk_run_id r = run) (db_risk_signals d))"

definition list_response_actions :: "string \<Rightarrow> db \<Rightarrow> response_action list" where
  "list_response_actions run d =
     order_desc ra_created_at (filter (\<lambda>a. run = [] \<or> ra_run_id a = run) (db_response_actions d))"

definition command :: "bool \<Rightarrow> string \<Rightarrow> string" where
  "command ok v = (if \<not> ok then [] else v)"

fun unique_from :: "string list \<Rightarrow> string list \<Rightarrow> string list" where
  "unique_from seen [] = []"
| "unique_from seen (v # vs) =
     (if v = [] \<or> v \<in> set seen then unique_from seen vs else v # unique_from (v # seen) vs)"

definition unique_commands :: "string list \<Rightarrow> string list" where
  "unique_commands vs = unique_from [] vs"

definition risk_drilldowns :: "risk_signal \<Rightarrow> string list" where
  "risk_drilldowns r = unique_commands
     [command (rk_event_id r \<noteq> []) (''observe event --run '' @ rk_run_id r @ '' --event '' @ rk_event_id r),
      command (rk_event_id r \<noteq> []) (''graph explain --event '' @ rk_event_id r),
      command (rk_process_id r \<noteq> []) (''observe process --run '' @ rk_run_id r @ '' --process '' @ rk_process_id r),
      command (rk_tool_call_id r \<noteq> [])
        (''timeline --run '' @ rk_run_id r @ '' --tool-call '' @ rk_tool_call_id r @ '' --view causality''),
      command (rk_policy_decision_id r \<noteq> []) (''graph explain --risk '' @ rk_policy_decision_id r)]"

definition response_drilldowns :: "response_action \<Rightarrow> string list" where
  "response_drilldowns a = unique_commands
     [command (ra_process_id a \<noteq> []) (''observe process --run '' @ ra_run_id a @ '' --process '' @ ra_process_id a),
      command (ra_risk_signal_id a \<noteq> []) (''security risks --run '' @ ra_run_id a @ '' --json''),
      command (ra_policy_decision_id a \<noteq> []) (''graph explain --risk '' @ ra_policy_decision_id a),
      command (ra_target_type a = ''session'' \<and> ra_target_id a \<noteq> [])
        (''timeline --run '' @ ra_run_id a @ '' --view causality'')]"

end
