(* ===== verification/TelemetrySchema.thy ===== *)
theory TelemetrySchema
  imports Schema Json
begin

text \<open>
  \<open>internal/telemetry/schema.go\<close>: what a raw or stored telemetry payload must look like, and how an
  event's correlation is classified. The lemmas show that an accepted file path has no \<open>..\<close> component
  and that a stored payload is validated like the raw body it wraps.
\<close>

definition forbidden_raw_fields :: "string list" where
  "forbidden_raw_fields = [''run_id'', ''rollout_id'', ''attempt_id'', ''session_id'', ''tool_call_id'',
     ''process_id'', ''snapshot_id'', ''correlation'']"

fun has_forbidden_field :: "json \<Rightarrow> bool" where
  "has_forbidden_field (JObj kvs) \<longleftrightarrow>
     list_ex (\<lambda>(k, v). k \<in> set forbidden_raw_fields \<or> has_forbidden_field v) kvs"
| "has_forbidden_field (JArr vs) \<longleftrightarrow> list_ex has_forbidden_field vs"
| "has_forbidden_field _ \<longleftrightarrow> False"

definition decode_payload_object :: "string \<Rightarrow> (string \<times> json) list option" where
  "decode_payload_object payload =
     (case decode (if trim_space payload = [] then [CHR 0x7B, CHR 0x7D] else payload) of
        Some (JObj kvs) \<Rightarrow> Some kvs | _ \<Rightarrow> None)"

definition nested_object :: "string \<Rightarrow> (string \<times> json) list \<Rightarrow> (string \<times> json) list option" where
  "nested_object k kvs = (case jget k kvs of Some (JObj inner) \<Rightarrow> Some inner | _ \<Rightarrow> None)"

lemma nested_object_size [termination_simp]:
  "nested_object k kvs = Some inner \<Longrightarrow> size (JObj inner) < size (JObj kvs)"
proof -
  assume "nested_object k kvs = Some inner"
  then have "(k, JObj inner) \<in> set kvs"
    by (auto simp: nested_object_def jget_def dest!: map_of_SomeD split: option.splits json.splits)
  then have "size (JObj inner) \<le> size_list (size_prod (\<lambda>_. 0) size) kvs"
    by (rule size_list_estimation') simp
  then show ?thesis by simp
qed

function unwrap_stored_payload :: "(string \<times> json) list \<Rightarrow> (string \<times> json) list" where
  "unwrap_stored_payload cur =
     (case nested_object ''payload'' cur of
        Some nested \<Rightarrow> unwrap_stored_payload nested
      | None \<Rightarrow> (case nested_object ''raw'' cur of
            Some nested \<Rightarrow> unwrap_stored_payload nested | None \<Rightarrow> cur))"
  by pat_completeness auto
termination
  by (relation "measure (\<lambda>kvs. size (JObj kvs))") (auto dest: nested_object_size)

declare unwrap_stored_payload.simps [simp del]

definition body_string :: "string \<Rightarrow> (string \<times> json) list \<Rightarrow> string" where
  "body_string k body = (case jget k body of Some (JStr s) \<Rightarrow> trim_space s | _ \<Rightarrow> [])"

fun first_string :: "string list \<Rightarrow> (string \<times> json) list \<Rightarrow> string" where
  "first_string [] body = []"
| "first_string (k # ks) body = (if body_string k body \<noteq> [] then body_string k body else first_string ks body)"

definition has_number :: "string \<Rightarrow> (string \<times> json) list \<Rightarrow> bool" where
  "has_number k body = (case jget k body of Some (JNum _) \<Rightarrow> True | _ \<Rightarrow> False)"

definition string_slice :: "json option \<Rightarrow> string list option" where
  "string_slice v =
     (case v of
        Some (JArr items) \<Rightarrow>
          if items = [] then None
          else those (map (\<lambda>i. case i of JStr t \<Rightarrow> if trim_space t = [] then None else Some t | _ \<Rightarrow> None) items)
      | _ \<Rightarrow> None)"

definition valid_raw_path_text :: "string \<Rightarrow> bool" where
  "valid_raw_path_text p =
     (if p = [] \<or> p = ''.'' \<or> p = ''..'' then False
      else if has_prefix p ''../'' \<or> contains p ''/../'' \<or> has_suffix p ''/..'' then False else True)"

definition valid_raw_path :: "(string \<times> json) list \<Rightarrow> bool" where
  "valid_raw_path body = valid_raw_path_text (first_string [''path'', ''file''] body)"

text \<open>\<open>None\<close> when the body is valid, else the event type whose requirement failed.\<close>

definition validate_event_body :: "string \<Rightarrow> (string \<times> json) list \<Rightarrow> string option" where
  "validate_event_body ty body =
     (if ty = ''execve'' then
        (if string_slice (jget ''argv'' body) = None \<and> body_string ''command'' body = [] then Some ty else None)
      else if ty = ''process_exit'' then (if \<not> has_number ''exit_code'' body then Some ty else None)
      else if ty = ''process_observed'' then (if \<not> has_number ''pid'' body then Some ty else None)
      else if ty \<in> {''file_open'', ''file_write'', ''secret_path''} then
        (if \<not> valid_raw_path body then Some ty else None)
      else if ty \<in> {''network_connect'', ''metadata_ip'', ''private_cidr''} then
        (if first_string [''dst'', ''dst_ip'', ''host''] body = [] then Some ty else None)
      else if ty = ''abnormal_process_tree'' then
        (if \<not> has_number ''pid'' body \<and> body_string ''command'' body = [] then Some ty else None)
      else if ty = ''policy_verdict'' then
        (if first_string [''decision'', ''verdict''] body = [] then Some ty else None)
      else if ty = ''resource_pressure'' then
        (if first_string [''resource'', ''signal''] body = [] then Some ty else None)
      else None)"

datatype payload_error = NotAnObject | ForbiddenField | BadBody string

definition validate_body :: "string \<Rightarrow> (string \<times> json) list \<Rightarrow> payload_error option" where
  "validate_body ty body =
     (if has_forbidden_field (JObj body) then Some ForbiddenField
      else map_option BadBody (validate_event_body ty body))"

definition validate_raw_payload :: "string \<Rightarrow> string \<Rightarrow> payload_error option" where
  "validate_raw_payload ty payload =
     (case decode_payload_object payload of
        None \<Rightarrow> Some NotAnObject | Some raw \<Rightarrow> validate_body ty raw)"

definition validate_stored_payload :: "string \<Rightarrow> string \<Rightarrow> payload_error option" where
  "validate_stored_payload ty payload =
     (case decode_payload_object payload of
        None \<Rightarrow> Some NotAnObject | Some raw \<Rightarrow> validate_body ty (unwrap_stored_payload raw))"

section \<open>Correlation classes\<close>

definition correlation_class :: "string \<Rightarrow> string \<Rightarrow> rat \<Rightarrow> string" where
  "correlation_class source correlation confidence =
     (if source = ''record'' \<or> source = ''record_process_sample'' \<or> source = ''record_file_diff'' \<or>
         correlation = ''zero_sdk_process_tree'' then ''self_observed''
      else if correlation = ''provided_context'' then ''context_asserted''
      else if trim_space correlation = [] \<or> correlation = ''unresolved'' \<or> confidence = 0 then ''uncorrelated''
      else ''kernel_correlated'')"

definition self_launched :: "string \<Rightarrow> string \<Rightarrow> bool" where
  "self_launched source binding_source \<longleftrightarrow>
     source \<in> {''record'', ''record_process_sample'', ''record_file_diff''} \<or>
     binding_source \<in> {''zero_sdk_record'', ''zero_sdk_record_descendant'', ''rollout_local'',
       ''rollout_docker'', ''control_exec''}"

definition telemetry_source :: "string \<Rightarrow> string \<Rightarrow> bool" where
  "telemetry_source source correlation \<longleftrightarrow> trim_space correlation \<noteq> [] \<or>
     source \<in> {''filtered_telemetry'', ''wrapper_runtime'', ''tetragon_jsonl'', ''falco_jsonl'',
       ''loongcollector_jsonl'', ''agentprov_ebpf'', ''native_runtime'', ''record_file_diff'',
       ''record_process_sample''}"

definition receiver_name :: "string \<Rightarrow> string" where
  "receiver_name source =
     (if source = ''tetragon_jsonl'' then ''tetragon'' else if source = ''falco_jsonl'' then ''falco''
      else if source = ''loongcollector_jsonl'' then ''loongcollector''
      else if source = ''agentprov_ebpf'' then ''agentprov_sensor''
      else if source \<in> {''wrapper_runtime'', ''native_runtime'', ''record_file_diff'',
         ''record_process_sample'', ''filtered_telemetry''} then source
      else if trim_space source = [] then ''unknown'' else source)"

definition source_format :: "string \<Rightarrow> string" where
  "source_format source =
     (if source \<in> {''tetragon_jsonl'', ''falco_jsonl'', ''loongcollector_jsonl'', ''agentprov_ebpf''} then ''jsonl''
      else if source \<in> {''wrapper_runtime'', ''native_runtime'', ''record_file_diff'',
         ''record_process_sample'', ''filtered_telemetry''} then ''normalized''
      else ''unknown'')"

definition event_identity_keys :: "event \<Rightarrow> string list" where
  "event_identity_keys e = sort
     ((if ev_process_id e \<noteq> [] then [''process_id''] else []) @
      (if ev_container_id e \<noteq> [] then [''container_id''] else []) @
      (if ev_cgroup_id e \<noteq> [] then [''cgroup_id''] else []) @
      (if ev_pid e \<noteq> 0 then [''pid''] else []) @
      (if ev_tgid e \<noteq> 0 then [''tgid''] else []) @
      (if ev_ppid e \<noteq> 0 then [''ppid''] else []))"

record event_explanation =
  ex_receiver :: string
  ex_source_format :: string
  ex_raw_event_id :: string
  ex_event_type :: string
  ex_schema_status :: string
  ex_schema_error :: "payload_error option"
  ex_identity_keys :: "string list"
  ex_method :: string
  ex_confidence :: rat
  ex_class :: string
  ex_status :: string

definition explain_event_record :: "event \<Rightarrow> event_explanation" where
  "explain_event_record e =
     (let err = validate_stored_payload (ev_event_type e) (ev_payload e);
          correlation = ev_correlation_method e in
      \<lparr>ex_receiver = receiver_name (ev_source e), ex_source_format = source_format (ev_source e),
       ex_raw_event_id = ev_raw_event_id e, ex_event_type = ev_event_type e,
       ex_schema_status = (if err = None then ''valid'' else ''invalid''), ex_schema_error = err,
       ex_identity_keys = event_identity_keys e, ex_method = correlation,
       ex_confidence = ev_correlation_confidence e,
       ex_class = correlation_class (ev_source e) correlation (ev_correlation_confidence e),
       ex_status =
         (if trim_space correlation = ''unresolved'' \<or> ev_correlation_confidence e = 0 then ''unresolved''
          else if trim_space correlation \<noteq> [] \<and> correlation \<noteq> ''provided_context'' then ''resolved''
          else ''provided'')\<rparr>)"

section \<open>Lemmas\<close>

lemma dotdot_component:
  "''..'' \<in> set (split_char CHR ''/'' p) \<longleftrightarrow>
     p = ''..'' \<or> has_prefix p ''../'' \<or> contains p ''/../'' \<or> has_suffix p ''/..''"
proof
  assume "''..'' \<in> set (split_char CHR ''/'' p)"
  then obtain us vs where s: "split_char CHR ''/'' p = us @ ''..'' # vs" by (meson split_list)
  have p: "p = join ''/'' (us @ ''..'' # vs)" using join_split_char [of "CHR ''/''" p] s by simp
  have j: "us \<noteq> [] \<Longrightarrow> ws \<noteq> [] \<Longrightarrow> join ''/'' (us @ ws) = join ''/'' us @ ''/'' @ join ''/'' ws" for us ws
    by (induction us rule: induct_list012) (auto simp: neq_Nil_conv)
  show "p = ''..'' \<or> has_prefix p ''../'' \<or> contains p ''/../'' \<or> has_suffix p ''/..''"
  proof (cases "us = []")
    case True
    show ?thesis
    proof (cases "vs = []")
      case False
      then have "p = ''../'' @ join ''/'' vs" using p True j [of "[''..'']" vs] by simp
      then show ?thesis by (metis has_prefix_append)
    qed (use p True in simp)
  next
    case False
    then have q: "p = join ''/'' us @ ''/'' @ join ''/'' (''..'' # vs)" using p j by simp
    show ?thesis
    proof (cases "vs = []")
      case True
      with q have "p = join ''/'' us @ ''/..''" by simp
      then show ?thesis by (metis has_suffix_iff)
    next
      case False
      then have "join ''/'' (''..'' # vs) = ''../'' @ join ''/'' vs" using j [of "[''..'']" vs] by simp
      with q have "p = join ''/'' us @ ''/../'' @ join ''/'' vs" by simp
      then show ?thesis by (metis contains_iff)
    qed
  qed
next
  have split_app: "split_char CHR ''/'' (u @ CHR ''/'' # v) = split_char CHR ''/'' u @ split_char CHR ''/'' v" for u v
    by (induction u) (auto split: list.split)
  assume "p = ''..'' \<or> has_prefix p ''../'' \<or> contains p ''/../'' \<or> has_suffix p ''/..''"
  then consider "p = ''..''" | t where "p = ''..'' @ CHR ''/'' # t"
    | u v where "p = u @ CHR ''/'' # (''..'' @ CHR ''/'' # v)" | u where "p = u @ CHR ''/'' # ''..''"
    by (auto simp: has_prefix_iff contains_iff has_suffix_iff)
  then show "''..'' \<in> set (split_char CHR ''/'' p)"
    by cases (simp_all only: split_app, auto)
qed

subsection \<open>Properties\<close>

text \<open>\<open>validRawPath\<close> rejects exactly the empty path, \<open>.\<close> and the paths with a \<open>..\<close>
component: a path of a file event that passes validation cannot climb out of a directory it is
joined to, and no other path is refused.\<close>

theorem valid_raw_path_iff:
  "valid_raw_path body \<longleftrightarrow>
     (let p = first_string [''path'', ''file''] body in
      p \<noteq> [] \<and> p \<noteq> ''.'' \<and> ''..'' \<notin> set (split_char CHR ''/'' p))"
  unfolding valid_raw_path_def valid_raw_path_text_def dotdot_component Let_def by simp

text \<open>Validating a stored payload is validating the raw body it wraps. Storing a body under
\<open>payload\<close>, or under \<open>raw\<close>, any number of times does not change the verdict, so a body that
\<open>ValidateRawPayload\<close> accepted before it was stored is accepted by \<open>ValidateStoredPayload\<close> after, and
conversely, when the body has no object of its own under those two names.\<close>

fun wrap_times :: "bool list \<Rightarrow> (string \<times> json) list \<Rightarrow> (string \<times> json) list" where
  "wrap_times [] body = body"
| "wrap_times (b # bs) body = [(if b then ''payload'' else ''raw'', JObj (wrap_times bs body))]"

theorem stored_payload_like_raw:
  assumes "nested_object ''payload'' body = None" "nested_object ''raw'' body = None"
    and "decode_payload_object stored = Some (wrap_times bs body)"
    and "decode_payload_object raw = Some body"
  shows "validate_stored_payload ty stored = validate_raw_payload ty raw"
proof -
  have "unwrap_stored_payload (wrap_times bs body) = body"
  proof (induction bs)
    case Nil
    with assms(1,2) show ?case by (simp add: unwrap_stored_payload.simps)
  next
    case (Cons b bs)
    then show ?case by (subst unwrap_stored_payload.simps) (simp add: nested_object_def jget_def)
  qed
  with assms(3,4) show ?thesis by (simp add: validate_stored_payload_def validate_raw_payload_def)
qed

lemma stored_payload_like_raw_witness:
  "validate_stored_payload ''ptrace'' (CHR 0x7B # CHR 0x22 # ''raw'' @ CHR 0x22 # '':'' @ [CHR 0x7B, CHR 0x7D, CHR 0x7D])
     = validate_raw_payload ''ptrace'' [CHR 0x7B, CHR 0x7D]"
  by (rule stored_payload_like_raw [where body = "[]" and bs = "[False]"])
    (simp_all add: nested_object_def decode_payload_object_def trim_space_def trim_left_def trim_right_def
      is_space_def json_eval)

end
