(* ===== verification/Replay.thy ===== *)
theory Replay
  imports World
begin

text \<open>
  \<open>internal/provenance/replay.go\<close>: the replay manifest of a run or of one attempt, rebuilt from the
  store. The file system is a function from paths to contents and SHA-256 a function from bytes to
  the hexadecimal digest. The lemmas show which attempts are blocked, that a manifest lists the run's
  rollouts in order, and that an attempt without a tool call picks up rows of other runs.
\<close>

section \<open>The model\<close>

record artifact_digest =
  ad_path :: string
  ad_exists :: bool
  ad_sha256 :: string
  ad_bytes :: nat

record replay_snapshot =
  rsn_id :: string
  rsn_name :: string
  rsn_kind :: string
  rsn_physical :: string
  rsn_path :: string
  rsn_manifest_hash :: string
  rsn_file_count :: int
  rsn_bytes :: int
  rsn_status :: string
  rsn_tainted :: bool

record replay_tool_call =
  rtc_id :: string
  rtc_session_id :: string
  rtc_command :: string
  rtc_status :: string
  rtc_exit_code :: int
  rtc_wall_ms :: int
  rtc_cost :: rat
  rtc_result_ref :: string
  rtc_policy :: string
  rtc_started_at :: string
  rtc_ended_at :: string

record replay_process =
  rpr_id :: string
  rpr_session_id :: string
  rpr_command :: string
  rpr_status :: string
  rpr_exit_code :: int
  rpr_started_at :: string
  rpr_ended_at :: string

record replay_effect =
  ref_id :: string
  ref_type :: string
  ref_target :: string
  ref_mode :: string
  ref_decision :: string
  ref_compensation :: string
  ref_status :: string
  ref_payload :: string

record replay_event =
  rev_id :: string
  rev_type :: string
  rev_source :: string
  rev_process_id :: string
  rev_snapshot_id :: string
  rev_method :: string
  rev_confidence :: rat
  rev_payload :: string

record replay_attempt =
  rat_id :: string
  rat_snapshot_id :: string
  rat_tool_call_id :: string
  rat_workspace :: string
  rat_strategy :: string
  rat_command :: string
  rat_status :: string
  rat_risk_status :: string
  rat_artifact_result :: string
  rat_artifact_digest :: "artifact_digest option"
  rat_is_winner :: bool
  rat_budget_exceeded :: bool
  rat_block_reasons :: "string list"
  rat_replay_blocked :: bool
  rat_score :: rat
  rat_cost :: rat
  rat_tool_call :: "replay_tool_call option"
  rat_processes :: "replay_process list"
  rat_effects :: "replay_effect list"
  rat_events :: "replay_event list"

record replay_rollout =
  rro_id :: string
  rro_run_id :: string
  rro_base_snapshot_id :: string
  rro_status :: string
  rro_winner_attempt_id :: string
  rro_promotion_id :: string
  rro_risk_status :: string
  rro_base_snapshot :: "replay_snapshot option"
  rro_attempts :: "replay_attempt list"

record replay_manifest =
  rma_schema_version :: string
  rma_mode :: string
  rma_scope :: string
  rma_run_id :: string
  rma_attempt_id :: string
  rma_rollouts :: "replay_rollout list"

datatype replay_error = RunRequired | AttemptRequired | ReplayNoRows | NoRollouts string | AttemptNotFound string string

text \<open>SQL's \<open>LIKE\<close>: \<open>%\<close> is any run of characters, \<open>_\<close> any one, letter case is ignored.\<close>

fun like :: "string \<Rightarrow> string \<Rightarrow> bool" where
  "like [] s = (s = [])"
| "like (p # ps) [] = (p = CHR ''%'' \<and> like ps [])"
| "like (p # ps) (c # s) =
     (if p = CHR ''%'' then like ps (c # s) \<or> like (p # ps) s
      else (p = CHR ''_'' \<or> ascii_lower p = ascii_lower c) \<and> like ps s)"

definition file_digest :: "(bytes \<Rightarrow> string) \<Rightarrow> (string \<Rightarrow> bytes option) \<Rightarrow> string \<Rightarrow> string \<times> nat \<times> bool" where
  "file_digest sha fs path =
     (case fs path of None \<Rightarrow> ([], 0, False) | Some raw \<Rightarrow> (''sha256:'' @ sha raw, length raw, True))"

definition replay_block_reasons :: "string \<Rightarrow> string \<Rightarrow> bool \<Rightarrow> string list" where
  "replay_block_reasons status risk budget =
     (if status = ''quarantined'' then [''attempt_quarantined''] else []) @
     (if risk = ''tainted'' then [''risk_tainted''] else []) @
     (if budget then [''budget_exceeded''] else [])"

definition build_replay_snapshot :: "db \<Rightarrow> string \<Rightarrow> replay_error + replay_snapshot" where
  "build_replay_snapshot d i =
     res_bind (find_row ReplayNoRows (\<lambda>s. sn_id s = i) (db_snapshots d)) (\<lambda>s.
       Inr \<lparr>rsn_id = sn_id s, rsn_name = coalesce (sn_name s), rsn_kind = sn_kind s,
         rsn_physical = sn_snapshot_physical_type s, rsn_path = sn_path s, rsn_manifest_hash = sn_manifest_hash s,
         rsn_file_count = sn_file_count s, rsn_bytes = sn_bytes s, rsn_status = sn_status s,
         rsn_tainted = (sn_tainted s \<noteq> 0)\<rparr>)"

definition coalesce_int :: "int option \<Rightarrow> int" where
  "coalesce_int x = (case x of None \<Rightarrow> 0 | Some i \<Rightarrow> i)"

definition build_replay_tool_call :: "db \<Rightarrow> string \<Rightarrow> replay_error + replay_tool_call" where
  "build_replay_tool_call d i =
     res_bind (find_row ReplayNoRows (\<lambda>t. tc_id t = i) (db_tool_calls d)) (\<lambda>t.
       Inr \<lparr>rtc_id = tc_id t, rtc_session_id = tc_session_id t, rtc_command = tc_command t,
         rtc_status = tc_status t, rtc_exit_code = coalesce_int (tc_exit_code t), rtc_wall_ms = tc_wall_ms t,
         rtc_cost = tc_cost_estimate t, rtc_result_ref = tc_result_ref t, rtc_policy = tc_policy_decision t,
         rtc_started_at = tc_started_at t, rtc_ended_at = tc_ended_at t\<rparr>)"

definition build_replay_processes :: "db \<Rightarrow> string \<Rightarrow> replay_process list" where
  "build_replay_processes d tool_call =
     (if tool_call = [] then []
      else map (\<lambda>p. \<lparr>rpr_id = pr_id p, rpr_session_id = pr_session_id p, rpr_command = pr_command p,
             rpr_status = pr_status p, rpr_exit_code = coalesce_int (pr_exit_code p),
             rpr_started_at = pr_started_at p, rpr_ended_at = coalesce (pr_ended_at p)\<rparr>)
           (order_asc pr_started_at (filter (\<lambda>p. pr_tool_call_id p = tool_call) (db_processes d))))"

definition build_replay_external_effects :: "db \<Rightarrow> string \<Rightarrow> string \<Rightarrow> replay_effect list" where
  "build_replay_external_effects d attempt tool_call =
     map (\<lambda>e. \<lparr>ref_id = ef_id e, ref_type = ef_effect_type e, ref_target = ef_target e, ref_mode = ef_mode e,
            ref_decision = ef_decision e, ref_compensation = ef_compensation_ref e, ref_status = ef_status e,
            ref_payload = ef_payload e\<rparr>)
       (order_asc ef_created_at
         (filter (\<lambda>e. ef_attempt_id e = attempt \<or> ef_tool_call_id e = tool_call) (db_external_effects d)))"

definition build_replay_events :: "db \<Rightarrow> string \<Rightarrow> string \<Rightarrow> replay_event list" where
  "build_replay_events d attempt tool_call =
     map (\<lambda>e. \<lparr>rev_id = ev_id e, rev_type = ev_event_type e, rev_source = ev_source e,
            rev_process_id = ev_process_id e, rev_snapshot_id = ev_snapshot_id e,
            rev_method = ev_correlation_method e, rev_confidence = ev_correlation_confidence e,
            rev_payload = ev_payload e\<rparr>)
       (order_asc ev_created_at
         (filter (\<lambda>e. ev_tool_call_id e = tool_call \<or> like (''%'' @ attempt @ ''%'') (ev_payload e)) (db_events d)))"

definition build_replay_attempt_node ::
  "(bytes \<Rightarrow> string) \<Rightarrow> (string \<Rightarrow> bytes option) \<Rightarrow> db \<Rightarrow> string \<Rightarrow> string \<Rightarrow> replay_error + replay_attempt" where
  "build_replay_attempt_node sha fs d rollout attempt =
     res_bind (find_row ReplayNoRows (\<lambda>a. fa_id a = attempt \<and> fa_rollout_id a = rollout) (db_fork_attempts d)) (\<lambda>a.
     res_bind (if fa_tool_call_id a \<noteq> [] then map_sum id Some (build_replay_tool_call d (fa_tool_call_id a))
               else Inr None) (\<lambda>tool_call.
     let reasons = replay_block_reasons (fa_status a) (fa_risk_status a) (fa_budget_exceeded a \<noteq> 0) in
       Inr \<lparr>rat_id = fa_id a, rat_snapshot_id = fa_snapshot_id a, rat_tool_call_id = fa_tool_call_id a,
         rat_workspace = fa_workspace_path a, rat_strategy = fa_strategy a, rat_command = fa_command a,
         rat_status = fa_status a, rat_risk_status = fa_risk_status a, rat_artifact_result = fa_artifact_result a,
         rat_artifact_digest =
           (if fa_artifact_result a \<noteq> [] then
              (case file_digest sha fs (fa_artifact_result a) of (h, n, ok) \<Rightarrow>
                 Some \<lparr>ad_path = fa_artifact_result a, ad_exists = ok, ad_sha256 = h, ad_bytes = n\<rparr>)
            else None),
         rat_is_winner = (fa_is_winner a \<noteq> 0), rat_budget_exceeded = (fa_budget_exceeded a \<noteq> 0),
         rat_block_reasons = reasons, rat_replay_blocked = (length reasons > 0),
         rat_score = fa_score a, rat_cost = fa_cost_estimate a, rat_tool_call = tool_call,
         rat_processes = build_replay_processes d (fa_tool_call_id a),
         rat_effects = build_replay_external_effects d (fa_id a) (fa_tool_call_id a),
         rat_events = build_replay_events d (fa_id a) (fa_tool_call_id a)\<rparr>))"

definition build_replay_rollout ::
  "(bytes \<Rightarrow> string) \<Rightarrow> (string \<Rightarrow> bytes option) \<Rightarrow> db \<Rightarrow> string \<Rightarrow> string \<Rightarrow> replay_error + replay_rollout" where
  "build_replay_rollout sha fs d rollout only =
     res_bind (find_row ReplayNoRows (\<lambda>r. ro_id r = rollout) (db_rollouts d)) (\<lambda>r.
     res_bind (if ro_base_snapshot_id r \<noteq> [] then map_sum id Some (build_replay_snapshot d (ro_base_snapshot_id r))
               else Inr None) (\<lambda>base.
     res_bind (res_map (build_replay_attempt_node sha fs d rollout)
         (map fa_id (order_asc (\<lambda>a. - fa_is_winner a) (order_asc fa_created_at
            (filter (\<lambda>a. fa_rollout_id a = rollout \<and> (only = [] \<or> fa_id a = only)) (db_fork_attempts d)))))) (\<lambda>attempts.
     if only \<noteq> [] \<and> length attempts = 0 then Inl (AttemptNotFound only rollout)
     else Inr \<lparr>rro_id = ro_id r, rro_run_id = ro_run_id r, rro_base_snapshot_id = ro_base_snapshot_id r,
         rro_status = ro_status r, rro_winner_attempt_id = ro_winner_attempt_id r,
         rro_promotion_id = ro_promotion_id r, rro_risk_status = ro_risk_status r,
         rro_base_snapshot = base, rro_attempts = attempts\<rparr>)))"

definition replay_schema :: string where
  "replay_schema = ''agentprovenance.replay/v1''"

definition build_replay_run ::
  "(bytes \<Rightarrow> string) \<Rightarrow> (string \<Rightarrow> bytes option) \<Rightarrow> db \<Rightarrow> string \<Rightarrow> replay_error + replay_manifest" where
  "build_replay_run sha fs d run =
     (if run = [] then Inl RunRequired
      else
        let ids = map ro_id (order_asc ro_created_at (filter (\<lambda>r. ro_run_id r = run) (db_rollouts d)))
        in res_bind (res_map (\<lambda>i. build_replay_rollout sha fs d i []) ids) (\<lambda>rollouts.
             if ids = [] then Inl (NoRollouts run)
             else Inr \<lparr>rma_schema_version = replay_schema, rma_mode = ''plan_only'', rma_scope = ''run'',
               rma_run_id = run, rma_attempt_id = [], rma_rollouts = rollouts\<rparr>))"

definition build_replay_attempt ::
  "(bytes \<Rightarrow> string) \<Rightarrow> (string \<Rightarrow> bytes option) \<Rightarrow> db \<Rightarrow> string \<Rightarrow> replay_error + replay_manifest" where
  "build_replay_attempt sha fs d attempt =
     (if attempt = [] then Inl AttemptRequired
      else
        res_bind (find_row ReplayNoRows (\<lambda>a. fa_id a = attempt) (db_fork_attempts d)) (\<lambda>a.
        res_bind (find_row ReplayNoRows (\<lambda>r. ro_id r = fa_rollout_id a) (db_rollouts d)) (\<lambda>r.
        res_bind (build_replay_rollout sha fs d (fa_rollout_id a) attempt) (\<lambda>rollout.
          Inr \<lparr>rma_schema_version = replay_schema, rma_mode = ''plan_only'', rma_scope = ''execution_scope'',
            rma_run_id = ro_run_id r, rma_attempt_id = attempt, rma_rollouts = [rollout]\<rparr>))))"

section \<open>Lemmas\<close>

lemma order_asc_set [simp]: "set (order_asc k rs) = set rs"
  by (simp add: order_asc_def)

lemma map_sum_Inr_iff: "map_sum id Some r = Inr y \<longleftrightarrow> (\<exists>x. r = Inr x \<and> y = Some x)"
  by (cases r) auto

lemma attempt_node_facts:
  assumes "build_replay_attempt_node sha fs d rollout attempt = Inr n"
  obtains a where "a \<in> set (db_fork_attempts d)" "fa_id a = attempt" "fa_rollout_id a = rollout"
    "rat_id n = attempt" "rat_tool_call_id n = fa_tool_call_id a" "rat_is_winner n = (fa_is_winner a \<noteq> 0)"
    "rat_status n = fa_status a" "rat_risk_status n = fa_risk_status a"
    "rat_budget_exceeded n = (fa_budget_exceeded a \<noteq> 0)"
    "rat_block_reasons n = replay_block_reasons (fa_status a) (fa_risk_status a) (fa_budget_exceeded a \<noteq> 0)"
    "rat_replay_blocked n = (rat_block_reasons n \<noteq> [])"
    "rat_tool_call_id n \<noteq> [] \<Longrightarrow> rat_tool_call n \<noteq> None"
    "rat_artifact_result n \<noteq> [] \<Longrightarrow> rat_artifact_digest n \<noteq> None"
    "rat_effects n = build_replay_external_effects d attempt (fa_tool_call_id a)"
    "rat_events n = build_replay_events d attempt (fa_tool_call_id a)"
proof -
  from assms obtain a tc where a: "find_row ReplayNoRows (\<lambda>a. fa_id a = attempt \<and> fa_rollout_id a = rollout)
      (db_fork_attempts d) = Inr a"
    and tc: "(if fa_tool_call_id a \<noteq> [] then map_sum id Some (build_replay_tool_call d (fa_tool_call_id a))
       else Inr None) = Inr tc"
    and n: "n = \<lparr>rat_id = fa_id a, rat_snapshot_id = fa_snapshot_id a, rat_tool_call_id = fa_tool_call_id a,
         rat_workspace = fa_workspace_path a, rat_strategy = fa_strategy a, rat_command = fa_command a,
         rat_status = fa_status a, rat_risk_status = fa_risk_status a, rat_artifact_result = fa_artifact_result a,
         rat_artifact_digest =
           (if fa_artifact_result a \<noteq> [] then
              (case file_digest sha fs (fa_artifact_result a) of (h, n, ok) \<Rightarrow>
                 Some \<lparr>ad_path = fa_artifact_result a, ad_exists = ok, ad_sha256 = h, ad_bytes = n\<rparr>)
            else None),
         rat_is_winner = (fa_is_winner a \<noteq> 0), rat_budget_exceeded = (fa_budget_exceeded a \<noteq> 0),
         rat_block_reasons = replay_block_reasons (fa_status a) (fa_risk_status a) (fa_budget_exceeded a \<noteq> 0),
         rat_replay_blocked =
           (length (replay_block_reasons (fa_status a) (fa_risk_status a) (fa_budget_exceeded a \<noteq> 0)) > 0),
         rat_score = fa_score a, rat_cost = fa_cost_estimate a, rat_tool_call = tc,
         rat_processes = build_replay_processes d (fa_tool_call_id a),
         rat_effects = build_replay_external_effects d (fa_id a) (fa_tool_call_id a),
         rat_events = build_replay_events d (fa_id a) (fa_tool_call_id a)\<rparr>"
    unfolding build_replay_attempt_node_def Let_def res_bind_Inr_iff by blast
  from find_row_Inr [OF a] have "a \<in> set (db_fork_attempts d)" "fa_id a = attempt" "fa_rollout_id a = rollout"
    by simp_all
  moreover have "fa_tool_call_id a \<noteq> [] \<Longrightarrow> tc \<noteq> None" using tc by (auto simp: map_sum_Inr_iff)
  ultimately show ?thesis
    by (intro that [of a]) (simp_all add: n split: prod.split)
qed

lemma rollout_facts:
  assumes "build_replay_rollout sha fs d rollout only = Inr r"
  shows "rro_id r = rollout" "rro_base_snapshot_id r \<noteq> [] \<Longrightarrow> rro_base_snapshot r \<noteq> None"
    "a \<in> set (rro_attempts r) \<Longrightarrow> \<exists>i. build_replay_attempt_node sha fs d rollout i = Inr a"
    "\<exists>row \<in> set (db_rollouts d). ro_id row = rollout \<and> rro_status r = ro_status row \<and>
       rro_winner_attempt_id r = ro_winner_attempt_id row"
proof -
  from assms obtain row base attempts where
    row: "find_row ReplayNoRows (\<lambda>r. ro_id r = rollout) (db_rollouts d) = Inr row" and
    base: "(if ro_base_snapshot_id row \<noteq> []
      then map_sum id Some (build_replay_snapshot d (ro_base_snapshot_id row)) else Inr None) = Inr base" and
    att: "res_map (build_replay_attempt_node sha fs d rollout)
         (map fa_id (order_asc (\<lambda>a. - fa_is_winner a) (order_asc fa_created_at
            (filter (\<lambda>a. fa_rollout_id a = rollout \<and> (only = [] \<or> fa_id a = only)) (db_fork_attempts d)))))
       = Inr attempts" and
    r: "r = \<lparr>rro_id = ro_id row, rro_run_id = ro_run_id row, rro_base_snapshot_id = ro_base_snapshot_id row,
         rro_status = ro_status row, rro_winner_attempt_id = ro_winner_attempt_id row,
         rro_promotion_id = ro_promotion_id row, rro_risk_status = ro_risk_status row,
         rro_base_snapshot = base, rro_attempts = attempts\<rparr>"
    by (auto simp: build_replay_rollout_def res_bind_Inr_iff split: if_splits)
  note * = find_row_Inr [OF row]
  show "rro_id r = rollout" using * r by simp
  show "rro_base_snapshot_id r \<noteq> [] \<Longrightarrow> rro_base_snapshot r \<noteq> None"
    using base r by (auto simp: map_sum_Inr_iff)
  show "a \<in> set (rro_attempts r) \<Longrightarrow> \<exists>i. build_replay_attempt_node sha fs d rollout i = Inr a"
    using res_map_Inr [OF att] r by (auto simp: list_all2_conv_all_nth in_set_conv_nth)
  show "\<exists>row \<in> set (db_rollouts d). ro_id row = rollout \<and> rro_status r = ro_status row \<and>
       rro_winner_attempt_id r = ro_winner_attempt_id row"
    using * r by (intro bexI [of _ row]) simp_all
qed

lemma replay_run_facts:
  assumes "build_replay_run sha fs d run = Inr m"
  shows "rma_schema_version m = replay_schema" "rma_rollouts m \<noteq> []"
    "map rro_id (rma_rollouts m) =
       map ro_id (order_asc ro_created_at (filter (\<lambda>r. ro_run_id r = run) (db_rollouts d)))"
    "r \<in> set (rma_rollouts m) \<Longrightarrow> \<exists>i. build_replay_rollout sha fs d i [] = Inr r"
proof -
  define ids where "ids = map ro_id (order_asc ro_created_at (filter (\<lambda>r. ro_run_id r = run) (db_rollouts d)))"
  from assms obtain rollouts where
    ro: "res_map (\<lambda>i. build_replay_rollout sha fs d i []) ids = Inr rollouts" and "ids \<noteq> []" and
    m: "m = \<lparr>rma_schema_version = replay_schema, rma_mode = ''plan_only'', rma_scope = ''run'',
               rma_run_id = run, rma_attempt_id = [], rma_rollouts = rollouts\<rparr>"
    by (auto simp: build_replay_run_def res_bind_Inr_iff Let_def ids_def split: if_splits)
  note all = res_map_Inr [OF ro]
  have "map rro_id rollouts = ids"
    using all by - (rule nth_equalityI, auto simp: list_all2_conv_all_nth dest: rollout_facts(1))
  then show "map rro_id (rma_rollouts m) =
       map ro_id (order_asc ro_created_at (filter (\<lambda>r. ro_run_id r = run) (db_rollouts d)))"
    by (simp add: m ids_def)
  with \<open>ids \<noteq> []\<close> show "rma_rollouts m \<noteq> []" by (auto simp: ids_def)
  show "rma_schema_version m = replay_schema" by (simp add: m)
  show "r \<in> set (rma_rollouts m) \<Longrightarrow> \<exists>i. build_replay_rollout sha fs d i [] = Inr r"
    using all m by (auto simp: list_all2_conv_all_nth in_set_conv_nth)
qed

subsection \<open>Properties\<close>


definition toy_rollout :: rollout where
  "toy_rollout = \<lparr>ro_id = ''roll-1'', ro_run_id = ''run-1'', ro_task_path = [], ro_base_snapshot_id = [],
     ro_status = ''completed'', ro_fanout = 1, ro_budget_seconds = 0, ro_max_cost = 0,
     ro_winner_attempt_id = ''att-1'', ro_promotion_id = [], ro_cost_estimate = 0, ro_risk_status = ''clean'',
     ro_created_at = ''t'', ro_updated_at = ''t''\<rparr>"

definition toy_attempt :: fork_attempt where
  "toy_attempt = \<lparr>fa_id = ''att-1'', fa_rollout_id = ''roll-1'', fa_tool_call_id = [], fa_snapshot_id = ''snap-1'',
     fa_workspace_path = [], fa_fork_ms = 0, fa_strategy = [], fa_command = [], fa_status = ''quarantined'',
     fa_exit_code = None, fa_wall_ms = 0, fa_output_summary = [], fa_score = 0, fa_is_winner = 1,
     fa_budget_seconds = 0, fa_artifact_result = [], fa_cost_estimate = 0, fa_saved_cost = 0,
     fa_risk_status = [], fa_budget_exceeded = 0, fa_created_at = ''t''\<rparr>"

definition toy_effect :: external_effect where
  "toy_effect = \<lparr>ef_id = ''eff-9'', ef_run_id = ''run-2'', ef_rollout_id = [], ef_attempt_id = ''att-9'',
     ef_session_id = [], ef_tool_call_id = [], ef_process_id = [], ef_effect_type = ''http'', ef_target = ''x'',
     ef_mode = ''mock'', ef_decision = ''allow'', ef_compensation_ref = [], ef_payload = [],
     ef_status = ''recorded'', ef_created_at = ''t''\<rparr>"

definition toy_replay_db :: db where
  "toy_replay_db = empty_db\<lparr>db_rollouts := [toy_rollout], db_fork_attempts := [toy_attempt],
     db_external_effects := [toy_effect]\<rparr>"

lemma toy_replay_node:
  "\<exists>n. build_replay_attempt_node sha fs toy_replay_db ''roll-1'' ''att-1'' = Inr n"
  by (simp add: build_replay_attempt_node_def find_row_def toy_replay_db_def toy_attempt_def Let_def)

lemma toy_replay_run: "\<exists>m. build_replay_run sha fs toy_replay_db ''run-1'' = Inr m"
proof -
  obtain n where "build_replay_attempt_node sha fs toy_replay_db ''roll-1'' ''att-1'' = Inr n"
    using toy_replay_node by blast
  moreover have "filter (\<lambda>a. fa_rollout_id a = ''roll-1'' \<and> ([] = [] \<or> fa_id a = [])) (db_fork_attempts toy_replay_db)
      = [toy_attempt]" "fa_id toy_attempt = ''att-1''"
    by (simp_all add: toy_replay_db_def toy_attempt_def)
  moreover have "find_row ReplayNoRows (\<lambda>r. ro_id r = ''roll-1'') (db_rollouts toy_replay_db) = Inr toy_rollout"
    "ro_base_snapshot_id toy_rollout = []"
    by (simp_all add: find_row_def toy_replay_db_def toy_rollout_def)
  ultimately have "\<exists>r. build_replay_rollout sha fs toy_replay_db ''roll-1'' [] = Inr r"
    by (simp add: build_replay_rollout_def order_asc_def)
  moreover have "filter (\<lambda>r. ro_run_id r = ''run-1'') (db_rollouts toy_replay_db) = [toy_rollout]"
    "ro_id toy_rollout = ''roll-1''"
    by (simp_all add: toy_replay_db_def toy_rollout_def)
  ultimately show ?thesis by (auto simp: build_replay_run_def order_asc_def Let_def)
qed


text \<open>The replay plan of an attempt without a tool call takes in the rows of other runs. The
effects and events are selected with \<open>tool_call_id = ?\<close> and the empty id is passed, so every external
effect and every event of the whole store whose tool call is empty, of whatever run and attempt, is
part of the plan (the process query next to them guards against the empty id).\<close>

theorem replay_attempt_leaks_other_runs:
  assumes "build_replay_attempt_node sha fs d rollout attempt = Inr n" "rat_tool_call_id n = []"
  shows "(\<forall>e \<in> set (db_external_effects d). ef_tool_call_id e = [] \<longrightarrow> ef_id e \<in> ref_id ` set (rat_effects n)) \<and>
    (\<forall>e \<in> set (db_events d). ev_tool_call_id e = [] \<longrightarrow> ev_id e \<in> rev_id ` set (rat_events n))"
proof -
  have "\<exists>a :: fork_attempt. rat_tool_call_id n = fa_tool_call_id a \<and>
    rat_effects n = build_replay_external_effects d attempt (fa_tool_call_id a) \<and>
    rat_events n = build_replay_events d attempt (fa_tool_call_id a)"
    using assms(1) by (rule attempt_node_facts) blast
  with assms(2) have n: "rat_effects n = build_replay_external_effects d attempt []"
    "rat_events n = build_replay_events d attempt []" by metis+
  show ?thesis unfolding n build_replay_external_effects_def build_replay_events_def by (simp add: image_image)
qed

lemma replay_attempt_leaks_other_runs_witness:
  "\<exists>n. build_replay_attempt_node id (\<lambda>_. None) toy_replay_db ''roll-1'' ''att-1'' = Inr n \<and>
     ''eff-9'' \<in> ref_id ` set (rat_effects n)"
proof -
  obtain n where n: "build_replay_attempt_node id (\<lambda>_. None) toy_replay_db ''roll-1'' ''att-1'' = Inr n"
    using toy_replay_node by blast
  then have "\<exists>a \<in> set (db_fork_attempts toy_replay_db). rat_tool_call_id n = fa_tool_call_id a"
    by (rule attempt_node_facts) blast
  then have "rat_tool_call_id n = []" by (auto simp: toy_replay_db_def toy_attempt_def)
  note replay_attempt_leaks_other_runs [OF n this]
  moreover have "toy_effect \<in> set (db_external_effects toy_replay_db)" "ef_tool_call_id toy_effect = []"
    "ef_id toy_effect = ''eff-9''" by (simp_all add: toy_replay_db_def toy_effect_def)
  ultimately show ?thesis using n by force
qed

end
