(* ===== verification/Verify.thy ===== *)
theory Verify
  imports World TelemetrySchema Replay
begin

text \<open>
  \<open>internal/provenance/verify.go\<close>: \<open>graph verify\<close>. Every check is a function from the store to the
  issues it adds, in the order the code adds them; an issue keeps its severity, its kind and the row it
  is about (the message text is not modelled). Reads are taken to succeed. The lemmas show what the
  counters and the status of a result mean, that the in-memory edge and attempt lookups of
  \<open>verifyRuntimeCausality\<close> are exact substitutes for the queries they replaced, and which checks can
  never report anything.
\<close>

section \<open>Issues\<close>

record verify_issue =
  vi_severity :: string
  vi_kind :: string
  vi_id :: string

record verify_result =
  vr_schema_version :: string
  vr_run_id :: string
  vr_status :: string
  vr_issue_count :: nat
  vr_error_count :: nat
  vr_warning_count :: nat
  vr_issues :: "verify_issue list"

definition issue :: "string \<Rightarrow> string \<Rightarrow> string \<Rightarrow> verify_issue" where
  "issue sev kind i = \<lparr>vi_severity = sev, vi_kind = kind, vi_id = i\<rparr>"

definition err_if :: "bool \<Rightarrow> string \<Rightarrow> string \<Rightarrow> verify_issue list" where
  "err_if bad kind i = (if bad then [issue ''error'' kind i] else [])"

definition warn_if :: "bool \<Rightarrow> string \<Rightarrow> string \<Rightarrow> verify_issue list" where
  "warn_if bad kind i = (if bad then [issue ''warning'' kind i] else [])"

definition one_of :: "string \<Rightarrow> string list \<Rightarrow> bool" where
  "one_of v allowed \<longleftrightarrow> list_ex (\<lambda>x. v = x) allowed"

section \<open>Rollouts, promotions, attempts, tool calls, processes\<close>

abbreviation snapshot_exists :: "db \<Rightarrow> string \<Rightarrow> bool" where
  "snapshot_exists d i \<equiv> list_ex (\<lambda>s. sn_id s = i) (db_snapshots d)"

abbreviation session_exists :: "db \<Rightarrow> string \<Rightarrow> bool" where
  "session_exists d i \<equiv> list_ex (\<lambda>s. se_id s = i) (db_sessions d)"

abbreviation tool_call_exists :: "db \<Rightarrow> string \<Rightarrow> bool" where
  "tool_call_exists d i \<equiv> list_ex (\<lambda>t. tc_id t = i) (db_tool_calls d)"

abbreviation process_exists :: "db \<Rightarrow> string \<Rightarrow> bool" where
  "process_exists d i \<equiv> list_ex (\<lambda>p. pr_id p = i) (db_processes d)"

abbreviation attempt_exists :: "db \<Rightarrow> string \<Rightarrow> bool" where
  "attempt_exists d i \<equiv> list_ex (\<lambda>a. fa_id a = i) (db_fork_attempts d)"

abbreviation rollout_in_run :: "db \<Rightarrow> string \<Rightarrow> string \<Rightarrow> bool" where
  "rollout_in_run d run i \<equiv> list_ex (\<lambda>r. ro_id r = i \<and> ro_run_id r = run) (db_rollouts d)"

abbreviation process_of_tool_call :: "db \<Rightarrow> string \<Rightarrow> string \<Rightarrow> bool" where
  "process_of_tool_call d p t \<equiv> list_ex (\<lambda>x. pr_id x = p \<and> pr_tool_call_id x = t) (db_processes d)"

definition attempt_is_tainted :: "db \<Rightarrow> string \<Rightarrow> bool" where
  "attempt_is_tainted d i =
     (case find (\<lambda>a. fa_id a = i) (db_fork_attempts d) of
        None \<Rightarrow> False | Some a \<Rightarrow> fa_status a = ''quarantined'' \<or> fa_risk_status a = ''tainted'')"

definition verify_rollouts :: "db \<Rightarrow> string \<Rightarrow> verify_issue list" where
  "verify_rollouts d run = concat (map (\<lambda>r.
     let i = ro_id r; winner = ro_winner_attempt_id r; promotion = ro_promotion_id r in
     err_if (\<not> snapshot_exists d (ro_base_snapshot_id r)) ''missing_snapshot'' i @
     err_if (winner \<noteq> [] \<and> \<not> list_ex (\<lambda>a. fa_id a = winner \<and> fa_rollout_id a = i) (db_fork_attempts d))
       ''missing_winner_attempt'' i @
     err_if (promotion \<noteq> [] \<and> \<not> list_ex (\<lambda>p. pm_id p = promotion \<and> pm_rollout_id p = i) (db_promotions d))
       ''missing_promotion'' i @
     err_if (promotion \<noteq> [] \<and> winner \<noteq> [] \<and>
         \<not> list_ex (\<lambda>p. pm_id p = promotion \<and> pm_rollout_id p = i \<and> pm_attempt_id p = winner) (db_promotions d))
       ''promotion_winner_mismatch'' i @
     err_if (ro_status r = ''completed'' \<and> winner = []) ''missing_winner_attempt'' i @
     err_if (ro_risk_status r = ''clean'' \<and> winner \<noteq> [] \<and> attempt_is_tainted d winner) ''tainted_winner'' i)
     (filter (\<lambda>r. ro_run_id r = run) (db_rollouts d)))"

definition verify_promotions :: "db \<Rightarrow> string \<Rightarrow> verify_issue list" where
  "verify_promotions d run = concat (map (\<lambda>p.
     let i = pm_id p; watermark = pm_telemetry_watermark p in
     if pm_status p \<noteq> ''promoted'' \<and> pm_status p \<noteq> ''risk_finalized'' then []
     else
       err_if (watermark = []) ''promotion_missing_watermark'' i @
       err_if (pm_drain_started_at p = [] \<or> pm_drain_completed_at p = []) ''promotion_missing_drain_window'' i @
       err_if (pm_drain_pending_after p \<noteq> 0) ''promotion_pending_evidence'' i @
       err_if (pm_drain_processed p < 0 \<or> pm_drain_queued_before p < 0) ''promotion_invalid_drain_counts'' i @
       err_if (watermark \<noteq> [] \<and>
           length (filter (\<lambda>e. ee_attempt_id e = pm_attempt_id p \<and> ee_status e = ''queued'' \<and>
             ee_created_at e \<le> watermark) (db_evidence_events d)) \<noteq> 0) ''promotion_undrained_evidence'' i)
     (filter (\<lambda>p. rollout_in_run d run (pm_rollout_id p)) (db_promotions d)))"

definition verify_attempts :: "(string \<Rightarrow> bytes option) \<Rightarrow> db \<Rightarrow> string \<Rightarrow> verify_issue list" where
  "verify_attempts fs d run = concat (map (\<lambda>a.
     let i = fa_id a in
     err_if (\<not> rollout_in_run d run (fa_rollout_id a)) ''missing_rollout'' i @
     err_if (\<not> snapshot_exists d (fa_snapshot_id a)) ''missing_snapshot'' i @
     err_if (fa_tool_call_id a \<noteq> [] \<and>
         \<not> list_ex (\<lambda>t. tc_id t = fa_tool_call_id a \<and> tc_attempt_id t = i) (db_tool_calls d)) ''missing_tool_call'' i @
     err_if (fa_is_winner a \<noteq> 0 \<and> (fa_status a = ''quarantined'' \<or> fa_risk_status a = ''tainted''))
       ''tainted_winner'' i @
     warn_if (fa_artifact_result a \<noteq> [] \<and> fs (fa_artifact_result a) = None) ''missing_artifact_file'' i)
     (filter (\<lambda>a. rollout_in_run d run (fa_rollout_id a)) (db_fork_attempts d)))"

definition verify_tool_calls :: "(string \<Rightarrow> bytes option) \<Rightarrow> db \<Rightarrow> string \<Rightarrow> verify_issue list" where
  "verify_tool_calls fs d run = concat (map (\<lambda>t.
     let i = tc_id t in
     err_if (tc_rollout_id t \<noteq> [] \<and> \<not> rollout_in_run d run (tc_rollout_id t)) ''missing_rollout'' i @
     err_if (tc_attempt_id t \<noteq> [] \<and> \<not> attempt_exists d (tc_attempt_id t)) ''missing_attempt'' i @
     err_if (tc_session_id t \<noteq> [] \<and> \<not> session_exists d (tc_session_id t)) ''missing_session'' i @
     warn_if (tc_result_ref t \<noteq> [] \<and> fs (tc_result_ref t) = None) ''missing_result_ref'' i)
     (filter (\<lambda>t. tc_run_id t = run) (db_tool_calls d)))"

definition is_terminal_tool_call_status :: "string \<Rightarrow> bool" where
  "is_terminal_tool_call_status s \<longleftrightarrow> s \<in> {''passed'', ''failed'', ''rejected'', ''budget_exceeded'', ''killed''}"

definition is_non_terminal_process_status :: "string \<Rightarrow> bool" where
  "is_non_terminal_process_status s \<longleftrightarrow> s \<in> {''running'', ''burst_pending''}"

definition session_in_run :: "db \<Rightarrow> string \<Rightarrow> string \<Rightarrow> bool" where
  "session_in_run d run i \<longleftrightarrow> list_ex (\<lambda>s. se_id s = i \<and> se_run_id s = run) (db_sessions d)"

definition verify_processes :: "db \<Rightarrow> string \<Rightarrow> verify_issue list" where
  "verify_processes d run = concat (map (\<lambda>p.
     let i = pr_id p;
         tc_state = (case find (\<lambda>t. tc_id t = pr_tool_call_id p) (db_tool_calls d) of
                       None \<Rightarrow> [] | Some t \<Rightarrow> tc_status t) in
     err_if (\<not> session_in_run d run (pr_session_id p)) ''missing_session'' i @
     err_if (pr_tool_call_id p \<noteq> [] \<and> \<not> tool_call_exists d (pr_tool_call_id p)) ''missing_tool_call'' i @
     err_if (is_terminal_tool_call_status tc_state \<and> is_non_terminal_process_status (pr_status p))
       ''stale_process_status'' i)
     (filter (\<lambda>p. session_in_run d run (pr_session_id p)) (db_processes d)))"

section \<open>Events, effects, policy\<close>

definition is_external_runtime_binding :: "string \<Rightarrow> string \<Rightarrow> int \<Rightarrow> int \<Rightarrow> string \<Rightarrow> bool" where
  "is_external_runtime_binding container cgroup root_pid pid source \<longleftrightarrow>
     container \<noteq> [] \<or> cgroup \<noteq> [] \<or> root_pid \<noteq> 0 \<or> pid \<noteq> 0 \<or>
     trim_space source \<in> {''external_telemetry'', ''telemetry_bind'', ''phase1_accept'', ''harness_tool_call_scope''}"

definition external_binding :: "binding \<Rightarrow> bool" where
  "external_binding b \<longleftrightarrow> is_external_runtime_binding (bi_container_id b) (bi_cgroup_id b)
     (bi_root_pid b) (bi_pid b) (bi_binding_source b)"

definition external_context_binding_exists ::
  "db \<Rightarrow> string \<Rightarrow> string \<Rightarrow> string \<Rightarrow> string \<Rightarrow> string \<Rightarrow> bool" where
  "external_context_binding_exists d run session attempt tool_call process =
     (let given = (\<lambda>v. trim_space v \<noteq> []) in
      if \<not> given session \<and> \<not> given attempt \<and> \<not> given tool_call \<and> \<not> given process then False
      else case first_max bi_created_at (filter (\<lambda>b. bi_run_id b = run \<and>
             (given session \<longrightarrow> bi_session_id b = session) \<and> (given attempt \<longrightarrow> bi_attempt_id b = attempt) \<and>
             (given tool_call \<longrightarrow> bi_tool_call_id b = tool_call) \<and> (given process \<longrightarrow> bi_process_id b = process))
             (db_execution_context_bindings d)) of
          None \<Rightarrow> False | Some b \<Rightarrow> external_binding b)"

definition verify_events :: "db \<Rightarrow> string \<Rightarrow> verify_issue list" where
  "verify_events d run = concat (map (\<lambda>e.
     let i = ev_id e; session = coalesce (ev_session_id e); tool_call = ev_tool_call_id e;
         process = ev_process_id e;
         ext = external_context_binding_exists d run session [] tool_call process in
     err_if (session \<noteq> [] \<and> \<not> session_exists d session \<and> \<not> ext) ''missing_session'' i @
     err_if (tool_call \<noteq> [] \<and> \<not> tool_call_exists d tool_call \<and> \<not> ext) ''missing_tool_call'' i @
     err_if (process \<noteq> [] \<and> \<not> process_exists d process \<and> \<not> ext) ''missing_process'' i @
     err_if (ev_snapshot_id e \<noteq> [] \<and> \<not> snapshot_exists d (ev_snapshot_id e)) ''missing_snapshot'' i @
     err_if (ev_correlation_method e \<noteq> [] \<and> ev_correlation_confidence e \<le> 0) ''invalid_correlation_confidence'' i @
     err_if (tool_call \<noteq> [] \<and> process \<noteq> [] \<and> \<not> process_of_tool_call d process tool_call \<and> \<not> ext)
       ''event_process_tool_call_mismatch'' i)
     (filter (\<lambda>e. ev_run_id e = Some run) (db_events d)))"

definition verify_external_effects :: "db \<Rightarrow> string \<Rightarrow> verify_issue list" where
  "verify_external_effects d run = concat (map (\<lambda>e.
     let i = ef_id e in
     err_if (ef_attempt_id e \<noteq> [] \<and> \<not> attempt_exists d (ef_attempt_id e)) ''missing_attempt'' i @
     err_if (ef_session_id e \<noteq> [] \<and> \<not> session_exists d (ef_session_id e)) ''missing_session'' i @
     err_if (ef_tool_call_id e \<noteq> [] \<and> \<not> tool_call_exists d (ef_tool_call_id e)) ''missing_tool_call'' i @
     err_if (ef_process_id e \<noteq> [] \<and> \<not> process_exists d (ef_process_id e)) ''missing_process'' i @
     err_if (\<not> one_of (ef_mode e) [''dry-run'', ''mock'', ''allowlist'', ''compensation''])
       ''invalid_external_effect_mode'' i @
     err_if (\<not> one_of (ef_decision e) [''allow'', ''deny'', ''audit'']) ''invalid_external_effect_decision'' i)
     (filter (\<lambda>e. ef_run_id e = run) (db_external_effects d)))"

definition edge_exists :: "db \<Rightarrow> string \<Rightarrow> string \<Rightarrow> string \<Rightarrow> string \<Rightarrow> bool" where
  "edge_exists d run src dst ty \<longleftrightarrow>
     list_ex (\<lambda>g. ge_run_id g = run \<and> ge_from_id g = src \<and> ge_to_id g = dst \<and> ge_edge_type g = ty)
       (db_graph_edges d)"

definition event_node :: "string \<Rightarrow> string" where "event_node i = ''runtime_event/'' @ i"
definition policy_node :: "string \<Rightarrow> string" where "policy_node i = ''policy_decision/'' @ i"
definition risk_node :: "string \<Rightarrow> string" where "risk_node i = ''risk_signal/'' @ i"
definition action_node :: "string \<Rightarrow> string" where "action_node i = ''response_action/'' @ i"

definition policy_issues :: "db \<Rightarrow> string \<Rightarrow> policy_decision \<Rightarrow> verify_issue list" where
  "policy_issues d run p =
     (let i = pd_id p; ev = coalesce (pd_event_id p); session = coalesce (pd_session_id p) in
      (if ev \<noteq> [] then
         err_if (\<not> list_ex (\<lambda>e. ev_id e = ev) (db_events d)) ''missing_policy_event'' i @
         err_if (\<not> edge_exists d run (event_node ev) (policy_node i) ''runtime_event_policy_decision'')
           ''missing_policy_decision_edge'' i
       else []) @
      (if session \<noteq> [] then
         err_if (\<not> session_exists d session \<and> \<not> external_context_binding_exists d run session [] [] [])
           ''missing_policy_session'' i @
         err_if (\<not> edge_exists d run (policy_node i) session ''policy_decision_session'')
           ''missing_policy_session_edge'' i
       else []))"

definition verify_policy_decisions :: "db \<Rightarrow> string \<Rightarrow> verify_issue list" where
  "verify_policy_decisions d run =
     concat (map (policy_issues d run) (filter (\<lambda>p. pd_run_id p = Some run) (db_policy_decisions d)))"

definition policy_chain_issues :: "db \<Rightarrow> string \<Rightarrow> policy_decision \<Rightarrow> verify_issue list" where
  "policy_chain_issues d run p =
     (let i = pd_id p; ev = coalesce (pd_event_id p) in
      if pd_decision p = ''allow'' then []
      else
        err_if (\<not> list_ex (\<lambda>r. rk_run_id r = run \<and> rk_policy_decision_id r = i) (db_risk_signals d))
          ''missing_policy_risk_signal'' i @
        err_if (\<not> list_ex (\<lambda>a. ra_run_id a = run \<and> ra_policy_decision_id a = i) (db_response_actions d))
          ''missing_policy_response_action'' i @
        err_if (\<not> list_ex (\<lambda>s. list_ex (\<lambda>r. si_source_id s = rk_id r \<and> si_dimension s = ''security'' \<and>
              si_source_table s = ''risk_signals'' \<and> rk_policy_decision_id r = i \<and> si_run_id s = run)
              (db_risk_signals d)) (db_signals d))
          ''missing_policy_unified_signal'' i @
        err_if (ev \<noteq> [] \<and> \<not> edge_exists d run (event_node ev) (policy_node i) ''runtime_event_policy_decision'')
          ''missing_policy_decision_edge'' i)"

definition action_types :: "string list" where
  "action_types = [''audit'', ''deny'', ''kill'', ''quarantine'', ''taint'', ''export'', ''notify'']"

definition policy_in_run :: "db \<Rightarrow> string \<Rightarrow> string \<Rightarrow> bool" where
  "policy_in_run d run i \<longleftrightarrow> list_ex (\<lambda>p. pd_id p = i \<and> pd_run_id p = Some run) (db_policy_decisions d)"

definition risk_issues :: "db \<Rightarrow> string \<Rightarrow> risk_signal \<Rightarrow> verify_issue list" where
  "risk_issues d run r =
     (let i = rk_id r; ev = rk_event_id r; pol = rk_policy_decision_id r in
      err_if (pol = [] \<or> \<not> policy_in_run d run pol) ''missing_risk_policy_decision'' i @
      err_if (ev = [] \<or> \<not> list_ex (\<lambda>e. ev_id e = ev \<and> ev_run_id e = Some run) (db_events d))
        ''missing_risk_event'' i @
      err_if (pol \<noteq> [] \<and> \<not> edge_exists d run (policy_node pol) (risk_node i) ''policy_decision_risk_signal'')
        ''missing_risk_signal_edge'' i @
      err_if (\<not> list_ex (\<lambda>a. ra_run_id a = run \<and> ra_risk_signal_id a = i) (db_response_actions d))
        ''missing_risk_response_action'' i @
      err_if (\<not> one_of (rk_recommended_action r) action_types) ''invalid_risk_recommended_action'' i)"

definition response_issues :: "db \<Rightarrow> string \<Rightarrow> response_action \<Rightarrow> verify_issue list" where
  "response_issues d run a =
     (let i = ra_id a; risk = ra_risk_signal_id a; pol = ra_policy_decision_id a in
      err_if (risk = [] \<or> \<not> list_ex (\<lambda>r. rk_id r = risk \<and> rk_run_id r = run) (db_risk_signals d))
        ''missing_response_risk_signal'' i @
      err_if (pol = [] \<or> \<not> policy_in_run d run pol) ''missing_response_policy_decision'' i @
      err_if (risk \<noteq> [] \<and> pol \<noteq> [] \<and>
          \<not> list_ex (\<lambda>r. rk_id r = risk \<and> rk_policy_decision_id r = pol \<and> rk_run_id r = run) (db_risk_signals d))
        ''response_risk_policy_mismatch'' i @
      err_if (risk \<noteq> [] \<and> \<not> edge_exists d run (risk_node risk) (action_node i) ''risk_signal_response_action'')
        ''missing_response_action_edge'' i @
      err_if (\<not> one_of (ra_action_type a) action_types) ''invalid_response_action_type'' i @
      err_if (ra_target_type a = [] \<or> ra_target_id a = []) ''missing_response_target'' i @
      err_if (\<not> one_of (ra_status a) [''recorded'', ''pending'', ''running'', ''succeeded'', ''failed'', ''skipped''])
        ''invalid_response_status'' i)"

definition verify_risk_and_responses :: "db \<Rightarrow> string \<Rightarrow> verify_issue list" where
  "verify_risk_and_responses d run =
     concat (map (policy_chain_issues d run) (filter (\<lambda>p. pd_run_id p = Some run) (db_policy_decisions d))) @
     concat (map (risk_issues d run) (filter (\<lambda>r. rk_run_id r = run) (db_risk_signals d))) @
     concat (map (response_issues d run) (filter (\<lambda>a. ra_run_id a = run) (db_response_actions d)))"

section \<open>Bindings\<close>

definition verify_execution_context_bindings :: "db \<Rightarrow> string \<Rightarrow> verify_issue list" where
  "verify_execution_context_bindings d run =
     (let rows = filter (\<lambda>b. bi_run_id b = run) (db_execution_context_bindings d) in
      concat (map (\<lambda>b.
        let i = bi_id b; ext = external_binding b; session = bi_session_id b; attempt = bi_attempt_id b;
            tool_call = bi_tool_call_id b; process = bi_process_id b in
        err_if (bi_confidence b \<le> 0) ''invalid_binding_confidence'' i @
        err_if (session \<noteq> [] \<and> \<not> session_exists d session \<and> \<not> ext) ''missing_session'' i @
        err_if (attempt \<noteq> [] \<and> \<not> attempt_exists d attempt \<and> \<not> ext) ''missing_attempt'' i @
        err_if (tool_call \<noteq> [] \<and> \<not> tool_call_exists d tool_call \<and> \<not> ext) ''missing_tool_call'' i @
        err_if (process \<noteq> [] \<and> \<not> process_exists d process \<and> \<not> ext) ''missing_process'' i @
        err_if (process \<noteq> [] \<and> tool_call \<noteq> [] \<and> \<not> process_of_tool_call d process tool_call \<and> \<not> ext)
          ''binding_process_tool_call_mismatch'' i @
        err_if (attempt \<noteq> [] \<and> tool_call \<noteq> [] \<and>
            \<not> list_ex (\<lambda>t. tc_id t = tool_call \<and> tc_attempt_id t = attempt) (db_tool_calls d) \<and> \<not> ext)
          ''binding_attempt_tool_call_mismatch'' i) rows) @
      err_if (length (filter (\<lambda>e. ev_run_id e = Some run \<and> ev_correlation_method e \<noteq> []) (db_events d)) > 0 \<and>
          length rows = 0) ''missing_execution_context_binding'' run)"

section \<open>Runtime causality\<close>

type_synonym edge_key = "string \<times> string \<times> string"

definition load_run_edge_set :: "db \<Rightarrow> string \<Rightarrow> edge_key list" where
  "load_run_edge_set d run =
     map (\<lambda>g. (ge_from_id g, ge_to_id g, ge_edge_type g)) (filter (\<lambda>g. ge_run_id g = run) (db_graph_edges d))"

definition has_edge :: "edge_key list \<Rightarrow> string \<Rightarrow> string \<Rightarrow> string \<Rightarrow> bool" where
  "has_edge edges src dst ty \<longleftrightarrow> (src, dst, ty) \<in> set edges"

function batches :: "nat \<Rightarrow> 'a list \<Rightarrow> 'a list list" where
  "batches n xs = (if n = 0 \<or> xs = [] then [] else take n xs # batches n (drop n xs))"
  by pat_completeness auto
termination
  by (relation "measure (\<lambda>(n, xs). length xs)") auto

declare batches.simps [simp del]

text \<open>The rows of every batch update one map; a later row for the same id overwrites an earlier one.\<close>

definition load_attempt_ids :: "db \<Rightarrow> string list \<Rightarrow> (string \<times> string) list" where
  "load_attempt_ids d ids =
     rev (concat (map (\<lambda>batch. map (\<lambda>t. (tc_id t, tc_attempt_id t))
       (filter (\<lambda>t. tc_id t \<in> set batch) (db_tool_calls d))) (batches 900 ids)))"

definition lookup_attempt :: "(string \<times> string) list \<Rightarrow> string \<Rightarrow> string" where
  "lookup_attempt m i = (case map_of m i of None \<Rightarrow> [] | Some a \<Rightarrow> a)"

definition direct_path :: "(string \<times> json) list \<Rightarrow> string" where
  "direct_path kvs =
     (case first_some (\<lambda>k. case jget k kvs of Some (JStr s) \<Rightarrow> if s \<noteq> [] then Some s else None | _ \<Rightarrow> None)
        [''path'', ''file''] of None \<Rightarrow> [] | Some s \<Rightarrow> s)"

definition first_non_empty :: "string list \<Rightarrow> string" where
  "first_non_empty ps = (case find (\<lambda>p. p \<noteq> []) ps of None \<Rightarrow> [] | Some p \<Rightarrow> p)"

function find_verify_payload_path :: "json \<Rightarrow> string" where
  "find_verify_payload_path v =
     (case v of
        JObj kvs \<Rightarrow> first_non_empty
          [direct_path kvs,
           (case jget ''raw'' kvs of None \<Rightarrow> [] | Some n \<Rightarrow> find_verify_payload_path n),
           (case jget ''payload'' kvs of None \<Rightarrow> [] | Some n \<Rightarrow> find_verify_payload_path n),
           (case jget ''event'' kvs of None \<Rightarrow> [] | Some n \<Rightarrow> find_verify_payload_path n)]
      | JArr vs \<Rightarrow> first_non_empty (map find_verify_payload_path vs)
      | _ \<Rightarrow> [])"
  by pat_completeness auto
termination
  by (relation "measure size") (auto dest: json_obj_size json_arr_size)

declare find_verify_payload_path.simps [simp del]

definition verify_payload_path :: "string \<Rightarrow> string" where
  "verify_payload_path payload =
     (case decode payload of
        None \<Rightarrow> []
      | Some v \<Rightarrow>
          let p = trim_prefix (trim_prefix (trim_space (find_verify_payload_path v)) ''/workspace/'') ''./''
          in if p = ''.'' \<or> p = ''..'' \<or> has_prefix p ''../'' \<or> has_prefix p ''/'' then [] else p)"

definition pid_node :: "int \<Rightarrow> string" where "pid_node pid = ''runtime_process/pid/'' @ show_int pid"
definition tgid_node :: "int \<Rightarrow> string" where "tgid_node pid = ''runtime_process/tgid/'' @ show_int pid"

definition causality_issues :: "edge_key list \<Rightarrow> (string \<times> string) list \<Rightarrow> event \<Rightarrow> verify_issue list" where
  "causality_issues edges attempts e =
     (let i = ev_id e; tool_call = ev_tool_call_id e; process = ev_process_id e; ty = ev_event_type e;
          pid = ev_pid e; tgid = ev_tgid e; ppid = ev_ppid e;
          runtime = ev_correlation_method e \<noteq> []; file = (ty = ''file_write'' \<or> ty = ''file_open'');
          attempt = lookup_attempt attempts tool_call; node = event_node i;
          missing = (\<lambda>src dst kind. \<not> has_edge edges src dst kind) in
      err_if (telemetry_source (ev_source e) (ev_correlation_method e) \<and>
          validate_stored_payload ty (ev_payload e) \<noteq> None) ''invalid_telemetry_payload_schema'' i @
      (if \<not> runtime \<and> \<not> file then []
       else
         err_if (runtime \<and> attempt \<noteq> [] \<and> missing attempt node ''runtime_attempt_event'')
           ''missing_runtime_attempt_event_edge'' i @
         (if runtime \<and> tool_call \<noteq> [] then
            err_if (missing tool_call node ''runtime_tool_call_event'') ''missing_runtime_tool_call_event_edge'' i @
            err_if (process \<noteq> [] \<and> missing tool_call process ''runtime_tool_call_process'')
              ''missing_runtime_tool_call_process_edge'' i
          else []) @
         err_if (runtime \<and> process \<noteq> [] \<and> missing process node ''runtime_process_event'')
           ''missing_runtime_process_event_edge'' i @
         err_if (runtime \<and> pid \<noteq> 0 \<and> process \<noteq> [] \<and> missing process (pid_node pid) ''runtime_process_observed'')
           ''missing_runtime_process_observed_edge'' i @
         (if runtime \<and> pid \<noteq> 0 \<and> ppid \<noteq> 0 then
            err_if (missing (pid_node ppid) (pid_node pid) ''runtime_process_parent'')
              ''missing_runtime_process_parent_edge'' i @
            err_if (missing (pid_node pid) (pid_node ppid) ''runtime_process_child_of'')
              ''missing_runtime_process_child_edge'' i
          else []) @
         err_if (runtime \<and> pid \<noteq> 0 \<and> tgid \<noteq> 0 \<and> pid \<noteq> tgid \<and>
             missing (tgid_node tgid) (pid_node pid) ''runtime_process_thread'')
           ''missing_runtime_process_thread_edge'' i @
         (if file \<and> verify_payload_path (ev_payload e) \<noteq> [] then
            let fnode = ''workspace_file/'' @ verify_payload_path (ev_payload e) in
            err_if (missing node fnode ''runtime_event_file'') ''missing_runtime_event_file_edge'' i @
            err_if (process \<noteq> [] \<and> missing process fnode ''runtime_process_file'')
              ''missing_runtime_process_file_edge'' i @
            err_if (tool_call \<noteq> [] \<and> missing tool_call fnode ''runtime_tool_call_file'')
              ''missing_runtime_tool_call_file_edge'' i @
            err_if (attempt \<noteq> [] \<and> missing attempt fnode ''runtime_attempt_file'')
              ''missing_runtime_attempt_file_edge'' i
          else [])))"

definition verify_runtime_causality :: "db \<Rightarrow> string \<Rightarrow> verify_issue list" where
  "verify_runtime_causality d run =
     (let events = filter (\<lambda>e. ev_run_id e = Some run) (db_events d);
          ids = remdups (filter (\<lambda>t. t \<noteq> []) (map ev_tool_call_id events));
          edges = load_run_edge_set d run; attempts = load_attempt_ids d ids
      in concat (map (causality_issues edges attempts) events))"

section \<open>Telemetry batches and process observations\<close>

definition hash_verify_strings :: "(bytes \<Rightarrow> string) \<Rightarrow> string list \<Rightarrow> string" where
  "hash_verify_strings sha vs = sha (concat (map (\<lambda>v. v @ [CHR 0x00]) vs))"

definition decode_strings :: "string \<Rightarrow> string list option" where
  "decode_strings text =
     (case decode text of Some JNull \<Rightarrow> Some [] | Some (JArr vs) \<Rightarrow> string_items vs | _ \<Rightarrow> None)"

definition verify_telemetry_batches :: "(bytes \<Rightarrow> string) \<Rightarrow> db \<Rightarrow> string \<Rightarrow> verify_issue list" where
  "verify_telemetry_batches sha d run = concat (map (\<lambda>b.
     let i = tb_id b in
     err_if (trim_space (tb_format b) = []) ''telemetry_batch_missing_format'' i @
     err_if (trim_space (tb_file_sha256 b) = []) ''telemetry_batch_missing_file_hash'' i @
     (case decode_strings (tb_event_ids_json b) of
        None \<Rightarrow> [issue ''error'' ''telemetry_batch_invalid_event_ids'' i]
      | Some ids \<Rightarrow>
          err_if (int (length ids) \<noteq> tb_ingested_count b) ''telemetry_batch_ingested_count_mismatch'' i @
          err_if (hash_verify_strings sha ids \<noteq> tb_event_ids_sha256 b) ''telemetry_batch_event_hash_mismatch'' i @
          concat (map (\<lambda>x. err_if (\<not> list_ex (\<lambda>e. ev_id e = x \<and> ev_run_id e = Some run) (db_events d))
            ''telemetry_batch_missing_event'' i) ids)))
     (filter (\<lambda>b. tb_run_id b = run) (db_telemetry_batches d)))"

text \<open>\<open>unwrapRecordProcessPayload\<close> of \<open>record_payload.go\<close>, on the decoded text.\<close>

definition unwrap_record_process_payload :: "string \<Rightarrow> json option" where
  "unwrap_record_process_payload payload =
     (case decode payload of
        Some (JObj kvs) \<Rightarrow> (case jfield ''payload'' kvs of None \<Rightarrow> Some (JObj kvs) | Some v \<Rightarrow> Some v)
      | r \<Rightarrow> r)"

record observed_process =
  op_pid :: int
  op_ppid :: int
  op_command :: string
  op_outlived_root :: bool

definition decode_observed_process :: "json option \<Rightarrow> observed_process option" where
  "decode_observed_process v =
     (case v of
        Some JNull \<Rightarrow> Some \<lparr>op_pid = 0, op_ppid = 0, op_command = [], op_outlived_root = False\<rparr>
      | Some (JObj kvs) \<Rightarrow>
          (case (int64_field ''pid'' kvs, int64_field ''ppid'' kvs, string_field ''command'' kvs,
                 bool_field ''outlived_root'' kvs) of
             (Some pid, Some ppid, Some command, Some outlived) \<Rightarrow>
               Some \<lparr>op_pid = pid, op_ppid = ppid, op_command = command, op_outlived_root = outlived\<rparr>
           | _ \<Rightarrow> None)
      | _ \<Rightarrow> None)"

text \<open>\<open>orphanLifecycleVerifyRefs\<close>: the evidence ids and the distinct decision ids of one pid.\<close>

definition orphan_ref :: "int \<Rightarrow> evidence_event \<Rightarrow> (string \<times> string) option" where
  "orphan_ref pid e =
     (case decode (ee_payload e) of
        Some JNull \<Rightarrow> if pid = 0 then Some (ee_id e, []) else None
      | Some (JObj kvs) \<Rightarrow>
          (case (int64_field ''pid'' kvs, string_field ''policy_decision_id'' kvs) of
             (Some p, Some pol) \<Rightarrow> if p \<noteq> pid then None else Some (ee_id e, pol)
           | _ \<Rightarrow> None)
      | _ \<Rightarrow> None)"

definition orphan_lifecycle_refs :: "db \<Rightarrow> string \<Rightarrow> int \<Rightarrow> string list \<times> string list" where
  "orphan_lifecycle_refs d run pid =
     (let refs = List.map_filter (orphan_ref pid) (order_asc ee_created_at
            (filter (\<lambda>e. ee_run_id e = run \<and> ee_event_type e = ''orphan_lifecycle_decision'') (db_evidence_events d)))
      in (map fst refs, rev (remdups (rev (filter (\<lambda>p. p \<noteq> []) (map snd refs))))))"

definition process_observations :: "db \<Rightarrow> string \<Rightarrow> event list" where
  "process_observations d run = order_asc ev_created_at
     (filter (\<lambda>e. ev_run_id e = Some run \<and> ev_source e = ''record_process_sample'' \<and>
        ev_event_type e = ''process_observed'') (db_events d))"

definition verify_process_observations :: "db \<Rightarrow> string \<Rightarrow> verify_issue list" where
  "verify_process_observations d run = concat (map (\<lambda>e.
     let i = ev_id e in
     (case decode_observed_process (unwrap_record_process_payload (ev_payload e)) of
        None \<Rightarrow> [issue ''error'' ''invalid_process_observation_payload'' i]
      | Some p \<Rightarrow>
          err_if (op_pid p = 0) ''invalid_process_observation_pid'' i @
          err_if (ev_tool_call_id e = []) ''missing_process_observation_tool_call'' i @
          err_if (ev_process_id e = []) ''missing_process_observation_process'' i @
          (if \<not> op_outlived_root p then []
           else (case orphan_lifecycle_refs d run (op_pid p) of (evidence, decisions) \<Rightarrow>
             err_if (evidence = []) ''missing_orphan_lifecycle_evidence'' i @
             err_if (decisions = []) ''missing_orphan_lifecycle_policy_decision'' i @
             concat (map (\<lambda>x. err_if (\<not> list_ex (\<lambda>q. pd_id q = x \<and> pd_run_id q = Some run \<and>
                 pd_rule_id q = ''zero_sdk_orphan_observe_only'' \<and> pd_decision q = ''audit'') (db_policy_decisions d))
               ''missing_orphan_lifecycle_policy_decision'' i) decisions)))))
     (process_observations d run))"

section \<open>The replay manifest and the provenance objects\<close>

definition verify_replay_manifest ::
  "(bytes \<Rightarrow> string) \<Rightarrow> (string \<Rightarrow> bytes option) \<Rightarrow> db \<Rightarrow> string \<Rightarrow> verify_issue list" where
  "verify_replay_manifest sha fs d run =
     (case build_replay_run sha fs d run of
        Inl (NoRollouts _) \<Rightarrow> []
      | Inl _ \<Rightarrow> [issue ''error'' ''replay_manifest_failed'' run]
      | Inr m \<Rightarrow>
          err_if (rma_schema_version m \<noteq> ''agentprovenance.replay/v1'') ''invalid_replay_schema'' run @
          err_if (rma_rollouts m = []) ''empty_replay_manifest'' run @
          concat (map (\<lambda>r.
            err_if (rro_status r = ''completed'' \<and> rro_winner_attempt_id r = []) ''replay_missing_winner'' (rro_id r) @
            err_if (rro_base_snapshot_id r \<noteq> [] \<and> rro_base_snapshot r = None)
              ''replay_missing_base_snapshot'' (rro_id r) @
            concat (map (\<lambda>a.
              err_if (rat_is_winner a \<and> rat_replay_blocked a) ''replay_blocked_winner'' (rat_id a) @
              warn_if (rat_artifact_result a \<noteq> [] \<and>
                  (case rat_artifact_digest a of None \<Rightarrow> True | Some g \<Rightarrow> \<not> ad_exists g))
                ''replay_missing_artifact_digest'' (rat_id a) @
              err_if (rat_tool_call_id a \<noteq> [] \<and> rat_tool_call a = None) ''replay_missing_tool_call'' (rat_id a))
              (rro_attempts r)))
            (rma_rollouts m)))"

text \<open>\<open>recordObservedProcesses\<close> and \<open>BuildRecordManifest\<close> of \<open>objects.go\<close>; the manifest is the JSON
object its struct encodes to.\<close>

definition record_observed_process :: "string \<Rightarrow> (int \<times> json) option" where
  "record_observed_process payload =
     (case unwrap_record_process_payload payload of
        Some (JObj kvs) \<Rightarrow>
          (case (int64_field ''pid'' kvs, int64_field ''ppid'' kvs, string_field ''command'' kvs,
                 string_field ''first_seen'' kvs, string_field ''last_seen'' kvs, bool_field ''outlived_root'' kvs) of
             (Some pid, Some ppid, Some command, Some seen, Some until, Some outlived) \<Rightarrow>
               if pid = 0 then None
               else Some (pid, JObj [(''pid'', JNum (of_int pid)), (''ppid'', JNum (of_int ppid)),
                 (''command'', JStr command), (''first_seen'', JStr seen), (''last_seen'', JStr until),
                 (''outlived_root'', JBool outlived)])
           | _ \<Rightarrow> None)
      | _ \<Rightarrow> None)"

definition record_observed_processes :: "db \<Rightarrow> string \<Rightarrow> json list" where
  "record_observed_processes d run =
     map snd (sort_key fst (List.map_filter (\<lambda>e. record_observed_process (ev_payload e)) (process_observations d run)))"

definition jint :: "int \<Rightarrow> json" where "jint i = JNum (of_int i)"

definition build_record_manifest :: "db \<Rightarrow> string \<Rightarrow> json option" where
  "build_record_manifest d run =
     (case order_asc fa_created_at (filter (\<lambda>a. rollout_in_run d run (fa_rollout_id a) \<and>
             fa_strategy a = ''zero-sdk-record'') (db_fork_attempts d)) of
        [] \<Rightarrow> None
      | a # _ \<Rightarrow>
          let session = (case order_asc se_created_at (filter (\<lambda>s. se_run_id s = run) (db_sessions d)) of
                [] \<Rightarrow> [] | s # _ \<Rightarrow> se_id s);
              (process, started0, ended0) =
                (case order_asc pr_started_at (filter (\<lambda>p. pr_tool_call_id p = fa_tool_call_id a) (db_processes d)) of
                   [] \<Rightarrow> ([], [], []) | p # _ \<Rightarrow> (pr_id p, pr_started_at p, coalesce (pr_ended_at p)));
              (root_pid, started, ended) =
                (case order_asc bi_created_at (filter (\<lambda>b. bi_process_id b = process) (db_execution_context_bindings d)) of
                   [] \<Rightarrow> (0, started0, ended0) | b # _ \<Rightarrow> (bi_root_pid b, bi_started_at b, bi_ended_at b));
              observed = record_observed_processes d run;
              tree = (if root_pid \<noteq> 0 then 1 + int (length observed) else 0);
              changed = sort (filter (\<lambda>p. p \<noteq> []) (map (\<lambda>e. verify_payload_path (ev_payload e))
                (order_asc ev_created_at (filter (\<lambda>e. ev_run_id e = Some run \<and> ev_source e = ''record_file_diff'' \<and>
                   ev_event_type e = ''file_write'') (db_events d)))));
              cwd = fa_workspace_path a
          in Some (JObj (
               [(''schema_version'', JStr ''agentprovenance.record/v1''), (''run_id'', JStr run),
                (''rollout_id'', JStr (fa_rollout_id a)), (''base_snapshot_id'', JStr (fa_snapshot_id a)),
                (''attempt_id'', JStr (fa_id a)), (''session_id'', JStr session),
                (''tool_call_id'', JStr (fa_tool_call_id a)), (''process_id'', JStr process),
                (''workdir'', JStr cwd), (''command'', JStr (fa_command a)), (''status'', JStr (fa_status a)),
                (''exit_code'', jint (coalesce_int (fa_exit_code a))), (''wall_ms'', jint (fa_wall_ms a)),
                (''changed_files'', if changed = [] then JNull else JArr (map JStr changed)),
                (''changed_file_count'', jint (int (length changed))), (''root_pid'', jint root_pid)] @
               (if observed = [] then [] else [(''observed_processes'', JArr observed)]) @
               [(''orphan_policy'', JStr ''observe_only''), (''post_root_grace_ms'', jint 250), (''cwd'', JStr cwd),
                (''process_tree_count'', jint tree),
                (''time_window'', JObj [(''started_at'', JStr started), (''ended_at'', JStr ended)]),
                (''context_mode'', JStr ''zero_sdk''),
                (''scope_inference'', JObj
                   [(''method'', JStr ''zero_sdk_root_process+cwd+time_window+file_diff''), (''root_pid'', jint root_pid),
                    (''process_tree_count'', jint tree), (''cwd'', JStr cwd),
                    (''changed_file_count'', jint (int (length changed))),
                    (''observed_processes'', jint (int (length observed))),
                    (''boundary'', JStr ''root_pid_descendants+cwd+time_window+file_diff''),
                    (''orphan_policy'', JStr ''observe_only''), (''post_root_grace_ms'', jint 250)])])))"

definition json_equal :: "json \<Rightarrow> json \<Rightarrow> bool" where
  "json_equal a b \<longleftrightarrow> normal_json a = normal_json b"

definition object_field :: "string \<Rightarrow> (string \<times> json) list \<Rightarrow> (string \<times> json) list option" where
  "object_field k kvs =
     (case jfield k kvs of None \<Rightarrow> Some [] | Some JNull \<Rightarrow> Some [] | Some (JObj inner) \<Rightarrow> Some inner | Some _ \<Rightarrow> None)"

text \<open>Decoding a \<open>provenanceObject\<close>: its payload when every field has its type.\<close>

definition decode_provenance_object :: "bytes \<Rightarrow> (string \<times> json) list option" where
  "decode_provenance_object raw =
     (case decode raw of
        Some JNull \<Rightarrow> Some []
      | Some (JObj kvs) \<Rightarrow>
          if list_ex (\<lambda>k. string_field k kvs = None) [''schema'', ''type'', ''source_id'', ''run_id'', ''rollout_id'']
            \<or> (case jfield ''parents'' kvs of None \<Rightarrow> False | Some JNull \<Rightarrow> False
                | Some (JArr vs) \<Rightarrow> string_items vs = None | Some _ \<Rightarrow> True)
            \<or> object_field ''refs'' kvs = None
          then None else object_field ''payload'' kvs
      | _ \<Rightarrow> None)"

definition verify_objects ::
  "(bytes \<Rightarrow> string) \<Rightarrow> (string \<Rightarrow> bytes option) \<Rightarrow> db \<Rightarrow> string \<Rightarrow> verify_issue list" where
  "verify_objects sha fs d run = concat (map (\<lambda>o1.
     let src = po_source_id o1 in
     (case fs (po_path o1) of
        None \<Rightarrow> [issue ''error'' ''missing_provenance_object'' src]
      | Some raw \<Rightarrow>
          err_if (''sha256:'' @ sha raw \<noteq> po_hash o1) ''object_hash_mismatch'' src @
          (case decode_provenance_object raw of
             None \<Rightarrow> [issue ''error'' ''invalid_provenance_object_json'' src]
           | Some payload \<Rightarrow>
               (if po_object_type o1 = ''record_manifest'' then
                  (case build_record_manifest d run of
                     None \<Rightarrow> [issue ''error'' ''record_manifest_rebuild_failed'' src]
                   | Some expected \<Rightarrow>
                       err_if (\<not> json_equal (case jget ''manifest'' payload of None \<Rightarrow> JNull | Some v \<Rightarrow> v) expected)
                         ''record_manifest_mismatch'' src)
                else []) @
               concat (map (\<lambda>h. err_if (trim_space h \<noteq> [] \<and>
                   \<not> list_ex (\<lambda>q. po_hash q = trim_space h) (db_provenance_objects d)) ''missing_parent_object'' src)
                 (split_char CHR '','' (po_parent_hashes o1))))))
     (filter (\<lambda>o1. po_run_id o1 = run) (db_provenance_objects d)))"

section \<open>\<open>Verify\<close>\<close>

definition run_exists :: "db \<Rightarrow> string \<Rightarrow> bool" where
  "run_exists d run \<longleftrightarrow>
     list_ex (\<lambda>s. se_run_id s = run) (db_sessions d) \<or> list_ex (\<lambda>r. ro_run_id r = run) (db_rollouts d) \<or>
     list_ex (\<lambda>t. tc_run_id t = run) (db_tool_calls d) \<or> list_ex (\<lambda>e. ev_run_id e = Some run) (db_events d) \<or>
     list_ex (\<lambda>o1. po_run_id o1 = run) (db_provenance_objects d)"

text \<open>\<open>add\<close> of \<open>Verify\<close>: append the issue and bump the counters.\<close>

definition add_issue :: "verify_issue \<Rightarrow> verify_result \<Rightarrow> verify_result" where
  "add_issue i r =
     (let r = r\<lparr>vr_issues := vr_issues r @ [i], vr_issue_count := vr_issue_count r + 1\<rparr>
      in if vi_severity i = ''error'' then r\<lparr>vr_error_count := vr_error_count r + 1\<rparr>
         else r\<lparr>vr_warning_count := vr_warning_count r + 1\<rparr>)"

definition empty_result :: "string \<Rightarrow> verify_result" where
  "empty_result run = \<lparr>vr_schema_version = ''agentprovenance.verify/v1'', vr_run_id = run, vr_status = ''ok'',
     vr_issue_count = 0, vr_error_count = 0, vr_warning_count = 0, vr_issues = []\<rparr>"

definition verify_checks ::
  "(bytes \<Rightarrow> string) \<Rightarrow> (string \<Rightarrow> bytes option) \<Rightarrow> db \<Rightarrow> string \<Rightarrow> verify_issue list" where
  "verify_checks sha fs d run =
     verify_rollouts d run @ verify_promotions d run @ verify_attempts fs d run @ verify_tool_calls fs d run @
     verify_processes d run @ verify_events d run @ verify_external_effects d run @
     verify_policy_decisions d run @ verify_risk_and_responses d run @
     verify_execution_context_bindings d run @ verify_runtime_causality d run @
     verify_telemetry_batches sha d run @ verify_process_observations d run @
     verify_replay_manifest sha fs d run @ verify_objects sha fs d run"

definition verify_run_result ::
  "(bytes \<Rightarrow> string) \<Rightarrow> (string \<Rightarrow> bytes option) \<Rightarrow> db \<Rightarrow> string \<Rightarrow> verify_result option" where
  "verify_run_result sha fs d run =
     (if run = [] then None
      else if \<not> run_exists d run
        then Some ((add_issue (issue ''error'' ''unknown_run'' run) (empty_result run))\<lparr>vr_status := ''failed''\<rparr>)
      else
        let r = fold add_issue (verify_checks sha fs d run) (empty_result run)
        in Some (if vr_error_count r > 0 then r\<lparr>vr_status := ''failed''\<rparr> else r))"

text \<open>\<open>VerifyRun\<close> and \<open>VerifyRunJSON\<close> fail the command when errors were counted.\<close>

definition verify_run_ok ::
  "(bytes \<Rightarrow> string) \<Rightarrow> (string \<Rightarrow> bytes option) \<Rightarrow> db \<Rightarrow> string \<Rightarrow> bool" where
  "verify_run_ok sha fs d run =
     (case verify_run_result sha fs d run of None \<Rightarrow> False | Some r \<Rightarrow> \<not> vr_error_count r > 0)"

section \<open>Lemmas\<close>

lemma err_if_set [simp]: "i \<in> set (err_if bad kind x) \<longleftrightarrow> bad \<and> i = issue ''error'' kind x"
  by (auto simp: err_if_def)

lemma warn_if_set [simp]: "i \<in> set (warn_if bad kind x) \<longleftrightarrow> bad \<and> i = issue ''warning'' kind x"
  by (auto simp: warn_if_def)

lemma err_if_Nil [simp]: "err_if bad kind x = [] \<longleftrightarrow> \<not> bad"
  by (simp add: err_if_def)

lemma issue_kind [simp]: "vi_kind (issue sev kind x) = kind" "vi_severity (issue sev kind x) = sev"
  "vi_id (issue sev kind x) = x"
  by (simp_all add: issue_def)

definition counted :: "verify_result \<Rightarrow> bool" where
  "counted r \<longleftrightarrow> vr_issue_count r = length (vr_issues r) \<and>
     vr_error_count r = length (filter (\<lambda>i. vi_severity i = ''error'') (vr_issues r)) \<and>
     vr_warning_count r = length (filter (\<lambda>i. vi_severity i \<noteq> ''error'') (vr_issues r))"

lemma add_issue_counted: "counted r \<Longrightarrow> counted (add_issue i r)"
  by (simp add: counted_def add_issue_def Let_def)

lemma add_issue_fields [simp]: "vr_issues (add_issue i r) = vr_issues r @ [i]"
  "vr_run_id (add_issue i r) = vr_run_id r" "vr_schema_version (add_issue i r) = vr_schema_version r"
  "vr_status (add_issue i r) = vr_status r"
  by (simp_all add: add_issue_def Let_def)

lemma fold_add_issue:
  "counted r \<Longrightarrow> counted (fold add_issue is r) \<and> vr_issues (fold add_issue is r) = vr_issues r @ is \<and>
     vr_status (fold add_issue is r) = vr_status r \<and> vr_run_id (fold add_issue is r) = vr_run_id r"
  by (induction "is" arbitrary: r) (simp_all add: add_issue_counted)

lemma empty_result_counted [simp]: "counted (empty_result run)" "vr_issues (empty_result run) = []"
  "vr_status (empty_result run) = ''ok''" "vr_run_id (empty_result run) = run"
  by (simp_all add: empty_result_def counted_def)

lemma batches_Nil: "n = 0 \<or> xs = [] \<Longrightarrow> batches n xs = []"
  by (subst batches.simps) simp

lemma batches_concat: "n > 0 \<Longrightarrow> concat (batches n xs) = xs"
proof (induction n xs rule: batches.induct)
  case (1 n xs)
  show ?case
  proof (cases "xs = []")
    case False
    with 1(2) have b: "batches n xs = take n xs # batches n (drop n xs)" by (subst batches.simps) simp
    have "concat (batches n (drop n xs)) = drop n xs" using 1 False by simp
    then show ?thesis by (simp add: b)
  qed (simp add: batches_Nil)
qed

lemma batches_length: "b \<in> set (batches n xs) \<Longrightarrow> length b \<le> n"
proof (induction n xs rule: batches.induct)
  case (1 n xs)
  show ?case
  proof (cases "n = 0 \<or> xs = []")
    case True
    then have "batches n xs = []" by (rule batches_Nil)
    with 1(2) show ?thesis by simp
  next
    case False
    then have b: "batches n xs = take n xs # batches n (drop n xs)" by (subst batches.simps) simp
    from 1(2) consider "b = take n xs" | "b \<in> set (batches n (drop n xs))" unfolding b by auto
    then show ?thesis using 1(1) [OF False] by cases simp_all
  qed
qed

lemma batches_member: "n > 0 \<Longrightarrow> (\<exists>b \<in> set (batches n xs). x \<in> set b) \<longleftrightarrow> x \<in> set xs"
proof -
  assume "n > 0"
  then have "set (concat (batches n xs)) = set xs" by (simp add: batches_concat)
  then show ?thesis by auto
qed

lemma map_of_unique:
  "(k, v) \<in> set kvs \<Longrightarrow> (\<And>v'. (k, v') \<in> set kvs \<Longrightarrow> v' = v) \<Longrightarrow> map_of kvs k = Some v"
proof -
  assume kv: "(k, v) \<in> set kvs" and uniq: "\<And>v'. (k, v') \<in> set kvs \<Longrightarrow> v' = v"
  from kv obtain v' where v': "map_of kvs k = Some v'" using weak_map_of_SomeI by fast
  from map_of_SomeD [OF v'] uniq have "v' = v" by simp
  with v' show ?thesis by simp
qed

lemma load_attempt_ids_set:
  "set (load_attempt_ids d ids) = {(tc_id t, tc_attempt_id t) |t. t \<in> set (db_tool_calls d) \<and> tc_id t \<in> set ids}"
proof -
  have "set (load_attempt_ids d ids) =
      {(tc_id t, tc_attempt_id t) |t. t \<in> set (db_tool_calls d) \<and> (\<exists>b \<in> set (batches 900 ids). tc_id t \<in> set b)}"
    unfolding load_attempt_ids_def by auto
  also have "\<dots> = {(tc_id t, tc_attempt_id t) |t. t \<in> set (db_tool_calls d) \<and> tc_id t \<in> set ids}"
    by (simp add: batches_member)
  finally show ?thesis .
qed

lemma lookup_attempt_query:
  assumes "distinct (map tc_id (db_tool_calls d))" "i \<in> set ids"
  shows "lookup_attempt (load_attempt_ids d ids) i =
    (case find (\<lambda>t. tc_id t = i) (db_tool_calls d) of None \<Rightarrow> [] | Some t \<Rightarrow> tc_attempt_id t)"
proof (cases "find (\<lambda>t. tc_id t = i) (db_tool_calls d)")
  case None
  then have "\<forall>t \<in> set (db_tool_calls d). tc_id t \<noteq> i" by (simp add: find_None_iff)
  then have "map_of (load_attempt_ids d ids) i = None"
    by (auto simp: map_of_eq_None_iff load_attempt_ids_set)
  with None show ?thesis by (simp add: lookup_attempt_def)
next
  case (Some t)
  then have t: "t \<in> set (db_tool_calls d)" "tc_id t = i" by (auto simp: find_Some_iff)
  have "map_of (load_attempt_ids d ids) i = Some (tc_attempt_id t)"
  proof (rule map_of_unique)
    show "(i, tc_attempt_id t) \<in> set (load_attempt_ids d ids)"
      using t assms(2) by (auto simp: load_attempt_ids_set)
    fix v assume "(i, v) \<in> set (load_attempt_ids d ids)"
    then obtain u where "u \<in> set (db_tool_calls d)" "tc_id u = i" "v = tc_attempt_id u"
      by (auto simp: load_attempt_ids_set)
    with t assms(1) show "v = tc_attempt_id t" by (metis distinct_map inj_onD)
  qed
  with Some show ?thesis by (simp add: lookup_attempt_def)
qed

subsection \<open>Properties\<close>

text \<open>The result of \<open>Verify\<close> is consistent. It exists exactly for a non-empty run id; its issues
are those of the checks in order (or the single unknown_run error of a run with no row in any anchor
table); the three counters count them; the status is "failed" exactly when there is an error, and
\<open>graph verify\<close> succeeds exactly when the run exists and no check reports an error.\<close>

theorem verify_result_consistent:
  "(case verify_run_result sha fs d run of
      None \<Rightarrow> run = []
    | Some r \<Rightarrow> run \<noteq> [] \<and> vr_run_id r = run \<and> counted r \<and>
        (vr_issues r = (if run_exists d run then verify_checks sha fs d run else [issue ''error'' ''unknown_run'' run])) \<and>
        (vr_status r = (if list_ex (\<lambda>i. vi_severity i = ''error'') (vr_issues r) then ''failed'' else ''ok''))) \<and>
   (verify_run_ok sha fs d run \<longleftrightarrow> run \<noteq> [] \<and> run_exists d run \<and>
      list_all (\<lambda>i. vi_severity i \<noteq> ''error'') (verify_checks sha fs d run))"
proof -
  let ?r = "fold add_issue (verify_checks sha fs d run) (empty_result run)"
  have r: "counted ?r" "vr_issues ?r = verify_checks sha fs d run" "vr_status ?r = ''ok''" "vr_run_id ?r = run"
    using fold_add_issue [of "empty_result run" "verify_checks sha fs d run"] by simp_all
  have err: "counted q \<Longrightarrow> vr_error_count q > 0 \<longleftrightarrow> list_ex (\<lambda>i. vi_severity i = ''error'') (vr_issues q)" for q
    by (auto simp: counted_def filter_empty_conv list_ex_iff)
  have upd: "counted (q\<lparr>vr_status := x\<rparr>) = counted q" for q x by (simp add: counted_def)
  show ?thesis
  proof (cases "run = [] \<or> \<not> run_exists d run")
    case True
    then show ?thesis
      using add_issue_counted [of "empty_result run"] err [of "add_issue (issue ''error'' ''unknown_run'' run) (empty_result run)"]
      by (auto simp: verify_run_result_def verify_run_ok_def upd)
  next
    case False
    then show ?thesis using r err [OF r(1)]
      by (auto simp: verify_run_result_def verify_run_ok_def upd Let_def list_all_iff list_ex_iff)
  qed
qed

text \<open>The in-memory lookups of \<open>verifyRuntimeCausality\<close> are exact substitutes for the single-row
queries they replaced. Membership in the preloaded edge set is the query on graph_edges, and for every
tool call id among those preloaded the map built from batches of at most 900 ids gives what the lookup
by id gives, in whatever order the ids were listed, and the empty id for a missing row.\<close>

theorem causality_lookups_exact:
  assumes "distinct (map tc_id (db_tool_calls d))"
  shows "has_edge (load_run_edge_set d run) src dst ty = edge_exists d run src dst ty \<and>
    (\<forall>i \<in> set ids. lookup_attempt (load_attempt_ids d ids) i =
       (case find (\<lambda>t. tc_id t = i) (db_tool_calls d) of None \<Rightarrow> [] | Some t \<Rightarrow> tc_attempt_id t)) \<and>
    (\<forall>b \<in> set (batches 900 ids). length b \<le> 900) \<and> concat (batches 900 ids) = ids"
  using assms lookup_attempt_query batches_length [of _ 900 ids] batches_concat [of 900 ids]
  by (auto simp: has_edge_def load_run_edge_set_def edge_exists_def list_ex_iff)

lemma causality_lookups_exact_witness:
  "lookup_attempt (load_attempt_ids empty_db [''tc-1'']) ''tc-1'' = []"
proof -
  have "distinct (map tc_id (db_tool_calls empty_db))" by (simp add: empty_db_def)
  from causality_lookups_exact [OF this, of "[]" "[]" "[]" "[]" "[''tc-1'']"]
  show ?thesis by (simp add: empty_db_def)
qed

text \<open>Six checks of \<open>graph verify\<close> can never report anything. The queries of
\<open>verifyProcesses\<close> and \<open>verifyAttempts\<close> already join on the session and the rollout whose absence they
then look for, and \<open>BuildReplayRun\<close> fails (reported as replay_manifest_failed) before a manifest could
lack a base snapshot, a tool call, its rollouts or its schema version.\<close>

theorem verify_dead_checks:
  "''missing_session'' \<notin> vi_kind ` set (verify_processes d run) \<and>
   ''missing_rollout'' \<notin> vi_kind ` set (verify_attempts fs d run) \<and>
   vi_kind ` set (verify_replay_manifest sha fs d run) \<inter>
     {''replay_missing_base_snapshot'', ''replay_missing_tool_call'', ''empty_replay_manifest'',
      ''invalid_replay_schema''} = {}"
proof (intro conjI)
  show "''missing_session'' \<notin> vi_kind ` set (verify_processes d run)"
    by (auto simp: verify_processes_def Let_def)
  show "''missing_rollout'' \<notin> vi_kind ` set (verify_attempts fs d run)"
    by (auto simp: verify_attempts_def Let_def)
  show "vi_kind ` set (verify_replay_manifest sha fs d run) \<inter>
     {''replay_missing_base_snapshot'', ''replay_missing_tool_call'', ''empty_replay_manifest'',
      ''invalid_replay_schema''} = {}"
  proof (cases "build_replay_run sha fs d run")
    case (Inl e)
    then show ?thesis by (cases e) (auto simp: verify_replay_manifest_def)
  next
    case (Inr m)
    note facts = replay_run_facts [OF Inr]
    have base: "\<not> (rro_base_snapshot_id r \<noteq> [] \<and> rro_base_snapshot r = None)" if "r \<in> set (rma_rollouts m)" for r
      using facts(4) [OF that] rollout_facts(2) by blast
    have tool: "\<not> (rat_tool_call_id a \<noteq> [] \<and> rat_tool_call a = None)"
      if r: "r \<in> set (rma_rollouts m)" and a: "a \<in> set (rro_attempts r)" for r a
    proof -
      obtain i where i: "build_replay_rollout sha fs d i [] = Inr r" using facts(4) [OF r] by blast
      obtain j where "build_replay_attempt_node sha fs d i j = Inr a" using rollout_facts(3) [OF i a] by blast
      then show ?thesis by (rule attempt_node_facts) blast
    qed
    have "err_if (rro_base_snapshot_id r \<noteq> [] \<and> rro_base_snapshot r = None) k i = []"
      if "r \<in> set (rma_rollouts m)" for r k i using base [OF that] by (simp add: err_if_def)
    moreover have "err_if (rat_tool_call_id a \<noteq> [] \<and> rat_tool_call a = None) k i = []"
      if "r \<in> set (rma_rollouts m)" "a \<in> set (rro_attempts r)" for r a k i using tool [OF that] by (simp add: err_if_def)
    ultimately show ?thesis using facts(1,2) Inr
      by (auto simp: verify_replay_manifest_def replay_schema_def simp del: err_if_Nil)
  qed
qed

end
