(* ===== verification/PolicyChain.thy ===== *)
theory PolicyChain
  imports PolicyStore Verify
begin

text \<open>
  How the policy store and \<open>graph verify\<close> fit together: on a store that does not fail and with
  identifiers that do not repeat, \<open>persist_existing\<close> leaves exactly the rows and edges that
  \<open>verifyPolicyDecisions\<close> and \<open>verifyRiskAndResponses\<close> ask for.
\<close>

section \<open>A store that is ready\<close>

definition db_ids :: "db \<Rightarrow> string set" where
  "db_ids d = pd_id ` set (db_policy_decisions d) \<union> rk_id ` set (db_risk_signals d) \<union>
     si_id ` set (db_signals d) \<union> si_source_id ` set (db_signals d) \<union> ge_id ` set (db_graph_edges d) \<union>
     ra_id ` set (db_response_actions d) \<union> cs_id ` set (db_cost_samples d)"

definition ready :: "world \<Rightarrow> bool" where
  "ready w \<longleftrightarrow> no_faults w \<and> good_entropy w \<and> (\<forall>i \<ge> w_ids w. \<forall>p. drawn p w i \<notin> db_ids (w_db w))"

lemma ready_step:
  assumes "ready w" "no_faults w'" "w_entropy w' = w_entropy w" "w_ids w \<le> w_ids w'"
    and "db_ids (w_db w') \<subseteq> db_ids (w_db w) \<union> {drawn p w i |p i. w_ids w \<le> i \<and> i < w_ids w'}"
  shows "ready w'"
proof -
  have g: "good_entropy w" using assms(1) by (simp add: ready_def)
  have e: "drawn p w' i = drawn p w i" for p i using assms(3) by (simp add: drawn_def)
  have "good_entropy w'"
    using g assms(3,4) by (auto simp: good_entropy_def inj_on_def)
  moreover have "drawn p w' i \<notin> db_ids (w_db w')" if "w_ids w' \<le> i" for i p
  proof
    assume "drawn p w' i \<in> db_ids (w_db w')"
    then consider "drawn p w i \<in> db_ids (w_db w)"
      | q j where "drawn p w i = drawn q w j" "w_ids w \<le> j" "j < w_ids w'"
      using assms(5) e by auto
    then show False
    proof cases
      case 1
      then show False using assms(1,4) that by (auto simp: ready_def)
    next
      case 2
      then have "i = j" using drawn_inj [OF g, of i j p q] assms(4) that by simp
      with 2(3) that show False by simp
    qed
  qed
  ultimately show ?thesis using assms(2) by (simp add: ready_def)
qed

lemma ready_new_id: "ready w \<Longrightarrow> new_id p w = (drawn p w (w_ids w), w\<lparr>w_ids := Suc (w_ids w)\<rparr>)"
  by (simp add: ready_def new_id_good)

lemma ready_fresh: "ready w \<Longrightarrow> drawn p w (w_ids w) \<notin> db_ids (w_db w)"
  by (simp add: ready_def)

lemma ready_now: "ready w \<Longrightarrow> now w = (t, w') \<Longrightarrow> ready w' \<and> w_db w' = w_db w \<and> t \<noteq> []"
  by (auto simp: now_def ready_def drawn_def)

lemma ready_no_faults: "ready w \<Longrightarrow> no_faults w"
  by (simp add: ready_def)

lemma drawn_between: "w_ids w \<le> i \<Longrightarrow> i < n \<Longrightarrow> drawn p w i \<in> {drawn p w i |p i. w_ids w \<le> i \<and> i < n}"
  by blast

text \<open>What one stage leaves: the table it appends to, and a ready world.\<close>

lemma add_edge_spec:
  assumes "ready w"
  shows "ready (add_edge run src dst ty ev t w)"
    and "\<exists>i. w_db (add_edge run src dst ty ev t w) =
      (w_db w)\<lparr>db_graph_edges := db_graph_edges (w_db w) @ [edge_row i run src dst ty ev t]\<rparr>"
proof -
  let ?i = "drawn ''edge'' w (w_ids w)"
  let ?g = "edge_row ?i run src dst ty ev t"
  let ?w = "w\<lparr>w_ids := Suc (w_ids w), w_stmts := Suc (w_stmts w),
     w_db := (w_db w)\<lparr>db_graph_edges := db_graph_edges (w_db w) @ [?g]\<rparr>\<rparr>"
  have "?i \<notin> ge_id ` set (db_graph_edges (w_db w))"
    using ready_fresh [OF assms, of "''edge''"] by (auto simp: db_ids_def)
  then have f: "filter (\<lambda>x. ge_id x \<noteq> ?i) (db_graph_edges (w_db w)) = db_graph_edges (w_db w)"
    by (intro filter_True) (metis image_eqI)
  have eq: "add_edge run src dst ty ev t w = ?w"
    using assms f by (simp add: add_edge_def ready_new_id exec_total_ignore_no_faults ready_no_faults
        tbl_replace_def edge_row_def)
  show "\<exists>i. w_db (add_edge run src dst ty ev t w) =
      (w_db w)\<lparr>db_graph_edges := db_graph_edges (w_db w) @ [edge_row i run src dst ty ev t]\<rparr>"
    unfolding eq by (rule exI [of _ ?i]) simp
  show "ready (add_edge run src dst ty ev t w)"
    unfolding eq using ready_no_faults [OF assms]
    by (intro ready_step [OF assms]) (auto simp: db_ids_def edge_row_def)
qed

lemma exec_insert_fresh:
  assumes "no_faults w" "key r \<notin> key ` set (get (w_db w))"
  shows "exec (tbl_insert get upd key r) w =
    (True, w\<lparr>w_stmts := Suc (w_stmts w), w_db := upd (\<lambda>rs. rs @ [r]) (w_db w)\<rparr>)"
  using assms by (simp add: exec_no_faults tbl_insert_def)

lemma policy_signal_fields:
  "si_id (policy_signal risk ev e d t) = []" "si_created_at (policy_signal risk ev e d t) = t"
  "si_dimension (policy_signal risk ev e d t) = ''security''"
  "si_signal_type (policy_signal risk ev e d t) = ''policy_violation''"
  "si_run_id (policy_signal risk ev e d t) = pe_run_id e"
  "si_source_table (policy_signal risk ev e d t) = ''risk_signals''"
  "si_source_id (policy_signal risk ev e d t) = risk"
  by (simp_all add: policy_signal_def blank_signal_def)

lemma default_fields_keeps [simp]:
  "si_id (default_fields s) = si_id s" "si_created_at (default_fields s) = si_created_at s"
  "si_dimension (default_fields s) = si_dimension s" "si_run_id (default_fields s) = si_run_id s"
  "si_source_table (default_fields s) = si_source_table s" "si_source_id (default_fields s) = si_source_id s"
  by (simp_all add: default_fields_def)

text \<open>The unified signal of a fresh risk signal is inserted.\<close>

lemma record_policy_signal:
  assumes "ready w" "t \<noteq> []" "risk \<noteq> []" "risk \<notin> si_source_id ` set (db_signals (w_db w))"
  shows "\<exists>s. record_signal (policy_signal risk ev e d t) w =
      (Inr (drawn ''sig'' w (w_ids w), True), w\<lparr>w_ids := Suc (w_ids w), w_stmts := Suc (w_stmts w),
         w_db := (w_db w)\<lparr>db_signals := db_signals (w_db w) @ [s]\<rparr>\<rparr>) \<and>
    si_id s = drawn ''sig'' w (w_ids w) \<and> si_dimension s = ''security'' \<and> si_run_id s = pe_run_id e \<and>
    si_source_table s = ''risk_signals'' \<and> si_source_id s = risk"
proof -
  let ?i = "drawn ''sig'' w (w_ids w)"
  let ?p = "policy_signal risk ev e d t"
  define s where "s = default_fields (?p\<lparr>si_id := ?i\<rparr>)"
  have f: "si_id s = ?i" "si_dimension s = ''security''" "si_run_id s = pe_run_id e"
    "si_source_table s = ''risk_signals''" "si_source_id s = risk" "si_created_at s = t"
    by (simp_all add: s_def policy_signal_fields)
  have id: "default_id ?p w = (?p\<lparr>si_id := ?i\<rparr>, w\<lparr>w_ids := Suc (w_ids w)\<rparr>)"
    using assms(1) by (simp add: default_id_def policy_signal_fields ready_new_id)
  have time: "default_time s v = (s, v)" for v using f assms(2) by (simp add: default_time_def)
  have "\<not> list_ex (\<lambda>r. si_source_table r = ''risk_signals'' \<and> si_source_id r = risk) (db_signals (w_db w))"
    using assms(4) by (auto simp: list_ex_iff)
  moreover have "?i \<notin> si_id ` set (db_signals (w_db w))"
    using ready_fresh [OF assms(1), of "''sig''"] by (auto simp: db_ids_def)
  ultimately have ins: "insert_signal s (w_db w) = Some ((w_db w)\<lparr>db_signals := db_signals (w_db w) @ [s]\<rparr>, True)"
    using f by (simp add: insert_signal_def tbl_insert_def)
  have "trim_space ''policy_violation'' \<noteq> []"
    by (subst trim_space_no_space) (simp_all add: is_space_def)
  then have "record_signal ?p w = (case exec_with (insert_signal s) (w\<lparr>w_ids := Suc (w_ids w)\<rparr>) of
      (None, w) \<Rightarrow> (Inl RecordFailed, w) | (Some inserted, w) \<Rightarrow> (Inr (si_id s, inserted), w))"
    using assms(3) id time
    by (simp add: record_signal_def policy_signal_fields valid_dimension_def s_def [symmetric])
  also have "\<dots> = (Inr (?i, True), w\<lparr>w_ids := Suc (w_ids w), w_stmts := Suc (w_stmts w),
         w_db := (w_db w)\<lparr>db_signals := db_signals (w_db w) @ [s]\<rparr>\<rparr>)"
    using ready_no_faults [OF assms(1)] ins f by (simp add: exec_with_no_faults)
  finally show ?thesis using f by blast
qed

lemma persist_risk_spec:
  assumes "ready w" "t \<noteq> []"
  shows "\<exists>risk w'. persist_risk ev pol e d t w = (Inr risk, w') \<and> ready w' \<and> risk \<noteq> [] \<and>
    risk \<notin> rk_id ` set (db_risk_signals (w_db w)) \<and>
    (\<exists>s i. si_dimension s = ''security'' \<and> si_run_id s = pe_run_id e \<and>
       si_source_table s = ''risk_signals'' \<and> si_source_id s = risk \<and>
       w_db w' = (w_db w)\<lparr>db_risk_signals := db_risk_signals (w_db w) @ [risk_row risk ev pol e d t],
         db_signals := db_signals (w_db w) @ [s],
         db_graph_edges := db_graph_edges (w_db w) @ [edge_row i (pe_run_id e) (''policy_decision/'' @ pol)
           (''risk_signal/'' @ risk) ''policy_decision_risk_signal'' ev t]\<rparr>)"
proof -
  let ?r = "drawn ''risk'' w (w_ids w)"
  let ?row = "risk_row ?r ev pol e d t"
  have fr: "?r \<notin> db_ids (w_db w)" by (rule ready_fresh [OF assms(1)])
  have rk: "?r \<notin> rk_id ` set (db_risk_signals (w_db w))" and src: "?r \<notin> si_source_id ` set (db_signals (w_db w))"
    using fr by (auto simp: db_ids_def)
  have ne: "?r \<noteq> []" by (simp add: drawn_def)
  define w1 where "w1 = w\<lparr>w_ids := Suc (w_ids w), w_stmts := Suc (w_stmts w),
     w_db := (w_db w)\<lparr>db_risk_signals := db_risk_signals (w_db w) @ [?row]\<rparr>\<rparr>"
  have ex: "exec (tbl_insert db_risk_signals db_risk_signals_update rk_id ?row) (w\<lparr>w_ids := Suc (w_ids w)\<rparr>) = (True, w1)"
    using ready_no_faults [OF assms(1)] rk
    by (subst exec_insert_fresh) (simp_all add: w1_def risk_row_def)
  have r1: "ready w1"
    using ready_no_faults [OF assms(1)]
    by (intro ready_step [OF assms(1)]) (auto simp: w1_def db_ids_def risk_row_def)
  have "?r \<notin> si_source_id ` set (db_signals (w_db w1))" using src by (simp add: w1_def)
  from record_policy_signal [OF r1 assms(2) ne this, of ev e d] obtain s where
    s: "record_signal (policy_signal ?r ev e d t) w1 =
      (Inr (drawn ''sig'' w1 (w_ids w1), True), w1\<lparr>w_ids := Suc (w_ids w1), w_stmts := Suc (w_stmts w1),
         w_db := (w_db w1)\<lparr>db_signals := db_signals (w_db w1) @ [s]\<rparr>\<rparr>)"
    "si_id s = drawn ''sig'' w1 (w_ids w1)" "si_dimension s = ''security''" "si_run_id s = pe_run_id e"
    "si_source_table s = ''risk_signals''" "si_source_id s = ?r" by blast
  define w2 where "w2 = w1\<lparr>w_ids := Suc (w_ids w1), w_stmts := Suc (w_stmts w1),
         w_db := (w_db w1)\<lparr>db_signals := db_signals (w_db w1) @ [s]\<rparr>\<rparr>"
  have dr: "drawn p w1 i = drawn p w i" for p i by (simp add: w1_def drawn_def)
  have r2: "ready w2"
  proof (rule ready_step [OF assms(1)])
    have "drawn ''sig'' w (w_ids w1) \<in> {drawn p w i |p i. w_ids w \<le> i \<and> i < w_ids w2}"
      "?r \<in> {drawn p w i |p i. w_ids w \<le> i \<and> i < w_ids w2}"
      by (rule drawn_between; simp add: w2_def w1_def)+
    then show "db_ids (w_db w2) \<subseteq> db_ids (w_db w) \<union> {drawn p w i |p i. w_ids w \<le> i \<and> i < w_ids w2}"
      using s(2,6) by (auto simp: db_ids_def w2_def w1_def dr risk_row_def)
  qed (use ready_no_faults [OF assms(1)] in \<open>simp_all add: w2_def w1_def\<close>)
  define w3 where "w3 = add_edge (pe_run_id e) (''policy_decision/'' @ pol) (''risk_signal/'' @ ?r)
                     ''policy_decision_risk_signal'' ev t w2"
  have p: "persist_risk ev pol e d t w = (Inr ?r, w3)"
    using ex s(1) by (simp add: persist_risk_def ready_new_id [OF assms(1)] w3_def w2_def)
  obtain i where i: "w_db w3 = (w_db w2)\<lparr>db_graph_edges := db_graph_edges (w_db w2) @
      [edge_row i (pe_run_id e) (''policy_decision/'' @ pol) (''risk_signal/'' @ ?r)
        ''policy_decision_risk_signal'' ev t]\<rparr>"
    using add_edge_spec(2) [OF r2] unfolding w3_def by blast
  have r3: "ready w3" unfolding w3_def by (rule add_edge_spec(1) [OF r2])
  have "w_db w3 = (w_db w)\<lparr>db_risk_signals := db_risk_signals (w_db w) @ [?row],
         db_signals := db_signals (w_db w) @ [s],
         db_graph_edges := db_graph_edges (w_db w) @ [edge_row i (pe_run_id e) (''policy_decision/'' @ pol)
           (''risk_signal/'' @ ?r) ''policy_decision_risk_signal'' ev t]\<rparr>"
    by (simp add: i w2_def w1_def)
  with p r3 ne rk s(3-6) show ?thesis by blast
qed

lemma record_response_spec:
  assumes "ready w"
  shows "\<exists>act i. w_db (record_response risk ev pol e d t w) = (w_db w)\<lparr>
      db_response_actions := db_response_actions (w_db w) @ [action_row act risk pol e d t],
      db_graph_edges := db_graph_edges (w_db w) @ [edge_row i (pe_run_id e) (''risk_signal/'' @ risk)
        (''response_action/'' @ act) ''risk_signal_response_action'' ev t]\<rparr>"
    and "ready (record_response risk ev pol e d t w)"
proof -
  let ?a = "drawn ''action'' w (w_ids w)"
  let ?row = "action_row ?a risk pol e d t"
  have id: "ra_id ?row = ?a" by (simp add: action_row_def Let_def)
  have fr: "?a \<notin> ra_id ` set (db_response_actions (w_db w))"
    using ready_fresh [OF assms, of "''action''"] by (auto simp: db_ids_def)
  define w1 where "w1 = w\<lparr>w_ids := Suc (w_ids w), w_stmts := Suc (w_stmts w),
     w_db := (w_db w)\<lparr>db_response_actions := db_response_actions (w_db w) @ [?row]\<rparr>\<rparr>"
  have "exec (tbl_insert db_response_actions db_response_actions_update ra_id ?row) (w\<lparr>w_ids := Suc (w_ids w)\<rparr>) = (True, w1)"
    using ready_no_faults [OF assms] fr id by (subst exec_insert_fresh) (simp_all add: w1_def)
  then have eq: "record_response risk ev pol e d t w = add_edge (pe_run_id e) (''risk_signal/'' @ risk)
      (''response_action/'' @ ?a) ''risk_signal_response_action'' ev t w1"
    by (simp add: record_response_def ready_new_id [OF assms] exec_ignore_def)
  have r1: "ready w1"
    using ready_no_faults [OF assms] id
    by (intro ready_step [OF assms]) (auto simp: w1_def db_ids_def)
  show "ready (record_response risk ev pol e d t w)" unfolding eq by (rule add_edge_spec(1) [OF r1])
  show "\<exists>act i. w_db (record_response risk ev pol e d t w) = (w_db w)\<lparr>
      db_response_actions := db_response_actions (w_db w) @ [action_row act risk pol e d t],
      db_graph_edges := db_graph_edges (w_db w) @ [edge_row i (pe_run_id e) (''risk_signal/'' @ risk)
        (''response_action/'' @ act) ''risk_signal_response_action'' ev t]\<rparr>"
    using add_edge_spec(2) [OF r1, of "pe_run_id e" "''risk_signal/'' @ risk" "''response_action/'' @ ?a"
        "''risk_signal_response_action''" ev t] unfolding eq
    by (elim exE) (rule exI [of _ ?a], simp add: w1_def, blast)
qed

lemma record_cost_spec:
  assumes "ready w"
  shows "\<exists>cs. w_db (record_cost e d t w) = (w_db w)\<lparr>db_cost_samples := db_cost_samples (w_db w) @ cs\<rparr> \<and>
      (if pe_run_id e = [] then cs = [] else \<exists>i. cs = [cost_row i e d t])"
    and "ready (record_cost e d t w)"
proof -
  let ?c = "drawn ''cost'' w (w_ids w)"
  let ?row = "cost_row ?c e d t"
  have id: "cs_id ?row = ?c" by (simp add: cost_row_def)
  have fr: "?c \<notin> cs_id ` set (db_cost_samples (w_db w))"
    using ready_fresh [OF assms, of "''cost''"] by (auto simp: db_ids_def)
  define w1 where "w1 = w\<lparr>w_ids := Suc (w_ids w), w_stmts := Suc (w_stmts w),
     w_db := (w_db w)\<lparr>db_cost_samples := db_cost_samples (w_db w) @ [?row]\<rparr>\<rparr>"
  have "exec (tbl_insert db_cost_samples db_cost_samples_update cs_id ?row) (w\<lparr>w_ids := Suc (w_ids w)\<rparr>) = (True, w1)"
    using ready_no_faults [OF assms] fr id by (subst exec_insert_fresh) (simp_all add: w1_def)
  then have eq: "record_cost e d t w = (if pe_run_id e = [] then w else w1)"
    by (simp add: record_cost_def ready_new_id [OF assms] exec_ignore_def)
  have r1: "ready w1"
    using ready_no_faults [OF assms] id
    by (intro ready_step [OF assms]) (auto simp: w1_def db_ids_def)
  show "ready (record_cost e d t w)" using r1 assms by (simp add: eq)
  show "\<exists>cs. w_db (record_cost e d t w) = (w_db w)\<lparr>db_cost_samples := db_cost_samples (w_db w) @ cs\<rparr> \<and>
      (if pe_run_id e = [] then cs = [] else \<exists>i. cs = [cost_row i e d t])"
  proof (cases "pe_run_id e = []")
    case True
    then show ?thesis by (intro exI [of _ "[]"]) (simp add: eq)
  next
    case False
    then show ?thesis by (intro exI [of _ "[?row]"]) (auto simp: eq w1_def)
  qed
qed

text \<open>The side effects touch the status columns of three tables.\<close>

definition same_but_status :: "db \<Rightarrow> db \<Rightarrow> bool" where
  "same_but_status d d' \<longleftrightarrow>
     d' = d\<lparr>db_sessions := db_sessions d', db_snapshots := db_snapshots d', db_processes := db_processes d'\<rparr> \<and>
     map se_id (db_sessions d') = map se_id (db_sessions d) \<and>
     map sn_id (db_snapshots d') = map sn_id (db_snapshots d)"

definition enforced :: "policy_event \<Rightarrow> string \<Rightarrow> db \<Rightarrow> bool" where
  "enforced e d db \<longleftrightarrow>
     (d \<in> {''quarantine'', ''kill''} \<and> pe_session_id e \<noteq> [] \<longrightarrow>
        (\<forall>s \<in> set (db_snapshots db). sn_session_id s = Some (pe_session_id e) \<longrightarrow> sn_status s = ''tainted'') \<and>
        (\<forall>s \<in> set (db_sessions db). se_id s = pe_session_id e \<longrightarrow>
           se_status s = (if d = ''kill'' then ''stopped'' else ''quarantined''))) \<and>
     (d = ''kill'' \<and> pe_process_id e \<noteq> [] \<longrightarrow>
        (\<forall>p \<in> set (db_processes db). pr_id p = pe_process_id e \<longrightarrow> pr_status p = ''killed''))"

lemma same_but_statusE:
  assumes "same_but_status d d'"
  obtains ss ns ps where "d' = d\<lparr>db_sessions := ss, db_snapshots := ns, db_processes := ps\<rparr>"
    "map se_id ss = map se_id (db_sessions d)" "map sn_id ns = map sn_id (db_snapshots d)"
  using assms unfolding same_but_status_def by blast

lemma same_but_status_ids: "same_but_status d d' \<Longrightarrow> db_ids d' = db_ids d"
  by (erule same_but_statusE) (simp add: db_ids_def)

lemma map_update_key: "(\<And>r. k (f r) = k r) \<Longrightarrow> map k (map (\<lambda>r. if P r then f r else r) rs) = map k rs"
  by (induction rs) auto

lemma same_but_status_refl: "same_but_status d d"
  by (simp add: same_but_status_def)

lemma same_but_status_trans:
  assumes "same_but_status a b" "same_but_status b c"
  shows "same_but_status a c"
proof -
  obtain s1 n1 p1 where 1: "b = a\<lparr>db_sessions := s1, db_snapshots := n1, db_processes := p1\<rparr>"
    "map se_id s1 = map se_id (db_sessions a)" "map sn_id n1 = map sn_id (db_snapshots a)"
    using assms(1) by (rule same_but_statusE)
  obtain s2 n2 p2 where 2: "c = b\<lparr>db_sessions := s2, db_snapshots := n2, db_processes := p2\<rparr>"
    "map se_id s2 = map se_id (db_sessions b)" "map sn_id n2 = map sn_id (db_snapshots b)"
    using assms(2) by (rule same_but_statusE)
  show ?thesis using 1 2 by (simp add: same_but_status_def)
qed

lemma status_writes:
  "same_but_status d (taint_snapshots s d)" "same_but_status d (set_session_status s st t d)"
  "same_but_status d (kill_process_row p t d)"
  by (simp_all add: same_but_status_def taint_snapshots_def set_session_status_def kill_process_row_def
      tbl_update_def comp_def if_distrib [of se_id] if_distrib [of sn_id] cong: if_cong)

definition enforce_db :: "policy_event \<Rightarrow> string \<Rightarrow> string \<Rightarrow> db \<Rightarrow> db" where
  "enforce_db e d t a =
     (let a = (if d \<in> {''quarantine'', ''kill''} \<and> pe_session_id e \<noteq> [] then
                 taint_snapshots (pe_session_id e)
                   (set_session_status (pe_session_id e) (if d = ''kill'' then ''stopped'' else ''quarantined'') t a)
               else a)
      in if d = ''kill'' \<and> pe_process_id e \<noteq> [] then kill_process_row (pe_process_id e) t a else a)"

lemma exec_total_ignore_parts:
  assumes "no_faults w"
  shows "w_db (exec_total_ignore f w) = f (w_db w)" "no_faults (exec_total_ignore f w)"
    "w_entropy (exec_total_ignore f w) = w_entropy w" "w_ids (exec_total_ignore f w) = w_ids w"
  using assms by (simp_all add: world_simps)

lemma enforce_no_faults:
  assumes "no_faults w"
  shows "w_db (enforce e d t w) = enforce_db e d t (w_db w)" "no_faults (enforce e d t w)"
    "w_entropy (enforce e d t w) = w_entropy w" "w_ids (enforce e d t w) = w_ids w"
  using assms by (simp_all add: enforce_def enforce_db_def Let_def exec_total_ignore_parts)

lemma same_enforce_db: "same_but_status a (enforce_db e d t a)"
  unfolding enforce_db_def Let_def
  by (auto intro: same_but_status_refl status_writes same_but_status_trans [OF status_writes(2) status_writes(1)]
      same_but_status_trans [OF same_but_status_trans [OF status_writes(2) status_writes(1)] status_writes(3)])

lemma status_tables:
  "db_snapshots (taint_snapshots i a) = map (\<lambda>s. if sn_session_id s = Some i then s\<lparr>sn_status := ''tainted''\<rparr> else s) (db_snapshots a)"
  "db_sessions (taint_snapshots i a) = db_sessions a" "db_processes (taint_snapshots i a) = db_processes a"
  "db_snapshots (set_session_status i st t a) = db_snapshots a"
  "db_sessions (set_session_status i st t a) = map (\<lambda>s. if se_id s = i then s\<lparr>se_status := st, se_updated_at := t\<rparr> else s) (db_sessions a)"
  "db_processes (set_session_status i st t a) = db_processes a"
  "db_snapshots (kill_process_row i t a) = db_snapshots a" "db_sessions (kill_process_row i t a) = db_sessions a"
  "db_processes (kill_process_row i t a) = map (\<lambda>p. if pr_id p = i then p\<lparr>pr_status := ''killed'', pr_ended_at := Some t\<rparr> else p) (db_processes a)"
  by (simp_all add: taint_snapshots_def set_session_status_def kill_process_row_def tbl_update_def)

lemma enforced_enforce_db: "enforced e d (enforce_db e d t a)"
proof -
  have s: "db_snapshots (enforce_db e d t a) = db_snapshots (taint_snapshots (pe_session_id e) a)"
    "db_sessions (enforce_db e d t a) = db_sessions (set_session_status (pe_session_id e)
       (if d = ''kill'' then ''stopped'' else ''quarantined'') t a)"
    if "d \<in> {''quarantine'', ''kill''}" "pe_session_id e \<noteq> []"
    using that by (simp_all only: enforce_db_def Let_def if_True if_False simp_thms status_tables split: if_split)
  have p: "db_processes (enforce_db e d t a) = db_processes (kill_process_row (pe_process_id e) t a)"
    if "d = ''kill''" "pe_process_id e \<noteq> []"
    using that by (simp only: enforce_db_def Let_def if_True simp_thms status_tables if_distrib [of db_processes]) simp
  have "sn_status x = ''tainted''" if "d \<in> {''quarantine'', ''kill''}" "pe_session_id e \<noteq> []"
    "x \<in> set (db_snapshots (enforce_db e d t a))" "sn_session_id x = Some (pe_session_id e)" for x
    using that(3,4) unfolding s(1) [OF that(1,2)] status_tables by (auto split: if_splits)
  moreover have "se_status x = (if d = ''kill'' then ''stopped'' else ''quarantined'')"
    if "d \<in> {''quarantine'', ''kill''}" "pe_session_id e \<noteq> []"
    "x \<in> set (db_sessions (enforce_db e d t a))" "se_id x = pe_session_id e" for x
    using that(3,4) unfolding s(2) [OF that(1,2)] status_tables
    by (unfold set_map) (erule imageE, simp split: if_splits)
  moreover have "pr_status x = ''killed''" if "d = ''kill''" "pe_process_id e \<noteq> []"
    "x \<in> set (db_processes (enforce_db e d t a))" "pr_id x = pe_process_id e" for x
    using that(3,4) unfolding p [OF that(1,2)] status_tables by (auto split: if_splits)
  ultimately show ?thesis unfolding enforced_def by blast
qed

lemma enforce_spec:
  assumes "ready w"
  shows "ready (enforce e d t w)" "same_but_status (w_db w) (w_db (enforce e d t w))"
    "enforced e d (w_db (enforce e d t w))"
proof -
  have nf: "no_faults w" by (rule ready_no_faults [OF assms])
  note eq = enforce_no_faults [OF nf]
  show db: "same_but_status (w_db w) (w_db (enforce e d t w))" by (simp add: eq same_enforce_db)
  show "enforced e d (w_db (enforce e d t w))" by (simp add: eq enforced_enforce_db)
  show "ready (enforce e d t w)"
    using same_but_status_ids [OF same_enforce_db [of "w_db w" e d t]] nf
    by (intro ready_step [OF assms]) (simp_all add: eq)
qed

section \<open>What a decision leaves\<close>

text \<open>\<open>left_by ev e d t db db'\<close>: the tables after recording the decision \<open>d\<close> for the event \<open>ev\<close>.\<close>

definition has_row_edge :: "graph_edge list \<Rightarrow> string \<Rightarrow> string \<Rightarrow> string \<Rightarrow> string \<Rightarrow> bool" where
  "has_row_edge gs run src dst ty \<longleftrightarrow>
     (\<exists>g \<in> set gs. ge_run_id g = run \<and> ge_from_id g = src \<and> ge_to_id g = dst \<and> ge_edge_type g = ty)"

definition left_by :: "string \<Rightarrow> policy_event \<Rightarrow> decision \<Rightarrow> string \<Rightarrow> db \<Rightarrow> db \<Rightarrow> bool" where
  "left_by ev e d t a b \<longleftrightarrow>
     (\<exists>pol gs cs. db_policy_decisions b = db_policy_decisions a @ [decision_row pol ev e d t] \<and>
        pol \<noteq> [] \<and> pol \<notin> pd_id ` set (db_policy_decisions a) \<and>
        db_events b = db_events a \<and> db_execution_context_bindings b = db_execution_context_bindings a \<and>
        map se_id (db_sessions b) = map se_id (db_sessions a) \<and>
        enforced e (de_decision d) b \<and>
        db_graph_edges b = db_graph_edges a @ gs \<and>
        db_cost_samples b = db_cost_samples a @ cs \<and>
        (if pe_run_id e = [] then cs = [] else \<exists>i. cs = [cost_row i e (de_decision d) t]) \<and>
        has_row_edge gs (pe_run_id e) (event_node ev) (policy_node pol) ''runtime_event_policy_decision'' \<and>
        (pe_session_id e \<noteq> [] \<longrightarrow>
           has_row_edge gs (pe_run_id e) (policy_node pol) (pe_session_id e) ''policy_decision_session'') \<and>
        (if de_decision d = ''allow'' then
           db_risk_signals b = db_risk_signals a \<and> db_signals b = db_signals a \<and>
           db_response_actions b = db_response_actions a
         else
           \<exists>risk act s. risk \<noteq> [] \<and> risk \<notin> rk_id ` set (db_risk_signals a) \<and>
             db_risk_signals b = db_risk_signals a @ [risk_row risk ev pol e d t] \<and>
             db_signals b = db_signals a @ [s] \<and> si_dimension s = ''security'' \<and> si_run_id s = pe_run_id e \<and>
             si_source_table s = ''risk_signals'' \<and> si_source_id s = risk \<and>
             db_response_actions b = db_response_actions a @ [action_row act risk pol e d t] \<and>
             has_row_edge gs (pe_run_id e) (policy_node pol) (risk_node risk) ''policy_decision_risk_signal'' \<and>
             has_row_edge gs (pe_run_id e) (risk_node risk) (action_node act) ''risk_signal_response_action''))"

lemma has_row_edge_in: "edge_row i run src dst ty ev t \<in> set gs \<Longrightarrow> has_row_edge gs run src dst ty"
  unfolding has_row_edge_def by (rule bexI [of _ "edge_row i run src dst ty ev t"]) (simp_all add: edge_row_def)

lemmas node_defs = event_node_def policy_node_def risk_node_def action_node_def

lemma enforced_tables: "enforced e d a \<Longrightarrow> db_snapshots b = db_snapshots a \<Longrightarrow> db_sessions b = db_sessions a \<Longrightarrow>
    db_processes b = db_processes a \<Longrightarrow> enforced e d b"
  by (simp add: enforced_def)

lemma persist_existing_left_by:
  assumes "ready w" "t \<noteq> []"
  shows "\<exists>row w'. persist_existing ev e d t w = (Inr row, w') \<and> ready w' \<and> left_by ev e d t (w_db w) (w_db w')"
proof -
  let ?p = "drawn ''dec'' w (w_ids w)"
  let ?run = "pe_run_id e"
  have fr: "?p \<notin> pd_id ` set (db_policy_decisions (w_db w))"
    using ready_fresh [OF assms(1), of "''dec''"] by (auto simp: db_ids_def)
  define w1 where "w1 = w\<lparr>w_ids := Suc (w_ids w), w_stmts := Suc (w_stmts w),
     w_db := (w_db w)\<lparr>db_policy_decisions := db_policy_decisions (w_db w) @ [decision_row ?p ev e d t]\<rparr>\<rparr>"
  have ex: "exec (tbl_insert db_policy_decisions db_policy_decisions_update pd_id (decision_row ?p ev e d t))
      (w\<lparr>w_ids := Suc (w_ids w)\<rparr>) = (True, w1)"
    using ready_no_faults [OF assms(1)] fr by (subst exec_insert_fresh) (simp_all add: w1_def decision_row_def)
  have r1: "ready w1"
    using ready_no_faults [OF assms(1)]
    by (intro ready_step [OF assms(1)]) (auto simp: w1_def db_ids_def decision_row_def)
  have "\<exists>risk w2 gs rs ss. (if de_decision d \<noteq> ''allow'' then persist_risk ev ?p e d t w1 else (Inr [], w1)) = (Inr risk, w2)
      \<and> ready w2 \<and> w_db w2 = (w_db w1)\<lparr>db_risk_signals := db_risk_signals (w_db w1) @ rs,
           db_signals := db_signals (w_db w1) @ ss, db_graph_edges := db_graph_edges (w_db w1) @ gs\<rparr> \<and>
      (if de_decision d = ''allow'' then rs = [] \<and> ss = [] \<and> gs = []
       else risk \<noteq> [] \<and> risk \<notin> rk_id ` set (db_risk_signals (w_db w1)) \<and> rs = [risk_row risk ev ?p e d t] \<and>
         (\<exists>s. ss = [s] \<and> si_dimension s = ''security'' \<and> si_run_id s = ?run \<and> si_source_table s = ''risk_signals''
            \<and> si_source_id s = risk) \<and>
         has_row_edge gs ?run (policy_node ?p) (risk_node risk) ''policy_decision_risk_signal'')"
  proof (cases "de_decision d = ''allow''")
    case True
    with r1 show ?thesis by (intro exI [of _ "[]"] exI [of _ w1]) simp
  next
    case False
    from persist_risk_spec [OF r1 assms(2), of ev ?p e d] obtain risk w2 s i where
      "persist_risk ev ?p e d t w1 = (Inr risk, w2)" "ready w2" "risk \<noteq> []"
      "risk \<notin> rk_id ` set (db_risk_signals (w_db w1))" "si_dimension s = ''security''" "si_run_id s = pe_run_id e"
      "si_source_table s = ''risk_signals''" "si_source_id s = risk"
      "w_db w2 = (w_db w1)\<lparr>db_risk_signals := db_risk_signals (w_db w1) @ [risk_row risk ev ?p e d t],
         db_signals := db_signals (w_db w1) @ [s],
         db_graph_edges := db_graph_edges (w_db w1) @ [edge_row i ?run (''policy_decision/'' @ ?p)
           (''risk_signal/'' @ risk) ''policy_decision_risk_signal'' ev t]\<rparr>" by blast
    with False show ?thesis
      by (intro exI [of _ risk] exI [of _ w2] exI [of _ "[edge_row i ?run (''policy_decision/'' @ ?p)
           (''risk_signal/'' @ risk) ''policy_decision_risk_signal'' ev t]"]
           exI [of _ "[risk_row risk ev ?p e d t]"] exI [of _ "[s]"])
        (simp add: node_defs has_row_edge_def edge_row_def)
  qed
  then obtain risk w2 gs1 rs ss where
    pr: "(if de_decision d \<noteq> ''allow'' then persist_risk ev ?p e d t w1 else (Inr [], w1)) = (Inr risk, w2)"
    and r2: "ready w2"
    and db2: "w_db w2 = (w_db w1)\<lparr>db_risk_signals := db_risk_signals (w_db w1) @ rs,
           db_signals := db_signals (w_db w1) @ ss, db_graph_edges := db_graph_edges (w_db w1) @ gs1\<rparr>"
    and cs2: "if de_decision d = ''allow'' then rs = [] \<and> ss = [] \<and> gs1 = []
       else risk \<noteq> [] \<and> risk \<notin> rk_id ` set (db_risk_signals (w_db w1)) \<and> rs = [risk_row risk ev ?p e d t] \<and>
         (\<exists>s. ss = [s] \<and> si_dimension s = ''security'' \<and> si_run_id s = ?run \<and> si_source_table s = ''risk_signals''
            \<and> si_source_id s = risk) \<and>
         has_row_edge gs1 ?run (policy_node ?p) (risk_node risk) ''policy_decision_risk_signal''"
    by blast
  define w3 where "w3 = add_edge ?run (''runtime_event/'' @ ev) (''policy_decision/'' @ ?p)
      ''runtime_event_policy_decision'' ev t w2"
  obtain i3 where db3: "w_db w3 = (w_db w2)\<lparr>db_graph_edges := db_graph_edges (w_db w2) @
      [edge_row i3 ?run (''runtime_event/'' @ ev) (''policy_decision/'' @ ?p) ''runtime_event_policy_decision'' ev t]\<rparr>"
    using add_edge_spec(2) [OF r2] unfolding w3_def by blast
  have r3: "ready w3" unfolding w3_def by (rule add_edge_spec(1) [OF r2])
  define w4 where "w4 = (if pe_session_id e \<noteq> []
      then add_edge ?run (''policy_decision/'' @ ?p) (pe_session_id e) ''policy_decision_session'' ev t w3 else w3)"
  have "\<exists>gs. w_db w4 = (w_db w3)\<lparr>db_graph_edges := db_graph_edges (w_db w3) @ gs\<rparr> \<and>
     (pe_session_id e \<noteq> [] \<longrightarrow> has_row_edge gs ?run (policy_node ?p) (pe_session_id e) ''policy_decision_session'')"
  proof (cases "pe_session_id e = []")
    case True
    then show ?thesis by (intro exI [of _ "[]"]) (simp add: w4_def)
  next
    case False
    then obtain i where "w_db w4 = (w_db w3)\<lparr>db_graph_edges := db_graph_edges (w_db w3) @
      [edge_row i ?run (''policy_decision/'' @ ?p) (pe_session_id e) ''policy_decision_session'' ev t]\<rparr>"
      using add_edge_spec(2) [OF r3] unfolding w4_def by (simp only: if_True not_False_eq_True) blast
    then show ?thesis
      by (intro exI [of _ "[edge_row i ?run (''policy_decision/'' @ ?p) (pe_session_id e) ''policy_decision_session'' ev t]"])
        (simp add: node_defs has_row_edge_def edge_row_def)
  qed
  then obtain gs4 where db4: "w_db w4 = (w_db w3)\<lparr>db_graph_edges := db_graph_edges (w_db w3) @ gs4\<rparr>"
    and e4: "pe_session_id e \<noteq> [] \<longrightarrow> has_row_edge gs4 ?run (policy_node ?p) (pe_session_id e) ''policy_decision_session''"
    by blast
  have r4: "ready w4" using r3 add_edge_spec(1) [OF r3] by (simp add: w4_def)
  define w5 where "w5 = enforce e (de_decision d) t w4"
  note enf = enforce_spec [OF r4, of e "de_decision d" t, folded w5_def]
  obtain se ns ps where db5: "w_db w5 = (w_db w4)\<lparr>db_sessions := se, db_snapshots := ns, db_processes := ps\<rparr>"
    and se: "map se_id se = map se_id (db_sessions (w_db w4))"
    using enf(2) by (rule same_but_statusE)
  define w6 where "w6 = (if de_decision d \<noteq> ''allow'' then record_response risk ev ?p e d t w5 else w5)"
  have "\<exists>act as gs. w_db w6 = (w_db w5)\<lparr>db_response_actions := db_response_actions (w_db w5) @ as,
      db_graph_edges := db_graph_edges (w_db w5) @ gs\<rparr> \<and>
     (if de_decision d = ''allow'' then as = [] \<and> gs = []
      else as = [action_row act risk ?p e d t] \<and>
        has_row_edge gs ?run (risk_node risk) (action_node act) ''risk_signal_response_action'')"
  proof (cases "de_decision d = ''allow''")
    case True
    then show ?thesis by (intro exI [of _ "[]"]) (simp add: w6_def)
  next
    case False
    then obtain act i where "w_db w6 = (w_db w5)\<lparr>
      db_response_actions := db_response_actions (w_db w5) @ [action_row act risk ?p e d t],
      db_graph_edges := db_graph_edges (w_db w5) @ [edge_row i ?run (''risk_signal/'' @ risk)
        (''response_action/'' @ act) ''risk_signal_response_action'' ev t]\<rparr>"
      using record_response_spec(1) [OF enf(1)] unfolding w6_def by (simp only: if_True not_False_eq_True) blast
    with False show ?thesis
      by (intro exI [of _ act] exI [of _ "[action_row act risk ?p e d t]"] exI [of _ "[edge_row i ?run (''risk_signal/'' @ risk)
        (''response_action/'' @ act) ''risk_signal_response_action'' ev t]"])
        (simp add: node_defs has_row_edge_def edge_row_def)
  qed
  then obtain act as gs6 where db6: "w_db w6 = (w_db w5)\<lparr>db_response_actions := db_response_actions (w_db w5) @ as,
      db_graph_edges := db_graph_edges (w_db w5) @ gs6\<rparr>"
    and e6: "if de_decision d = ''allow'' then as = [] \<and> gs6 = []
      else as = [action_row act risk ?p e d t] \<and>
        has_row_edge gs6 ?run (risk_node risk) (action_node act) ''risk_signal_response_action''"
    by blast
  have r6: "ready w6" using enf(1) record_response_spec(2) [OF enf(1)] by (simp add: w6_def)
  define w7 where "w7 = record_cost e (de_decision d) t w6"
  obtain cs where db7: "w_db w7 = (w_db w6)\<lparr>db_cost_samples := db_cost_samples (w_db w6) @ cs\<rparr>"
    and cs: "if ?run = [] then cs = [] else \<exists>i. cs = [cost_row i e (de_decision d) t]"
    using record_cost_spec(1) [OF r6] unfolding w7_def by blast
  have r7: "ready w7" unfolding w7_def by (rule record_cost_spec(2) [OF r6])
  have p: "persist_existing ev e d t w = (Inr (decision_row ?p ev e d t), w7)"
    using ex pr by (simp add: persist_existing_def ready_new_id [OF assms(1)] w7_def w6_def w5_def w4_def w3_def Let_def)
  define gs where "gs = gs1 @ [edge_row i3 ?run (''runtime_event/'' @ ev) (''policy_decision/'' @ ?p)
      ''runtime_event_policy_decision'' ev t] @ gs4 @ gs6"
  have app: "has_row_edge (xs @ ys) r a b c \<longleftrightarrow> has_row_edge xs r a b c \<or> has_row_edge ys r a b c" for xs ys r a b c
    by (auto simp: has_row_edge_def)
  have f0: "enforced e (de_decision d) (w_db w7)"
    using enf(3) by (rule enforced_tables) (simp_all add: db7 db6)
  have f1: "db_policy_decisions (w_db w7) = db_policy_decisions (w_db w) @ [decision_row ?p ev e d t]"
    "db_events (w_db w7) = db_events (w_db w)"
    "db_execution_context_bindings (w_db w7) = db_execution_context_bindings (w_db w)"
    "map se_id (db_sessions (w_db w7)) = map se_id (db_sessions (w_db w))"
    "db_graph_edges (w_db w7) = db_graph_edges (w_db w) @ gs"
    "db_cost_samples (w_db w7) = db_cost_samples (w_db w) @ cs"
    using se by (simp_all add: db7 db6 db5 db4 db3 db2 w1_def gs_def)
  have f2: "db_risk_signals (w_db w7) = db_risk_signals (w_db w) @ rs"
    "db_signals (w_db w7) = db_signals (w_db w) @ ss"
    "db_response_actions (w_db w7) = db_response_actions (w_db w) @ as"
    "db_risk_signals (w_db w1) = db_risk_signals (w_db w)"
    by (simp_all add: db7 db6 db5 db4 db3 db2 w1_def)
  have f3: "?p \<noteq> []" by (simp add: drawn_def)
  have f4: "has_row_edge gs ?run (event_node ev) (policy_node ?p) ''runtime_event_policy_decision''"
    by (simp add: gs_def node_defs has_row_edge_def edge_row_def)
  have f5: "pe_session_id e \<noteq> [] \<longrightarrow>
      has_row_edge gs ?run (policy_node ?p) (pe_session_id e) ''policy_decision_session''"
    using e4 unfolding gs_def app by blast
  have f6: "if de_decision d = ''allow'' then
           db_risk_signals (w_db w7) = db_risk_signals (w_db w) \<and> db_signals (w_db w7) = db_signals (w_db w) \<and>
           db_response_actions (w_db w7) = db_response_actions (w_db w)
         else
           \<exists>risk act s. risk \<noteq> [] \<and> risk \<notin> rk_id ` set (db_risk_signals (w_db w)) \<and>
             db_risk_signals (w_db w7) = db_risk_signals (w_db w) @ [risk_row risk ev ?p e d t] \<and>
             db_signals (w_db w7) = db_signals (w_db w) @ [s] \<and> si_dimension s = ''security'' \<and> si_run_id s = ?run \<and>
             si_source_table s = ''risk_signals'' \<and> si_source_id s = risk \<and>
             db_response_actions (w_db w7) = db_response_actions (w_db w) @ [action_row act risk ?p e d t] \<and>
             has_row_edge gs ?run (policy_node ?p) (risk_node risk) ''policy_decision_risk_signal'' \<and>
             has_row_edge gs ?run (risk_node risk) (action_node act) ''risk_signal_response_action''"
  proof (cases "de_decision d = ''allow''")
    case True
    with cs2 e6 f2 show ?thesis by simp
  next
    case False
    with cs2 obtain s where s: "ss = [s]" "si_dimension s = ''security''" "si_run_id s = ?run"
      "si_source_table s = ''risk_signals''" "si_source_id s = risk" by auto
    from False cs2 have c: "risk \<noteq> []" "risk \<notin> rk_id ` set (db_risk_signals (w_db w))" "rs = [risk_row risk ev ?p e d t]"
      "has_row_edge gs ?run (policy_node ?p) (risk_node risk) ''policy_decision_risk_signal''"
      using f2(4) unfolding gs_def app by (simp_all only: if_False) blast+
    from False e6 have e: "as = [action_row act risk ?p e d t]"
      "has_row_edge gs ?run (risk_node risk) (action_node act) ''risk_signal_response_action''"
      unfolding gs_def app by (simp_all only: if_False) blast+
    show ?thesis using False s c e f2(1-3) by (simp only: if_False) blast
  qed
  have "left_by ev e d t (w_db w) (w_db w7)"
    unfolding left_by_def
    by (intro exI [of _ ?p] exI [of _ gs] exI [of _ cs] conjI) (fact f0 f1 f3 f4 f5 f6 fr cs)+
  with p r7 show ?thesis by blast
qed

end
