(* ===== verification/PolicyVerify.thy ===== *)
theory PolicyVerify
  imports PolicyChain
begin

text \<open>
  \<open>internal/security/policy.go\<close> against \<open>internal/provenance/verify.go\<close>: recording a decision keeps
  the policy checks of \<open>graph verify\<close> clean, and \<open>ReevaluateRun\<close> establishes them, whatever the
  policy tables held before.
\<close>

section \<open>The policy checks as a predicate\<close>

definition chain_ok :: "db \<Rightarrow> string \<Rightarrow> bool" where
  "chain_ok d run \<longleftrightarrow> verify_policy_decisions d run = [] \<and> verify_risk_and_responses d run = []"

lemma chain_ok_iff:
  "chain_ok d run \<longleftrightarrow>
     (\<forall>p \<in> set (db_policy_decisions d). pd_run_id p = Some run \<longrightarrow>
        policy_issues d run p = [] \<and> policy_chain_issues d run p = []) \<and>
     (\<forall>r \<in> set (db_risk_signals d). rk_run_id r = run \<longrightarrow> risk_issues d run r = []) \<and>
     (\<forall>a \<in> set (db_response_actions d). ra_run_id a = run \<longrightarrow> response_issues d run a = [])"
  by (auto simp: chain_ok_def verify_policy_decisions_def verify_risk_and_responses_def)

text \<open>A store that has at least the rows another one has.\<close>

definition grows :: "db \<Rightarrow> db \<Rightarrow> bool" where
  "grows a b \<longleftrightarrow> set (db_policy_decisions a) \<subseteq> set (db_policy_decisions b) \<and>
     set (db_risk_signals a) \<subseteq> set (db_risk_signals b) \<and> set (db_signals a) \<subseteq> set (db_signals b) \<and>
     set (db_response_actions a) \<subseteq> set (db_response_actions b) \<and> set (db_graph_edges a) \<subseteq> set (db_graph_edges b) \<and>
     db_events b = db_events a \<and> db_execution_context_bindings b = db_execution_context_bindings a \<and>
     map se_id (db_sessions b) = map se_id (db_sessions a)"

lemma list_ex_subset: "set xs \<subseteq> set ys \<Longrightarrow> list_ex P xs \<Longrightarrow> list_ex P ys"
  by (auto simp: list_ex_iff)

lemma session_exists_map: "session_exists d i \<longleftrightarrow> i \<in> set (map se_id (db_sessions d))"
  by (auto simp: list_ex_iff)

lemma grows_lookups:
  assumes "grows a b"
  shows "edge_exists a run x y ty \<Longrightarrow> edge_exists b run x y ty"
    "list_ex P (db_policy_decisions a) \<Longrightarrow> list_ex P (db_policy_decisions b)"
    "list_ex Q (db_risk_signals a) \<Longrightarrow> list_ex Q (db_risk_signals b)"
    "list_ex R (db_response_actions a) \<Longrightarrow> list_ex R (db_response_actions b)"
    "policy_in_run a run i \<Longrightarrow> policy_in_run b run i"
    "session_exists b s = session_exists a s"
    "db_events b = db_events a"
    "external_context_binding_exists b run s x1 x2 x3 = external_context_binding_exists a run s x1 x2 x3"
    "list_ex (\<lambda>s. list_ex (S s) (db_risk_signals a)) (db_signals a) \<Longrightarrow>
       list_ex (\<lambda>s. list_ex (S s) (db_risk_signals b)) (db_signals b)"
  using assms unfolding grows_def edge_exists_def policy_in_run_def session_exists_map external_context_binding_exists_def
  by (auto simp: list_ex_iff)

lemma issues_mono:
  assumes "grows a b"
  shows "policy_issues a run p = [] \<Longrightarrow> policy_issues b run p = []"
    "policy_chain_issues a run p = [] \<Longrightarrow> policy_chain_issues b run p = []"
    "risk_issues a run r = [] \<Longrightarrow> risk_issues b run r = []"
    "response_issues a run x = [] \<Longrightarrow> response_issues b run x = []"
proof -
  note m = grows_lookups [OF assms]
  show "policy_issues a run p = [] \<Longrightarrow> policy_issues b run p = []"
    by (simp add: policy_issues_def Let_def m(6-8) split: if_splits) (auto intro: m(1))
  show "policy_chain_issues a run p = [] \<Longrightarrow> policy_chain_issues b run p = []"
    by (simp add: policy_chain_issues_def Let_def split: if_splits) (elim conjE, intro conjI; (erule m(3) | erule m(4) | erule m(9) | use m(1) in blast))
  show "risk_issues a run r = [] \<Longrightarrow> risk_issues b run r = []"
    by (simp add: risk_issues_def Let_def m(7)) (use m(1,4,5) in blast)
  show "response_issues a run x = [] \<Longrightarrow> response_issues b run x = []"
    by (simp add: response_issues_def Let_def) (use m(1,3,5) in blast)
qed

section \<open>One decision\<close>

definition event_in_run :: "db \<Rightarrow> string \<Rightarrow> string \<Rightarrow> bool" where
  "event_in_run d run ev \<longleftrightarrow> ev \<noteq> [] \<and> list_ex (\<lambda>x. ev_id x = ev \<and> ev_run_id x = Some run) (db_events d)"

definition session_known :: "db \<Rightarrow> string \<Rightarrow> string \<Rightarrow> bool" where
  "session_known d run s \<longleftrightarrow> s = [] \<or> session_exists d s \<or> external_context_binding_exists d run s [] [] []"

lemma left_by_grows: "left_by ev e d t a b \<Longrightarrow> grows a b"
  by (auto simp: left_by_def grows_def split: if_splits)

lemma has_row_edge_exists:
  "has_row_edge gs run x y ty \<Longrightarrow> set gs \<subseteq> set (db_graph_edges b) \<Longrightarrow> edge_exists b run x y ty"
  unfolding has_row_edge_def edge_exists_def list_ex_iff by blast

lemma recommended_action_known: "one_of (recommended_action_for d) action_types"
  by (simp add: recommended_action_for_def one_of_def action_types_def)

lemma response_target_given:
  "pe_run_id e \<noteq> [] \<Longrightarrow> fst (response_target e x) \<noteq> [] \<and> snd (response_target e x) \<noteq> []"
  by (simp add: response_target_def)

lemma new_policy_ok:
  assumes "event_in_run b run ev" "session_known b run (pe_session_id e)"
    and "edge_exists b run (event_node ev) (policy_node pol) ''runtime_event_policy_decision''"
    and "pe_session_id e \<noteq> [] \<longrightarrow>
      edge_exists b run (policy_node pol) (pe_session_id e) ''policy_decision_session''"
  shows "policy_issues b run (decision_row pol ev e d t) = []"
proof -
  have "list_ex (\<lambda>x. ev_id x = ev) (db_events b)"
    using assms(1) by (auto simp: event_in_run_def list_ex_iff)
  with assms show ?thesis
    by (auto simp: policy_issues_def decision_row_def session_known_def coalesce_def Let_def)
qed

lemma new_chain_ok:
  assumes "risk_row risk ev pol e d t \<in> set (db_risk_signals b)" "pe_run_id e = run"
    and "action_row act risk pol e d t \<in> set (db_response_actions b)"
    and "s \<in> set (db_signals b)" "si_dimension s = ''security''" "si_run_id s = run"
      "si_source_table s = ''risk_signals''" "si_source_id s = risk"
    and "edge_exists b run (event_node ev) (policy_node pol) ''runtime_event_policy_decision''"
  shows "policy_chain_issues b run (decision_row pol ev e d t) = []"
proof -
  have r: "list_ex (\<lambda>r. rk_run_id r = run \<and> rk_policy_decision_id r = pol) (db_risk_signals b)"
    using assms(1,2) by (auto simp: list_ex_iff risk_row_def intro!: bexI [of _ "risk_row risk ev pol e d t"])
  have a: "list_ex (\<lambda>r. ra_run_id r = run \<and> ra_policy_decision_id r = pol) (db_response_actions b)"
    using assms(2,3) by (auto simp: list_ex_iff action_row_def Let_def intro!: bexI [of _ "action_row act risk pol e d t"])
  have s: "list_ex (\<lambda>s. list_ex (\<lambda>r. si_source_id s = rk_id r \<and> si_dimension s = ''security'' \<and>
      si_source_table s = ''risk_signals'' \<and> rk_policy_decision_id r = pol \<and> si_run_id s = run)
      (db_risk_signals b)) (db_signals b)"
    unfolding list_ex_iff using assms(1,2,4-8)
    by (intro bexI [of _ s] bexI [of _ "risk_row risk ev pol e d t"]) (simp_all add: risk_row_def)
  from r a s assms(9) show ?thesis
    by (simp add: policy_chain_issues_def decision_row_def coalesce_def Let_def)
qed

lemma new_risk_ok:
  assumes "policy_in_run b run pol" "pol \<noteq> []" "event_in_run b run ev" "pe_run_id e = run"
    and "action_row act risk pol e d t \<in> set (db_response_actions b)"
    and "edge_exists b run (policy_node pol) (risk_node risk) ''policy_decision_risk_signal''"
  shows "risk_issues b run (risk_row risk ev pol e d t) = []"
proof -
  have "list_ex (\<lambda>a. ra_run_id a = run \<and> ra_risk_signal_id a = risk) (db_response_actions b)"
    using assms(4,5) by (auto simp: list_ex_iff action_row_def Let_def intro!: bexI [of _ "action_row act risk pol e d t"])
  with assms show ?thesis
    by (simp add: risk_issues_def risk_row_def Let_def event_in_run_def recommended_action_known)
qed

lemma new_response_ok:
  assumes "policy_in_run b run pol" "pol \<noteq> []" "risk \<noteq> []" "pe_run_id e = run" "run \<noteq> []"
    and "risk_row risk ev pol e d t \<in> set (db_risk_signals b)"
    and "edge_exists b run (risk_node risk) (action_node act) ''risk_signal_response_action''"
  shows "response_issues b run (action_row act risk pol e d t) = []"
proof -
  have r: "list_ex (\<lambda>r. rk_id r = risk \<and> rk_policy_decision_id r = pol \<and> rk_run_id r = run) (db_risk_signals b)"
    using assms(4,6) by (auto simp: list_ex_iff risk_row_def intro!: bexI [of _ "risk_row risk ev pol e d t"])
  then have "list_ex (\<lambda>r. rk_id r = risk \<and> rk_run_id r = run) (db_risk_signals b)"
    by (auto simp: list_ex_iff)
  moreover have "one_of ''recorded'' [''recorded'', ''pending'', ''running'', ''succeeded'', ''failed'', ''skipped'']"
    by (simp add: one_of_def)
  ultimately show ?thesis
    using assms(1-5,7) r recommended_action_known [of "de_decision d"]
      response_target_given [of e "recommended_action_for (de_decision d)"]
    by (simp add: response_issues_def action_row_def Let_def)
qed

lemma left_by_chain:
  assumes "left_by ev e d t a b" "pe_run_id e \<noteq> []" "event_in_run a (pe_run_id e) ev"
    and "session_known a (pe_run_id e) (pe_session_id e)" "chain_ok a run"
  shows "chain_ok b run"
proof -
  let ?run = "pe_run_id e"
  note g = left_by_grows [OF assms(1)]
  note m = issues_mono [OF g] and l = grows_lookups [OF g]
  have ev: "event_in_run b ?run ev" using assms(3) by (simp add: event_in_run_def l(7))
  have se: "session_known b ?run (pe_session_id e)" using assms(4) unfolding session_known_def l(6,8) .
  from assms(1) obtain pol gs where
    pds: "db_policy_decisions b = db_policy_decisions a @ [decision_row pol ev e d t]" and pol: "pol \<noteq> []"
    and gs: "db_graph_edges b = db_graph_edges a @ gs"
    and e1: "has_row_edge gs ?run (event_node ev) (policy_node pol) ''runtime_event_policy_decision''"
    and e2: "pe_session_id e \<noteq> [] \<longrightarrow> has_row_edge gs ?run (policy_node pol) (pe_session_id e) ''policy_decision_session''"
    and r: "if de_decision d = ''allow'' then
           db_risk_signals b = db_risk_signals a \<and> db_signals b = db_signals a \<and>
           db_response_actions b = db_response_actions a
         else
           \<exists>risk act s. risk \<noteq> [] \<and> risk \<notin> rk_id ` set (db_risk_signals a) \<and>
             db_risk_signals b = db_risk_signals a @ [risk_row risk ev pol e d t] \<and>
             db_signals b = db_signals a @ [s] \<and> si_dimension s = ''security'' \<and> si_run_id s = pe_run_id e \<and>
             si_source_table s = ''risk_signals'' \<and> si_source_id s = risk \<and>
             db_response_actions b = db_response_actions a @ [action_row act risk pol e d t] \<and>
             has_row_edge gs ?run (policy_node pol) (risk_node risk) ''policy_decision_risk_signal'' \<and>
             has_row_edge gs ?run (risk_node risk) (action_node act) ''risk_signal_response_action''"
    unfolding left_by_def by blast
  have sub: "set gs \<subseteq> set (db_graph_edges b)" by (simp add: gs)
  note ex = has_row_edge_exists [OF _ sub]
  have p: "policy_in_run b ?run pol" by (simp add: policy_in_run_def pds decision_row_def)
  have P: "policy_issues b ?run (decision_row pol ev e d t) = []"
    using e2 by (intro new_policy_ok ev se ex [OF e1]) (auto intro: ex)
  have runs: "pd_run_id (decision_row pol ev e d t) = Some ?run" "rk_run_id (risk_row risk ev pol e d t) = ?run"
    "ra_run_id (action_row act risk pol e d t) = ?run" for risk act
    by (simp_all add: decision_row_def risk_row_def action_row_def Let_def)
  note old = assms(5) [unfolded chain_ok_iff]
  show ?thesis
  proof (cases "de_decision d = ''allow''")
    case True
    then have C: "policy_chain_issues b run (decision_row pol ev e d t) = []" for run
      by (simp add: policy_chain_issues_def decision_row_def coalesce_def Let_def)
    from True r have "db_risk_signals b = db_risk_signals a" "db_response_actions b = db_response_actions a" by auto
    then show ?thesis unfolding chain_ok_iff pds using old P C runs by (auto intro: m)
  next
    case False
    with r obtain risk act s where *: "risk \<noteq> []"
      "db_risk_signals b = db_risk_signals a @ [risk_row risk ev pol e d t]"
      "db_signals b = db_signals a @ [s]" "si_dimension s = ''security''" "si_run_id s = ?run"
      "si_source_table s = ''risk_signals''" "si_source_id s = risk"
      "db_response_actions b = db_response_actions a @ [action_row act risk pol e d t]"
      "edge_exists b ?run (policy_node pol) (risk_node risk) ''policy_decision_risk_signal''"
      "edge_exists b ?run (risk_node risk) (action_node act) ''risk_signal_response_action''"
      by (simp only: if_False) (use ex in blast)
    have C: "policy_chain_issues b ?run (decision_row pol ev e d t) = []"
      by (rule new_chain_ok [where risk = risk and act = act and s = s]) (simp_all add: * ex [OF e1])
    have R: "risk_issues b ?run (risk_row risk ev pol e d t) = []"
      by (rule new_risk_ok [OF p pol ev, where act = act]) (simp_all add: *)
    have A: "response_issues b ?run (action_row act risk pol e d t) = []"
      by (rule new_response_ok [OF p pol, where ev = ev]) (simp_all add: * assms(2))
    show ?thesis unfolding chain_ok_iff pds *(2,8) using old P C R A runs by (auto intro: m)
  qed
qed

section \<open>Evaluating stored events\<close>

type_synonym verdict = "string \<times> string \<times> string \<times> string"

text \<open>The verdicts of a rule set on stored events: event, rule, decision, reason; allowed events have
none.\<close>

definition verdict_of :: "engine \<Rightarrow> db \<Rightarrow> string \<Rightarrow> verdict list" where
  "verdict_of en d i =
     (case find (\<lambda>e. ev_id e = i) (db_events d) of
        None \<Rightarrow> []
      | Some x \<Rightarrow>
          let v = evaluate en (policy_event_of x) in
          if de_decision v = ''allow'' then [] else [(i, de_rule_id v, de_decision v, de_reason v)])"

definition expected_verdicts :: "engine \<Rightarrow> db \<Rightarrow> string list \<Rightarrow> verdict list" where
  "expected_verdicts en d ids = concat (map (verdict_of en d) ids)"

definition verdicts :: "db \<Rightarrow> string \<Rightarrow> verdict list" where
  "verdicts d run = map (\<lambda>p. (coalesce (pd_event_id p), pd_rule_id p, pd_decision p, pd_reason p))
     (filter (\<lambda>p. pd_run_id p = Some run) (db_policy_decisions d))"

definition foreign_risks :: "db \<Rightarrow> string \<Rightarrow> risk_signal list" where
  "foreign_risks d run = filter (\<lambda>r. rk_run_id r = run \<and> rk_signal_type r \<noteq> ''policy_violation'') (db_risk_signals d)"

definition idle_costs :: "db \<Rightarrow> string \<Rightarrow> nat" where
  "idle_costs d run = length (filter (\<lambda>c. cs_run_id c = run \<and> \<not> (cs_policy_block_count c > 0 \<or> cs_quarantine_count c > 0))
     (db_cost_samples d))"

definition advanced :: "string \<Rightarrow> verdict list \<Rightarrow> db \<Rightarrow> db \<Rightarrow> bool" where
  "advanced run vs a b \<longleftrightarrow> grows a b \<and> (chain_ok a run \<longrightarrow> chain_ok b run) \<and>
     verdicts b run = verdicts a run @ vs \<and> foreign_risks b run = foreign_risks a run \<and>
     idle_costs b run = idle_costs a run + length (filter (\<lambda>(_, _, d, _). \<not> is_enforcing d) vs)"

lemma advanced_refl: "advanced run [] a a"
  by (simp add: advanced_def grows_def)

lemma grows_trans: "grows a b \<Longrightarrow> grows b c \<Longrightarrow> grows a c"
  by (auto simp: grows_def)

lemma advanced_trans: "advanced run us a b \<Longrightarrow> advanced run vs b c \<Longrightarrow> advanced run (us @ vs) a c"
  unfolding advanced_def by (auto intro: grows_trans)

lemma left_by_advanced:
  assumes "left_by ev e d t a b" "pe_run_id e = run" "run \<noteq> []" "event_in_run a run ev"
    and "session_known a run (pe_session_id e)"
  shows "advanced run [(ev, de_rule_id d, de_decision d, de_reason d)] a b"
proof -
  from assms(1-3) obtain pol i where pds: "db_policy_decisions b = db_policy_decisions a @ [decision_row pol ev e d t]"
    and cs: "db_cost_samples b = db_cost_samples a @ [cost_row i e (de_decision d) t]"
    unfolding left_by_def by auto
  have "verdicts b run = verdicts a run @ [(ev, de_rule_id d, de_decision d, de_reason d)]"
    using assms(2) by (simp add: verdicts_def pds decision_row_def coalesce_def)
  moreover have "foreign_risks b run = foreign_risks a run"
  proof (cases "de_decision d = ''allow''")
    case False
    with assms(1) obtain risk where "db_risk_signals b = db_risk_signals a @ [risk_row risk ev pol e d t]
        \<or> (\<exists>pol. db_risk_signals b = db_risk_signals a @ [risk_row risk ev pol e d t])"
      unfolding left_by_def by (simp only: if_False) blast
    then show ?thesis by (auto simp: foreign_risks_def risk_row_def)
  qed (use assms(1) in \<open>auto simp: left_by_def foreign_risks_def\<close>)
  moreover have "idle_costs b run = idle_costs a run + (if is_enforcing (de_decision d) then 0 else 1)"
    using assms(2) by (auto simp: idle_costs_def cs cost_row_def is_enforcing_def)
  moreover have "chain_ok a run \<Longrightarrow> chain_ok b run"
    using left_by_chain [OF assms(1), of run] assms(2-5) by simp
  ultimately show ?thesis
    using left_by_grows [OF assms(1)] by (simp add: advanced_def)
qed

lemma evaluate_event_spec:
  assumes "ready w" "find (\<lambda>e. ev_id e = i) (db_events (w_db w)) = Some x" "i \<noteq> []"
    and "ev_run_id x = Some run" "run \<noteq> []" "session_known (w_db w) run (coalesce (ev_session_id x))"
  shows "\<exists>r w'. evaluate_runtime_event en i w = (Inr r, w') \<and> ready w' \<and>
    advanced run (verdict_of en (w_db w) i) (w_db w) (w_db w') \<and> (r = None \<longleftrightarrow> verdict_of en (w_db w) i = [])"
proof -
  let ?v = "evaluate en (policy_event_of x)"
  define w1 where "w1 = w\<lparr>w_stmts := Suc (w_stmts w)\<rparr>"
  have r1: "ready w1"
    using ready_no_faults [OF assms(1)] by (intro ready_step [OF assms(1)]) (simp_all add: w1_def)
  have ld: "query (runtime_event_for_policy i) w = (Some (Some (policy_event_of x, ev_payload x)), w1)"
    using ready_no_faults [OF assms(1)] assms(2) by (simp add: query_no_faults runtime_event_for_policy_def w1_def)
  have id: "ev_id x = i" "x \<in> set (db_events (w_db w))"
    using assms(2) by (auto simp: find_Some_iff)
  have pe: "pe_run_id (policy_event_of x) = run" "pe_session_id (policy_event_of x) = coalesce (ev_session_id x)"
    using assms(4) by (simp_all add: policy_event_of_def Let_def coalesce_def)
  show ?thesis
  proof (cases "de_decision ?v = ''allow''")
    case True
    with ld r1 show ?thesis
      by (intro exI [of _ None] exI [of _ w1])
        (simp add: evaluate_runtime_event_def verdict_of_def assms(2) advanced_refl w1_def)
  next
    case False
    obtain t w2 where now: "now w1 = (t, w2)" by (cases "now w1")
    from ready_now [OF r1 now] have r2: "ready w2" and db: "w_db w2 = w_db w" and t: "t \<noteq> []"
      by (auto simp: w1_def)
    from persist_existing_left_by [OF r2 t, of i "policy_event_of x" ?v] obtain row w'
      where p: "persist_existing i (policy_event_of x) ?v t w2 = (Inr row, w')" and r: "ready w'"
        and l: "left_by i (policy_event_of x) ?v t (w_db w) (w_db w')" unfolding db by blast
    have ev: "event_in_run (w_db w) run i" using id assms(3,4) by (auto simp: event_in_run_def list_ex_iff)
    have "advanced run [(i, de_rule_id ?v, de_decision ?v, de_reason ?v)] (w_db w) (w_db w')"
      by (rule left_by_advanced [OF l pe(1) assms(5) ev]) (simp add: pe assms(6))
    with False ld now p r show ?thesis
      by (simp add: evaluate_runtime_event_def persist_decision_for_event_def verdict_of_def Let_def assms(2))
  qed
qed

definition evaluable :: "db \<Rightarrow> string \<Rightarrow> string \<Rightarrow> bool" where
  "evaluable d run i \<longleftrightarrow> i \<noteq> [] \<and>
     (case find (\<lambda>e. ev_id e = i) (db_events d) of
        None \<Rightarrow> False
      | Some x \<Rightarrow> ev_run_id x = Some run \<and> session_known d run (coalesce (ev_session_id x)))"

lemma grows_evaluable:
  assumes "grows a b"
  shows "evaluable b run i = evaluable a run i" "verdict_of en b i = verdict_of en a i"
  unfolding evaluable_def verdict_of_def session_known_def grows_lookups(6-8) [OF assms] by simp_all

lemma evaluate_events_spec:
  assumes "ready w" "run \<noteq> []" "\<And>i. i \<in> set ids \<Longrightarrow> evaluable (w_db w) run i"
  shows "\<exists>w'. evaluate_events en ids n k w =
      ((n + length ids, k + length (expected_verdicts en (w_db w) ids), None), w') \<and> ready w' \<and>
      advanced run (expected_verdicts en (w_db w) ids) (w_db w) (w_db w')"
  using assms
proof (induction ids arbitrary: n k w)
  case Nil
  then show ?case by (intro exI [of _ w]) (simp add: expected_verdicts_def advanced_refl)
next
  case (Cons i ids)
  from Cons.prems(3) [of i] obtain x where x: "find (\<lambda>e. ev_id e = i) (db_events (w_db w)) = Some x" "i \<noteq> []"
    "ev_run_id x = Some run" "session_known (w_db w) run (coalesce (ev_session_id x))"
    by (auto simp: evaluable_def split: option.splits)
  from evaluate_event_spec [OF Cons.prems(1) x(1-3) Cons.prems(2) x(4), of en] obtain r w1 where
    e: "evaluate_runtime_event en i w = (Inr r, w1)" and r: "ready w1"
    and adv: "advanced run (verdict_of en (w_db w) i) (w_db w) (w_db w1)"
    and none: "r = None \<longleftrightarrow> verdict_of en (w_db w) i = []" by blast
  have g: "grows (w_db w) (w_db w1)" using adv by (simp add: advanced_def)
  note same = grows_evaluable [OF g]
  have ex: "expected_verdicts en (w_db w1) ids = expected_verdicts en (w_db w) ids"
    by (simp add: expected_verdicts_def same(2) cong: map_cong)
  have len: "length (verdict_of en (w_db w) i) = (if r = None then 0 else 1)"
    using none by (auto simp: verdict_of_def Let_def split: option.splits if_splits)
  from Cons.IH [OF r Cons.prems(2), of "Suc n" "if r \<noteq> None then Suc k else k"] Cons.prems(3) same(1)
  obtain w' where "evaluate_events en ids (Suc n) (if r \<noteq> None then Suc k else k) w1 =
      ((Suc n + length ids, (if r \<noteq> None then Suc k else k) + length (expected_verdicts en (w_db w) ids), None), w')"
    "ready w'" "advanced run (expected_verdicts en (w_db w) ids) (w_db w1) (w_db w')"
    unfolding ex by auto
  with e len advanced_trans [OF adv this(3)] show ?case
    by (intro exI [of _ w']) (auto simp: expected_verdicts_def)
qed

section \<open>\<open>ReevaluateRun\<close>\<close>

definition cleared :: "string \<Rightarrow> db \<Rightarrow> db" where
  "cleared run d = fold (\<lambda>f. f) (reevaluate_clears run) d"

lemma exec_list_no_faults:
  "no_faults w \<Longrightarrow> exec_list fs w = (True, w\<lparr>w_stmts := w_stmts w + length fs, w_db := fold (\<lambda>f. f) fs (w_db w)\<rparr>)"
  by (induction fs arbitrary: w) (simp_all add: exec_total_no_faults)

lemma cleared_tables:
  "db_policy_decisions (cleared run d) = filter (\<lambda>p. pd_run_id p \<noteq> Some run) (db_policy_decisions d)"
  "db_risk_signals (cleared run d) = filter (\<lambda>r. rk_run_id r \<noteq> run) (db_risk_signals d)"
  "db_response_actions (cleared run d) = filter (\<lambda>a. ra_run_id a \<noteq> run) (db_response_actions d)"
  "db_signals (cleared run d) = filter (\<lambda>s. \<not> (si_run_id s = run \<and> si_source_table s = ''risk_signals'')) (db_signals d)"
  "db_graph_edges (cleared run d) = filter (\<lambda>g. \<not> derived_edge run g) (db_graph_edges d)"
  "db_cost_samples (cleared run d) =
     filter (\<lambda>c. \<not> (cs_run_id c = run \<and> (cs_policy_block_count c > 0 \<or> cs_quarantine_count c > 0))) (db_cost_samples d)"
  "db_events (cleared run d) = db_events d" "db_sessions (cleared run d) = db_sessions d"
  "db_execution_context_bindings (cleared run d) = db_execution_context_bindings d"
  by (simp_all add: cleared_def reevaluate_clears_def tbl_delete_def)

lemma cleared_ids: "db_ids (cleared run d) \<subseteq> db_ids d"
  by (auto simp: db_ids_def cleared_tables)

lemma cleared_chain: "chain_ok (cleared run d) run"
  by (simp add: chain_ok_iff cleared_tables)

lemma cleared_counts:
  "verdicts (cleared run d) run = []" "foreign_risks (cleared run d) run = []"
  "idle_costs (cleared run d) run = idle_costs d run"
  by (auto simp: verdicts_def foreign_risks_def idle_costs_def cleared_tables filter_empty_conv
      intro!: arg_cong [of _ _ length] filter_cong)

lemma cleared_session_known: "session_known (cleared run d) r s = session_known d r s"
  by (simp add: session_known_def external_context_binding_exists_def cleared_tables)

lemma cleared_evaluable:
  "evaluable (cleared run d) r i = evaluable d r i" "verdict_of en (cleared run d) i = verdict_of en d i"
  "expected_verdicts en (cleared run d) ids = expected_verdicts en d ids"
  unfolding evaluable_def verdict_of_def [abs_def] expected_verdicts_def cleared_session_known cleared_tables
  by (rule refl)+

definition rules_in_force :: "engine \<Rightarrow> engine" where
  "rules_in_force en = (if en_rules en = [] then default_engine else en)"

lemma reevaluate_run_advanced:
  fixes en :: engine
  assumes "ready w" "run \<noteq> []" "list_all (evaluable (w_db w) run) (run_event_ids run (w_db w))"
  defines "ids \<equiv> run_event_ids run (w_db w)"
  defines "vs \<equiv> expected_verdicts (rules_in_force en) (w_db w) ids"
  shows "\<exists>w'. reevaluate_run run en w = ((length ids, length vs, None), w') \<and> ready w' \<and>
    advanced run vs (cleared run (w_db w)) (w_db w')"
proof -
  have nf: "no_faults w" by (rule ready_no_faults [OF assms(1)])
  define w1 where "w1 = w\<lparr>w_stmts := w_stmts w + length (reevaluate_clears run), w_db := cleared run (w_db w)\<rparr>"
  define w2 where "w2 = w1\<lparr>w_stmts := Suc (w_stmts w1)\<rparr>"
  have r2: "ready w2"
    using nf cleared_ids by (intro ready_step [OF assms(1)]) (simp_all add: w2_def w1_def le_supI1)
  have db: "w_db w2 = cleared run (w_db w)" by (simp add: w2_def w1_def)
  have c: "exec_list (reevaluate_clears run) w = (True, w1)"
    using nf by (simp add: exec_list_no_faults w1_def cleared_def)
  have q: "query (run_event_ids run) w1 = (Some ids, w2)"
    using nf by (simp add: query_no_faults w2_def w1_def ids_def run_event_ids_def cleared_tables)
  have "evaluable (w_db w2) run i" if "i \<in> set ids" for i
    using assms(3) that by (simp add: db cleared_evaluable list_all_iff ids_def)
  from evaluate_events_spec [OF r2 assms(2) this, of ids "rules_in_force en" 0 0] obtain w'
    where "evaluate_events (rules_in_force en) ids 0 0 w2 = ((length ids, length vs, None), w')" "ready w'"
      "advanced run vs (cleared run (w_db w)) (w_db w')"
    by (auto simp: db cleared_evaluable vs_def)
  with c q assms(2) show ?thesis by (simp add: reevaluate_run_def rules_in_force_def [symmetric] Let_def)
qed

section \<open>A small run\<close>

definition toy_exec :: event where
  "toy_exec = (event_row ''evt-1'' (policy_event_of (event_row [] toy_event [] [] [] [])\<lparr>pe_session_id := []\<rparr>)
     ''ebpf'' ''process_exec'' ''{}'' ''t'')"

definition toy_watch :: engine where
  "toy_watch = \<lparr>en_secret_patterns = [], en_rules = [\<lparr>ru_id = ''watch'',
     ru_match = \<lparr>rm_source = [], rm_event_type = ''process_exec'', rm_dst_ip = [], rm_private_cidr = False,
       rm_path_contains = [], rm_args_contains = []\<rparr>,
     ru_decision = ''deny'', ru_reason = [], ru_mode = ''detect'', ru_controls = []\<rparr>]\<rparr>"

definition toy_ready :: "db \<Rightarrow> world" where
  "toy_ready d = (toy_world d)\<lparr>w_entropy := \<lambda>i. Some (replicate i CHR ''a'')\<rparr>"

lemma toy_ready_ready: "db_ids d = {} \<Longrightarrow> ready (toy_ready d)"
  by (auto simp: ready_def toy_ready_def toy_world_def no_faults_def good_entropy_def inj_on_def)

lemma toy_ready_db [simp]: "w_db (toy_ready d) = d"
  by (simp add: toy_ready_def toy_world_def)

definition toy_run :: db where
  "toy_run = empty_db\<lparr>db_events := [toy_exec]\<rparr>"

lemma toy_exec_fields:
  "ev_id toy_exec = ''evt-1''" "ev_run_id toy_exec = Some ''run-1''" "ev_session_id toy_exec = Some []"
  "ev_event_type toy_exec = ''process_exec''"
  by (simp_all add: toy_exec_def event_row_def policy_event_of_def toy_event_def coalesce_def Let_def)

lemma toy_run_ids: "db_ids toy_run = {}"
  by (simp add: db_ids_def toy_run_def empty_db_def)

lemma toy_run_events: "run_event_ids ''run-1'' toy_run = [''evt-1'']"
  by (simp add: run_event_ids_def toy_run_def empty_db_def order_asc_def toy_exec_fields)

lemma toy_run_evaluable: "list_all (evaluable toy_run ''run-1'') (run_event_ids ''run-1'' toy_run)"
proof -
  have "evaluable toy_run ''run-1'' ''evt-1''"
    by (simp add: evaluable_def toy_run_def empty_db_def toy_exec_fields session_known_def coalesce_def)
  then show ?thesis by (simp add: toy_run_events)
qed

lemma toy_run_expected: "expected_verdicts (rules_in_force toy_watch) toy_run [''evt-1''] =
    [(''evt-1'', ''watch'', ''audit'', ''watch (detect-only; would deny)'')]"
proof -
  have "pe_event_type (policy_event_of toy_exec) = ''process_exec''"
    by (simp add: policy_event_of_def Let_def toy_exec_fields)
  then have "evaluate toy_watch (policy_event_of toy_exec) = \<lparr>de_decision = ''audit'',
      de_reason = ''watch (detect-only; would deny)'', de_rule_id = ''watch'', de_mode = ''detect'', de_intended = ''deny''\<rparr>"
    by (simp add: evaluate_def toy_watch_def matches_def decide_def detect_mode_def rule_reason_def
        equal_fold_def to_lower_def ascii_lower_def)
  moreover have "rules_in_force toy_watch = toy_watch" by (simp add: rules_in_force_def toy_watch_def)
  ultimately show ?thesis
    by (simp add: expected_verdicts_def verdict_of_def toy_run_def empty_db_def toy_exec_fields)
qed

section \<open>Properties\<close>

definition policy_clean :: "string \<Rightarrow> db \<Rightarrow> bool" where
  "policy_clean run d \<longleftrightarrow> verify_policy_decisions d run = [] \<and> verify_risk_and_responses d run = []"

lemma policy_clean_chain: "policy_clean run d = chain_ok d run"
  by (simp add: policy_clean_def chain_ok_def)

text \<open>C1: Recording a decision for a stored event keeps \<open>graph verify\<close> clean. If the event belongs to
the run and its session is known to the store or to an external binding, then on a store that does not
fail \<open>persistDecisionForEventID\<close> succeeds, and neither \<open>verifyPolicyDecisions\<close> nor
\<open>verifyRiskAndResponses\<close> reports anything it did not report before, whatever the decision; a
quarantine or kill has also tainted the snapshots of the session, set its status and marked the
process.\<close>

theorem recorded_decision_verifies:
  assumes "ready w" "pe_run_id e \<noteq> []" "event_in_run (w_db w) (pe_run_id e) ev"
    and "session_known (w_db w) (pe_run_id e) (pe_session_id e)" "policy_clean run (w_db w)"
  shows "case persist_decision_for_event ev e d w of
      (Inl _, _) \<Rightarrow> False
    | (Inr row, w') \<Rightarrow> ready w' \<and> policy_clean run (w_db w') \<and> pd_event_id row = Some ev \<and>
        enforced e (de_decision d) (w_db w')"
proof -
  obtain t w1 where now: "now w = (t, w1)" by (cases "now w")
  from ready_now [OF assms(1) now] have r1: "ready w1" and db: "w_db w1 = w_db w" and t: "t \<noteq> []" by auto
  from persist_existing_left_by [OF r1 t, of ev e d] obtain row w' where
    p: "persist_existing ev e d t w1 = (Inr row, w')" "ready w'" "left_by ev e d t (w_db w) (w_db w')"
    unfolding db by blast
  have row: "pd_event_id row = Some ev"
    using p(1) by (auto simp: persist_existing_def Let_def decision_row_def split: prod.splits sum.splits if_splits)
  have "chain_ok (w_db w') run"
    using left_by_chain [OF p(3) assms(2-4)] assms(5) by (simp add: policy_clean_chain)
  moreover have "enforced e (de_decision d) (w_db w')" using p(3) unfolding left_by_def by blast
  ultimately show ?thesis
    using p row now by (simp add: persist_decision_for_event_def policy_clean_chain)
qed

lemma recorded_decision_verifies_witness:
  "\<exists>row w'. persist_decision_for_event ''evt-1'' (policy_event_of toy_exec)
       \<lparr>de_decision = ''kill'', de_reason = ''r'', de_rule_id = ''x'', de_mode = [], de_intended = []\<rparr>
       (toy_ready toy_run) = (Inr row, w') \<and> policy_clean ''run-1'' (w_db w')"
proof -
  let ?d = "\<lparr>de_decision = ''kill'', de_reason = ''r'', de_rule_id = ''x'', de_mode = [], de_intended = []\<rparr>"
  have e: "pe_run_id (policy_event_of toy_exec) = ''run-1''" "pe_session_id (policy_event_of toy_exec) = []"
    by (simp_all add: policy_event_of_def Let_def toy_exec_fields coalesce_def)
  have "policy_clean ''run-1'' toy_run" by (simp add: policy_clean_chain chain_ok_iff toy_run_def empty_db_def)
  moreover have "event_in_run toy_run ''run-1'' ''evt-1''"
    by (simp add: event_in_run_def toy_run_def empty_db_def toy_exec_fields)
  ultimately show ?thesis
    using recorded_decision_verifies [OF toy_ready_ready [OF toy_run_ids], of "policy_event_of toy_exec"
        "''evt-1''" "''run-1''" ?d] e
    by (auto simp: session_known_def split: prod.splits sum.splits)
qed

text \<open>C6: \<open>ReevaluateRun\<close> replaces the policy layer of a run by the verdicts of the rules. When the
events of the run can be evaluated it evaluates all of them and reports as alerts those that are not
allowed; afterwards the decisions of the run are those verdicts, one per event in order, and
\<open>graph verify\<close> has nothing to say about the policy layer of the run, whatever it held before.\<close>

theorem reevaluate_run_verdicts:
  assumes "ready w" "run \<noteq> []" "list_all (evaluable (w_db w) run) (run_event_ids run (w_db w))"
  shows "\<exists>w'. reevaluate_run run en w =
      ((length (run_event_ids run (w_db w)), length (verdicts (w_db w') run), None), w') \<and>
    verdicts (w_db w') run =
      expected_verdicts (rules_in_force en) (w_db w) (run_event_ids run (w_db w)) \<and>
    policy_clean run (w_db w')"
  using reevaluate_run_advanced [OF assms, of en] cleared_chain
  by (auto simp: advanced_def cleared_counts policy_clean_chain)

lemma reevaluate_run_verdicts_witness:
  "\<exists>w'. reevaluate_run ''run-1'' toy_watch (toy_ready toy_run) = ((1, 1, None), w') \<and>
    verdicts (w_db w') ''run-1'' = [(''evt-1'', ''watch'', ''audit'', ''watch (detect-only; would deny)'')] \<and>
    policy_clean ''run-1'' (w_db w')"
  using reevaluate_run_verdicts [OF toy_ready_ready [OF toy_run_ids], of "''run-1''" toy_watch]
    toy_run_evaluable toy_run_expected by (auto simp: toy_run_events)

text \<open>\<open>ReevaluateRun\<close> clears more than it rebuilds and less than it writes. Every risk signal of the
run that policy did not write (baseline deviations) is gone afterwards, and every audited event leaves
another cost sample that no later run clears, so running it again is not idempotent.\<close>

theorem reevaluate_run_residue:
  assumes "ready w" "run \<noteq> []" "list_all (evaluable (w_db w) run) (run_event_ids run (w_db w))"
  shows "\<exists>w'. snd (reevaluate_run run en w) = w' \<and> foreign_risks (w_db w') run = [] \<and>
    idle_costs (w_db w') run = idle_costs (w_db w) run +
      length (filter (\<lambda>(_, _, d, _). \<not> is_enforcing d) (verdicts (w_db w') run))"
  using reevaluate_run_advanced [OF assms, of en]
  by (auto simp: advanced_def cleared_counts)

lemma reevaluate_run_residue_witness:
  "\<exists>w'. snd (reevaluate_run ''run-1'' toy_watch (toy_ready toy_run)) = w' \<and> foreign_risks (w_db w') ''run-1'' = []"
  using reevaluate_run_residue [OF toy_ready_ready [OF toy_run_ids], of "''run-1''" toy_watch]
    toy_run_evaluable by simp

end
