(* ===== verification/Framing.thy ===== *)
theory Framing
  imports GoPrelude
begin

text \<open>
  Cutting a byte stream into units. \<open>drain\<close> is the loop that both TLS parsers run: as long as a unit is
  complete at the front of the buffer, take it off. The locale \<open>framer\<close> states what a parser promises:
  it consumes some but not more than what there is, and, when the front of the buffer delimits itself,
  bytes that arrive later do not change the unit already there. Its lemma \<open>drain_append\<close> is the
  invariance under chunking that both parsers need; they interpret the locale in their own theories.
\<close>

function drain :: "(bytes \<Rightarrow> ('f \<times> nat) option) \<Rightarrow> bytes \<Rightarrow> 'f list \<times> bytes" where
  "drain unit b =
     (case unit b of
        None \<Rightarrow> ([], b)
      | Some u \<Rightarrow>
          if snd u = 0 \<or> length b < snd u then ([], b)
          else (case drain unit (drop (snd u) b) of (fs, r) \<Rightarrow> (fst u # fs, r)))"
  by pat_completeness auto
termination
  by (relation "measure (\<lambda>(unit, b). length b)") auto

declare drain.simps [simp del]

text \<open>\<open>solid_along\<close>: every unit that \<open>drain\<close> takes off delimits itself.\<close>

function solid_along :: "(bytes \<Rightarrow> ('f \<times> nat) option) \<Rightarrow> (bytes \<Rightarrow> bool) \<Rightarrow> bytes \<Rightarrow> bool" where
  "solid_along unit solid b =
     (case unit b of
        None \<Rightarrow> True
      | Some u \<Rightarrow>
          if snd u = 0 \<or> length b < snd u then True
          else solid b \<and> solid_along unit solid (drop (snd u) b))"
  by pat_completeness auto
termination
  by (relation "measure (\<lambda>(unit, solid, b). length b)") auto

declare solid_along.simps [simp del]

lemma drain_None: "unit b = None \<Longrightarrow> drain unit b = ([], b)"
  by (subst drain.simps) simp

lemma drain_Some: "unit b = Some (f, n) \<Longrightarrow> 0 < n \<Longrightarrow> n \<le> length b \<Longrightarrow>
    drain unit b = (case drain unit (drop n b) of (fs, r) \<Rightarrow> (f # fs, r))"
  by (subst drain.simps) simp

lemma drain_length: "length (snd (drain unit b)) \<le> length b"
proof (induction b rule: length_induct)
  case (1 b)
  show ?case
  proof (cases "unit b")
    case None
    then show ?thesis by (simp add: drain_None)
  next
    case (Some u)
    show ?thesis
    proof (cases "snd u = 0 \<or> length b < snd u")
      case True
      with Some show ?thesis by (subst drain.simps) simp
    next
      case False
      then have "length (drop (snd u) b) < length b" by auto
      then have "length (snd (drain unit (drop (snd u) b))) \<le> length (drop (snd u) b)" using 1 by blast
      with False Some show ?thesis by (subst drain.simps) (auto split: prod.split)
    qed
  qed
qed

lemma solid_along_Some: "unit b = Some (f, n) \<Longrightarrow> 0 < n \<Longrightarrow> n \<le> length b \<Longrightarrow>
    solid_along unit solid b \<longleftrightarrow> solid b \<and> solid_along unit solid (drop n b)"
  by (subst solid_along.simps) simp

lemma solid_along_True [simp]: "solid_along unit (\<lambda>_. True) b"
proof (induction b rule: length_induct)
  case (1 b)
  then show ?case by (subst solid_along.simps) (auto split: option.split)
qed

locale framer =
  fixes unit :: "bytes \<Rightarrow> ('f \<times> nat) option" and solid fits :: "bytes \<Rightarrow> bool"
  assumes unit_bounds: "fits b \<Longrightarrow> unit b = Some (f, n) \<Longrightarrow> 0 < n \<and> n \<le> length b"
    and unit_extend: "fits (b @ c) \<Longrightarrow> unit b = Some (f, n) \<Longrightarrow> solid b \<Longrightarrow> unit (b @ c) = Some (f, n)"
    and unit_stays: "fits (b @ c) \<Longrightarrow> unit b \<noteq> None \<Longrightarrow> unit (b @ c) \<noteq> None \<and> solid (b @ c) = solid b"
    and fits_prefix: "fits (b @ c) \<Longrightarrow> fits b"
    and fits_drop: "fits b \<Longrightarrow> fits (drop n b)"
begin

text \<open>Bytes in two pieces give the units of all the bytes at once.\<close>

lemma drain_append:
  "fits (b @ c) \<Longrightarrow> solid_along unit solid b \<Longrightarrow> drain unit b = (fs, r) \<Longrightarrow>
     drain unit (b @ c) = (case drain unit (r @ c) of (gs, s) \<Rightarrow> (fs @ gs, s))"
proof (induction b arbitrary: fs r rule: length_induct)
  case (1 b)
  show ?case
  proof (cases "unit b")
    case None
    with 1 show ?thesis by (simp add: drain_None split: prod.splits)
  next
    case (Some p)
    obtain f n where p: "p = (f, n)" by force
    have b: "0 < n" "n \<le> length b" using unit_bounds [OF fits_prefix [OF 1(2)]] Some p by auto
    have s: "solid b" "solid_along unit solid (drop n b)"
      using 1(3) solid_along_Some [of unit b f n solid] Some p b by simp_all
    obtain gs t where d: "drain unit (drop n b) = (gs, t)" by force
    have fs: "fs = f # gs" "r = t" using 1(4) drain_Some [of unit b f n] Some p b d by simp_all
    have ext: "unit (b @ c) = Some (f, n)" using unit_extend [OF 1(2)] Some p s(1) by simp
    have fd: "fits (drop n b @ c)" using fits_drop [OF 1(2), of n] b by simp
    from ext have "drain unit (b @ c) = (case drain unit (drop n b @ c) of (gs, s) \<Rightarrow> (f # gs, s))"
      using drain_Some [of unit "b @ c" f n] b by simp
    moreover have "drain unit (drop n b @ c) = (case drain unit (t @ c) of (hs, s) \<Rightarrow> (gs @ hs, s))"
      using 1(1) b s(2) d fd by simp
    ultimately show ?thesis using fs by (simp split: prod.splits)
  qed
qed

lemma solid_along_prefix: "fits (b @ c) \<Longrightarrow> solid_along unit solid (b @ c) \<Longrightarrow> solid_along unit solid b"
proof (induction b rule: length_induct)
  case (1 b)
  show ?case
  proof (cases "unit b")
    case None
    then show ?thesis by (subst solid_along.simps) simp
  next
    case (Some p)
    obtain f n where p: "p = (f, n)" by force
    have b: "0 < n" "n \<le> length b" using unit_bounds [OF fits_prefix [OF 1(2)]] Some p by auto
    have stay: "unit (b @ c) \<noteq> None" "solid (b @ c) = solid b" using unit_stays [OF 1(2)] Some by auto
    then obtain g k where u: "unit (b @ c) = Some (g, k)" by auto
    with unit_bounds [OF 1(2) u] have "solid (b @ c)"
      using 1(3) solid_along_Some [of unit "b @ c" g k solid] by simp
    then have s: "solid b" using stay by simp
    have e: "unit (b @ c) = Some (f, n)" using unit_extend [OF 1(2)] Some p s by simp
    have "solid_along unit solid (drop n b @ c)"
      using 1(3) solid_along_Some [of unit "b @ c" f n solid] e b by simp
    moreover have "fits (drop n b @ c)" using fits_drop [OF 1(2), of n] b by simp
    moreover have "length (drop n b) < length b" using b by simp
    ultimately have "solid_along unit solid (drop n b)" using 1(1) by blast
    with s show ?thesis using solid_along_Some [of unit b f n solid] Some p b by simp
  qed
qed

lemma solid_along_rest:
  "fits (b @ c) \<Longrightarrow> solid_along unit solid (b @ c) \<Longrightarrow> solid_along unit solid (snd (drain unit b) @ c)"
proof (induction b rule: length_induct)
  case (1 b)
  show ?case
  proof (cases "unit b")
    case None
    with 1 show ?thesis by (simp add: drain_None)
  next
    case (Some p)
    obtain f n where p: "p = (f, n)" by force
    have b: "0 < n" "n \<le> length b" using unit_bounds [OF fits_prefix [OF 1(2)]] Some p by auto
    have "solid_along unit solid b" by (rule solid_along_prefix [OF 1(2,3)])
    then have s: "solid b" using solid_along_Some [of unit b f n solid] Some p b by simp
    have e: "unit (b @ c) = Some (f, n)" using unit_extend [OF 1(2)] Some p s by simp
    have "solid_along unit solid (drop n b @ c)"
      using 1(3) solid_along_Some [of unit "b @ c" f n solid] e b by simp
    moreover have "fits (drop n b @ c)" using fits_drop [OF 1(2), of n] b by simp
    moreover have "length (drop n b) < length b" using b by simp
    ultimately have "solid_along unit solid (snd (drain unit (drop n b)) @ c)" using 1(1) by blast
    then show ?thesis using drain_Some [of unit b f n] Some p b by (simp split: prod.splits)
  qed
qed

end

end
