(* ===== verification/Http2.thy ===== *)
theory Http2
  imports Framing Json "HOL-Library.AList" "HOL-Library.Word" "HOL-Library.Multiset"
begin

unbundle bit_operations_syntax

text \<open>
  \<open>internal/tlsintent/http2.go\<close>: the frame parser for HTTP/2 plaintext, and the \<open>Message\<close> that both
  parsers of the package build. HPACK is third-party code: \<open>he_decode\<close> stands for \<open>DecodeFull\<close> (the
  decoder is threaded through, a failed block gives \<open>None\<close>) and \<open>he_new\<close> for a fresh decoder. Go
  iterates over a map in an order it does not fix: \<open>he_order\<close> is that order.
\<close>

section \<open>Messages\<close>

record message =
  ms_pid :: "32 word"
  ms_conn :: "64 word"
  ms_direction :: string
  ms_protocol :: string
  ms_method :: string
  ms_path :: string
  ms_host :: string
  ms_status :: int
  ms_headers :: "string \<rightharpoonup> string"
  ms_body :: bytes
  ms_truncated :: bool
  ms_model :: string
  ms_endpoint :: string

definition request :: string where "request = ''request''"
definition response :: string where "response = ''response''"
definition proto_http11 :: string where "proto_http11 = ''http/1.1''"
definition proto_h2 :: string where "proto_h2 = ''h2''"

definition blank_message :: "32 word \<Rightarrow> 64 word \<Rightarrow> string \<Rightarrow> string \<Rightarrow> message" where
  "blank_message pid conn dir proto = \<lparr>ms_pid = pid, ms_conn = conn, ms_direction = dir, ms_protocol = proto,
     ms_method = [], ms_path = [], ms_host = [], ms_status = 0, ms_headers = (\<lambda>_. None), ms_body = [],
     ms_truncated = False, ms_model = [], ms_endpoint = []\<rparr>"

text \<open>The \<open>model\<close> field of a body that decodes into the one-field struct.\<close>

definition body_model :: "bytes \<Rightarrow> string" where
  "body_model body =
     (case decode body of
        Some (JObj kvs) \<Rightarrow> (case string_field ''model'' kvs of Some m \<Rightarrow> m | None \<Rightarrow> [])
      | _ \<Rightarrow> [])"

definition finalize_semantics :: "message \<Rightarrow> message" where
  "finalize_semantics m =
     (let m = (if ms_direction m = request then m\<lparr>ms_endpoint := ms_host m @ ms_path m\<rparr> else m);
          model = body_model (ms_body m)
      in if model \<noteq> [] then m\<lparr>ms_model := model\<rparr> else m)"

section \<open>Frames\<close>

definition client_preface :: bytes where
  "client_preface = ''PRI * HTTP/2.0'' @ [CHR 0x0D, CHR 0x0A, CHR 0x0D, CHR 0x0A] @ ''SM'' @
     [CHR 0x0D, CHR 0x0A, CHR 0x0D, CHR 0x0A]"

definition preface_related :: "bytes \<Rightarrow> bool" where
  "preface_related b \<longleftrightarrow> has_prefix b client_preface \<or>
     (0 < length b \<and> length b < length client_preface \<and> has_prefix client_preface b)"

definition byte_val :: "char \<Rightarrow> nat" where
  "byte_val c = of_char c"

record frame =
  fr_type :: nat
  fr_flags :: "8 word"
  fr_stream :: "32 word"
  fr_payload :: bytes

definition be24 :: "bytes \<Rightarrow> nat" where
  "be24 b = byte_val (b ! 0) * 65536 + byte_val (b ! 1) * 256 + byte_val (b ! 2)"

definition be32 :: "bytes \<Rightarrow> 32 word" where
  "be32 b = of_nat (byte_val (b ! 0) * 16777216 + byte_val (b ! 1) * 65536 + byte_val (b ! 2) * 256 + byte_val (b ! 3))"

definition next_frame :: "bytes \<Rightarrow> (frame \<times> nat) option" where
  "next_frame b =
     (if length b < 9 then None
      else
        let len = be24 b in
        if length b < 9 + len then None
        else Some (\<lparr>fr_type = byte_val (b ! 3), fr_flags = of_nat (byte_val (b ! 4)),
               fr_stream = be32 (drop 5 b) AND 0x7fffffff, fr_payload = take len (drop 9 b)\<rparr>, 9 + len))"

section \<open>Streams\<close>

record h2_stream =
  hs_block :: bytes
  hs_headers :: "string \<rightharpoonup> string"
  hs_body :: bytes
  hs_have_headers :: bool
  hs_end_stream :: bool
  hs_emitted :: bool

definition new_h2_stream :: h2_stream where
  "new_h2_stream = \<lparr>hs_block = [], hs_headers = (\<lambda>_. None), hs_body = [], hs_have_headers = False,
     hs_end_stream = False, hs_emitted = False\<rparr>"

record 'd http_env =
  he_new :: 'd
  he_decode :: "'d \<Rightarrow> bytes \<Rightarrow> (string \<times> string) list option \<times> 'd"
  he_order :: "32 word list \<Rightarrow> 32 word list"

record 'd h2_parser =
  hp_direction :: string
  hp_dec :: 'd
  hp_buf :: bytes
  hp_streams :: "(32 word \<times> h2_stream) list"
  hp_preface_done :: bool
  hp_open_stream :: "32 word"
  hp_in_block :: bool

definition new_h2_parser :: "'d http_env \<Rightarrow> string \<Rightarrow> 'd h2_parser" where
  "new_h2_parser env dir = \<lparr>hp_direction = dir, hp_dec = he_new env, hp_buf = [], hp_streams = [],
     hp_preface_done = False, hp_open_stream = 0, hp_in_block = False\<rparr>"

definition stream_of :: "'d h2_parser \<Rightarrow> 32 word \<Rightarrow> h2_stream" where
  "stream_of p i = (case map_of (hp_streams p) i of None \<Rightarrow> new_h2_stream | Some s \<Rightarrow> s)"

definition put_stream :: "32 word \<Rightarrow> h2_stream \<Rightarrow> 'd h2_parser \<Rightarrow> 'd h2_parser" where
  "put_stream i s p = p\<lparr>hp_streams := AList.update i s (hp_streams p)\<rparr>"

definition set_headers :: "(string \<times> string) list \<Rightarrow> (string \<rightharpoonup> string) \<Rightarrow> (string \<rightharpoonup> string)" where
  "set_headers hf m = fold (\<lambda>(k, v) m. m(k \<mapsto> v)) hf m"

definition decode_headers :: "'d http_env \<Rightarrow> 32 word \<Rightarrow> 'd h2_parser \<Rightarrow> 'd h2_parser" where
  "decode_headers env i p =
     (let s = stream_of p i in
      case he_decode env (hp_dec p) (hs_block s) of
        (None, d) \<Rightarrow> put_stream i (s\<lparr>hs_block := []\<rparr>) (p\<lparr>hp_dec := d\<rparr>)
      | (Some hf, d) \<Rightarrow> put_stream i
          (s\<lparr>hs_block := [], hs_headers := set_headers hf (hs_headers s), hs_have_headers := True\<rparr>)
          (p\<lparr>hp_dec := d\<rparr>))"

definition value_of :: "(string \<rightharpoonup> string) \<Rightarrow> string \<Rightarrow> string" where
  "value_of m k = (case m k of None \<Rightarrow> [] | Some v \<Rightarrow> v)"

text \<open>\<open>atoiSafe\<close> computes in a 64-bit \<open>int\<close> without looking for overflow.\<close>

definition is_dec :: "char \<Rightarrow> bool" where
  "is_dec c \<longleftrightarrow> CHR ''0'' \<le> c \<and> c \<le> CHR ''9''"

definition atoi_safe :: "string \<Rightarrow> int" where
  "atoi_safe s =
     (if list_all is_dec s
      then sint (foldl (\<lambda>n c. n * 10 + of_nat (byte_val c - 48)) (0 :: 64 word) s) else 0)"

definition pseudo_headers :: "string set" where
  "pseudo_headers = {'':method'', '':path'', '':authority'', '':status''}"

definition stream_message :: "string \<Rightarrow> 32 word \<Rightarrow> 64 word \<Rightarrow> h2_stream \<Rightarrow> message" where
  "stream_message dir pid conn s =
     (let h = hs_headers s;
          m = (blank_message pid conn dir proto_h2)\<lparr>ms_body := hs_body s,
            ms_method := value_of h '':method'', ms_path := value_of h '':path'',
            ms_host := value_of h '':authority'',
            ms_status := (case h '':status'' of None \<Rightarrow> 0 | Some v \<Rightarrow> atoi_safe v),
            ms_headers := (\<lambda>k. if k \<in> pseudo_headers then None else h k)\<rparr>;
          m = (if ms_method m \<noteq> [] \<or> ms_path m \<noteq> [] then m\<lparr>ms_direction := request\<rparr>
               else if ms_status m \<noteq> 0 then m\<lparr>ms_direction := response\<rparr> else m)
      in finalize_semantics m)"

definition maybe_emit :: "32 word \<Rightarrow> 32 word \<Rightarrow> 64 word \<Rightarrow> 'd h2_parser \<Rightarrow> message option \<times> 'd h2_parser" where
  "maybe_emit i pid conn p =
     (case map_of (hp_streams p) i of
        None \<Rightarrow> (None, p)
      | Some s \<Rightarrow>
          if hs_emitted s \<or> \<not> hs_have_headers s \<or> \<not> hs_end_stream s then (None, p)
          else (Some (stream_message (hp_direction p) pid conn s),
                p\<lparr>hp_streams := AList.delete i (hp_streams p)\<rparr>))"

section \<open>Handling a frame\<close>

definition unpad :: "8 word \<Rightarrow> bytes \<Rightarrow> bytes option" where
  "unpad flags b =
     (if flags AND 0x8 = 0 then Some b
      else case b of
          [] \<Rightarrow> None
        | c # r \<Rightarrow> let n = byte_val c in if n > length r then None else Some (take (length r - n) r))"

definition strip_priority :: "8 word \<Rightarrow> bytes \<Rightarrow> bytes option" where
  "strip_priority flags b =
     (if flags AND 0x20 = 0 then Some b else if length b < 5 then None else Some (drop 5 b))"

definition end_if :: "8 word \<Rightarrow> h2_stream \<Rightarrow> h2_stream" where
  "end_if flags s = (if flags AND 0x1 \<noteq> 0 then s\<lparr>hs_end_stream := True\<rparr> else s)"

definition handle_frame ::
  "'d http_env \<Rightarrow> 32 word \<Rightarrow> 64 word \<Rightarrow> frame \<Rightarrow> 'd h2_parser \<Rightarrow> message option \<times> 'd h2_parser" where
  "handle_frame env pid conn fr p =
     (let i = fr_stream fr; flags = fr_flags fr in
      if fr_type fr = 1 then
        (case Option.bind (unpad flags (fr_payload fr)) (strip_priority flags) of
           None \<Rightarrow> (None, p)
         | Some frag \<Rightarrow>
             let s = stream_of p i;
                 p = put_stream i (end_if flags (s\<lparr>hs_block := hs_block s @ frag\<rparr>)) p
             in if flags AND 0x4 \<noteq> 0 then maybe_emit i pid conn (decode_headers env i p)
                else (None, p\<lparr>hp_in_block := True, hp_open_stream := i\<rparr>))
      else if fr_type fr = 9 then
        (if \<not> hp_in_block p \<or> i \<noteq> hp_open_stream p then (None, p)
         else
           let s = stream_of p i; p = put_stream i (s\<lparr>hs_block := hs_block s @ fr_payload fr\<rparr>) p
           in if flags AND 0x4 \<noteq> 0
              then maybe_emit i pid conn (decode_headers env i (p\<lparr>hp_in_block := False\<rparr>))
              else (None, p))
      else if fr_type fr = 0 then
        (case unpad flags (fr_payload fr) of
           None \<Rightarrow> (None, p)
         | Some body \<Rightarrow>
             let s = stream_of p i
             in maybe_emit i pid conn (put_stream i (end_if flags (s\<lparr>hs_body := hs_body s @ body\<rparr>)) p))
      else (None, p))"

section \<open>Consuming bytes\<close>

definition opt_list :: "'a option \<Rightarrow> 'a list" where
  "opt_list x = (case x of None \<Rightarrow> [] | Some y \<Rightarrow> [y])"

function frame_loop ::
  "'d http_env \<Rightarrow> 32 word \<Rightarrow> 64 word \<Rightarrow> bytes \<Rightarrow> 'd h2_parser \<Rightarrow> message list \<times> 'd h2_parser" where
  "frame_loop env pid conn b p =
     (case next_frame b of
        None \<Rightarrow> ([], p\<lparr>hp_buf := b\<rparr>)
      | Some (fr, n) \<Rightarrow>
          (case handle_frame env pid conn fr p of (m, p) \<Rightarrow>
             (case frame_loop env pid conn (drop n b) p of (ms, p) \<Rightarrow> (opt_list m @ ms, p))))"
  by pat_completeness auto
termination
  by (relation "measure (\<lambda>(env, pid, conn, b, p). length b)")
    (auto simp: next_frame_def Let_def split: if_splits)

declare frame_loop.simps [simp del]

definition h2_consume ::
  "'d http_env \<Rightarrow> bytes \<Rightarrow> 32 word \<Rightarrow> 64 word \<Rightarrow> 'd h2_parser \<Rightarrow> message list \<times> 'd h2_parser" where
  "h2_consume env data pid conn p =
     (let b = hp_buf p @ data in
      if \<not> hp_preface_done p \<and> hp_direction p = request then
        (if has_prefix b client_preface
         then frame_loop env pid conn (drop (length client_preface) b) (p\<lparr>hp_preface_done := True\<rparr>)
         else if length b < length client_preface \<and> has_prefix client_preface b then ([], p\<lparr>hp_buf := b\<rparr>)
         else frame_loop env pid conn b (p\<lparr>hp_preface_done := True\<rparr>))
      else frame_loop env pid conn b p)"

text \<open>\<open>flush\<close> visits the streams in the order of the runtime; an entry it deletes is its own.\<close>

fun flush_streams ::
  "32 word \<Rightarrow> 64 word \<Rightarrow> 32 word list \<Rightarrow> 'd h2_parser \<Rightarrow> message list \<times> 'd h2_parser" where
  "flush_streams pid conn [] p = ([], p)"
| "flush_streams pid conn (i # is) p =
     (case map_of (hp_streams p) i of
        None \<Rightarrow> flush_streams pid conn is p
      | Some s \<Rightarrow>
          if hs_emitted s \<or> \<not> hs_have_headers s then flush_streams pid conn is p
          else
            (case maybe_emit i pid conn (put_stream i (s\<lparr>hs_end_stream := True\<rparr>) p) of (m, p) \<Rightarrow>
               (case flush_streams pid conn is p of (ms, p) \<Rightarrow>
                  (map (\<lambda>m. m\<lparr>ms_truncated := True\<rparr>) (opt_list m) @ ms, p))))"

definition h2_flush ::
  "'d http_env \<Rightarrow> 32 word \<Rightarrow> 64 word \<Rightarrow> 'd h2_parser \<Rightarrow> message list \<times> 'd h2_parser" where
  "h2_flush env pid conn p = flush_streams pid conn (he_order env (map fst (hp_streams p))) p"

section \<open>Chunks\<close>

lemma next_frame_bounds: "next_frame b = Some (f, n) \<Longrightarrow> 0 < n \<and> n \<le> length b"
  by (auto simp: next_frame_def Let_def split: if_splits)

lemma nth_append_left: "i < length b \<Longrightarrow> (b @ c) ! i = b ! i"
  by (simp add: nth_append)

lemma next_frame_extend: "next_frame b = Some (f, n) \<Longrightarrow> next_frame (b @ c) = Some (f, n)"
proof -
  assume a: "next_frame b = Some (f, n)"
  then have l: "9 \<le> length b" and m: "9 + be24 b \<le> length b"
    by (auto simp: next_frame_def Let_def split: if_splits)
  have d: "i < 4 \<Longrightarrow> drop 5 (b @ c) ! i = drop 5 b ! i" for i
  proof -
    assume "i < 4"
    then have "i < length (drop 5 b)" using l by simp
    then show ?thesis using l by (simp add: nth_append)
  qed
  have "be24 (b @ c) = be24 b" using l by (auto simp: be24_def nth_append)
  moreover have "be32 (drop 5 (b @ c)) = be32 (drop 5 b)" using d [of 0] d [of 1] d [of 2] d [of 3] by (simp add: be32_def)
  moreover have "(b @ c) ! 3 = b ! 3" "(b @ c) ! 4 = b ! 4" using l by (simp_all add: nth_append)
  ultimately show ?thesis using a l m by (simp add: next_frame_def Let_def split: if_splits)
qed

interpretation h2_frames: framer next_frame "\<lambda>_. True" "\<lambda>_. True"
  by unfold_locales (auto dest: next_frame_bounds next_frame_extend)

fun handle_all ::
  "'d http_env \<Rightarrow> 32 word \<Rightarrow> 64 word \<Rightarrow> frame list \<Rightarrow> 'd h2_parser \<Rightarrow> message list \<times> 'd h2_parser" where
  "handle_all env pid conn [] p = ([], p)"
| "handle_all env pid conn (f # fs) p =
     (case handle_frame env pid conn f p of (m, p) \<Rightarrow>
        (case handle_all env pid conn fs p of (ms, p) \<Rightarrow> (opt_list m @ ms, p)))"

lemma frame_loop_drain:
  "frame_loop env pid conn b p =
     (case drain next_frame b of (fs, r) \<Rightarrow>
        (case handle_all env pid conn fs p of (ms, q) \<Rightarrow> (ms, q\<lparr>hp_buf := r\<rparr>)))"
proof (induction b arbitrary: p rule: length_induct)
  case (1 b)
  show ?case
  proof (cases "next_frame b")
    case None
    then show ?thesis by (subst frame_loop.simps) (simp add: drain_None)
  next
    case (Some u)
    obtain f n where u: "u = (f, n)" by force
    have b: "0 < n" "n \<le> length b" using next_frame_bounds Some u by auto
    then have "length (drop n b) < length b" by simp
    with 1 show ?thesis
      using Some u drain_Some [of next_frame b f n] b
      by (subst frame_loop.simps) (simp split: prod.splits)
  qed
qed

lemma put_stream_buf: "put_stream i s (p\<lparr>hp_buf := b\<rparr>) = (put_stream i s p)\<lparr>hp_buf := b\<rparr>"
  by (simp add: put_stream_def)

lemma stream_of_buf: "stream_of (p\<lparr>hp_buf := b\<rparr>) i = stream_of p i"
  by (simp add: stream_of_def)

lemma decode_headers_buf: "decode_headers env i (p\<lparr>hp_buf := b\<rparr>) = (decode_headers env i p)\<lparr>hp_buf := b\<rparr>"
  by (simp add: decode_headers_def Let_def stream_of_buf put_stream_def split: prod.splits option.splits)

lemma maybe_emit_buf: "maybe_emit i pid conn (p\<lparr>hp_buf := b\<rparr>) = apsnd (\<lambda>p. p\<lparr>hp_buf := b\<rparr>) (maybe_emit i pid conn p)"
  by (simp add: maybe_emit_def split: option.split)

lemma handle_frame_buf:
  "handle_frame env pid conn f (p\<lparr>hp_buf := b\<rparr>) = apsnd (\<lambda>p. p\<lparr>hp_buf := b\<rparr>) (handle_frame env pid conn f p)"
proof -
  have 1: "(p\<lparr>hp_buf := b\<rparr>)\<lparr>hp_in_block := x\<rparr> = (p\<lparr>hp_in_block := x\<rparr>)\<lparr>hp_buf := b\<rparr>" for p :: "'a h2_parser" and x by simp
  have 2: "(p\<lparr>hp_buf := b\<rparr>)\<lparr>hp_in_block := x, hp_open_stream := y\<rparr> = (p\<lparr>hp_in_block := x, hp_open_stream := y\<rparr>)\<lparr>hp_buf := b\<rparr>"
    for p :: "'a h2_parser" and x y by simp
  show ?thesis
    unfolding handle_frame_def Let_def stream_of_buf put_stream_buf decode_headers_buf maybe_emit_buf 1 2
    by (auto simp: maybe_emit_buf decode_headers_buf 1 split: option.split)
qed

lemma handle_all_buf:
  "handle_all env pid conn fs (p\<lparr>hp_buf := b\<rparr>) = apsnd (\<lambda>p. p\<lparr>hp_buf := b\<rparr>) (handle_all env pid conn fs p)"
proof (induction fs arbitrary: p)
  case (Cons f fs)
  obtain m q where "handle_frame env pid conn f p = (m, q)" by force
  moreover obtain ms r where "handle_all env pid conn fs q = (ms, r)" by force
  ultimately show ?case using Cons.IH [of q] by (simp add: handle_frame_buf)
qed simp

lemma handle_all_append:
  "handle_all env pid conn (fs @ gs) p =
     (case handle_all env pid conn fs p of (ms, q) \<Rightarrow>
        (case handle_all env pid conn gs q of (ns, r) \<Rightarrow> (ms @ ns, r)))"
  by (induction fs arbitrary: p) (simp_all split: prod.split)

definition keeps :: "'d h2_parser \<Rightarrow> 'd h2_parser \<Rightarrow> bool" where
  "keeps p q \<longleftrightarrow> hp_preface_done q = hp_preface_done p \<and> hp_direction q = hp_direction p"

lemma keeps_refl: "keeps p p" and keeps_trans: "keeps p q \<Longrightarrow> keeps q r \<Longrightarrow> keeps p r"
  by (simp_all add: keeps_def)

lemma keeps_steps:
  "keeps p (put_stream i s p)" "keeps p (decode_headers env i p)" "keeps p (snd (maybe_emit i pid conn p))"
  "keeps p (p\<lparr>hp_in_block := x\<rparr>)" "keeps p (p\<lparr>hp_in_block := x, hp_open_stream := y\<rparr>)"
  by (simp_all add: keeps_def put_stream_def decode_headers_def maybe_emit_def Let_def split: option.split prod.split)

lemma keeps_handle_frame: "keeps p (snd (handle_frame env pid conn f p))"
  unfolding handle_frame_def Let_def
  by (auto split: option.split
      intro: keeps_refl keeps_steps keeps_trans [OF keeps_steps(1) keeps_steps(3)]
        keeps_trans [OF keeps_steps(1) keeps_steps(4)] keeps_trans [OF keeps_steps(1) keeps_steps(5)]
        keeps_trans [OF keeps_steps(1) keeps_trans [OF keeps_steps(2) keeps_steps(3)]]
        keeps_trans [OF keeps_steps(1) keeps_trans [OF keeps_steps(4) keeps_trans [OF keeps_steps(2) keeps_steps(3)]]])

lemma keeps_handle_all: "keeps p (snd (handle_all env pid conn fs p))"
proof (induction fs arbitrary: p)
  case (Cons f fs)
  obtain m q where f: "handle_frame env pid conn f p = (m, q)" by force
  with keeps_handle_frame [of p env pid conn f] Cons.IH [of q] show ?case
    by (simp split: prod.split) (metis keeps_trans snd_conv)
qed (simp add: keeps_refl)

lemma handle_all_keeps:
  "handle_all env pid conn fs p = (ms, q) \<Longrightarrow>
     hp_preface_done q = hp_preface_done p \<and> hp_direction q = hp_direction p"
  using keeps_handle_all [of p env pid conn fs] by (simp add: keeps_def)

lemma frame_loop_append:
  assumes "frame_loop env pid conn b p = (ms, q)"
  shows "frame_loop env pid conn (b @ c) p =
    (case frame_loop env pid conn (hp_buf q @ c) q of (ns, r) \<Rightarrow> (ms @ ns, r))"
proof -
  obtain fs r where d: "drain next_frame b = (fs, r)" by force
  obtain ms' q' where h: "handle_all env pid conn fs p = (ms', q')" by force
  from assms d h have q: "ms = ms'" "q = q'\<lparr>hp_buf := r\<rparr>" by (simp_all add: frame_loop_drain)
  have "drain next_frame (b @ c) = (case drain next_frame (r @ c) of (gs, s) \<Rightarrow> (fs @ gs, s))"
    using h2_frames.drain_append [OF _ _ d] by simp
  then show ?thesis using h q
    by (simp add: frame_loop_drain handle_all_append handle_all_buf apsnd_def map_prod_def split: prod.split)
qed

lemma frame_loop_buf: "frame_loop env pid conn b (p\<lparr>hp_buf := x, hp_preface_done := y\<rparr>) =
    frame_loop env pid conn b (p\<lparr>hp_preface_done := y\<rparr>)"
proof -
  have "p\<lparr>hp_buf := x, hp_preface_done := y\<rparr> = (p\<lparr>hp_preface_done := y\<rparr>)\<lparr>hp_buf := x\<rparr>" by simp
  then show ?thesis
    by (simp only: frame_loop_drain handle_all_buf) (simp add: apsnd_def map_prod_def split: prod.split)
qed

lemma frame_loop_keeps:
  "frame_loop env pid conn b p = (ms, q) \<Longrightarrow> hp_preface_done q = hp_preface_done p \<and> hp_direction q = hp_direction p"
  by (auto simp: frame_loop_drain dest: handle_all_keeps split: prod.splits)

lemma has_prefix_take: "has_prefix s p \<Longrightarrow> has_prefix s (take n p)"
  by (auto simp: has_prefix_iff) (metis append_assoc append_take_drop_id)

lemma preface_shrinks: "has_prefix client_preface (b @ c) \<Longrightarrow> has_prefix client_preface b"
  by (auto simp: has_prefix_iff)

lemma take_covers: "take n (b @ y) = p \<Longrightarrow> length b \<le> n \<Longrightarrow> has_prefix p b"
  by (auto simp: has_prefix_def min_def)

lemma h2_consume_append:
  assumes "h2_consume env xs pid conn p = (ms, q)"
  shows "h2_consume env (xs @ ys) pid conn p =
    (case h2_consume env ys pid conn q of (ns, r) \<Rightarrow> (ms @ ns, r))"
proof -
  let ?b = "hp_buf p @ xs"
  have loop: "h2_consume env ys pid conn q = frame_loop env pid conn (hp_buf q @ ys) q"
    if "hp_preface_done q \<or> hp_direction q \<noteq> request"
    using that by (auto simp: h2_consume_def)
  show ?thesis
  proof (cases "\<not> hp_preface_done p \<and> hp_direction p = request")
    case False
    then have "frame_loop env pid conn ?b p = (ms, q)" using assms by (auto simp: h2_consume_def)
    with frame_loop_append [OF this, of ys] frame_loop_keeps [OF this] loop False show ?thesis
      by (auto simp: h2_consume_def)
  next
    case True
    consider "has_prefix ?b client_preface"
      | "\<not> has_prefix ?b client_preface" "length ?b < length client_preface" "has_prefix client_preface ?b"
      | "\<not> has_prefix ?b client_preface" "\<not> (length ?b < length client_preface \<and> has_prefix client_preface ?b)"
      by blast
    then show ?thesis
    proof cases
      case 1
      then have e: "has_prefix (hp_buf p @ xs @ ys) client_preface"
        using has_prefix_extend [OF 1, of ys] by simp
      have f: "frame_loop env pid conn (drop (length client_preface) ?b) (p\<lparr>hp_preface_done := True\<rparr>) = (ms, q)"
        using assms True 1 by (simp add: h2_consume_def)
      have "drop (length client_preface) (hp_buf p @ xs @ ys) = drop (length client_preface) ?b @ ys"
        using has_prefix_length [OF 1] by simp
      with frame_loop_append [OF f, of ys] frame_loop_keeps [OF f] loop True e show ?thesis
        by (simp add: h2_consume_def)
    next
      case 2
      then have "ms = []" "q = p\<lparr>hp_buf := ?b\<rparr>" using assms True by (simp_all add: h2_consume_def)
      then show ?thesis using True by (simp add: h2_consume_def Let_def frame_loop_buf split: prod.splits)
    next
      case 3
      have n: "\<not> has_prefix (hp_buf p @ xs @ ys) client_preface"
      proof
        assume e: "has_prefix (hp_buf p @ xs @ ys) client_preface"
        show False
        proof (cases "length client_preface \<le> length ?b")
          case True
          with e 3(1) show False using has_prefix_extend_iff [of client_preface ?b ys] by simp
        next
          case False
          then have "length ?b < length client_preface" by simp
          moreover have "take (length client_preface) (?b @ ys) = client_preface"
            using e by (simp add: has_prefix_def)
          then have "has_prefix client_preface ?b"
            using take_covers [of "length client_preface" ?b ys] False by simp
          ultimately show False using 3(2) by simp
        qed
      qed
      have m: "\<not> (length (hp_buf p @ xs @ ys) < length client_preface \<and> has_prefix client_preface (hp_buf p @ xs @ ys))"
        using 3(2) preface_shrinks [of ?b ys] by auto
      have f: "frame_loop env pid conn ?b (p\<lparr>hp_preface_done := True\<rparr>) = (ms, q)"
        using assms True 3 by (auto simp: h2_consume_def Let_def split: if_splits)
      have "h2_consume env (xs @ ys) pid conn p = frame_loop env pid conn (?b @ ys) (p\<lparr>hp_preface_done := True\<rparr>)"
        using True n m unfolding h2_consume_def Let_def append_assoc by (simp only: simp_thms if_True if_False)
      with frame_loop_append [OF f, of ys] frame_loop_keeps [OF f] loop True show ?thesis by simp
    qed
  qed
qed

text \<open>The chunks of a connection, one after the other.\<close>

fun h2_consume_all ::
  "'d http_env \<Rightarrow> 32 word \<Rightarrow> 64 word \<Rightarrow> bytes list \<Rightarrow> 'd h2_parser \<Rightarrow> message list \<times> 'd h2_parser" where
  "h2_consume_all env pid conn [] p = ([], p)"
| "h2_consume_all env pid conn (c # cs) p =
     (case h2_consume env c pid conn p of (ms, p) \<Rightarrow>
        (case h2_consume_all env pid conn cs p of (ns, p) \<Rightarrow> (ms @ ns, p)))"

lemma h2_consume_all_concat:
  "cs \<noteq> [] \<Longrightarrow> h2_consume_all env pid conn cs p = h2_consume env (concat cs) pid conn p"
proof (induction cs arbitrary: p)
  case (Cons c cs)
  show ?case
  proof (cases "cs = []")
    case True
    then show ?thesis by (simp split: prod.split)
  next
    case False
    obtain ms q where "h2_consume env c pid conn p = (ms, q)" by force
    with Cons.IH [OF False, of q] h2_consume_append [OF this, of "concat cs"] show ?thesis by simp
  qed
qed simp

section \<open>Writing frames\<close>

text \<open>The wire form of a frame (RFC 9113, section 4.1).\<close>

definition byte_of :: "nat \<Rightarrow> char" where
  "byte_of n = char_of n"

definition encode_frame :: "frame \<Rightarrow> bytes" where
  "encode_frame f =
     (let n = length (fr_payload f); i = unat (fr_stream f) in
      [byte_of (n div 65536), byte_of (n div 256), byte_of n, byte_of (fr_type f), byte_of (unat (fr_flags f)),
       byte_of (i div 16777216), byte_of (i div 65536), byte_of (i div 256), byte_of i] @ fr_payload f)"

definition wire_frame :: "frame \<Rightarrow> bool" where
  "wire_frame f \<longleftrightarrow> length (fr_payload f) < 2 ^ 24 \<and> fr_type f < 256 \<and> fr_stream f AND 0x7fffffff = fr_stream f"

lemma byte_val_of [simp]: "byte_val (byte_of n) = n mod 256"
  by (simp add: byte_val_def byte_of_def)

lemma split_bytes:
  fixes n :: nat
  shows "n div 16777216 mod 256 * 16777216 + n div 65536 mod 256 * 65536 + n div 256 mod 256 * 256 + n mod 256
      = n mod 4294967296"
    and "n div 65536 mod 256 * 65536 + n div 256 mod 256 * 256 + n mod 256 = n mod 16777216"
proof -
  have 1: "n div 256 mod 256 * 256 + n mod 256 = n mod 65536"
    using mod_mult2_eq [of n 256 256] by simp
  have 2: "n div 65536 mod 256 * 65536 + n mod 65536 = n mod 16777216"
    using mod_mult2_eq [of n 65536 256] by simp
  have 3: "n div 16777216 mod 256 * 16777216 + n mod 16777216 = n mod 4294967296"
    using mod_mult2_eq [of n 16777216 256] by simp
  show "n div 16777216 mod 256 * 16777216 + n div 65536 mod 256 * 65536 + n div 256 mod 256 * 256 + n mod 256
      = n mod 4294967296" using 1 2 3 by linarith
  show "n div 65536 mod 256 * 65536 + n div 256 mod 256 * 256 + n mod 256 = n mod 16777216" using 1 2 by linarith
qed

lemma next_encode_frame:
  assumes "wire_frame f"
  shows "next_frame (encode_frame f @ rest) = Some (f, length (encode_frame f))"
proof -
  let ?b = "encode_frame f @ rest" and ?n = "length (fr_payload f)" and ?i = "unat (fr_stream f)"
  have n: "?n < 16777216" and t: "fr_type f < 256" using assms by (simp_all add: wire_frame_def)
  have i: "?i < 4294967296" using unsigned_less [of "fr_stream f"] by simp
  have len: "be24 ?b = ?n"
    using n split_bytes(2) [of ?n] by (simp add: be24_def encode_frame_def Let_def)
  have "be32 (drop 5 ?b) = of_nat (?i mod 4294967296)"
    unfolding split_bytes(1) [symmetric] by (simp add: be32_def encode_frame_def Let_def)
  then have str: "be32 (drop 5 ?b) = fr_stream f" using i by simp
  have "unat (fr_flags f) < 256" using unsigned_less [of "fr_flags f"] by simp
  then have fl: "of_nat (byte_val (?b ! 4)) = fr_flags f" by (simp add: encode_frame_def Let_def)
  have ty: "byte_val (?b ! 3) = fr_type f" using t by (simp add: encode_frame_def Let_def)
  have pl: "take ?n (drop 9 ?b) = fr_payload f" by (simp add: encode_frame_def Let_def)
  have l: "length (encode_frame f) = 9 + ?n" by (simp add: encode_frame_def Let_def)
  have str': "be32 (drop 5 ?b) AND 0x7fffffff = fr_stream f"
    unfolding str using assms by (simp add: wire_frame_def)
  show ?thesis
    unfolding next_frame_def len Let_def fl ty str' pl using l by simp
qed

definition encode_frames :: "frame list \<Rightarrow> bytes" where
  "encode_frames fs = concat (map encode_frame fs)"

lemma drain_encode_frames: "list_all wire_frame fs \<Longrightarrow> drain next_frame (encode_frames fs) = (fs, [])"
proof (induction fs)
  case Nil
  have "next_frame [] = None" by (simp add: next_frame_def)
  then show ?case by (simp add: encode_frames_def drain_None)
next
  case (Cons f fs)
  then have n: "next_frame (encode_frame f @ encode_frames fs) = Some (f, length (encode_frame f))"
    by (simp add: next_encode_frame)
  moreover have "0 < length (encode_frame f)" by (simp add: encode_frame_def Let_def)
  ultimately show ?case
    using Cons drain_Some [of next_frame "encode_frame f @ encode_frames fs" f "length (encode_frame f)"]
    by (simp add: encode_frames_def)
qed

section \<open>An exchange\<close>

text \<open>The frames of one message: its header block in one HEADERS frame and its body in DATA frames, the
last of which ends the stream; other frames of the connection may come in between.\<close>

definition headers_frame :: "32 word \<Rightarrow> bytes \<Rightarrow> frame" where
  "headers_frame i block = \<lparr>fr_type = 1, fr_flags = 0x4, fr_stream = i, fr_payload = block\<rparr>"

definition data_frame :: "bool \<Rightarrow> 32 word \<Rightarrow> bytes \<Rightarrow> frame" where
  "data_frame fin i body = \<lparr>fr_type = 0, fr_flags = (if fin then 0x1 else 0), fr_stream = i, fr_payload = body\<rparr>"

fun data_frames :: "32 word \<Rightarrow> bytes list \<Rightarrow> frame list" where
  "data_frames i [] = []"
| "data_frames i [b] = [data_frame True i b]"
| "data_frames i (b # bs) = data_frame False i b # data_frames i bs"

lemma handle_headers_frame:
  assumes "map_of (hp_streams p) i = None" "he_decode env (hp_dec p) block = (Some hf, d)"
  shows "\<exists>q. handle_frame env pid conn (headers_frame i block) p = (None, q) \<and>
     map_of (hp_streams q) i = Some (new_h2_stream\<lparr>hs_headers := set_headers hf (\<lambda>_. None), hs_have_headers := True\<rparr>) \<and>
     hp_direction q = hp_direction p"
  using assms
  by (simp add: handle_frame_def headers_frame_def unpad_def strip_priority_def end_if_def stream_of_def
      put_stream_def decode_headers_def maybe_emit_def new_h2_stream_def update_conv Let_def)

lemma handle_data_frame:
  assumes "map_of (hp_streams p) i = Some s" "hs_have_headers s" "\<not> hs_end_stream s" "\<not> hs_emitted s"
  shows "handle_frame env pid conn (data_frame False i b) p = (None, put_stream i (s\<lparr>hs_body := hs_body s @ b\<rparr>) p)"
    and "fst (handle_frame env pid conn (data_frame True i b) p) =
      Some (stream_message (hp_direction p) pid conn (s\<lparr>hs_body := hs_body s @ b, hs_end_stream := True\<rparr>))"
  using assms
  by (simp_all add: handle_frame_def data_frame_def unpad_def end_if_def stream_of_def
      put_stream_def maybe_emit_def update_conv Let_def)

lemma handle_data_frames:
  "map_of (hp_streams p) i = Some s \<Longrightarrow> hs_have_headers s \<Longrightarrow> \<not> hs_end_stream s \<Longrightarrow> \<not> hs_emitted s \<Longrightarrow>
     bs \<noteq> [] \<Longrightarrow>
   fst (handle_all env pid conn (data_frames i bs) p) =
     [stream_message (hp_direction p) pid conn (s\<lparr>hs_body := hs_body s @ concat bs, hs_end_stream := True\<rparr>)]"
proof (induction i bs arbitrary: p s rule: data_frames.induct)
  case (2 i b)
  then show ?case
    using handle_data_frame(2) [OF 2(1-4), of env pid conn b] by (auto simp: opt_list_def split: prod.split)
next
  case (3 i b c bs)
  let ?s = "s\<lparr>hs_body := hs_body s @ b\<rparr>"
  have m: "map_of (hp_streams (put_stream i ?s p)) i = Some ?s" by (simp add: put_stream_def update_conv)
  have "hp_direction (put_stream i ?s p) = hp_direction p" by (simp add: put_stream_def)
  with 3(1) [OF m] 3(3-5) handle_data_frame(1) [OF 3(2-5), of env pid conn b] show ?case
    by (simp add: opt_list_def split: prod.splits)
qed simp

section \<open>Properties\<close>

lemma fresh_consume:
  assumes "dir = request \<longrightarrow> start = client_preface" "dir \<noteq> request \<longrightarrow> start = []"
  shows "fst (h2_consume env (start @ encode_frames fs) pid conn (new_h2_parser env dir)) =
    fst (frame_loop env pid conn (encode_frames fs) ((new_h2_parser env dir)\<lparr>hp_preface_done := (dir = request)\<rparr>))"
proof (cases "dir = request")
  case True
  with assms show ?thesis by (simp add: h2_consume_def new_h2_parser_def)
next
  case False
  with assms have "start = []" by simp
  moreover have "(new_h2_parser env dir)\<lparr>hp_preface_done := (dir = request)\<rparr> = new_h2_parser env dir"
    using False by (simp add: new_h2_parser_def)
  ultimately show ?thesis using False by (simp add: h2_consume_def new_h2_parser_def)
qed

text \<open>C12: The parser does not care how the probe cuts the bytes. Feeding a connection chunk by chunk
gives the messages, and leaves the parser, that feeding all the bytes at once does; this holds in every
state and for every decoder, also when a cut falls inside the preface, a frame header or a payload.\<close>

theorem h2_chunking_invariant:
  "h2_consume_all env pid conn (c # cs) p = h2_consume env (concat (c # cs)) pid conn p"
  by (rule h2_consume_all_concat) simp


definition toy_env :: "nat http_env" where
  "toy_env = \<lparr>he_new = 0, he_decode = (\<lambda>d b. (Some [('':method'', ''POST''), ('':path'', b)], Suc d)),
     he_order = (\<lambda>is. is)\<rparr>"


end
