(* ===== verification/Semantics.thy ===== *)
theory Semantics
  imports Http2
begin

text \<open>
  \<open>internal/tlsintent/semantics.go\<close>: what an LLM request or response body says about model, tools and
  commands. A missing map entry and a value of another type are both the zero value of Go's comma-ok
  assertion. The lemma relates the two provider shapes that the response parser reads.
\<close>

record semantics =
  sm_model :: string
  sm_message_count :: nat
  sm_has_system :: bool
  sm_tools_offered :: "string list"
  sm_tool_calls :: "string list"
  sm_tool_commands :: "string list"
  sm_stop_reason :: string

definition blank_semantics :: semantics where
  "blank_semantics = \<lparr>sm_model = [], sm_message_count = 0, sm_has_system = False, sm_tools_offered = [],
     sm_tool_calls = [], sm_tool_commands = [], sm_stop_reason = []\<rparr>"

definition str :: "json option \<Rightarrow> string" where
  "str v = (case v of Some (JStr s) \<Rightarrow> s | _ \<Rightarrow> [])"

definition as_slice :: "json option \<Rightarrow> json list" where
  "as_slice v = (case v of Some (JArr vs) \<Rightarrow> vs | _ \<Rightarrow> [])"

definition as_map :: "json option \<Rightarrow> (string \<times> json) list option" where
  "as_map v = (case v of Some (JObj kvs) \<Rightarrow> Some kvs | _ \<Rightarrow> None)"

definition map_or_nil :: "json option \<Rightarrow> (string \<times> json) list" where
  "map_or_nil v = (case as_map v of Some kvs \<Rightarrow> kvs | None \<Rightarrow> [])"

definition first_str :: "(string \<times> json) list \<Rightarrow> string list \<Rightarrow> string" where
  "first_str m ks =
     (case first_some (\<lambda>k. let s = str (jget k m) in if s \<noteq> [] then Some s else None) ks of
        Some s \<Rightarrow> s | None \<Rightarrow> [])"

definition given :: "string \<Rightarrow> string list" where
  "given s = (if s \<noteq> [] then [s] else [])"

definition tool_names :: "json option \<Rightarrow> string list" where
  "tool_names v = concat (map (\<lambda>t.
     let tm = map_or_nil (Some t); n = str (jget ''name'' tm) in
     if n \<noteq> [] then [n]
     else (case as_map (jget ''function'' tm) of Some fn \<Rightarrow> given (str (jget ''name'' fn)) | None \<Rightarrow> []))
     (as_slice v))"

text \<open>The names and commands of Anthropic's \<open>content\<close> blocks.\<close>

definition content_calls :: "json list \<Rightarrow> string list" where
  "content_calls items = concat (map (\<lambda>i. let m = map_or_nil (Some i) in
     if str (jget ''type'' m) = ''tool_use'' then given (str (jget ''name'' m)) else []) items)"

definition content_commands :: "json list \<Rightarrow> string list" where
  "content_commands items = concat (map (\<lambda>i. let m = map_or_nil (Some i) in
     if str (jget ''type'' m) = ''tool_use'' then
       (case as_map (jget ''input'' m) of Some inp \<Rightarrow> given (str (jget ''command'' inp)) | None \<Rightarrow> [])
     else []) items)"

text \<open>And of OpenAI's \<open>tool_calls\<close>, whose arguments are a JSON text.\<close>

definition function_of :: "json \<Rightarrow> (string \<times> json) list" where
  "function_of tc = map_or_nil (jget ''function'' (map_or_nil (Some tc)))"

definition arguments_command :: "string \<Rightarrow> string list" where
  "arguments_command args =
     (if args = [] then []
      else case decode args of
          Some (JObj a) \<Rightarrow> given (str (jget ''command'' a))
        | _ \<Rightarrow> [])"

definition message_calls :: "json list \<Rightarrow> string list" where
  "message_calls tcs = concat (map (\<lambda>tc. given (str (jget ''name'' (function_of tc)))) tcs)"

definition message_commands :: "json list \<Rightarrow> string list" where
  "message_commands tcs = concat (map (\<lambda>tc. arguments_command (str (jget ''arguments'' (function_of tc)))) tcs)"

definition choice_tool_calls :: "json \<Rightarrow> json list" where
  "choice_tool_calls c = as_slice (jget ''tool_calls'' (map_or_nil (jget ''message'' (map_or_nil (Some c)))))"

definition choices_stop :: "string \<Rightarrow> json list \<Rightarrow> string" where
  "choices_stop s cs = foldl (\<lambda>s c. if s = [] then str (jget ''finish_reason'' (map_or_nil (Some c))) else s) s cs"

definition response_semantics :: "(string \<times> json) list \<Rightarrow> semantics" where
  "response_semantics raw =
     (let content = as_slice (jget ''content'' raw); choices = as_slice (jget ''choices'' raw) in
      blank_semantics\<lparr>sm_model := str (jget ''model'' raw),
        sm_stop_reason := choices_stop (first_str raw [''stop_reason'', ''finish_reason'']) choices,
        sm_tool_calls := content_calls content @ concat (map (\<lambda>c. message_calls (choice_tool_calls c)) choices),
        sm_tool_commands := content_commands content @
          concat (map (\<lambda>c. message_commands (choice_tool_calls c)) choices)\<rparr>)"

definition request_semantics :: "(string \<times> json) list \<Rightarrow> semantics" where
  "request_semantics raw =
     blank_semantics\<lparr>sm_model := str (jget ''model'' raw),
       sm_message_count := length (as_slice (jget ''messages'' raw)),
       sm_has_system := (jget ''system'' raw \<noteq> None), sm_tools_offered := tool_names (jget ''tools'' raw)\<rparr>"

definition parse_semantics :: "string \<Rightarrow> bytes \<Rightarrow> semantics" where
  "parse_semantics dir body =
     (case decode body of
        Some (JObj raw) \<Rightarrow> if dir = request then request_semantics raw else response_semantics raw
      | Some JNull \<Rightarrow> if dir = request then request_semantics [] else response_semantics []
      | _ \<Rightarrow> blank_semantics)"

section \<open>The two shapes\<close>

text \<open>A call is the name of a tool and the text of its arguments; both providers can carry a list of
them.\<close>

definition anthropic_block :: "string \<times> string \<Rightarrow> json" where
  "anthropic_block c = JObj [(''type'', JStr ''tool_use''), (''name'', JStr (fst c)),
     (''input'', case decode (snd c) of Some v \<Rightarrow> v | None \<Rightarrow> JNull)]"

definition openai_call :: "string \<times> string \<Rightarrow> json" where
  "openai_call c = JObj [(''function'', JObj [(''name'', JStr (fst c)), (''arguments'', JStr (snd c))])]"

definition anthropic_response :: "string \<Rightarrow> string \<Rightarrow> (string \<times> string) list \<Rightarrow> (string \<times> json) list" where
  "anthropic_response model stop calls =
     [(''model'', JStr model), (''content'', JArr (map anthropic_block calls)), (''stop_reason'', JStr stop)]"

definition openai_response :: "string \<Rightarrow> string \<Rightarrow> (string \<times> string) list \<Rightarrow> (string \<times> json) list" where
  "openai_response model stop calls = [(''model'', JStr model), (''choices'',
     JArr [JObj [(''message'', JObj [(''tool_calls'', JArr (map openai_call calls))]), (''finish_reason'', JStr stop)]])]"

lemmas json_reads = str_def as_map_def map_or_nil_def as_slice_def jget_def function_of_def Let_def

lemma block_reads:
  "str (jget ''type'' (map_or_nil (Some (anthropic_block c)))) = ''tool_use''"
  "str (jget ''name'' (map_or_nil (Some (anthropic_block c)))) = fst c"
  "jget ''input'' (map_or_nil (Some (anthropic_block c))) = Some (case decode (snd c) of Some v \<Rightarrow> v | None \<Rightarrow> JNull)"
  by (simp_all add: anthropic_block_def json_reads)

lemma call_reads:
  "str (jget ''name'' (function_of (openai_call c))) = fst c"
  "str (jget ''arguments'' (function_of (openai_call c))) = snd c"
  by (simp_all add: openai_call_def json_reads)

lemma decode_Nil: "decode [] = None"
  by (simp add: decode_def skip_def numeral_2_eq_2)

lemma block_command:
  "(case as_map (jget ''input'' (map_or_nil (Some (anthropic_block c)))) of
      Some inp \<Rightarrow> given (str (jget ''command'' inp)) | None \<Rightarrow> []) = arguments_command (snd c)"
  by (cases "decode (snd c)") (auto simp: block_reads as_map_def arguments_command_def decode_Nil split: json.split)

text \<open>The parser reads both provider shapes alike: a response that names the same tools with the
same arguments, as Anthropic content blocks or as OpenAI tool calls whose arguments are a JSON text, has
the same semantics, whatever the names and the texts.\<close>

theorem provider_shapes_agree:
  "response_semantics (anthropic_response model stop calls) = response_semantics (openai_response model stop calls)"
proof -
  have calls: "content_calls (map anthropic_block calls) = message_calls (map openai_call calls)"
    by (simp add: content_calls_def message_calls_def block_reads call_reads comp_def Let_def)
  have commands: "content_commands (map anthropic_block calls) = message_commands (map openai_call calls)"
    by (simp add: content_commands_def message_commands_def block_command call_reads block_reads(1) comp_def Let_def)
  have ct: "choice_tool_calls (JObj [(''message'', JObj [(''tool_calls'', JArr xs)]), (''finish_reason'', JStr stop)]) = xs" for xs
    by (simp add: choice_tool_calls_def json_reads)
  have stop: "choices_stop (first_str (openai_response model stop calls) [''stop_reason'', ''finish_reason''])
      (as_slice (jget ''choices'' (openai_response model stop calls))) = stop"
    by (simp add: openai_response_def first_str_def choices_stop_def json_reads)
  have stop': "first_str (anthropic_response model stop calls) [''stop_reason'', ''finish_reason''] = stop"
    by (simp add: anthropic_response_def first_str_def json_reads)
  have reads: "jget ''model'' (anthropic_response model stop calls) = Some (JStr model)"
    "jget ''model'' (openai_response model stop calls) = Some (JStr model)"
    "as_slice (jget ''content'' (anthropic_response model stop calls)) = map anthropic_block calls"
    "as_slice (jget ''content'' (openai_response model stop calls)) = []"
    "as_slice (jget ''choices'' (anthropic_response model stop calls)) = []"
    "as_slice (jget ''choices'' (openai_response model stop calls)) =
       [JObj [(''message'', JObj [(''tool_calls'', JArr (map openai_call calls))]), (''finish_reason'', JStr stop)]]"
    by (simp_all add: anthropic_response_def openai_response_def jget_def as_slice_def)
  show ?thesis
    using stop unfolding response_semantics_def Let_def reads
    by (simp add: ct calls commands stop' content_calls_def [of "[]"] content_commands_def [of "[]"] choices_stop_def [of _ "[]"])
qed

end
