(* ===== verification/GoInt.thy ===== *)
theory GoInt
  imports GoPrelude Complex_Main "HOL-Library.Word"
begin

text \<open>
  Go's 64-bit integers as far as the components need them: \<open>strconv.Atoi\<close> and \<open>ParseInt\<close>, wrapping
  \<open>int\<close> arithmetic, and what becomes of a JSON number that goes through \<open>float64\<close> on its way to an
  \<open>int64\<close>.
\<close>

definition signed_digits :: "nat \<Rightarrow> string \<Rightarrow> int option" where
  "signed_digits base s =
     (case s of
        c # r \<Rightarrow>
          if c = CHR ''-'' then map_option (\<lambda>n. - int n) (parse_base base r)
          else if c = CHR ''+'' then map_option int (parse_base base r)
          else map_option int (parse_base base s)
      | [] \<Rightarrow> None)"

definition max_int :: int where "max_int = 2 ^ 63 - 1"
definition min_int :: int where "min_int = - (2 ^ 63)"

text \<open>\<open>strconv.Atoi\<close>: the value and whether there was no error; a value out of range is clipped.\<close>

definition atoi :: "string \<Rightarrow> int \<times> bool" where
  "atoi s =
     (case signed_digits 10 s of
        None \<Rightarrow> (0, False)
      | Some n \<Rightarrow> if n > max_int then (max_int, False) else if n < min_int then (min_int, False) else (n, True))"

text \<open>\<open>int\<close> arithmetic wraps.\<close>

definition wrap :: "int \<Rightarrow> int" where
  "wrap n = sint (of_int n :: 64 word)"

lemma wrap_id: "- (2 ^ 63) \<le> n \<Longrightarrow> n < 2 ^ 63 \<Longrightarrow> wrap n = n"
  by (simp add: wrap_def signed_of_int signed_take_bit_int_eq_self)

text \<open>
  A JSON number is decoded to the nearest \<open>float64\<close> (53 bits, ties to even) and converted to \<open>int64\<close>
  by truncation; a value out of range gives the smallest \<open>int64\<close>, as on amd64.
\<close>

fun bit_len :: "nat \<Rightarrow> nat" where
  "bit_len n = (if n = 0 then 0 else Suc (bit_len (n div 2)))"

declare bit_len.simps [simp del]

definition round_even :: "rat \<Rightarrow> int" where
  "round_even r =
     (let f = \<lfloor>r\<rfloor>; d = r - of_int f in
      if d < 1 / 2 then f else if 1 / 2 < d then f + 1 else if even f then f else f + 1)"

definition float_magnitude :: "rat \<Rightarrow> rat" where
  "float_magnitude a =
     (let g = 2 ^ bit_len (nat \<lfloor>a\<rfloor>) / 2 ^ 53 in of_int (round_even (a / g)) * g)"

definition int64_of_number :: "rat \<Rightarrow> int" where
  "int64_of_number r =
     (let t = \<lfloor>float_magnitude \<bar>r\<bar>\<rfloor>; n = (if r < 0 then - t else t) in
      if min_int \<le> n \<and> n \<le> max_int then n else min_int)"

lemma round_even_of_int [simp]: "round_even (of_int n) = n"
  by (simp add: round_even_def)

lemma bit_len_bound: "n < 2 ^ bit_len n"
proof (induction n rule: bit_len.induct)
  case (1 n)
  show ?case
  proof (cases "n = 0")
    case False
    then have "n div 2 < 2 ^ bit_len (n div 2)" using 1 by blast
    then have "n < 2 * 2 ^ bit_len (n div 2)" by linarith
    with False show ?thesis by (subst bit_len.simps) simp
  qed (simp add: bit_len.simps)
qed

lemma bit_len_le: "n < 2 ^ k \<Longrightarrow> bit_len n \<le> k"
proof (induction k arbitrary: n)
  case (Suc k)
  then have "n div 2 < 2 ^ k" by (simp add: less_mult_imp_div_less mult.commute)
  with Suc.IH show ?case by (subst bit_len.simps) simp
qed (simp add: bit_len.simps)

text \<open>Integers of at most 53 bits come through unchanged.\<close>

lemma int64_of_small: "\<bar>n\<bar> < 2 ^ 53 \<Longrightarrow> int64_of_number (of_int n) = n"
proof -
  assume n: "\<bar>n\<bar> < 2 ^ 53"
  define k where "k = bit_len (nat \<bar>n\<bar>)"
  have k: "k \<le> 53" unfolding k_def using n by (intro bit_len_le) (simp add: nat_less_iff)
  have p: "(2 :: rat) ^ 53 = 2 ^ (53 - k) * 2 ^ k" using k by (simp flip: power_add)
  have "\<bar>of_int n :: rat\<bar> / (2 ^ k / 2 ^ 53) = of_int (\<bar>n\<bar> * 2 ^ (53 - k))"
    using p by (simp add: field_simps)
  then have "float_magnitude \<bar>of_int n :: rat\<bar> = of_int (\<bar>n\<bar> * 2 ^ (53 - k)) * (2 ^ k / 2 ^ 53)"
    unfolding float_magnitude_def Let_def k_def of_int_abs [symmetric] floor_of_int by (simp only: round_even_of_int)
  also have "\<dots> = of_int \<bar>n\<bar>" using p by (simp add: field_simps)
  finally have "\<lfloor>float_magnitude \<bar>of_int n :: rat\<bar>\<rfloor> = \<bar>n\<bar>" by (metis floor_of_int)
  with n show ?thesis by (auto simp: int64_of_number_def Let_def min_int_def max_int_def)
qed

end
