(* ===== verification/Reassembler.thy ===== *)
theory Reassembler
  imports Http2 GoInt
begin

text \<open>
  \<open>internal/tlsintent/reassembler.go\<close>: HTTP/1.1 messages out of captured TLS plaintext, the switch to
  the HTTP/2 parser and the buffers per connection and direction. A slice expression out of range
  panics in Go, and the length of a chunk is added up in a 64-bit \<open>int\<close>: \<open>run\<close> is the outcome of code
  that may panic. The lemmas show that chunk decoding inverts chunk encoding, that a message that
  delimits itself is not changed by the bytes behind it, and what goes wrong otherwise.
\<close>

datatype 'a run = Panics | Returns 'a

fun run_bind :: "'a run \<Rightarrow> ('a \<Rightarrow> 'b run) \<Rightarrow> 'b run" where
  "run_bind Panics f = Panics"
| "run_bind (Returns x) f = f x"

definition run_map :: "('a \<Rightarrow> 'b) \<Rightarrow> 'a run \<Rightarrow> 'b run" where
  "run_map f x = run_bind x (\<lambda>y. Returns (f y))"

section \<open>Numbers of the header\<close>

definition crlf :: bytes where "crlf = [CHR 0x0D, CHR 0x0A]"

definition content_length :: "(string \<rightharpoonup> string) \<Rightarrow> nat option" where
  "content_length h =
     (case h ''content-length'' of
        None \<Rightarrow> None
      | Some v \<Rightarrow> (case atoi (trim_space v) of (n, ok) \<Rightarrow> if \<not> ok \<or> n < 0 then None else Some (nat n)))"

definition is_sse :: "(string \<rightharpoonup> string) \<Rightarrow> bool" where
  "is_sse h \<longleftrightarrow> contains (to_lower (value_of h ''content-type'')) ''text/event-stream''"

section \<open>Bodies\<close>

text \<open>The size of a chunk: \<open>ParseInt(line, 16, 64)\<close> of the line without its extensions.\<close>

definition chunk_size :: "bytes \<Rightarrow> int option" where
  "chunk_size line =
     (let l = (case index_of line [CHR '';''] of None \<Rightarrow> line | Some i \<Rightarrow> take i line) in
      case signed_digits 16 (trim_space l) of
        None \<Rightarrow> None
      | Some n \<Rightarrow> if n > max_int \<or> n < min_int then None else Some n)"

text \<open>\<open>raw\<close> and \<open>pos\<close> stay; \<open>out\<close> is the buffer. A returned \<open>None\<close> is \<open>done = false\<close>.\<close>

function dechunk_from :: "bytes \<Rightarrow> nat \<Rightarrow> bytes \<Rightarrow> (bytes \<times> nat) option run" where
  "dechunk_from raw pos out =
     (if length raw < pos then Panics
      else case index_of (drop pos raw) crlf of
        None \<Rightarrow> Returns None
      | Some nl \<Rightarrow>
          (case chunk_size (take nl (drop pos raw)) of
             None \<Rightarrow> Returns None
           | Some sz \<Rightarrow>
               if sz < 0 then Returns None
               else
                 let pos = pos + nl + 2 in
                 if sz = 0 then
                   (case index_of (drop pos raw) crlf of
                      None \<Rightarrow> Returns None
                    | Some e \<Rightarrow> Returns (Some (out, pos + e + 2)))
                 else if wrap (wrap (int pos + sz) + 2) > int (length raw) then Returns None
                 else if wrap (int pos + sz) < int pos \<or> wrap (int pos + sz) > int (length raw) then Panics
                 else dechunk_from raw (pos + nat sz + 2) (out @ take (nat sz) (drop pos raw))))"
  by pat_completeness auto
termination
proof (relation "measure (\<lambda>(raw, pos, out). Suc (length raw) - pos)")
  fix raw out :: bytes and pos nl x and sz :: int and y :: nat
  assume "\<not> length raw < pos" "index_of (drop pos raw) crlf = Some nl" "y = pos + nl + 2"
  then have "y \<le> length raw" using index_of_bound [of "drop pos raw" crlf nl] by (simp add: crlf_def)
  with \<open>y = pos + nl + 2\<close> show "((raw, y + nat sz + 2, out @ take (nat sz) (drop y raw)), raw, pos, out)
      \<in> measure (\<lambda>(raw, pos, out). Suc (length raw) - pos)" by auto
qed simp

declare dechunk_from.simps [simp del]

definition dechunk :: "bytes \<Rightarrow> (bytes \<times> nat) option run" where
  "dechunk raw = dechunk_from raw 0 []"

definition done_marker :: bytes where "done_marker = ''data: [DONE]''"
definition stop_marker :: bytes where "stop_marker = ''event: message_stop''"

definition ends_after :: "bytes \<Rightarrow> bytes \<Rightarrow> nat option" where
  "ends_after raw marker =
     (case index_of raw marker of
        None \<Rightarrow> None
      | Some i \<Rightarrow> map_option (\<lambda>j. i + j + 2) (index_of (drop i raw) [CHR 0x0A, CHR 0x0A]))"

definition sse_terminator :: "bytes \<Rightarrow> nat option" where
  "sse_terminator raw = first_some (ends_after raw) [done_marker, stop_marker]"

definition sse_line :: "bytes \<Rightarrow> bytes" where
  "sse_line l =
     (let l = trim_right (\<lambda>c. c = CHR 0x0D) l in
      if has_prefix l ''data:'' then
        (let payload = trim_space (drop 5 l) in if payload = ''[DONE]'' then [] else payload @ [CHR 0x0A])
      else [])"

definition sse_join :: "bytes \<Rightarrow> bytes" where
  "sse_join raw = concat (map sse_line (split_char CHR 0x0A raw))"

definition read_sse :: "bytes \<Rightarrow> (bytes \<times> nat) option" where
  "read_sse raw = map_option (\<lambda>e. (sse_join (take e raw), e)) (sse_terminator raw)"

definition decode_body :: "bytes \<Rightarrow> (string \<rightharpoonup> string) \<Rightarrow> bytes" where
  "decode_body raw h =
     (if is_sse h then (let joined = sse_join raw in if length joined > 0 then joined else raw) else raw)"

section \<open>Start line and headers\<close>

definition trim_eol :: "bytes \<Rightarrow> bytes" where
  "trim_eol l = trim_right (\<lambda>c. c = CHR 0x0D \<or> c = CHR 0x0A) l"

text \<open>\<open>ReadString\<close> in a loop: the lines that end in a newline, up to an empty one.\<close>

fun header_lines :: "bytes list \<Rightarrow> (string \<rightharpoonup> string) \<Rightarrow> (string \<rightharpoonup> string)" where
  "header_lines [] h = h"
| "header_lines [unfinished] h = h"
| "header_lines (l # ls) h =
     (let line = trim_eol l in
      if line = [] then h
      else case index_of line [CHR '':''] of
          None \<Rightarrow> header_lines ls h
        | Some i \<Rightarrow> header_lines ls (h(to_lower (trim_space (take i line)) \<mapsto> trim_space (drop (i + 1) line))))"

definition parse_start_and_headers ::
  "32 word \<Rightarrow> 64 word \<Rightarrow> string \<Rightarrow> bytes \<Rightarrow> (message \<times> (string \<rightharpoonup> string)) option" where
  "parse_start_and_headers pid conn dir hb =
     (case split_char CHR 0x0A hb of
        start # ls \<Rightarrow>
          if ls = [] then None
          else
            let start = trim_eol start; h = header_lines ls Map.empty; fs = GoPrelude.fields start;
                m = (blank_message pid conn dir proto_http11)\<lparr>ms_headers := h\<rparr>
            in if has_prefix start ''HTTP/'' then
                 Some (m\<lparr>ms_direction := response, ms_status := (if length fs \<ge> 2 then fst (atoi (fs ! 1)) else 0)\<rparr>, h)
               else if length fs \<ge> 2 then
                 Some (m\<lparr>ms_direction := request, ms_method := fs ! 0, ms_path := fs ! 1,
                         ms_host := value_of h ''host''\<rparr>, h)
               else None
      | [] \<Rightarrow> None)"

definition head_end :: bytes where
  "head_end = [CHR 0x0D, CHR 0x0A, CHR 0x0D, CHR 0x0A]"

definition with_body :: "bytes \<Rightarrow> message \<Rightarrow> message" where
  "with_body b m = finalize_semantics (m\<lparr>ms_body := b\<rparr>)"

definition parse_one ::
  "32 word \<Rightarrow> 64 word \<Rightarrow> string \<Rightarrow> bytes \<Rightarrow> bool \<Rightarrow> (message \<times> nat) option run" where
  "parse_one pid conn dir buf is_h2 =
     (if is_h2 then Returns None
      else case index_of buf head_end of
        None \<Rightarrow> Returns None
      | Some e \<Rightarrow>
          let rest = drop (e + 4) buf in
          (case parse_start_and_headers pid conn dir (take (e + 4) buf) of
             None \<Rightarrow> Returns None
           | Some (m, h) \<Rightarrow>
               (case content_length h of
                  Some cl \<Rightarrow>
                    if length rest < cl then Returns None
                    else Returns (Some (with_body (decode_body (take cl rest) h) m, e + 4 + cl))
                | None \<Rightarrow>
                    if equal_fold (value_of h ''transfer-encoding'') ''chunked'' then
                      run_map (map_option (\<lambda>(raw, n). (with_body (decode_body raw h) m, e + 4 + n))) (dechunk rest)
                    else if is_sse h then
                      Returns (map_option (\<lambda>(raw, n). (with_body raw m, e + 4 + n)) (read_sse rest))
                    else if dir = request then Returns (Some (finalize_semantics m, e + 4))
                    else Returns None)))"

definition parse_best_effort ::
  "32 word \<Rightarrow> 64 word \<Rightarrow> string \<Rightarrow> bytes \<Rightarrow> bool \<Rightarrow> message option" where
  "parse_best_effort pid conn dir buf is_h2 =
     (if is_h2 then Some ((blank_message pid conn dir proto_h2)\<lparr>ms_body := buf\<rparr>)
      else case index_of buf head_end of
        None \<Rightarrow> None
      | Some e \<Rightarrow>
          (case parse_start_and_headers pid conn dir (take (e + 4) buf) of
             None \<Rightarrow> None
           | Some (m, h) \<Rightarrow>
               let rest = drop (e + 4) buf in
               Some (with_body
                 (if is_sse h then (let body = sse_join rest in if length body > 0 then body else rest)
                  else decode_body rest h) m)))"

section \<open>The reassembler\<close>

record chunk =
  ck_pid :: "32 word"
  ck_conn :: "64 word"
  ck_direction :: string
  ck_data :: bytes
  ck_truncated :: bool

type_synonym stream_key = "32 word \<times> 64 word \<times> string"

record 'd tls_stream =
  ts_buf :: bytes
  ts_truncated :: bool
  ts_is_h2 :: bool
  ts_h2 :: "'d h2_parser option"

definition new_tls_stream :: "'d tls_stream" where
  "new_tls_stream = \<lparr>ts_buf = [], ts_truncated = False, ts_is_h2 = False, ts_h2 = None\<rparr>"

record 'd reassembler =
  re_streams :: "(stream_key \<times> 'd tls_stream) list"
  re_h2_conns :: "(32 word \<times> 64 word) list"
  re_max_bytes :: int

definition default_max_bytes :: int where
  "default_max_bytes = 2 ^ 20"

definition new_reassembler :: "'d reassembler" where
  "new_reassembler = \<lparr>re_streams = [], re_h2_conns = [], re_max_bytes = default_max_bytes\<rparr>"

definition flush_dir ::
  "'d http_env \<Rightarrow> 32 word \<Rightarrow> 64 word \<Rightarrow> string \<Rightarrow> 'd reassembler \<Rightarrow> message list \<times> 'd reassembler" where
  "flush_dir env pid conn dir r =
     (let k = (pid, conn, dir); gone = r\<lparr>re_streams := AList.delete k (re_streams r)\<rparr> in
      case map_of (re_streams r) k of
        None \<Rightarrow> ([], r)
      | Some s \<Rightarrow>
          (case ts_h2 s of
             Some p \<Rightarrow> (fst (h2_flush env pid conn p), gone)
           | None \<Rightarrow>
               if length (ts_buf s) = 0 then ([], r)
               else (map (\<lambda>m. m\<lparr>ms_truncated := True\<rparr>) (opt_list (parse_best_effort pid conn dir (ts_buf s) (ts_is_h2 s))), gone)))"

definition reassembler_flush ::
  "'d http_env \<Rightarrow> 32 word \<Rightarrow> 64 word \<Rightarrow> 'd reassembler \<Rightarrow> message list \<times> 'd reassembler" where
  "reassembler_flush env pid conn r =
     (case flush_dir env pid conn request r of (a, r) \<Rightarrow>
        (case flush_dir env pid conn response r of (b, r) \<Rightarrow>
           (a @ b, r\<lparr>re_h2_conns := removeAll (pid, conn) (re_h2_conns r)\<rparr>)))"

text \<open>The loop at the end of \<open>Add\<close>: messages, what is left, and the truncation mark.\<close>

function parse_loop ::
  "32 word \<Rightarrow> 64 word \<Rightarrow> string \<Rightarrow> bytes \<Rightarrow> bool \<Rightarrow> (message list \<times> bytes \<times> bool) run" where
  "parse_loop pid conn dir buf trunc =
     (case parse_one pid conn dir buf False of
        Panics \<Rightarrow> Panics
      | Returns None \<Rightarrow> Returns ([], buf, trunc)
      | Returns (Some u) \<Rightarrow>
          if snd u = 0 \<or> length buf < snd u then Returns ([], buf, trunc)
          else run_map (\<lambda>(ms, r). ((fst u)\<lparr>ms_truncated := trunc\<rparr> # ms, r))
                 (parse_loop pid conn dir (drop (snd u) buf) False))"
  by pat_completeness auto
termination
  by (relation "measure (\<lambda>(pid, conn, dir, buf, trunc). length buf)") auto

declare parse_loop.simps [simp del]

definition limit :: "'d reassembler \<Rightarrow> int" where
  "limit r = (if re_max_bytes r \<le> 0 then default_max_bytes else re_max_bytes r)"

text \<open>Is the chunk the start of, or part of, an HTTP/2 connection?\<close>

definition detect_h2 ::
  "chunk \<Rightarrow> 'd tls_stream \<Rightarrow> 'd reassembler \<Rightarrow> bool \<times> (32 word \<times> 64 word) list" where
  "detect_h2 c s r =
     (let ck = (ck_pid c, ck_conn c) in
      if ts_is_h2 s then (True, re_h2_conns r)
      else if ck_direction c = request \<and> preface_related (ts_buf s @ ck_data c)
      then (True, List.insert ck (re_h2_conns r))
      else (ck \<in> set (re_h2_conns r), re_h2_conns r))"

definition reassembler_add ::
  "'d http_env \<Rightarrow> chunk \<Rightarrow> 'd reassembler \<Rightarrow> (message list \<times> 'd reassembler) run" where
  "reassembler_add env c r =
     (if length (ck_data c) = 0 \<and> \<not> ck_truncated c then Returns ([], r)
      else
        let pid = ck_pid c; conn = ck_conn c; dir = ck_direction c; k = (pid, conn, dir);
            (flushed, r) = (if dir = request then flush_dir env pid conn response r else ([], r));
            s = (case map_of (re_streams r) k of None \<Rightarrow> new_tls_stream | Some s \<Rightarrow> s);
            s = (if ck_truncated c then s\<lparr>ts_truncated := True\<rparr> else s);
            (h2, conns) = detect_h2 c s r;
            s = s\<lparr>ts_is_h2 := h2\<rparr>;
            r = r\<lparr>re_h2_conns := conns\<rparr>;
            put = (\<lambda>s. r\<lparr>re_streams := AList.update k s (re_streams r)\<rparr>)
        in if h2 then
             (let p = (case ts_h2 s of None \<Rightarrow> new_h2_parser env dir | Some p \<Rightarrow> p);
                  (pre, p) = (if length (ts_buf s) > 0 then h2_consume env (ts_buf s) pid conn p else ([], p));
                  (out, p) = h2_consume env (ck_data c) pid conn p
              in Returns (flushed @ pre @ out, put (s\<lparr>ts_buf := [], ts_h2 := Some p\<rparr>)))
           else
             let s = (if int (length (ts_buf s)) < limit r then s\<lparr>ts_buf := ts_buf s @ ck_data c\<rparr>
                      else s\<lparr>ts_truncated := True\<rparr>)
             in run_map (\<lambda>(out, buf, trunc). (flushed @ out, put (s\<lparr>ts_buf := buf, ts_truncated := trunc\<rparr>)))
                  (parse_loop pid conn dir (ts_buf s) (ts_truncated s)))"

section \<open>Chunk arithmetic\<close>

lemma wrap_mod: "wrap n = (n + 2 ^ 63) mod 2 ^ 64 - 2 ^ 63"
  by (simp add: wrap_def int_word_sint)

lemma wrap_shift: "wrap (n + k * 2 ^ 64) = wrap n"
  using mod_mult_self1 [of "n + 2 ^ 63" k "2 ^ 64"] by (simp add: wrap_mod algebra_simps)

lemma wrap_sum:
  assumes "0 \<le> a" "a \<le> b" "b \<le> max_int" "0 \<le> c" "c \<le> max_int"
  shows "wrap (b + c) = (if b + c < 2 ^ 63 then b + c else b + c - 2 ^ 64)"
proof (cases "b + c < 2 ^ 63")
  case True
  with assms show ?thesis by (simp add: wrap_id)
next
  case False
  have "wrap (b + c) = wrap (b + c - 2 ^ 64)" using wrap_shift [of "b + c - 2 ^ 64" 1] by simp
  with False assms show ?thesis by (simp add: wrap_id max_int_def)
qed

text \<open>Streams that a process can hold.\<close>

definition small :: "bytes \<Rightarrow> bool" where
  "small b \<longleftrightarrow> length b < 2 ^ 62"

lemma small_append: "small (b @ c) \<Longrightarrow> small b"
  by (simp add: small_def)

lemma small_drop: "small b \<Longrightarrow> small (drop n b)"
  by (simp add: small_def)

text \<open>The check of the size of a chunk: the data is there, it is not, or the sum overflows.\<close>

lemma chunk_check:
  assumes "small raw" "pos \<le> length raw" "0 < sz" "sz \<le> max_int"
  shows "wrap (wrap (int pos + sz) + 2) > int (length raw) \<longleftrightarrow>
      int pos + sz + 2 < 2 ^ 63 \<and> int pos + sz + 2 > int (length raw)"
    and "\<not> wrap (wrap (int pos + sz) + 2) > int (length raw) \<Longrightarrow>
      wrap (int pos + sz) < int pos \<or> wrap (int pos + sz) > int (length raw) \<longleftrightarrow> int pos + sz + 2 \<ge> 2 ^ 63"
proof -
  let ?p = "int pos" and ?l = "int (length raw)"
  have l: "?p \<le> ?l" "?l < 2 ^ 62" using assms(1,2) by (auto simp: small_def)
  have sum: "wrap (?p + sz) = (if ?p + sz < 2 ^ 63 then ?p + sz else ?p + sz - 2 ^ 64)"
    using assms(3,4) l by (intro wrap_sum [of 0]) (auto simp: max_int_def)
  consider "?p + sz + 2 < 2 ^ 63" | "?p + sz < 2 ^ 63" "?p + sz + 2 \<ge> 2 ^ 63" | "?p + sz \<ge> 2 ^ 63" by linarith
  then have *: "(wrap (wrap (?p + sz) + 2) > ?l \<longleftrightarrow> ?p + sz + 2 < 2 ^ 63 \<and> ?p + sz + 2 > ?l) \<and>
      (\<not> wrap (wrap (?p + sz) + 2) > ?l \<longrightarrow>
        (wrap (?p + sz) < ?p \<or> wrap (?p + sz) > ?l \<longleftrightarrow> ?p + sz + 2 \<ge> 2 ^ 63))"
  proof cases
    case 1
    then have "wrap (wrap (?p + sz) + 2) = ?p + sz + 2" using sum assms(3) l by (simp add: wrap_id)
    with 1 sum assms(3) l show ?thesis by auto
  next
    case 2
    then have "wrap (wrap (?p + sz) + 2) = ?p + sz + 2 - 2 ^ 64"
      using sum wrap_shift [of "?p + sz + 2 - 2 ^ 64" 1] wrap_id [of "?p + sz + 2 - 2 ^ 64"] by (simp add: add.commute)
    with 2 sum assms(3) l show ?thesis by auto
  next
    case 3
    then have "wrap (wrap (?p + sz) + 2) = ?p + sz + 2 - 2 ^ 64"
      using sum assms(4) l by (simp add: wrap_id max_int_def)
    with 3 sum assms(3,4) l show ?thesis by (auto simp: max_int_def)
  qed
  from * show "wrap (wrap (?p + sz) + 2) > ?l \<longleftrightarrow> ?p + sz + 2 < 2 ^ 63 \<and> ?p + sz + 2 > ?l" by blast
  from * show "\<not> wrap (wrap (?p + sz) + 2) > ?l \<Longrightarrow>
      wrap (?p + sz) < ?p \<or> wrap (?p + sz) > ?l \<longleftrightarrow> ?p + sz + 2 \<ge> 2 ^ 63" by blast
qed

lemma chunk_size_range: "chunk_size l = Some sz \<Longrightarrow> sz \<le> max_int"
  by (auto simp: chunk_size_def Let_def split: option.splits if_splits)

text \<open>One turn of the loop, without the wrapped sums.\<close>

lemma dechunk_step:
  assumes "small raw" "pos \<le> length raw"
  shows "dechunk_from raw pos out =
     (case index_of (drop pos raw) crlf of
        None \<Rightarrow> Returns None
      | Some nl \<Rightarrow>
          (case chunk_size (take nl (drop pos raw)) of
             None \<Rightarrow> Returns None
           | Some sz \<Rightarrow>
               let q = pos + nl + 2 in
               if sz < 0 then Returns None
               else if sz = 0 then
                 (case index_of (drop q raw) crlf of
                    None \<Rightarrow> Returns None | Some e \<Rightarrow> Returns (Some (out, q + e + 2)))
               else if int q + sz + 2 \<ge> 2 ^ 63 then Panics
               else if q + nat sz + 2 > length raw then Returns None
               else dechunk_from raw (q + nat sz + 2) (out @ take (nat sz) (drop q raw))))"
proof (cases "index_of (drop pos raw) crlf")
  case None
  with assms show ?thesis by (subst dechunk_from.simps) simp
next
  case (Some nl)
  have q: "pos + nl + 2 \<le> length raw" using index_of_bound [OF Some] assms(2) by (simp add: crlf_def)
  show ?thesis
  proof (cases "chunk_size (take nl (drop pos raw))")
    case None
    with assms Some show ?thesis by (subst dechunk_from.simps) simp
  next
    case (Some sz)
    note ix = \<open>index_of (drop pos raw) crlf = Some nl\<close>
    show ?thesis
    proof (cases "0 < sz")
      case False
      with assms Some ix show ?thesis by (subst dechunk_from.simps) (simp add: Let_def)
    next
      case True
      note c = chunk_check [OF assms(1) q True chunk_size_range [OF Some]]
      have n: "int (pos + nl + 2) + sz + 2 > int (length raw) \<longleftrightarrow> pos + nl + 2 + nat sz + 2 > length raw"
        using True by linarith
      have big: "int (length raw) < 2 ^ 62" using assms(1) by (simp add: small_def)
      consider "int (pos + nl + 2) + sz + 2 \<ge> 2 ^ 63"
        | "int (pos + nl + 2) + sz + 2 < 2 ^ 63" "pos + nl + 2 + nat sz + 2 > length raw"
        | "int (pos + nl + 2) + sz + 2 < 2 ^ 63" "\<not> pos + nl + 2 + nat sz + 2 > length raw" by linarith
      then show ?thesis
      proof cases
        case 1
        with c have "\<not> wrap (wrap (int (pos + nl + 2) + sz) + 2) > int (length raw)"
          "wrap (int (pos + nl + 2) + sz) < int (pos + nl + 2) \<or> wrap (int (pos + nl + 2) + sz) > int (length raw)" by auto
        with 1 assms Some ix True show ?thesis
          by (subst dechunk_from.simps) (simp only: Let_def option.case if_False if_True not_less simp_thms | simp)+
      next
        case 2
        with c n have "wrap (wrap (int (pos + nl + 2) + sz) + 2) > int (length raw)" by auto
        with 2 assms Some ix True show ?thesis
          by (subst dechunk_from.simps) (simp only: Let_def option.case if_False if_True not_less simp_thms | simp)+
      next
        case 3
        with c n have "\<not> wrap (wrap (int (pos + nl + 2) + sz) + 2) > int (length raw)"
          "\<not> (wrap (int (pos + nl + 2) + sz) < int (pos + nl + 2) \<or> wrap (int (pos + nl + 2) + sz) > int (length raw))" by auto
        with 3 assms Some ix True show ?thesis
          by (subst dechunk_from.simps) (simp only: Let_def option.case if_False if_True not_less simp_thms | simp)+
      qed
    qed
  qed
qed

section \<open>What arrives later\<close>

lemma take_extend: "n \<le> length b \<Longrightarrow> take n (b @ c) = take n b"
  by simp

lemma dechunk_extend:
  assumes "small (raw @ c)" "pos \<le> length raw"
  shows "(dechunk_from raw pos out = Panics \<longrightarrow> dechunk_from (raw @ c) pos out = Panics) \<and>
    (\<forall>b n. dechunk_from raw pos out = Returns (Some (b, n)) \<longrightarrow>
       dechunk_from (raw @ c) pos out = Returns (Some (b, n)) \<and> pos < n \<and> n \<le> length raw)"
  using assms(2)
proof (induction "length raw - pos" arbitrary: pos out rule: less_induct)
  case less
  have small: "small raw" by (rule small_append [OF assms(1)])
  have le: "pos \<le> length (raw @ c)" using less.prems by simp
  note step = dechunk_step [OF small less.prems, of out] dechunk_step [OF assms(1) le, of out]
  show ?case
  proof (cases "index_of (drop pos raw) crlf")
    case None
    with step(1) show ?thesis by simp
  next
    case (Some nl)
    have nl: "nl + 2 \<le> length (drop pos raw)" using index_of_bound [OF Some] by (simp add: crlf_def)
    have ix: "index_of (drop pos (raw @ c)) crlf = Some nl"
      using index_of_extend [OF Some, of c] less.prems by simp
    have tk: "take nl (drop pos (raw @ c)) = take nl (drop pos raw)" using nl less.prems by simp
    define q where "q = pos + nl + 2"
    have q: "q \<le> length raw" using nl less.prems by (simp add: q_def)
    show ?thesis
    proof (cases "chunk_size (take nl (drop pos raw))")
      case None
      with step(1) Some show ?thesis by simp
    next
      case (Some sz)
      note s1 = step(1) [unfolded \<open>index_of (drop pos raw) crlf = Some nl\<close> option.case Some Let_def, folded q_def]
      note s2 = step(2) [unfolded ix option.case tk Some Let_def, folded q_def]
      consider "sz < 0" | "sz = 0" | "0 < sz" "int q + sz + 2 \<ge> 2 ^ 63"
        | "0 < sz" "int q + sz + 2 < 2 ^ 63" "q + nat sz + 2 > length raw"
        | "0 < sz" "int q + sz + 2 < 2 ^ 63" "q + nat sz + 2 \<le> length raw" by linarith
      then show ?thesis
      proof cases
        case 1
        with s1 show ?thesis by simp
      next
        case 2
        show ?thesis
        proof (cases "index_of (drop q raw) crlf")
          case None
          with s1 2 show ?thesis by simp
        next
          case (Some e)
          have "e + 2 \<le> length (drop q raw)" using index_of_bound [OF Some] by (simp add: crlf_def)
          moreover have "index_of (drop q (raw @ c)) crlf = Some e"
            using index_of_extend [OF Some, of c] q by simp
          ultimately show ?thesis using s1 s2 2 Some q by (auto simp: q_def)
        qed
      next
        case 3
        with s2 show ?thesis using s1 by simp
      next
        case 4
        with s1 show ?thesis by simp
      next
        case 5
        let ?p = "q + nat sz + 2" and ?o = "out @ take (nat sz) (drop q raw)"
        have d1: "dechunk_from raw pos out = dechunk_from raw ?p ?o" using s1 5 by simp
        have "take (nat sz) (drop q (raw @ c)) = take (nat sz) (drop q raw)" using 5 q by simp
        then have d2: "dechunk_from (raw @ c) pos out = dechunk_from (raw @ c) ?p ?o" using s2 5 by simp
        have "length raw - ?p < length raw - pos" using 5 q by (simp add: q_def)
        from less.hyps [OF this 5(3), of ?o] show ?thesis unfolding d1 d2 by (auto simp: q_def)
      qed
    qed
  qed
qed

lemma ends_after_extend: "ends_after raw m = Some e \<Longrightarrow> e \<le> length raw \<and> 0 < e"
proof -
  assume "ends_after raw m = Some e"
  then obtain i j where "index_of raw m = Some i" "index_of (drop i raw) [CHR 0x0A, CHR 0x0A] = Some j" "e = i + j + 2"
    by (auto simp: ends_after_def split: option.splits)
  moreover from index_of_bound [OF this(2)] have "j + 2 \<le> length (drop i raw)" by simp
  ultimately show ?thesis by simp
qed

lemma read_sse_bounds: "read_sse raw = Some (b, e) \<Longrightarrow> e \<le> length raw \<and> 0 < e"
  by (auto simp: read_sse_def sse_terminator_def dest: ends_after_extend split: option.splits)

lemma read_sse_bounds': "read_sse raw = Some u \<Longrightarrow> snd u \<le> length raw"
  using read_sse_bounds by (cases u) auto

lemma ends_after_stays: "ends_after raw m = Some e \<Longrightarrow> ends_after (raw @ c) m = Some e"
proof -
  assume "ends_after raw m = Some e"
  then obtain i j where i: "index_of raw m = Some i" and j: "index_of (drop i raw) [CHR 0x0A, CHR 0x0A] = Some j"
    and e: "e = i + j + 2" by (auto simp: ends_after_def split: option.splits)
  have "drop i (raw @ c) = drop i raw @ c" using index_of_bound [OF i] by simp
  with index_of_extend [OF i, of c] index_of_extend [OF j, of c] e show ?thesis by (simp add: ends_after_def)
qed

lemma read_sse_stays: "read_sse raw \<noteq> None \<Longrightarrow> read_sse (raw @ c) \<noteq> None"
  using ends_after_stays [of raw done_marker _ c] ends_after_stays [of raw stop_marker _ c]
  by (cases "ends_after raw done_marker"; cases "ends_after raw stop_marker")
    (auto simp: read_sse_def sse_terminator_def split: option.split)

text \<open>The front message delimits itself unless it is an event stream framed by its contents.\<close>

definition front_headers :: "bytes \<Rightarrow> (string \<rightharpoonup> string) option" where
  "front_headers buf =
     (case index_of buf head_end of
        None \<Rightarrow> None | Some e \<Rightarrow> map_option snd (parse_start_and_headers 0 0 [] (take (e + 4) buf)))"

definition self_delimiting :: "bytes \<Rightarrow> bool" where
  "self_delimiting buf \<longleftrightarrow>
     (case front_headers buf of
        None \<Rightarrow> True
      | Some h \<Rightarrow> content_length h \<noteq> None \<or> equal_fold (value_of h ''transfer-encoding'') ''chunked'' \<or> \<not> is_sse h)"

lemma parse_headers_args:
  "map_option snd (parse_start_and_headers pid conn dir hb) = map_option snd (parse_start_and_headers 0 0 [] hb)"
  by (simp add: parse_start_and_headers_def Let_def split: list.split)

lemma self_delimiting_head:
  assumes "self_delimiting buf" "index_of buf head_end = Some e"
    and "parse_start_and_headers pid conn dir (take (e + 4) buf) = Some (m, h)"
  shows "content_length h \<noteq> None \<or> equal_fold (value_of h ''transfer-encoding'') ''chunked'' \<or> \<not> is_sse h"
proof -
  have "front_headers buf = Some h"
    using assms(2,3) parse_headers_args [of pid conn dir "take (e + 4) buf"] by (simp add: front_headers_def)
  with assms(1) show ?thesis by (simp add: self_delimiting_def)
qed

lemma parse_one_extend:
  assumes "small (buf @ c)"
  shows "parse_one pid conn dir buf False = Panics \<Longrightarrow> parse_one pid conn dir (buf @ c) False = Panics"
    and "parse_one pid conn dir buf False = Returns (Some (m, n)) \<Longrightarrow>
      0 < n \<and> n \<le> length buf \<and> (self_delimiting buf \<longrightarrow> parse_one pid conn dir (buf @ c) False = Returns (Some (m, n)))"
proof -
  let ?P = "parse_one pid conn dir buf False" and ?Q = "parse_one pid conn dir (buf @ c) False"
  have main: "(?P = Panics \<longrightarrow> ?Q = Panics) \<and> (\<forall>m n. ?P = Returns (Some (m, n)) \<longrightarrow>
      0 < n \<and> n \<le> length buf \<and> (self_delimiting buf \<longrightarrow> ?Q = Returns (Some (m, n))))"
  proof (cases "index_of buf head_end")
    case None
    then show ?thesis by (simp add: parse_one_def)
  next
    case (Some e)
    have e: "e + 4 \<le> length buf" using index_of_bound [OF Some] by (simp add: head_end_def)
    have ix: "index_of (buf @ c) head_end = Some e" by (rule index_of_extend [OF Some])
    have tk: "take (e + 4) (buf @ c) = take (e + 4) buf" using e by simp
    let ?r = "drop (e + 4) buf"
    have dr: "drop (e + 4) (buf @ c) = ?r @ c" using e by simp
    have len: "length ?r = length buf - (e + 4)" by simp
    show ?thesis
    proof (cases "parse_start_and_headers pid conn dir (take (e + 4) buf)")
      case None
      with Some show ?thesis by (simp add: parse_one_def Let_def)
    next
      case (Some u)
      obtain ms h where u: "u = (ms, h)" by force
      note p = parse_one_def [of pid conn dir buf False, unfolded \<open>index_of buf head_end = Some e\<close> if_False option.case
          Let_def Some u prod.case]
      note q = parse_one_def [of pid conn dir "buf @ c" False, unfolded ix tk dr if_False option.case
          Let_def Some u prod.case]
      show ?thesis
      proof (cases "content_length h")
        case (Some cl)
        then show ?thesis using e by (auto simp: p q)
      next
        case None
        show ?thesis
        proof (cases "equal_fold (value_of h ''transfer-encoding'') ''chunked''")
          case True
          have sm: "small (?r @ c)" using small_drop [OF assms, of "e + 4"] dr by simp
          note d = dechunk_extend [OF sm, of 0 "[]", folded dechunk_def]
          from None True d e show ?thesis
            by (cases "dechunk ?r") (auto simp: p q run_map_def)
        next
          case False
          show ?thesis
          proof (cases "is_sse h")
            case True
            have "\<not> self_delimiting buf"
              using self_delimiting_head [OF _ \<open>index_of buf head_end = Some e\<close>] Some u None False True by blast
            with None False True e show ?thesis by (auto simp: p dest: read_sse_bounds')
          next
            case notsse: False
            with None False e show ?thesis by (auto simp: p q)
          qed
        qed
      qed
    qed
  qed
  show "?P = Panics \<Longrightarrow> ?Q = Panics" using main by blast
  show "?P = Returns (Some (m, n)) \<Longrightarrow>
      0 < n \<and> n \<le> length buf \<and> (self_delimiting buf \<longrightarrow> ?Q = Returns (Some (m, n)))" using main by blast
qed

lemma front_headers_extend:
  "index_of buf head_end = Some e \<Longrightarrow> front_headers (buf @ c) = front_headers buf"
  using index_of_bound [of buf head_end e] index_of_extend [of buf head_end e c]
  by (simp add: front_headers_def head_end_def)

lemma parse_one_stays:
  assumes "small (buf @ c)" "parse_one pid conn dir buf False = Returns (Some u)"
  shows "(\<exists>v. parse_one pid conn dir (buf @ c) False = Returns (Some v)) \<and> self_delimiting (buf @ c) = self_delimiting buf"
proof -
  from assms(2) obtain e where e: "index_of buf head_end = Some e"
    by (auto simp: parse_one_def split: option.splits)
  have sd: "self_delimiting (buf @ c) = self_delimiting buf"
    by (simp add: self_delimiting_def front_headers_extend [OF e])
  show ?thesis
  proof (cases "self_delimiting buf")
    case True
    with parse_one_extend(2) [OF assms(1), of pid conn dir "fst u" "snd u"] assms(2) sd show ?thesis by auto
  next
    case False
    then obtain h where h: "front_headers buf = Some h" "content_length h = None"
      "\<not> equal_fold (value_of h ''transfer-encoding'') ''chunked''" "is_sse h"
      by (auto simp: self_delimiting_def split: option.splits)
    have e4: "e + 4 \<le> length buf" using index_of_bound [OF e] by (simp add: head_end_def)
    from h(1) e obtain m0 where "parse_start_and_headers 0 0 [] (take (e + 4) buf) = Some (m0, h)"
      by (auto simp: front_headers_def)
    then obtain m where m: "parse_start_and_headers pid conn dir (take (e + 4) buf) = Some (m, h)"
      using parse_headers_args [of pid conn dir "take (e + 4) buf"]
      by (cases "parse_start_and_headers pid conn dir (take (e + 4) buf)") auto
    have "read_sse (drop (e + 4) buf) \<noteq> None"
      using assms(2) e m h(2-4) by (auto simp: parse_one_def Let_def)
    then have "read_sse (drop (e + 4) buf @ c) \<noteq> None" by (rule read_sse_stays)
    with index_of_extend [OF e, of c] m h(2-4) e4 sd show ?thesis by (auto simp: parse_one_def Let_def)
  qed
qed

definition http1_unit :: "32 word \<Rightarrow> 64 word \<Rightarrow> string \<Rightarrow> bytes \<Rightarrow> (message \<times> nat) option" where
  "http1_unit pid conn dir b = (case parse_one pid conn dir b False of Panics \<Rightarrow> None | Returns x \<Rightarrow> x)"

lemma http1_unit_Some: "http1_unit pid conn dir b = Some u \<longleftrightarrow> parse_one pid conn dir b False = Returns (Some u)"
  by (simp add: http1_unit_def split: run.split)

interpretation http1: framer "http1_unit pid conn dir" self_delimiting small for pid conn dir
proof
  fix b c f n
  show "small b \<Longrightarrow> http1_unit pid conn dir b = Some (f, n) \<Longrightarrow> 0 < n \<and> n \<le> length b"
    using parse_one_extend(2) [of b "[]" pid conn dir f n] by (simp add: http1_unit_Some)
  show "small (b @ c) \<Longrightarrow> http1_unit pid conn dir b = Some (f, n) \<Longrightarrow> self_delimiting b \<Longrightarrow>
      http1_unit pid conn dir (b @ c) = Some (f, n)"
    using parse_one_extend(2) [of b c pid conn dir f n] by (simp add: http1_unit_Some)
  show "small (b @ c) \<Longrightarrow> http1_unit pid conn dir b \<noteq> None \<Longrightarrow>
      http1_unit pid conn dir (b @ c) \<noteq> None \<and> self_delimiting (b @ c) = self_delimiting b"
    using parse_one_stays [of b c pid conn dir] by (auto simp: http1_unit_Some)
  show "small (b @ c) \<Longrightarrow> small b" by (rule small_append)
  show "small b \<Longrightarrow> small (drop n b)" by (rule small_drop)
qed

lemma finalize_truncated: "ms_truncated (finalize_semantics m) = ms_truncated m"
  by (simp add: finalize_semantics_def Let_def)

lemma parse_start_truncated:
  "parse_start_and_headers pid conn dir hb = Some (m, h) \<Longrightarrow> \<not> ms_truncated m"
  by (auto simp: parse_start_and_headers_def blank_message_def Let_def split: list.splits if_splits)

lemma parse_one_truncated: "parse_one pid conn dir b False = Returns (Some (m, n)) \<Longrightarrow> \<not> ms_truncated m"
  by (auto simp: parse_one_def with_body_def finalize_truncated Let_def run_map_def
      dest!: parse_start_truncated split: option.splits if_splits run.splits elim!: run_bind.elims)
    (case_tac x; auto simp: finalize_truncated)+

lemma parse_one_untruncated:
  "parse_one pid conn dir b False = Returns (Some (m, n)) \<Longrightarrow> m\<lparr>ms_truncated := False\<rparr> = m"
  using parse_one_truncated [of pid conn dir b m n] by (cases m) simp

text \<open>The loop of \<open>Add\<close> is \<open>drain\<close> as long as nothing panics.\<close>

lemma parse_loop_drain:
  "small b \<Longrightarrow> parse_loop pid conn dir b False \<noteq> Panics \<Longrightarrow>
     parse_loop pid conn dir b False = Returns (fst (drain (http1_unit pid conn dir) b), snd (drain (http1_unit pid conn dir) b), False)"
proof (induction b rule: length_induct)
  case (1 b)
  show ?case
  proof (cases "parse_one pid conn dir b False")
    case Panics
    with 1(3) show ?thesis by (subst (asm) parse_loop.simps) simp
  next
    case (Returns x)
    show ?thesis
    proof (cases x)
      case None
      with Returns show ?thesis by (subst parse_loop.simps) (simp add: drain_None http1_unit_def)
    next
      case (Some u)
      obtain m n where u: "u = (m, n)" by force
      have p: "parse_one pid conn dir b False = Returns (Some (m, n))" using Returns Some u by simp
      have b: "0 < n" "n \<le> length b" using parse_one_extend(2) [of b "[]" pid conn dir m n] 1(2) p by auto
      have l: "parse_loop pid conn dir b False = run_map (\<lambda>(ms, r). (m # ms, r)) (parse_loop pid conn dir (drop n b) False)"
        using p b parse_one_untruncated [OF p] by (subst parse_loop.simps) simp
      with 1(3) have "parse_loop pid conn dir (drop n b) False \<noteq> Panics" by (auto simp: run_map_def)
      with 1(1,2) b have "parse_loop pid conn dir (drop n b) False =
          Returns (fst (drain (http1_unit pid conn dir) (drop n b)), snd (drain (http1_unit pid conn dir) (drop n b)), False)"
        by (simp add: small_drop)
      with l p b drain_Some [of "http1_unit pid conn dir" b m n] show ?thesis
        by (simp add: run_map_def http1_unit_Some split: prod.split)
    qed
  qed
qed

text \<open>No panic on all the bytes: none on the first part, and none on what it leaves with the rest.\<close>

lemma parse_loop_parts:
  "small (b @ c) \<Longrightarrow> parse_loop pid conn dir (b @ c) False \<noteq> Panics \<Longrightarrow>
     solid_along (http1_unit pid conn dir) self_delimiting b \<Longrightarrow>
     parse_loop pid conn dir b False \<noteq> Panics \<and>
     parse_loop pid conn dir (snd (drain (http1_unit pid conn dir) b) @ c) False \<noteq> Panics"
proof (induction b rule: length_induct)
  case (1 b)
  show ?case
  proof (cases "parse_one pid conn dir b False")
    case Panics
    then have "parse_one pid conn dir (b @ c) False = Panics" by (rule parse_one_extend(1) [OF 1(2)])
    with 1(3) show ?thesis by (subst (asm) parse_loop.simps) simp
  next
    case (Returns x)
    show ?thesis
    proof (cases x)
      case None
      have "parse_loop pid conn dir b False \<noteq> Panics" using Returns None by (subst parse_loop.simps) simp
      then show ?thesis using Returns None 1(3) by (simp add: drain_None http1_unit_def)
    next
      case (Some u)
      obtain m n where u: "u = (m, n)" by force
      have p: "parse_one pid conn dir b False = Returns (Some (m, n))" using Returns Some u by simp
      have b: "0 < n" "n \<le> length b" using parse_one_extend(2) [OF 1(2) p] by auto
      have s: "self_delimiting b" "solid_along (http1_unit pid conn dir) self_delimiting (drop n b)"
        using 1(4) solid_along_Some [of "http1_unit pid conn dir" b m n] p b by (simp_all add: http1_unit_Some)
      have q: "parse_one pid conn dir (b @ c) False = Returns (Some (m, n))"
        using parse_one_extend(2) [OF 1(2) p] s by simp
      have sm: "small (drop n b @ c)" using small_drop [OF 1(2), of n] b by simp
      have "parse_loop pid conn dir (b @ c) False =
          run_map (\<lambda>(ms, r). (m # ms, r)) (parse_loop pid conn dir (drop n b @ c) False)"
        using q b parse_one_untruncated [OF p] by (subst parse_loop.simps) simp
      with 1(3) have np: "parse_loop pid conn dir (drop n b @ c) False \<noteq> Panics" by (auto simp: run_map_def)
      have "parse_loop pid conn dir b False = run_map (\<lambda>(ms, r). (m # ms, r)) (parse_loop pid conn dir (drop n b) False)"
        using p b parse_one_untruncated [OF p] by (subst parse_loop.simps) simp
      moreover have "parse_loop pid conn dir (drop n b) False \<noteq> Panics \<and>
          parse_loop pid conn dir (snd (drain (http1_unit pid conn dir) (drop n b)) @ c) False \<noteq> Panics"
        using 1(1) b sm np s(2) by simp
      moreover have "snd (drain (http1_unit pid conn dir) b) = snd (drain (http1_unit pid conn dir) (drop n b))"
        using drain_Some [of "http1_unit pid conn dir" b m n] p b by (simp add: http1_unit_Some split: prod.split)
      ultimately show ?thesis by (cases "parse_loop pid conn dir (drop n b) False") (auto simp: run_map_def)
    qed
  qed
qed

lemma parse_loop_append:
  assumes "small (b @ c)" "parse_loop pid conn dir (b @ c) False \<noteq> Panics"
    and "solid_along (http1_unit pid conn dir) self_delimiting b"
  shows "\<exists>ms r. parse_loop pid conn dir b False = Returns (ms, r, False) \<and> length r \<le> length b \<and>
    parse_loop pid conn dir (b @ c) False = run_map (\<lambda>(ns, s). (ms @ ns, s)) (parse_loop pid conn dir (r @ c) False)"
proof -
  let ?D = "drain (http1_unit pid conn dir)"
  obtain ms r where d: "?D b = (ms, r)" by force
  note parts = parse_loop_parts [OF assms]
  have "parse_loop pid conn dir b False = Returns (ms, r, False)"
    using parse_loop_drain [OF small_append [OF assms(1)], of pid conn dir] parts d by simp
  moreover have len: "length r \<le> length b"
    using drain_length [of "http1_unit pid conn dir" b] d by simp
  moreover have "small (r @ c)" using assms(1) len by (simp add: small_def)
  with parts d parse_loop_drain [OF this, of pid conn dir]
  have "parse_loop pid conn dir (r @ c) False = Returns (fst (?D (r @ c)), snd (?D (r @ c)), False)" by simp
  ultimately show ?thesis
    using parse_loop_drain [OF assms(1,2)] http1.drain_append [OF assms(1,3) d]
    by (intro exI [of _ ms] exI [of _ r]) (simp add: run_map_def split: prod.split)
qed

section \<open>Chunked bodies\<close>

definition encode_chunk :: "bytes \<Rightarrow> bytes" where
  "encode_chunk p = show_base 16 (length p) @ crlf @ p @ crlf"

definition encode_chunks :: "bytes list \<Rightarrow> bytes" where
  "encode_chunks ps = concat (map encode_chunk ps) @ ''0'' @ crlf @ crlf"

lemma index_of_crlf: "CHR 0x0D \<notin> set w \<Longrightarrow> index_of (w @ crlf @ t) crlf = Some (length w)"
proof (induction w)
  case Nil
  then show ?case by (simp add: crlf_def has_prefix_def)
next
  case (Cons c w)
  then have "\<not> has_prefix (c # w @ crlf @ t) crlf" by (auto simp: crlf_def has_prefix_def)
  with Cons show ?case by simp
qed

lemma index_of_single: "c \<notin> set w \<Longrightarrow> index_of w [c] = None"
  by (induction w) (auto simp: has_prefix_def)

lemma hex_chars: "c \<in> set (show_base 16 n) \<Longrightarrow> c \<notin> {CHR 0x0D, CHR '';'', CHR ''-'', CHR ''+''}"
proof -
  assume "c \<in> set (show_base 16 n)"
  then obtain d where d: "d < 16" "c = digit_char d" using show_base_chars [of 16 n] by auto
  then have "of_char c = (if d < 10 then 48 + d else 87 + d)" by (simp add: of_digit_char)
  then show ?thesis using d(1) by (auto split: if_splits)
qed

lemma chunk_size_show: "int n \<le> max_int \<Longrightarrow> chunk_size (show_base 16 n) = Some (int n)"
proof -
  assume n: "int n \<le> max_int"
  let ?w = "show_base 16 n"
  have "index_of ?w [CHR '';''] = None" using hex_chars [of "CHR '';''" n] by (intro index_of_single) auto
  moreover have "trim_space ?w = ?w" using show_base_no_space [of 16 _ n] by (intro trim_space_no_space) auto
  moreover have "signed_digits 16 ?w = Some (int n)"
  proof (cases ?w)
    case (Cons c r)
    then have "c \<noteq> CHR ''-''" "c \<noteq> CHR ''+''" using hex_chars [of c n] by auto
    then show ?thesis using Cons parse_show_base [of 16 n] by (simp add: signed_digits_def)
  qed simp
  ultimately show ?thesis using n by (simp add: chunk_size_def min_int_def)
qed

lemma dechunk_encoded:
  "list_all (\<lambda>p. p \<noteq> []) ps \<Longrightarrow> small (before @ encode_chunks ps @ rest) \<Longrightarrow>
     dechunk_from (before @ encode_chunks ps @ rest) (length before) out =
       Returns (Some (out @ concat ps, length before + length (encode_chunks ps)))"
proof (induction ps arbitrary: before out)
  case Nil
  let ?raw = "before @ encode_chunks [] @ rest"
  have r: "drop (length before) ?raw = ''0'' @ crlf @ crlf @ rest" by (simp add: encode_chunks_def)
  have i: "index_of (''0'' @ crlf @ crlf @ rest) crlf = Some 1"
    using index_of_crlf [of "''0''" "crlf @ rest"] by simp
  have z: "chunk_size ''0'' = Some 0"
    by (simp add: chunk_size_def has_prefix_def trim_space_def trim_left_def trim_right_def is_space_def
        signed_digits_def parse_base_def digit_val_def max_int_def min_int_def)
  have d: "drop (length before + 3) ?raw = crlf @ rest" by (simp add: encode_chunks_def crlf_def)
  have e: "index_of (crlf @ rest) crlf = Some 0" using index_of_crlf [of "[]" rest] by simp
  have t: "take 1 (''0'' @ crlf @ crlf @ rest) = ''0''" by simp
  show ?case
    using dechunk_step [OF Nil(2), of "length before" out] e
    unfolding r i option.case t z Let_def by (simp add: d numeral_3_eq_3 encode_chunks_def crlf_def)
next
  case (Cons p ps)
  let ?raw = "before @ encode_chunks (p # ps) @ rest" and ?w = "show_base 16 (length p)"
  let ?tail = "p @ crlf @ encode_chunks ps @ rest"
  have r: "drop (length before) ?raw = ?w @ crlf @ ?tail" by (simp add: encode_chunks_def encode_chunk_def)
  have i: "index_of (?w @ crlf @ ?tail) crlf = Some (length ?w)"
    using hex_chars [of "CHR 0x0D" "length p"] by (intro index_of_crlf) auto
  have len: "length ?raw = length before + length ?w + 2 + length p + 2 + length (encode_chunks ps @ rest)"
    by (simp add: encode_chunks_def encode_chunk_def crlf_def)
  have sm: "length ?raw < 2 ^ 62" using Cons.prems(2) by (simp add: small_def)
  have z: "chunk_size ?w = Some (int (length p))" using len sm by (intro chunk_size_show) (simp add: max_int_def)
  have t: "take (length ?w) (?w @ crlf @ ?tail) = ?w" by simp
  have p: "0 < length p" using Cons.prems(1) by simp
  let ?q = "length before + length ?w + 2"
  have d: "drop ?q ?raw = ?tail" by (simp add: encode_chunks_def encode_chunk_def crlf_def)
  have step: "dechunk_from ?raw (length before) out = dechunk_from ?raw (?q + length p + 2) (out @ p)"
  proof -
    have "\<not> 2 ^ 63 \<le> int ?q + int (length p) + 2" "\<not> ?q + length p + 2 > length ?raw" using len sm by auto
    then show ?thesis
      using dechunk_step [OF Cons.prems(2), of "length before" out] p
      unfolding r i option.case t z Let_def d by (simp only: if_False) simp
  qed
  have eq: "?raw = (before @ encode_chunk p) @ encode_chunks ps @ rest" by (simp add: encode_chunks_def)
  have pos: "?q + length p + 2 = length (before @ encode_chunk p)" by (simp add: encode_chunk_def crlf_def)
  have "small ((before @ encode_chunk p) @ encode_chunks ps @ rest)" using Cons.prems(2) unfolding eq .
  from Cons.IH [OF _ this, of "out @ p"] Cons.prems(1)
  show ?case unfolding step unfolding eq pos by (simp add: encode_chunks_def)
qed

text \<open>C26: Chunk decoding inverts chunk encoding. A body sent in chunks, with anything behind it, is
returned exactly, and exactly its bytes are consumed, so the next message on the connection starts where
it should.\<close>

theorem dechunk_encode:
  assumes "list_all (\<lambda>p. p \<noteq> []) ps" "small (encode_chunks ps @ rest)"
  shows "dechunk (encode_chunks ps @ rest) = Returns (Some (concat ps, length (encode_chunks ps)))"
  using dechunk_encoded [of ps "[]" rest "[]"] assms by (simp add: dechunk_def)

lemma dechunk_encode_witness:
  "dechunk (encode_chunks [''ab'', ''c''] @ ''HTTP'') = Returns (Some (''abc'', length (encode_chunks [''ab'', ''c''])))"
  using dechunk_encode [of "[''ab'', ''c'']" "''HTTP''"]
  by (simp add: small_def encode_chunks_def encode_chunk_def crlf_def show_base.simps)

section \<open>Responses in chunks\<close>

fun add_all :: "'d http_env \<Rightarrow> chunk list \<Rightarrow> 'd reassembler \<Rightarrow> (message list \<times> 'd reassembler) run" where
  "add_all env [] r = Returns ([], r)"
| "add_all env (c # cs) r =
     run_bind (reassembler_add env c r) (\<lambda>(ms, r). run_map (\<lambda>(ns, r). (ms @ ns, r)) (add_all env cs r))"

definition response_chunk :: "32 word \<Rightarrow> 64 word \<Rightarrow> bytes \<Rightarrow> chunk" where
  "response_chunk pid conn d = \<lparr>ck_pid = pid, ck_conn = conn, ck_direction = response, ck_data = d, ck_truncated = False\<rparr>"

definition stream_at :: "32 word \<Rightarrow> 64 word \<Rightarrow> 'd reassembler \<Rightarrow> 'd tls_stream" where
  "stream_at pid conn r =
     (case map_of (re_streams r) (pid, conn, response) of None \<Rightarrow> new_tls_stream | Some s \<Rightarrow> s)"

text \<open>No HTTP/2 on the connection, and nothing was dropped from the response so far.\<close>

definition plain :: "32 word \<Rightarrow> 64 word \<Rightarrow> 'd reassembler \<Rightarrow> bool" where
  "plain pid conn r \<longleftrightarrow> (pid, conn) \<notin> set (re_h2_conns r) \<and>
     \<not> ts_is_h2 (stream_at pid conn r) \<and> \<not> ts_truncated (stream_at pid conn r)"

definition stored :: "32 word \<Rightarrow> 64 word \<Rightarrow> bytes \<Rightarrow> 'd reassembler \<Rightarrow> 'd reassembler" where
  "stored pid conn b r = r\<lparr>re_streams := AList.update (pid, conn, response)
     ((stream_at pid conn r)\<lparr>ts_buf := b, ts_truncated := False\<rparr>) (re_streams r)\<rparr>"

lemma stored_simps:
  "stream_at pid conn (stored pid conn b r) = (stream_at pid conn r)\<lparr>ts_buf := b, ts_truncated := False\<rparr>"
  "stored pid conn c (stored pid conn b r) = stored pid conn c r"
  "limit (stored pid conn b r) = limit r" "re_h2_conns (stored pid conn b r) = re_h2_conns r"
proof -
  show a: "stream_at pid conn (stored pid conn b r) = (stream_at pid conn r)\<lparr>ts_buf := b, ts_truncated := False\<rparr>"
    unfolding stored_def by (subst stream_at_def) (simp add: update_conv)
  show "stored pid conn c (stored pid conn b r) = stored pid conn c r"
    unfolding stored_def [of _ _ c "stored pid conn b r"] a
    by (simp add: stored_def)
qed (simp_all add: stored_def limit_def)

lemma plain_stored: "plain pid conn r \<Longrightarrow> plain pid conn (stored pid conn b r)"
  by (simp add: plain_def stored_simps)

lemma reassembler_add_response:
  assumes "plain pid conn r" "d \<noteq> []" "int (length (ts_buf (stream_at pid conn r))) < limit r"
    and "parse_loop pid conn response (ts_buf (stream_at pid conn r) @ d) False = Returns (ms, b, False)"
  shows "reassembler_add env (response_chunk pid conn d) r = Returns (ms, stored pid conn b r)"
proof -
  let ?s = "stream_at pid conn r"
  have s: "(case map_of (re_streams r) (pid, conn, response) of None \<Rightarrow> new_tls_stream | Some s \<Rightarrow> s) = ?s"
    by (simp add: stream_at_def)
  have ne: "response \<noteq> request" by (simp add: response_def request_def)
  have h2: "detect_h2 (response_chunk pid conn d) ?s r = (False, re_h2_conns r)"
    using assms(1) ne by (simp add: detect_h2_def plain_def response_chunk_def)
  have s': "?s\<lparr>ts_is_h2 := False\<rparr> = ?s" using assms(1) by (cases ?s) (simp add: plain_def)
  have t: "ts_truncated ?s = False" using assms(1) by (simp add: plain_def)
  have c: "ck_pid (response_chunk pid conn d) = pid" "ck_conn (response_chunk pid conn d) = conn"
    "ck_direction (response_chunk pid conn d) = response" "ck_data (response_chunk pid conn d) = d"
    "ck_truncated (response_chunk pid conn d) = False" by (simp_all add: response_chunk_def)
  have r': "r\<lparr>re_h2_conns := re_h2_conns r\<rparr> = r" by simp
  show ?thesis
    using assms(2-4) ne
    unfolding reassembler_add_def c Let_def
    by (simp add: s h2 s' t run_map_def stored_def)
qed

lemma add_response_chunks:
  assumes "plain pid conn r" "list_all (\<lambda>d. d \<noteq> []) (d # ds)"
    and "small (ts_buf (stream_at pid conn r) @ concat (d # ds))"
    and "int (length (ts_buf (stream_at pid conn r) @ concat (d # ds))) \<le> limit r"
    and "solid_along (http1_unit pid conn response) self_delimiting (ts_buf (stream_at pid conn r) @ concat (d # ds))"
    and "parse_loop pid conn response (ts_buf (stream_at pid conn r) @ concat (d # ds)) False \<noteq> Panics"
  shows "add_all env (map (response_chunk pid conn) (d # ds)) r =
    reassembler_add env (response_chunk pid conn (concat (d # ds))) r"
  using assms
proof (induction ds arbitrary: d r)
  case Nil
  obtain x where "parse_loop pid conn response (ts_buf (stream_at pid conn r) @ d) False = Returns x"
    using Nil(6) by (cases "parse_loop pid conn response (ts_buf (stream_at pid conn r) @ d) False") auto
  then show ?case
    by (cases "reassembler_add env (response_chunk pid conn d) r") (auto simp: run_map_def)
next
  case (Cons e es)
  let ?b = "ts_buf (stream_at pid conn r)" and ?c = "concat (e # es)"
  have whole: "?b @ concat (d # e # es) = (?b @ d) @ ?c" by simp
  have d: "d \<noteq> []" "e \<noteq> []" using Cons.prems(2) by simp_all
  then have pos: "0 < length d" "0 < length e" by simp_all
  note hyps = Cons.prems(3-6) [unfolded whole]
  obtain ms b where p: "parse_loop pid conn response (?b @ d) False = Returns (ms, b, False)"
    and len: "length b \<le> length (?b @ d)"
    and app: "parse_loop pid conn response ((?b @ d) @ ?c) False =
        run_map (\<lambda>(ns, s). (ms @ ns, s)) (parse_loop pid conn response (b @ ?c) False)"
    using parse_loop_append [OF hyps(1,4) http1.solid_along_prefix [OF hyps(1,3)]] by blast
  have lim: "int (length ?b) < limit r" using hyps(2) pos by (simp del: length_greater_0_conv)
  have first: "reassembler_add env (response_chunk pid conn d) r = Returns (ms, stored pid conn b r)"
    by (rule reassembler_add_response [OF Cons.prems(1) d(1) lim p])
  have np: "parse_loop pid conn response (b @ ?c) False \<noteq> Panics"
    using app hyps(4) by (auto simp: run_map_def)
  have sm: "small (b @ ?c)" using hyps(1) len by (simp add: small_def)
  have dr: "b = snd (drain (http1_unit pid conn response) (?b @ d))"
    using parse_loop_drain [OF small_append [OF hyps(1)], of pid conn response] p by simp
  have so: "solid_along (http1_unit pid conn response) self_delimiting (b @ ?c)"
    using http1.solid_along_rest [OF hyps(1,3)] dr by simp
  have rest: "add_all env (map (response_chunk pid conn) (e # es)) (stored pid conn b r) =
      reassembler_add env (response_chunk pid conn ?c) (stored pid conn b r)"
    using Cons.prems(2) sm so np hyps(2) len
    by (intro Cons.IH plain_stored [OF Cons.prems(1)]) (simp_all add: stored_simps)
  obtain ns s where l: "parse_loop pid conn response (b @ ?c) False = Returns (ns, s, False)"
    using parse_loop_drain [OF sm np] by blast
  have lb: "int (length b) < limit r" using hyps(2) len pos by (simp del: length_greater_0_conv)
  have second: "reassembler_add env (response_chunk pid conn ?c) (stored pid conn b r) = Returns (ns, stored pid conn s r)"
    using reassembler_add_response [OF plain_stored [OF Cons.prems(1), of b], of ?c ns s env] d lb l
    by (simp add: stored_simps)
  have once: "reassembler_add env (response_chunk pid conn (d @ ?c)) r = Returns (ms @ ns, stored pid conn s r)"
    using app l d lim
    by (intro reassembler_add_response [OF Cons.prems(1)]) (simp_all add: run_map_def)
  show ?case using first rest second once by (simp add: run_map_def)
qed

text \<open>C4: The probe may cut an HTTP/1.1 response anywhere. Fed chunk by chunk, the reassembler returns
the messages, and ends in the state, that the whole stream in one chunk gives, provided the stream fits
the buffer, every message in it delimits itself, and no chunk length overflows.\<close>

theorem response_chunking_invariant:
  assumes "plain pid conn r" "list_all (\<lambda>d. d \<noteq> []) (d # ds)"
    and "int (length (ts_buf (stream_at pid conn r) @ concat (d # ds))) \<le> min (limit r) (2 ^ 61)"
    and "solid_along (http1_unit pid conn response) self_delimiting (ts_buf (stream_at pid conn r) @ concat (d # ds))"
    and "parse_loop pid conn response (ts_buf (stream_at pid conn r) @ concat (d # ds)) False \<noteq> Panics"
  shows "add_all env (map (response_chunk pid conn) (d # ds)) r =
    reassembler_add env (response_chunk pid conn (concat (d # ds))) r"
  using assms by (intro add_response_chunks) (simp_all add: small_def)

lemma parse_loop_short: "index_of b head_end = None \<Longrightarrow> parse_loop pid conn dir b t = Returns ([], b, t)"
  by (subst parse_loop.simps) (simp add: parse_one_def)

lemma response_chunking_invariant_witness:
  "add_all toy_env (map (response_chunk 1 2) [''HTTP/1.1'', '' 200 OK'']) new_reassembler =
    reassembler_add toy_env (response_chunk 1 2 ''HTTP/1.1 200 OK'') new_reassembler"
proof -
  have s: "ts_buf (stream_at 1 2 (new_reassembler :: nat reassembler)) = []" "plain 1 2 (new_reassembler :: nat reassembler)"
    by (simp_all add: stream_at_def plain_def new_reassembler_def new_tls_stream_def)
  have n: "index_of ''HTTP/1.1 200 OK'' head_end = None" by (simp add: head_end_def has_prefix_def)
  have "solid_along (http1_unit 1 2 response) self_delimiting ''HTTP/1.1 200 OK''"
    using n by (subst solid_along.simps) (simp add: http1_unit_def parse_one_def)
  with response_chunking_invariant [OF s(2), of "''HTTP/1.1''" "['' 200 OK'']" toy_env] s(1) parse_loop_short [OF n]
  show ?thesis by (simp add: limit_def new_reassembler_def default_max_bytes_def)
qed

section \<open>Overflow\<close>

text \<open>C29: A peer can crash the collector. When a chunk announces a length so close to the largest
\<open>int\<close> that adding the position and two overflows, the length check passes and the slice of the buffer
panics, however little data has arrived.\<close>

theorem dechunk_overflow_panics:
  assumes "chunk_size w = Some sz" "CHR 0x0D \<notin> set w" "2 ^ 63 \<le> int (length w) + 2 + sz + 2" "small (w @ crlf @ rest)"
    and "0 < sz"
  shows "dechunk (w @ crlf @ rest) = Panics"
proof -
  have i: "index_of (w @ crlf @ rest) crlf = Some (length w)" using assms(2) by (rule index_of_crlf)
  show ?thesis
    using dechunk_step [OF assms(4), of 0 "[]"] assms(1,3,5) i by (simp add: dechunk_def Let_def)
qed

lemma dechunk_overflow_panics_witness: "dechunk (''7fffffffffffffff'' @ crlf @ ''x'') = Panics"
proof -
  have "chunk_size ''7fffffffffffffff'' = Some max_int"
    by (simp add: chunk_size_def has_prefix_def trim_space_def trim_left_def trim_right_def is_space_def
        signed_digits_def parse_base_def digit_val_def max_int_def min_int_def)
  then show ?thesis
    by (rule dechunk_overflow_panics) (simp_all add: max_int_def small_def crlf_def)
qed

section \<open>A request cut after its first byte\<close>

definition request_chunk :: "32 word \<Rightarrow> 64 word \<Rightarrow> bytes \<Rightarrow> chunk" where
  "request_chunk pid conn d = \<lparr>ck_pid = pid, ck_conn = conn, ck_direction = request, ck_data = d, ck_truncated = False\<rparr>"

lemma preface_P: "preface_related ''P''"
  by (simp add: preface_related_def client_preface_def has_prefix_def)

lemma add_P:
  "reassembler_add env (request_chunk pid conn ''P'') new_reassembler = Returns ([], new_reassembler\<lparr>
     re_h2_conns := [(pid, conn)],
     re_streams := [((pid, conn, request), new_tls_stream\<lparr>ts_is_h2 := True,
        ts_h2 := Some ((new_h2_parser env request)\<lparr>hp_buf := ''P''\<rparr>)\<rparr>)]\<rparr>)"
proof -
  have pre: "has_prefix client_preface ''P''" "\<not> has_prefix ''P'' client_preface" "1 < length client_preface"
    by (simp_all add: client_preface_def has_prefix_def)
  have c: "h2_consume env ''P'' pid conn (new_h2_parser env request) = ([], (new_h2_parser env request)\<lparr>hp_buf := ''P''\<rparr>)"
    using pre by (simp add: h2_consume_def new_h2_parser_def)
  show ?thesis
    by (simp add: reassembler_add_def request_chunk_def flush_dir_def new_reassembler_def detect_h2_def
        preface_P new_tls_stream_def c Let_def)
qed

lemma post_frame: "length d < 5000000 \<Longrightarrow> has_prefix d ''OST '' \<Longrightarrow> next_frame (CHR ''P'' # d) = None"
proof -
  assume l: "length d < 5000000" and "has_prefix d ''OST ''"
  then obtain t where "d = ''OST '' @ t" by (auto simp: has_prefix_iff)
  then have "be24 (CHR ''P'' # d) = 5263187" by (simp add: be24_def byte_val_def)
  then show ?thesis using l by (simp add: next_frame_def)
qed

text \<open>One byte is enough to lose a request. \<open>h2PrefaceRelated\<close> takes any proper prefix of the
HTTP/2 preface for HTTP/2, and \<open>P\<close> is one: a POST whose first byte comes in a chunk of its own puts the
connection into HTTP/2 for good, and neither the rest of the request nor a flush ever yields a message.\<close>

theorem post_first_byte_lost:
  assumes "has_prefix d ''OST ''" "length d < 5000000"
  shows "\<exists>r. add_all env [request_chunk pid conn ''P'', request_chunk pid conn d] new_reassembler = Returns ([], r) \<and>
    (he_order env [] = [] \<longrightarrow> fst (reassembler_flush env pid conn r) = [])"
proof -
  let ?p = "(new_h2_parser env request)\<lparr>hp_buf := ''P''\<rparr>"
  let ?q = "(new_h2_parser env request)\<lparr>hp_preface_done := True, hp_buf := CHR ''P'' # d\<rparr>"
  let ?s = "new_tls_stream\<lparr>ts_is_h2 := True, ts_h2 := Some ?q\<rparr>"
  have d: "d \<noteq> []" using assms(1) by (auto simp: has_prefix_def)
  have pre: "\<not> has_prefix (CHR ''P'' # d) client_preface" "\<not> has_prefix client_preface (CHR ''P'' # d)"
    using assms(1) by (auto simp: has_prefix_iff client_preface_def)
  have "frame_loop env pid conn (CHR ''P'' # d) ((new_h2_parser env request)\<lparr>hp_buf := ''P'', hp_preface_done := True\<rparr>) = ([], ?q)"
    using post_frame [OF assms(2,1)] by (subst frame_loop.simps) simp
  then have c: "h2_consume env d pid conn ?p = ([], ?q)"
    using pre by (simp add: h2_consume_def new_h2_parser_def Let_def)
  have ne: "response \<noteq> request" by (simp add: response_def request_def)
  define r1 where "r1 = new_reassembler\<lparr>re_h2_conns := [(pid, conn)],
     re_streams := [((pid, conn, request), new_tls_stream\<lparr>ts_is_h2 := True, ts_h2 := Some ?p\<rparr>)]\<rparr>"
  define r2 where "r2 = r1\<lparr>re_streams := [((pid, conn, request), ?s)]\<rparr>"
  have f: "flush_dir env pid conn response r1 = ([], r1)"
    using ne by (simp add: flush_dir_def r1_def)
  have m: "map_of (re_streams r1) (pid, conn, request) = Some (new_tls_stream\<lparr>ts_is_h2 := True, ts_h2 := Some ?p\<rparr>)"
    by (simp add: r1_def)
  have second: "reassembler_add env (request_chunk pid conn d) r1 = Returns ([], r2)"
    using d c unfolding reassembler_add_def
    by (simp add: request_chunk_def f m detect_h2_def new_tls_stream_def Let_def) (simp add: r2_def r1_def new_tls_stream_def)
  have all: "add_all env [request_chunk pid conn ''P'', request_chunk pid conn d] new_reassembler = Returns ([], r2)"
    using add_P [of env pid conn] second by (simp add: run_map_def r1_def)
  have "fst (reassembler_flush env pid conn r2) = []" if "he_order env [] = []"
  proof -
    have "h2_flush env pid conn ?q = ([], ?q)" using that by (simp add: h2_flush_def new_h2_parser_def)
    then have "flush_dir env pid conn request r2 = ([], r2\<lparr>re_streams := []\<rparr>)"
      by (simp add: flush_dir_def r2_def)
    then show ?thesis by (simp add: reassembler_flush_def flush_dir_def split: prod.split)
  qed
  with all show ?thesis by blast
qed

lemma post_first_byte_lost_witness:
  "\<exists>r. add_all toy_env [request_chunk 1 2 ''P'', request_chunk 1 2 (''OST / HTTP/1.1'' @ head_end)] new_reassembler
     = Returns ([], r)"
  using post_first_byte_lost [of "''OST / HTTP/1.1'' @ head_end" toy_env 1 2]
  by (auto simp: has_prefix_def head_end_def)

section \<open>The buffers\<close>

definition buffers_below :: "int \<Rightarrow> 'd reassembler \<Rightarrow> bool" where
  "buffers_below n r \<longleftrightarrow> list_all (\<lambda>(k, s). int (length (ts_buf s)) < n) (re_streams r)"

lemma list_all_update: "list_all P al \<Longrightarrow> P (k, v) \<Longrightarrow> list_all P (AList.update k v al)"
  by (induction al) auto

lemma list_all_delete: "list_all P al \<Longrightarrow> list_all P (AList.delete k al)"
  by (auto simp: AList.delete_eq list_all_iff)

lemma list_all_map_of: "list_all P al \<Longrightarrow> map_of al k = Some v \<Longrightarrow> P (k, v)"
  by (auto simp: list_all_iff dest: map_of_SomeD)

lemma flush_dir_below: "buffers_below n r \<Longrightarrow> buffers_below n (snd (flush_dir env pid conn dir r))"
  by (auto simp: buffers_below_def flush_dir_def Let_def intro: list_all_delete split: option.split)

lemma flush_dir_limit: "limit (snd (flush_dir env pid conn dir r)) = limit r"
  by (auto simp: flush_dir_def limit_def Let_def split: option.split)

lemma parse_loop_shrinks: "parse_loop pid conn dir b t = Returns (ms, r, u) \<Longrightarrow> length r \<le> length b"
proof (induction b arbitrary: t ms rule: length_induct)
  case (1 b)
  show ?case
  proof (cases "parse_one pid conn dir b False")
    case Panics
    with 1(2) show ?thesis by (subst (asm) parse_loop.simps) simp
  next
    case (Returns x)
    show ?thesis
    proof (cases "x = None \<or> snd (the x) = 0 \<or> length b < snd (the x)")
      case True
      with 1(2) Returns show ?thesis by (subst (asm) parse_loop.simps) (auto split: option.splits)
    next
      case False
      then obtain v where v: "x = Some v" "0 < snd v" "snd v \<le> length b" by auto
      with 1(2) Returns obtain ns where "parse_loop pid conn dir (drop (snd v) b) False = Returns (ns, r, u)"
        by (subst (asm) parse_loop.simps) (cases "parse_loop pid conn dir (drop (snd v) b) False", auto simp: run_map_def)
      moreover have "length (drop (snd v) b) < length b" using v by auto
      ultimately show ?thesis using 1(1) by fastforce
    qed
  qed
qed

text \<open>What \<open>Add\<close> does to the buffers: HTTP/2 hands its bytes over, HTTP/1.1 keeps at most what it had
plus the chunk, and only while it was below the limit.\<close>

lemma reassembler_add_below:
  assumes "reassembler_add env c r = Returns (ms, r')" "buffers_below (limit r + int n) r"
    and "length (ck_data c) \<le> n" "0 < limit r"
  shows "buffers_below (limit r + int n) r' \<and> limit r' = limit r"
proof (cases "length (ck_data c) = 0 \<and> \<not> ck_truncated c")
  case True
  with assms show ?thesis by (simp add: reassembler_add_def)
next
  case False
  define r1 where "r1 = (if ck_direction c = request then snd (flush_dir env (ck_pid c) (ck_conn c) response r) else r)"
  define fl where "fl = (if ck_direction c = request then fst (flush_dir env (ck_pid c) (ck_conn c) response r) else [])"
  have fr: "(if ck_direction c = request then flush_dir env (ck_pid c) (ck_conn c) response r else ([], r)) = (fl, r1)"
    by (simp add: fl_def r1_def)
  have below: "buffers_below (limit r + int n) r1" and lim: "limit r1 = limit r"
    using assms(2) by (simp_all add: r1_def flush_dir_below flush_dir_limit)
  let ?k = "(ck_pid c, ck_conn c, ck_direction c)"
  define s0 where "s0 = (case map_of (re_streams r1) ?k of None \<Rightarrow> new_tls_stream | Some s \<Rightarrow> s)"
  define s1 where "s1 = (if ck_truncated c then s0\<lparr>ts_truncated := True\<rparr> else s0)"
  have buf: "int (length (ts_buf s1)) < limit r + int n"
    using below list_all_map_of [of _ "re_streams r1" ?k] assms(4)
    by (auto simp: s1_def s0_def buffers_below_def new_tls_stream_def split: option.split)
  obtain h2 conns where det: "detect_h2 c s1 r1 = (h2, conns)" by force
  define r2 where "r2 = r1\<lparr>re_h2_conns := conns\<rparr>"
  have keep: "limit (r\<lparr>re_h2_conns := x\<rparr>) = limit r" "limit (r\<lparr>re_streams := y\<rparr>) = limit r" for r :: "'a reassembler" and x y
    by (simp_all add: limit_def)
  have r2: "limit r2 = limit r" "re_streams r2 = re_streams r1" using lim by (simp_all add: r2_def keep)
  have up: "buffers_below (limit r + int n) (r2\<lparr>re_streams := AList.update ?k s (re_streams r2)\<rparr>) \<and>
      limit (r2\<lparr>re_streams := AList.update ?k s (re_streams r2)\<rparr>) = limit r"
    if "int (length (ts_buf s)) < limit r + int n" for s
    using below that r2 by (auto simp: buffers_below_def keep intro: list_all_update)
  note def = assms(1) [unfolded reassembler_add_def Let_def fr prod.case, folded s0_def, folded s1_def,
      unfolded det prod.case, folded r2_def]
  show ?thesis
  proof (cases h2)
    case True
    then obtain s where "r' = r2\<lparr>re_streams := AList.update ?k s (re_streams r2)\<rparr>" "ts_buf s = []"
      using def False by (auto split: prod.splits)
    with up [of s] assms(4) show ?thesis by simp
  next
    case nh: False
    define s2 where "s2 = (if int (length (ts_buf s1)) < limit r2
      then s1\<lparr>ts_is_h2 := False, ts_buf := ts_buf s1 @ ck_data c\<rparr> else s1\<lparr>ts_is_h2 := False, ts_truncated := True\<rparr>)"
    have b2: "int (length (ts_buf s2)) < limit r + int n"
      using buf assms(3) r2(1) by (simp add: s2_def)
    from def False nh obtain out b t where
      "parse_loop (ck_pid c) (ck_conn c) (ck_direction c) (ts_buf s2) (ts_truncated s2) = Returns (out, b, t)"
      and r': "r' = r2\<lparr>re_streams := AList.update ?k (s2\<lparr>ts_buf := b, ts_truncated := t\<rparr>) (re_streams r2)\<rparr>"
      by (cases "parse_loop (ck_pid c) (ck_conn c) (ck_direction c) (ts_buf s2) (ts_truncated s2)")
        (auto simp: run_map_def s2_def split: if_splits)
    from parse_loop_shrinks [OF this(1)] up [of "s2\<lparr>ts_buf := b, ts_truncated := t\<rparr>"] b2 show ?thesis
      unfolding r' by simp
  qed
qed

lemma add_all_below:
  "add_all env cs r = Returns (ms, r') \<Longrightarrow> buffers_below (limit r + int n) r \<Longrightarrow>
     list_all (\<lambda>c. length (ck_data c) \<le> n) cs \<Longrightarrow> 0 < limit r \<Longrightarrow> buffers_below (limit r + int n) r'"
proof (induction cs arbitrary: r ms)
  case (Cons c cs)
  from Cons.prems(1) obtain xs r1 ys where
    1: "reassembler_add env c r = Returns (xs, r1)" and 2: "add_all env cs r1 = Returns (ys, r')"
    by (cases "reassembler_add env c r"; auto simp: run_map_def)
      (case_tac "add_all env cs b"; auto)
  from reassembler_add_below [OF 1 Cons.prems(2)] Cons.prems(3,4)
  have "buffers_below (limit r + int n) r1" "limit r1 = limit r" by simp_all
  with Cons.IH [OF 2] Cons.prems(3,4) show ?case by simp
qed simp

text \<open>C27: The HTTP/1.1 buffers are bounded: whatever the probe sends in chunks of at most \<open>n\<close> bytes, no
stream ever holds the limit of one MiB plus \<open>n\<close> bytes.\<close>

theorem reassembler_buffers_bounded:
  assumes "list_all (\<lambda>c. length (ck_data c) \<le> n) cs" "add_all env cs new_reassembler = Returns (ms, r)"
  shows "buffers_below (2 ^ 20 + int n) r"
  using add_all_below [OF assms(2), of n] assms(1)
  by (simp add: limit_def new_reassembler_def buffers_below_def default_max_bytes_def)

lemma reassembler_buffers_bounded_witness:
  "\<exists>ms r. add_all toy_env [request_chunk 1 2 ''P''] new_reassembler = Returns (ms, r) \<and> buffers_below (2 ^ 20 + 1) r"
proof -
  obtain ms r where a: "add_all toy_env [request_chunk 1 2 ''P''] new_reassembler = Returns (ms, r)"
    using add_P [of toy_env 1 2] by (simp add: run_map_def)
  have "list_all (\<lambda>c. length (ck_data c) \<le> 1) [request_chunk 1 2 ''P'']" by (simp add: request_chunk_def)
  from reassembler_buffers_bounded [OF this a] a show ?thesis by simp
qed

end
