(* ===== verification/FileDiff.thy ===== *)
theory FileDiff
  imports World
begin

text \<open>
  \<open>internal/provenance/diff.go\<close>: the diff and the blame of one file across the attempts of a run. Paths
  follow \<open>filepath.Clean\<close> and \<open>filepath.Join\<close> for Unix; \<open>fs\<close> is \<open>os.ReadFile\<close> and \<open>sha\<close> the hex SHA-256
  of the standard library. The lemmas show that the diff is made of the lines of both files and keeps as
  many common lines as possible, that diff and blame agree, and that no accepted path leaves its dir.
\<close>

section \<open>Paths\<close>

fun clean_parts :: "bool \<Rightarrow> string list \<Rightarrow> string list \<Rightarrow> string list" where
  "clean_parts rooted acc [] = rev acc"
| "clean_parts rooted acc (c # cs) =
     (if c = [] \<or> c = ''.'' then clean_parts rooted acc cs
      else if c = ''..'' then
        (case acc of
           [] \<Rightarrow> clean_parts rooted (if rooted then [] else [c]) cs
         | a # as \<Rightarrow> clean_parts rooted (if a = ''..'' then c # acc else as) cs)
      else clean_parts rooted (c # acc) cs)"

definition clean_path :: "string \<Rightarrow> string" where
  "clean_path s =
     (let rooted = has_prefix s ''/''; parts = clean_parts rooted [] (split_char CHR ''/'' s) in
      if rooted then CHR ''/'' # join ''/'' parts else if parts = [] then ''.'' else join ''/'' parts)"

definition join_path :: "string list \<Rightarrow> string" where
  "join_path es = (let es = filter (\<lambda>e. e \<noteq> []) es in if es = [] then [] else clean_path (join ''/'' es))"

definition clean_relative_file :: "string \<Rightarrow> go_error + string" where
  "clean_relative_file v =
     (if trim_space v = [] then Inl (Errorf ''--file is required'')
      else if has_prefix v ''/'' then Inl (Errorf ''--file must be workspace-relative'')
      else
        let c = clean_path v in
        if c = ''.'' \<or> c = ''..'' \<or> has_prefix c ''../'' then Inl (Errorf ''--file escapes workspace'') else Inr c)"

section \<open>Reading\<close>

datatype file_read = Content bytes | Missing | Unreadable

definition read_relative_file :: "(string \<Rightarrow> file_read) \<Rightarrow> string \<Rightarrow> string \<Rightarrow> go_error + bytes option" where
  "read_relative_file fs dir rel =
     (case fs (join_path [dir, rel]) of
        Content c \<Rightarrow> Inr (Some c) | Missing \<Rightarrow> Inr None | Unreadable \<Rightarrow> Inl (Errorf ''read''))"

definition hash_or_missing :: "(bytes \<Rightarrow> string) \<Rightarrow> bytes option \<Rightarrow> string" where
  "hash_or_missing sha c = (case c of None \<Rightarrow> ''missing'' | Some c \<Rightarrow> sha c)"

definition file_changed :: "(bytes \<Rightarrow> string) \<Rightarrow> bytes option \<Rightarrow> bytes option \<Rightarrow> bool" where
  "file_changed sha base att =
     (if base = None \<and> att = None then False
      else if (base = None) \<noteq> (att = None) then True
      else sha (the base) \<noteq> sha (the att))"

definition base_snapshot_for_run :: "db \<Rightarrow> string \<Rightarrow> go_error + (string \<times> string)" where
  "base_snapshot_for_run d run =
     (if trim_space run = [] then Inl (Errorf ''--run is required'')
      else
        (case first_max (\<lambda>(r, s). ro_created_at r)
           (concat (map (\<lambda>r. map (\<lambda>s. (r, s)) (filter (\<lambda>s. ro_base_snapshot_id r = sn_id s) (db_snapshots d)))
             (filter (\<lambda>r. ro_run_id r = run) (db_rollouts d)))) of
           None \<Rightarrow> Inl NoRows
         | Some (r, s) \<Rightarrow> Inr (sn_id s, sn_path s)))"

record attempt_file_view =
  av_attempt_id :: string
  av_rollout_id :: string
  av_tool_call_id :: string
  av_snapshot_id :: string
  av_workspace_path :: string
  av_strategy :: string
  av_command :: string
  av_status :: string
  av_is_winner :: bool
  av_artifact_ref :: string

definition attempt_view :: "fork_attempt \<Rightarrow> attempt_file_view" where
  "attempt_view a = \<lparr>av_attempt_id = fa_id a, av_rollout_id = fa_rollout_id a, av_tool_call_id = fa_tool_call_id a,
     av_snapshot_id = fa_snapshot_id a, av_workspace_path = fa_workspace_path a, av_strategy = fa_strategy a,
     av_command = fa_command a, av_status = fa_status a, av_is_winner = (fa_is_winner a \<noteq> 0),
     av_artifact_ref = fa_artifact_result a\<rparr>"

definition attempts_for_run :: "db \<Rightarrow> string \<Rightarrow> attempt_file_view list" where
  "attempts_for_run d run =
     map attempt_view (order_asc fa_created_at
       (concat (map (\<lambda>a. map (\<lambda>r. a) (filter (\<lambda>r. fa_rollout_id a = ro_id r \<and> ro_run_id r = run) (db_rollouts d)))
         (db_fork_attempts d))))"

section \<open>The diff of two files\<close>

definition split_lines :: "bytes \<Rightarrow> string list" where
  "split_lines c =
     (let text = trim_suffix (replace_all [CHR 0x0D, CHR 0x0A] [CHR 0x0A] c) [CHR 0x0A] in
      if text = [] then [] else split_char CHR 0x0A text)"

definition prefix_lines :: "string \<Rightarrow> string list \<Rightarrow> string list" where
  "prefix_lines p ls = map (\<lambda>l. p @ l) ls"

text \<open>\<open>table\<close>, filled from the last row and column: \<open>fill_row x bs below\<close> is the row of the line \<open>x\<close>.\<close>

fun fill_row :: "string \<Rightarrow> string list \<Rightarrow> nat list \<Rightarrow> nat list" where
  "fill_row x (b # bs) (n # ns) =
     (let r = fill_row x bs ns in (if x = b then hd ns + 1 else if n \<ge> hd r then n else hd r) # r)"
| "fill_row x bs ns = [0]"

fun diff_table :: "string list \<Rightarrow> string list \<Rightarrow> nat list list" where
  "diff_table [] b = [replicate (Suc (length b)) 0]"
| "diff_table (x # a) b = (let t = diff_table a b in fill_row x b (hd t) # t)"

function diff_walk :: "nat list list \<Rightarrow> string list \<Rightarrow> string list \<Rightarrow> nat \<Rightarrow> nat \<Rightarrow> string list" where
  "diff_walk t a b i j =
     (if i < length a \<and> j < length b then
        (if a ! i = b ! j then ('' '' @ a ! i) # diff_walk t a b (i + 1) (j + 1)
         else if t ! (i + 1) ! j \<ge> t ! i ! (j + 1) then (''-'' @ a ! i) # diff_walk t a b (i + 1) j
         else (''+'' @ b ! j) # diff_walk t a b i (j + 1))
      else prefix_lines ''-'' (drop i a) @ prefix_lines ''+'' (drop j b))"
  by pat_completeness auto
termination
  by (relation "measure (\<lambda>(t, a, b, i, j). (length a - i) + (length b - j))") auto

declare diff_walk.simps [simp del]

definition unified_lines :: "bytes option \<Rightarrow> bytes option \<Rightarrow> string list" where
  "unified_lines base att =
     (case base of
        None \<Rightarrow> prefix_lines ''+'' (split_lines (case att of None \<Rightarrow> [] | Some c \<Rightarrow> c))
      | Some base \<Rightarrow>
          (case att of
             None \<Rightarrow> prefix_lines ''-'' (split_lines base)
           | Some att \<Rightarrow> let a = split_lines base; b = split_lines att in diff_walk (diff_table a b) a b 0 0))"

section \<open>The manifests\<close>

record file_diff_attempt =
  fd_view :: attempt_file_view
  fd_changed :: bool
  fd_file_exists :: bool
  fd_file_sha256 :: string
  fd_unified_diff :: "string list"

record file_diff_manifest =
  fm_schema_version :: string
  fm_run_id :: string
  fm_file :: string
  fm_base_snapshot_id :: string
  fm_base_path :: string
  fm_base_exists :: bool
  fm_base_sha256 :: string
  fm_attempts :: "file_diff_attempt list"

definition diff_attempt ::
  "(string \<Rightarrow> file_read) \<Rightarrow> (bytes \<Rightarrow> string) \<Rightarrow> string \<Rightarrow> bytes option \<Rightarrow> attempt_file_view \<Rightarrow> go_error + file_diff_attempt" where
  "diff_attempt fs sha path base v =
     res_bind (read_relative_file fs (av_workspace_path v) path) (\<lambda>c.
       let changed = file_changed sha base c in
       Inr \<lparr>fd_view = v, fd_changed = changed, fd_file_exists = (c \<noteq> None), fd_file_sha256 = hash_or_missing sha c,
         fd_unified_diff = (if changed then unified_lines base c else [])\<rparr>)"

definition build_diff_file ::
  "(string \<Rightarrow> file_read) \<Rightarrow> (bytes \<Rightarrow> string) \<Rightarrow> db \<Rightarrow> string \<Rightarrow> string \<Rightarrow> go_error + file_diff_manifest" where
  "build_diff_file fs sha d run file =
     res_bind (clean_relative_file file) (\<lambda>path.
     res_bind (base_snapshot_for_run d run) (\<lambda>(snap, dir).
     res_bind (read_relative_file fs dir path) (\<lambda>base.
     res_bind (res_map (diff_attempt fs sha path base) (attempts_for_run d run)) (\<lambda>as.
       Inr \<lparr>fm_schema_version = ''agentprovenance.diff/v1'', fm_run_id = run, fm_file = path,
         fm_base_snapshot_id = snap, fm_base_path = join_path [dir, path], fm_base_exists = (base \<noteq> None),
         fm_base_sha256 = hash_or_missing sha base, fm_attempts = as\<rparr>))))"

record file_blame_entry =
  fb_file :: string
  fb_view :: attempt_file_view
  fb_changed :: bool
  fb_reason :: string
  fb_sha256 :: string

record file_blame_manifest =
  bm_schema_version :: string
  bm_run_id :: string
  bm_file :: string
  bm_base_snapshot_id :: string
  bm_base_sha256 :: string
  bm_entries :: "file_blame_entry list"

definition blame_entry ::
  "(string \<Rightarrow> file_read) \<Rightarrow> (bytes \<Rightarrow> string) \<Rightarrow> string \<Rightarrow> bytes option \<Rightarrow> attempt_file_view \<Rightarrow> go_error + file_blame_entry" where
  "blame_entry fs sha path base v =
     res_bind (read_relative_file fs (av_workspace_path v) path) (\<lambda>c.
       let h = hash_or_missing sha c; changed = (h \<noteq> hash_or_missing sha base) in
       Inr \<lparr>fb_file = path, fb_view = v, fb_changed = changed,
         fb_reason = (if base = None \<and> c \<noteq> None then ''created_by_attempt''
           else if base \<noteq> None \<and> c = None then ''deleted_by_attempt''
           else if changed then ''modified_by_attempt'' else ''unchanged_from_base''),
         fb_sha256 = h\<rparr>)"

definition build_blame_file ::
  "(string \<Rightarrow> file_read) \<Rightarrow> (bytes \<Rightarrow> string) \<Rightarrow> db \<Rightarrow> string \<Rightarrow> string \<Rightarrow> go_error + file_blame_manifest" where
  "build_blame_file fs sha d run file =
     res_bind (clean_relative_file file) (\<lambda>path.
     res_bind (base_snapshot_for_run d run) (\<lambda>(snap, dir).
     res_bind (read_relative_file fs dir path) (\<lambda>base.
     res_bind (res_map (blame_entry fs sha path base) (attempts_for_run d run)) (\<lambda>es.
       Inr \<lparr>bm_schema_version = ''agentprovenance.blame/v1'', bm_run_id = run, bm_file = path,
         bm_base_snapshot_id = snap, bm_base_sha256 = hash_or_missing sha base, bm_entries = es\<rparr>))))"

section \<open>Longest common subsequences\<close>

fun lcs :: "'a list \<Rightarrow> 'a list \<Rightarrow> nat" where
  "lcs [] ys = 0"
| "lcs xs [] = 0"
| "lcs (x # xs) (y # ys) = (if x = y then Suc (lcs xs ys) else max (lcs xs (y # ys)) (lcs (x # xs) ys))"

lemma lcs_Nil2 [simp]: "lcs xs [] = 0"
  by (cases xs) auto

lemma lcs_maximal: "subseq zs xs \<Longrightarrow> subseq zs ys \<Longrightarrow> length zs \<le> lcs xs ys"
proof (induction xs ys arbitrary: zs rule: lcs.induct)
  case (3 x xs y ys)
  show ?case
  proof (cases "x = y")
    case True
    show ?thesis
    proof (cases zs)
      case (Cons z ws)
      have "subseq ws xs" "subseq ws ys"
        using 3(4,5) Cons by (metis subseq_Cons' subseq_Cons2_iff)+
      with 3(1) True Cons show ?thesis by simp
    qed simp
  next
    case False
    show ?thesis
    proof (cases zs)
      case (Cons z ws)
      consider "z \<noteq> x" | "z \<noteq> y" using False by auto
      then show ?thesis
      proof cases
        case 1
        then have "subseq zs xs" using 3(4) Cons by simp
        with 3(2) False 3(5) have "length zs \<le> lcs xs (y # ys)" by blast
        with False show ?thesis by simp
      next
        case 2
        then have "subseq zs ys" using 3(5) Cons by simp
        with 3(3) False 3(4) have "length zs \<le> lcs (x # xs) ys" by blast
        with False show ?thesis by simp
      qed
    qed simp
  qed
qed simp_all

lemma fill_row_lcs:
  "fill_row x bs (map (\<lambda>j. lcs a (drop j bs)) [0..<Suc (length bs)]) =
     map (\<lambda>j. lcs (x # a) (drop j bs)) [0..<Suc (length bs)]"
proof (induction bs)
  case (Cons b bs)
  have s: "map (\<lambda>j. f (drop j (b # bs))) [0..<Suc (length (b # bs))] =
      f (b # bs) # map (\<lambda>j. f (drop j bs)) [0..<Suc (length bs)]" for f :: "string list \<Rightarrow> nat"
    by (simp only: length_Cons upt_conv_Cons zero_less_Suc list.map drop_0)
      (simp add: map_Suc_upt [symmetric] del: upt_Suc)
  have h: "hd (map (\<lambda>j. f (drop j bs)) [0..<Suc (length bs)]) = f bs" for f :: "string list \<Rightarrow> nat"
    by (simp add: upt_conv_Cons del: upt_Suc)
  show ?case unfolding s fill_row.simps Let_def Cons.IH h by (auto simp: max_def)
qed simp

lemma diff_table_lcs:
  "diff_table a b = map (\<lambda>i. map (\<lambda>j. lcs (drop i a) (drop j b)) [0..<Suc (length b)]) [0..<Suc (length a)]"
proof (induction a)
  case Nil
  then show ?case by (simp add: map_replicate_const del: upt_Suc)
next
  case (Cons x a)
  have s: "map (\<lambda>i. f (drop i (x # a))) [0..<Suc (length (x # a))] =
      f (x # a) # map (\<lambda>i. f (drop i a)) [0..<Suc (length a)]" for f :: "string list \<Rightarrow> nat list"
    by (simp only: length_Cons upt_conv_Cons zero_less_Suc list.map drop_0)
      (simp add: map_Suc_upt [symmetric] del: upt_Suc)
  have h: "hd (map (\<lambda>i. f (drop i a)) [0..<Suc (length a)]) = f a" for f :: "string list \<Rightarrow> nat list"
    by (simp add: upt_conv_Cons del: upt_Suc)
  let ?f = "\<lambda>xs. map (\<lambda>j. lcs xs (drop j b)) [0..<Suc (length b)]"
  show ?case unfolding s [of ?f] diff_table.simps Let_def Cons h [of ?f] fill_row_lcs ..
qed

lemma diff_table_nth: "i \<le> length a \<Longrightarrow> j \<le> length b \<Longrightarrow> diff_table a b ! i ! j = lcs (drop i a) (drop j b)"
  by (simp add: diff_table_lcs del: upt_Suc)

section \<open>What a diff shows\<close>

definition marked :: "char list \<Rightarrow> string list \<Rightarrow> string list" where
  "marked ms ls = map tl (filter (\<lambda>l. l \<noteq> [] \<and> hd l \<in> set ms) ls)"

lemma marked_simps [simp]:
  "marked ms [] = []" "marked ms ((c # l) # ls) = (if c \<in> set ms then l # marked ms ls else marked ms ls)"
  "marked ms (xs @ ys) = marked ms xs @ marked ms ys"
  by (simp_all add: marked_def)

lemma marked_prefix_lines: "marked ms (prefix_lines [c] ls) = (if c \<in> set ms then ls else [])"
  by (induction ls) (simp_all add: prefix_lines_def)

lemma diff_walk_steps:
  "\<not> (i < length a \<and> j < length b) \<Longrightarrow>
     diff_walk t a b i j = prefix_lines ''-'' (drop i a) @ prefix_lines ''+'' (drop j b)"
  "i < length a \<Longrightarrow> j < length b \<Longrightarrow> a ! i = b ! j \<Longrightarrow>
     diff_walk t a b i j = ('' '' @ a ! i) # diff_walk t a b (i + 1) (j + 1)"
  "i < length a \<Longrightarrow> j < length b \<Longrightarrow> a ! i \<noteq> b ! j \<Longrightarrow> t ! (i + 1) ! j \<ge> t ! i ! (j + 1) \<Longrightarrow>
     diff_walk t a b i j = (''-'' @ a ! i) # diff_walk t a b (i + 1) j"
  "i < length a \<Longrightarrow> j < length b \<Longrightarrow> a ! i \<noteq> b ! j \<Longrightarrow> \<not> t ! (i + 1) ! j \<ge> t ! i ! (j + 1) \<Longrightarrow>
     diff_walk t a b i j = (''+'' @ b ! j) # diff_walk t a b i (j + 1)"
  by (subst diff_walk.simps, auto)+

lemma diff_walk_lines:
  "i \<le> length a \<Longrightarrow> j \<le> length b \<Longrightarrow>
     marked '' -'' (diff_walk t a b i j) = drop i a \<and> marked '' +'' (diff_walk t a b i j) = drop j b"
proof (induction t a b i j rule: diff_walk.induct)
  case (1 t a b i j)
  show ?case
  proof (cases "i < length a \<and> j < length b")
    case False
    then show ?thesis by (simp add: diff_walk_steps(1) marked_prefix_lines)
  next
    case True
    then have l: "i < length a" "j < length b" by simp_all
    then have d: "drop i a = a ! i # drop (i + 1) a" "drop j b = b ! j # drop (j + 1) b"
      using Cons_nth_drop_Suc [of i a] Cons_nth_drop_Suc [of j b] by simp_all
    consider "a ! i = b ! j" | "a ! i \<noteq> b ! j" "t ! (i + 1) ! j \<ge> t ! i ! (j + 1)"
      | "a ! i \<noteq> b ! j" "\<not> t ! (i + 1) ! j \<ge> t ! i ! (j + 1)" by blast
    then show ?thesis
    proof cases
      case 1
      with "1.IH"(1) True l d show ?thesis by (simp add: diff_walk_steps(2))
    next
      case 2
      with "1.IH"(2) True l d show ?thesis by (simp add: diff_walk_steps(3))
    next
      case 3
      with "1.IH"(3) True l d show ?thesis by (simp add: diff_walk_steps(4))
    qed
  qed
qed

lemma lcs_step:
  assumes "i < length a" "j < length b"
  shows "a ! i = b ! j \<Longrightarrow> lcs (drop i a) (drop j b) = Suc (lcs (drop (i + 1) a) (drop (j + 1) b))"
    "a ! i \<noteq> b ! j \<Longrightarrow> lcs (drop i a) (drop j b) = max (lcs (drop (i + 1) a) (drop j b)) (lcs (drop i a) (drop (j + 1) b))"
  using Cons_nth_drop_Suc [OF assms(1)] Cons_nth_drop_Suc [OF assms(2)] lcs.simps(3) by (metis Suc_eq_plus1)+

lemma diff_walk_optimal:
  "t = diff_table a b \<Longrightarrow> i \<le> length a \<Longrightarrow> j \<le> length b \<Longrightarrow>
     length (marked '' '' (diff_walk t a b i j)) = lcs (drop i a) (drop j b)"
proof (induction t a b i j rule: diff_walk.induct)
  case (1 t a b i j)
  show ?case
  proof (cases "i < length a \<and> j < length b")
    case False
    with 1(5,6) have "drop i a = [] \<or> drop j b = []" by auto
    with False show ?thesis by (auto simp: diff_walk_steps(1) marked_prefix_lines)
  next
    case True
    note step = lcs_step [of i a j b]
    have t: "t ! (i + 1) ! j = lcs (drop (i + 1) a) (drop j b)" "t ! i ! (j + 1) = lcs (drop i a) (drop (j + 1) b)"
      using True 1(4) diff_table_nth [of "i + 1" a j b] diff_table_nth [of i a "j + 1" b] by simp_all
    show ?thesis
    proof (cases "a ! i = b ! j")
      case eq: True
      with 1(1,4) True step(1) show ?thesis by (simp add: diff_walk_steps(2))
    next
      case ne: False
      show ?thesis
      proof (cases "t ! (i + 1) ! j \<ge> t ! i ! (j + 1)")
        case ge: True
        have "length (marked '' '' (diff_walk t a b (i + 1) j)) = lcs (drop (i + 1) a) (drop j b)"
          using 1(2) [OF True ne ge 1(4)] True by simp
        then show ?thesis using True ne ge step(2) t by (simp add: diff_walk_steps(3))
      next
        case lt: False
        have "length (marked '' '' (diff_walk t a b i (j + 1))) = lcs (drop i a) (drop (j + 1) b)"
          using 1(3) [OF True ne lt 1(4)] True by simp
        then show ?thesis using True ne lt step(2) t by (simp add: diff_walk_steps(4))
      qed
    qed
  qed
qed

definition lines_of :: "bytes option \<Rightarrow> string list" where
  "lines_of c = (case c of None \<Rightarrow> [] | Some c \<Rightarrow> split_lines c)"

lemma split_lines_Nil: "split_lines [] = []"
  by (simp add: split_lines_def replace_all.simps has_prefix_def trim_suffix_def has_suffix_def)

text \<open>C15: The unified diff is right and minimal. Its context and minus lines are the lines of the base,
its context and plus lines those of the attempt, in order; and no common subsequence of the two files is
longer than the context it keeps, so no diff marks fewer lines. A missing file counts as no lines.\<close>

theorem unified_lines_minimal:
  "marked '' -'' (unified_lines base att) = lines_of base \<and>
   marked '' +'' (unified_lines base att) = lines_of att \<and>
   (subseq zs (lines_of base) \<and> subseq zs (lines_of att) \<longrightarrow> length zs \<le> length (marked '' '' (unified_lines base att)))"
proof (cases base)
  case None
  then show ?thesis
    by (cases att) (auto simp: unified_lines_def lines_of_def marked_prefix_lines split_lines_Nil)
next
  case (Some b)
  show ?thesis
  proof (cases att)
    case None
    with Some show ?thesis by (auto simp: unified_lines_def lines_of_def marked_prefix_lines)
  next
    case (Some c)
    let ?a = "split_lines b" and ?b = "split_lines c"
    have u: "unified_lines base att = diff_walk (diff_table ?a ?b) ?a ?b 0 0"
      using Some \<open>base = Some b\<close> by (simp add: unified_lines_def Let_def)
    have "length (marked '' '' (unified_lines base att)) = lcs ?a ?b"
      using diff_walk_optimal [of _ ?a ?b 0 0] u by simp
    with lcs_maximal [of zs ?a ?b] diff_walk_lines [of 0 ?a 0 ?b] u Some \<open>base = Some b\<close> show ?thesis
      by (simp add: lines_of_def)
  qed
qed

lemma unified_lines_minimal_witness:
  "length [''b''] \<le> length (marked '' '' (unified_lines (Some ''b'') (Some ''b'')))"
proof -
  have "split_lines ''b'' = [''b'']"
    by (simp add: split_lines_def replace_all.simps has_prefix_def trim_suffix_def has_suffix_def)
  then show ?thesis using unified_lines_minimal [of "Some ''b''" "Some ''b''" "[''b'']"] by (simp add: lines_of_def)
qed

section \<open>Diff and blame\<close>

definition agrees :: "file_diff_attempt \<Rightarrow> file_blame_entry \<Rightarrow> bool" where
  "agrees a b \<longleftrightarrow> fb_view b = fd_view a \<and> fb_changed b = fd_changed a \<and> fb_sha256 b = fd_file_sha256 a \<and>
     (fb_reason b = ''unchanged_from_base'') = (\<not> fd_changed a)"

definition same_verdicts :: "(go_error + file_diff_manifest) \<Rightarrow> (go_error + file_blame_manifest) \<Rightarrow> bool" where
  "same_verdicts x y =
     (case (x, y) of
        (Inl e, Inl e') \<Rightarrow> e = e'
      | (Inr m, Inr m') \<Rightarrow> fm_base_sha256 m = bm_base_sha256 m' \<and> list_all2 agrees (fm_attempts m) (bm_entries m')
      | _ \<Rightarrow> False)"

lemma attempt_agrees:
  assumes "\<And>c. sha c \<noteq> ''missing''"
  shows "(\<exists>e. diff_attempt fs sha path base v = Inl e \<and> blame_entry fs sha path base v = Inl e) \<or>
    (\<exists>a b. diff_attempt fs sha path base v = Inr a \<and> blame_entry fs sha path base v = Inr b \<and> agrees a b)"
proof (cases "read_relative_file fs (av_workspace_path v) path")
  case (Inl e)
  then show ?thesis by (simp add: diff_attempt_def blame_entry_def)
next
  case (Inr c)
  have "hash_or_missing sha c \<noteq> hash_or_missing sha base \<longleftrightarrow> file_changed sha base c"
    using assms [of "the c"] assms [of "the base"]
    by (cases c; cases base) (auto simp: hash_or_missing_def file_changed_def)
  moreover have "base = None \<longleftrightarrow> c \<noteq> None \<Longrightarrow> file_changed sha base c"
    by (cases c; cases base) (auto simp: file_changed_def)
  ultimately show ?thesis
    using Inr by (auto simp: diff_attempt_def blame_entry_def agrees_def Let_def)
qed

lemma attempts_agree:
  assumes "\<And>c. sha c \<noteq> ''missing''"
  shows "(\<exists>e. res_map (diff_attempt fs sha path base) vs = Inl e \<and> res_map (blame_entry fs sha path base) vs = Inl e) \<or>
    (\<exists>as bs. res_map (diff_attempt fs sha path base) vs = Inr as \<and> res_map (blame_entry fs sha path base) vs = Inr bs \<and>
       list_all2 agrees as bs)"
proof (induction vs)
  case (Cons v vs)
  from attempt_agrees [of sha fs path base v, OF assms] Cons show ?case by auto
qed simp

text \<open>C28: \<open>graph diff\<close> and \<open>graph blame\<close> agree. When no file hashes to the word used for a missing one,
both fail on the same input, and otherwise list the same attempts with the same hashes and the same verdict
on whether the file changed; blame calls an attempt unchanged exactly when diff shows no change.\<close>

theorem diff_blame_agree:
  assumes "\<And>c. sha c \<noteq> ''missing''"
  shows "same_verdicts (build_diff_file fs sha d run file) (build_blame_file fs sha d run file)"
proof (cases "clean_relative_file file")
  case (Inl e)
  then show ?thesis by (simp add: build_diff_file_def build_blame_file_def same_verdicts_def)
next
  case (Inr path)
  show ?thesis
  proof (cases "base_snapshot_for_run d run")
    case (Inl e)
    with Inr show ?thesis by (simp add: build_diff_file_def build_blame_file_def same_verdicts_def)
  next
    case (Inr sr)
    obtain snap dir where sr: "sr = (snap, dir)" by force
    show ?thesis
    proof (cases "read_relative_file fs dir path")
      case (Inl e)
      with Inr sr \<open>clean_relative_file file = Inr path\<close> show ?thesis
        by (simp add: build_diff_file_def build_blame_file_def same_verdicts_def)
    next
      case b: (Inr base)
      from attempts_agree [of sha fs path base "attempts_for_run d run", OF assms] Inr sr b \<open>clean_relative_file file = Inr path\<close>
      show ?thesis by (auto simp: build_diff_file_def build_blame_file_def same_verdicts_def)
    qed
  qed
qed

lemma diff_blame_agree_witness:
  "same_verdicts (build_diff_file (\<lambda>_. Missing) (\<lambda>c. ''h'' @ c) empty_db ''run-1'' ''a.py'')
     (build_blame_file (\<lambda>_. Missing) (\<lambda>c. ''h'' @ c) empty_db ''run-1'' ''a.py'')"
  by (rule diff_blame_agree) simp

section \<open>Confinement\<close>

definition plain_part :: "string \<Rightarrow> bool" where
  "plain_part c \<longleftrightarrow> c \<noteq> [] \<and> c \<noteq> ''.'' \<and> c \<noteq> ''..'' \<and> CHR ''/'' \<notin> set c"

text \<open>The result of \<open>clean_parts\<close> for a relative path: some parent steps, then plain parts.\<close>

definition climbs :: "string list \<Rightarrow> bool" where
  "climbs ps \<longleftrightarrow> (\<exists>n qs. ps = replicate n ''..'' @ qs \<and> list_all plain_part qs)"

lemma climbs_snoc: "climbs ps \<Longrightarrow> plain_part c \<Longrightarrow> climbs (ps @ [c])"
proof -
  assume "climbs ps" and c: "plain_part c"
  then obtain n qs where "ps = replicate n ''..'' @ qs" "list_all plain_part qs" by (auto simp: climbs_def)
  with c show ?thesis unfolding climbs_def by (intro exI [of _ n] exI [of _ "qs @ [c]"]) simp
qed

lemma climbs_up: "climbs (ps @ [a]) \<Longrightarrow> a = ''..'' \<Longrightarrow> climbs (ps @ [a, ''..''])"
proof -
  assume "climbs (ps @ [a])" and a: "a = ''..''"
  then obtain n qs where q: "ps @ [a] = replicate n ''..'' @ qs" "list_all plain_part qs" by (auto simp: climbs_def)
  have "qs = []"
  proof (cases qs rule: rev_cases)
    case (snoc qs' c)
    then have "c = a" using q(1) by simp
    with snoc q(2) a show ?thesis by (simp add: plain_part_def)
  qed simp
  with q a have "ps @ [a, ''..''] = replicate n ''..'' @ [''..'']" by (metis append.assoc append_Cons append_Nil append_Nil2)
  then have "ps @ [a, ''..''] = replicate (Suc n) ''..'' @ []" by (simp add: replicate_append_same)
  then show ?thesis unfolding climbs_def by (intro exI [of _ "Suc n"] exI [of _ "[]"]) simp
qed

lemma climbs_pop: "climbs (ps @ [a]) \<Longrightarrow> a \<noteq> ''..'' \<Longrightarrow> climbs ps"
proof -
  assume "climbs (ps @ [a])" and a: "a \<noteq> ''..''"
  then obtain n qs where q: "ps @ [a] = replicate n ''..'' @ qs" "list_all plain_part qs" by (auto simp: climbs_def)
  show ?thesis
  proof (cases qs rule: rev_cases)
    case Nil
    with q have "a \<in> set (replicate n ''..'')" by (metis append_Nil2 in_set_conv_decomp)
    with a show ?thesis by simp
  next
    case (snoc qs' c)
    with q have "ps = replicate n ''..'' @ qs'" "list_all plain_part qs'" by simp_all
    then show ?thesis unfolding climbs_def by blast
  qed
qed

lemma clean_parts_climbs:
  "climbs (rev acc) \<Longrightarrow> list_all (\<lambda>c. CHR ''/'' \<notin> set c) cs \<Longrightarrow> climbs (clean_parts False acc cs)"
proof (induction cs arbitrary: acc)
  case (Cons c cs)
  show ?case
  proof (cases "c = [] \<or> c = ''.''")
    case True
    with Cons show ?thesis by simp
  next
    case False
    show ?thesis
    proof (cases "c = ''..''")
      case up: True
      show ?thesis
      proof (cases acc)
        case Nil
        have "climbs [''..'']" unfolding climbs_def by (rule exI [of _ 1]) simp
        with Cons up Nil show ?thesis by simp
      next
        case acc: (Cons a as)
        with Cons up False climbs_up [of "rev as" a] climbs_pop [of "rev as" a] show ?thesis by auto
      qed
    next
      case down: False
      with False Cons.prems(2) have "plain_part c" by (simp add: plain_part_def)
      with Cons False down climbs_snoc [of "rev acc" c] show ?thesis by simp
    qed
  qed
qed simp

lemma join_prefix: "has_prefix (join s (p # ps)) p \<and> (ps \<noteq> [] \<longrightarrow> has_prefix (join s (p # ps)) (p @ s))"
  by (cases ps) (auto simp: has_prefix_iff)

lemma clean_relative_parts:
  assumes "clean_relative_file v = Inr p"
  shows "\<exists>ps. ps \<noteq> [] \<and> list_all plain_part ps \<and> p = join ''/'' ps"
proof -
  define ps where "ps = clean_parts False [] (split_char CHR ''/'' v)"
  have rel: "\<not> has_prefix v ''/''" and p: "p = clean_path v" and ok: "p \<noteq> ''.''" "p \<noteq> ''..''" "\<not> has_prefix p ''../''"
    using assms by (auto simp: clean_relative_file_def Let_def split: if_splits)
  have pv: "p = (if ps = [] then ''.'' else join ''/'' ps)"
    using rel by (simp add: p clean_path_def ps_def Let_def)
  then have ne: "ps \<noteq> []" and j: "p = join ''/'' ps" using ok by auto
  have "list_all (\<lambda>c. CHR ''/'' \<notin> set c) (split_char CHR ''/'' v)"
    using split_char_no_sep [of _ "CHR ''/''" v] by (auto simp: list_all_iff)
  moreover have "climbs []" unfolding climbs_def by (rule exI [of _ 0]) simp
  ultimately have "climbs ps" unfolding ps_def by (intro clean_parts_climbs) simp_all
  then obtain n qs where q: "ps = replicate n ''..'' @ qs" "list_all plain_part qs" by (auto simp: climbs_def)
  have "n = 0"
  proof (cases n)
    case (Suc m)
    with q have "ps = ''..'' # replicate m ''..'' @ qs" by simp
    with join_prefix [of "''/''" "''..''" "replicate m ''..'' @ qs"] ok j show ?thesis
      by (cases "replicate m ''..'' @ qs = []") auto
  qed simp
  with q ne j show ?thesis by auto
qed

lemma clean_parts_plain:
  "list_all plain_part cs \<Longrightarrow> clean_parts rooted acc cs = rev acc @ cs"
  by (induction cs arbitrary: acc) (auto simp: plain_part_def)

lemma split_join_plain: "ps \<noteq> [] \<Longrightarrow> list_all plain_part ps \<Longrightarrow> split_char CHR ''/'' (join ''/'' ps) = ps"
  by (rule split_char_join) (auto simp: list_all_iff plain_part_def)

lemma join_append: "xs \<noteq> [] \<Longrightarrow> ys \<noteq> [] \<Longrightarrow> join s (xs @ ys) = join s xs @ s @ join s ys"
proof (induction xs rule: induct_list012)
  case (2 x)
  then show ?case by (cases ys) auto
qed auto

text \<open>C16: No accepted file path leaves the workspace. Whatever \<open>--file\<close> says, the path that is read
below a workspace directory is that directory followed by the accepted path, and the accepted path has no
empty, dot or parent part, so lexically every access stays below the directory.\<close>

theorem relative_file_confined:
  assumes "clean_relative_file v = Inr p" "parts \<noteq> []" "list_all plain_part parts"
    and "dir = CHR ''/'' # join ''/'' parts"
  shows "list_all plain_part (split_char CHR ''/'' p) \<and> join_path [dir, p] = dir @ ''/'' @ p"
proof -
  from clean_relative_parts [OF assms(1)] obtain ps where
    ps: "ps \<noteq> []" "list_all plain_part ps" "p = join ''/'' ps" by blast
  have "p \<noteq> []"
    using ps join_prefix [of "''/''" "hd ps" "tl ps"] by (cases ps) (auto simp: plain_part_def has_prefix_iff)
  then have jp: "join_path [dir, p] = clean_path (CHR ''/'' # join ''/'' (parts @ ps))"
    using assms(2,4) ps by (simp add: join_path_def join_append)
  have sp: "split_char CHR ''/'' (join ''/'' (parts @ ps)) = parts @ ps"
    using split_join_plain [of "parts @ ps"] ps assms(2,3) by simp
  have "clean_path (CHR ''/'' # join ''/'' (parts @ ps)) = CHR ''/'' # join ''/'' (parts @ ps)"
    using ps(2) assms(3) by (simp add: clean_path_def sp has_prefix_def clean_parts_plain)
  with jp assms(2,4) ps show ?thesis by (simp add: join_append split_join_plain)
qed

lemma relative_file_confined_witness:
  "join_path [''/ws'', ''b/c''] = ''/ws/b/c''"
proof -
  have "clean_relative_file ''a/../b//./c'' = Inr ''b/c''"
    by (simp add: clean_relative_file_def clean_path_def has_prefix_def trim_space_def trim_left_def trim_right_def
        is_space_def Let_def)
  from relative_file_confined [OF this, of "[''ws'']" "''/ws''"] show ?thesis by (simp add: plain_part_def)
qed

end
