(* ===== verification/Redact.thy ===== *)
theory Redact
  imports GoPrelude
begin

text \<open>
  \<open>internal/redact/redact.go\<close>: masking of secrets before evidence is stored. A regular expression is
  the function that gives the length of its leftmost-first match at the start of a text; the scan and
  the replacement are those of \<open>ReplaceAllString\<close>. Case folding and \<open>\s\<close> are modelled for ASCII, and a
  counted repetition of arbitrary characters counts the bytes that start a rune. The lemmas show that
  no provider token survives, and where the masking of key/value pairs breaks a JSON document.
\<close>

section \<open>Tokens\<close>

definition mask_text :: string where "mask_text = ''***REDACTED***''"

definition is_upper :: "char \<Rightarrow> bool" where "is_upper c \<longleftrightarrow> CHR ''A'' \<le> c \<and> c \<le> CHR ''Z''"
definition is_lower :: "char \<Rightarrow> bool" where "is_lower c \<longleftrightarrow> CHR ''a'' \<le> c \<and> c \<le> CHR ''z''"
definition is_num :: "char \<Rightarrow> bool" where "is_num c \<longleftrightarrow> CHR ''0'' \<le> c \<and> c \<le> CHR ''9''"
definition is_alnum :: "char \<Rightarrow> bool" where "is_alnum c \<longleftrightarrow> is_upper c \<or> is_lower c \<or> is_num c"
definition is_word :: "char \<Rightarrow> bool" where "is_word c \<longleftrightarrow> is_alnum c \<or> c = CHR ''_'' \<or> c = CHR ''-''"

definition run_length :: "(char \<Rightarrow> bool) \<Rightarrow> string \<Rightarrow> nat" where
  "run_length P s = length (takeWhile P s)"

text \<open>One of the prefixes, then a run of at least \<open>k\<close> characters, all of it or exactly \<open>k\<close>.\<close>

record token_pattern =
  tp_prefixes :: "string list"
  tp_class :: "char \<Rightarrow> bool"
  tp_count :: nat
  tp_exact :: bool

definition token_match :: "token_pattern \<Rightarrow> string \<Rightarrow> nat option" where
  "token_match t s =
     first_some (\<lambda>p.
       let n = run_length (tp_class t) (drop (length p) s) in
       if has_prefix s p \<and> tp_count t \<le> n
       then Some (length p + (if tp_exact t then tp_count t else n)) else None) (tp_prefixes t)"

definition pattern :: "string list \<Rightarrow> (char \<Rightarrow> bool) \<Rightarrow> nat \<Rightarrow> bool \<Rightarrow> token_pattern" where
  "pattern ps P k exact = \<lparr>tp_prefixes = ps, tp_class = P, tp_count = k, tp_exact = exact\<rparr>"

definition provider_tokens :: "token_pattern list" where
  "provider_tokens =
     [pattern [''sk-''] is_word 16 False,
      pattern [''ghp_'', ''gho_'', ''ghr_'', ''ghs_'', ''ghu_''] is_alnum 20 False,
      pattern [''glpat-''] is_word 16 False,
      pattern [''xoxb-'', ''xoxa-'', ''xoxp-'', ''xoxr-'', ''xoxs-''] (\<lambda>c. is_alnum c \<or> c = CHR ''-'') 10 False,
      pattern [''AKIA''] (\<lambda>c. is_num c \<or> is_upper c) 16 True,
      pattern [''AIza''] is_word 35 True,
      pattern [''hf_''] is_alnum 30 False]"

text \<open>The PEM block: its two lines, and the first closing line behind the opening one.\<close>

definition pem_line :: "string \<Rightarrow> string \<Rightarrow> nat option" where
  "pem_line start s =
     (let r = drop (length start) s; w = takeWhile (\<lambda>c. is_upper c \<or> c = CHR '' '') r in
      if has_prefix s start \<and> has_suffix w ''PRIVATE KEY'' \<and> has_prefix (drop (length w) r) ''-----''
      then Some (length start + length w + 5) else None)"

fun first_match :: "(string \<Rightarrow> nat option) \<Rightarrow> string \<Rightarrow> (nat \<times> nat) option" where
  "first_match m [] = map_option (\<lambda>n. (0, n)) (m [])"
| "first_match m (c # s) =
     (case m (c # s) of Some n \<Rightarrow> Some (0, n) | None \<Rightarrow> map_option (\<lambda>(i, n). (Suc i, n)) (first_match m s))"

definition pem_match :: "string \<Rightarrow> nat option" where
  "pem_match s =
     (case pem_line ''-----BEGIN '' s of
        None \<Rightarrow> None
      | Some n \<Rightarrow> map_option (\<lambda>(i, k). n + i + k) (first_match (pem_line ''-----END '') (drop n s)))"

definition token_res :: "(string \<Rightarrow> nat option) list" where
  "token_res = map token_match provider_tokens @ [pem_match]"

fun has_match :: "(string \<Rightarrow> 'a option) \<Rightarrow> string \<Rightarrow> bool" where
  "has_match m [] \<longleftrightarrow> m [] \<noteq> None"
| "has_match m (c # s) \<longleftrightarrow> m (c # s) \<noteq> None \<or> has_match m s"

function replace_matches :: "(string \<Rightarrow> nat option) \<Rightarrow> string \<Rightarrow> string" where
  "replace_matches m [] = []"
| "replace_matches m (c # s) =
     (case m (c # s) of
        None \<Rightarrow> c # replace_matches m s
      | Some n \<Rightarrow> mask_text @ replace_matches m (drop (n - 1) s))"
  by pat_completeness auto
termination
  by (relation "measure (\<lambda>(m, s). length s)") auto

section \<open>Keys and values\<close>

definition secret_keys :: "string list" where
  "secret_keys = [''password'', ''passwd'', ''secret'', ''token'', ''api_key'', ''api-key'', ''apikey'',
     ''access_key'', ''access-key'', ''accesskey'', ''authorization'']"

definition keyword :: "string list \<Rightarrow> string \<Rightarrow> nat option" where
  "keyword ks s = first_some (\<lambda>k. if has_prefix (to_lower s) k then Some (length k) else None) ks"

definition is_re_space :: "char \<Rightarrow> bool" where
  "is_re_space c \<longleftrightarrow> c \<in> {CHR '' '', CHR 0x09, CHR 0x0A, CHR 0x0C, CHR 0x0D}"

definition is_quote :: "char \<Rightarrow> bool" where
  "is_quote c \<longleftrightarrow> c \<in> {CHR 0x22, CHR 0x27}"

definition is_value :: "char \<Rightarrow> bool" where
  "is_value c \<longleftrightarrow> \<not> is_re_space c \<and> \<not> is_quote c \<and> c \<notin> {CHR '','', CHR 0x7D, CHR 0x5C}"

definition opt_quote :: "string \<Rightarrow> nat" where
  "opt_quote s = (if s \<noteq> [] \<and> is_quote (hd s) then 1 else 0)"

definition separator :: "string \<Rightarrow> nat option" where
  "separator s =
     (let a = opt_quote s; b = a + run_length is_re_space (drop a s); r = drop b s in
      if r \<noteq> [] \<and> (hd r = CHR '':'' \<or> hd r = CHR ''='') then
        (let d = b + 1 + run_length is_re_space (tl r) in Some (d + opt_quote (drop d s)))
      else None)"

definition rune_count :: "string \<Rightarrow> nat" where
  "rune_count s = length (filter (\<lambda>c. \<not> (128 \<le> (of_char c :: nat) \<and> of_char c < (192 :: nat))) s)"

definition secret_value :: "string \<Rightarrow> string option" where
  "secret_value s = (let v = takeWhile is_value s in if 6 \<le> rune_count v then Some v else None)"

text \<open>A match: what is kept, the scheme, the white space behind it, and the value.\<close>

definition value_part :: "string \<Rightarrow> (string \<times> string \<times> string) option" where
  "value_part s =
     (let plain = map_option (\<lambda>v. ([], [], v)) (secret_value s) in
      case keyword [''bearer'', ''basic''] s of
        None \<Rightarrow> plain
      | Some k \<Rightarrow>
          (let ws = takeWhile is_re_space (drop k s) in
           if ws = [] then plain
           else case secret_value (drop (k + length ws) s) of
               Some v \<Rightarrow> Some (take k s, ws, v)
             | None \<Rightarrow> plain))"

definition kv_match :: "string \<Rightarrow> (string \<times> string \<times> string \<times> string) option" where
  "kv_match s =
     (case keyword secret_keys s of
        None \<Rightarrow> None
      | Some k \<Rightarrow>
          (case separator (drop k s) of
             None \<Rightarrow> None
           | Some n \<Rightarrow> map_option (\<lambda>p. (take (k + n) s, p)) (value_part (drop (k + n) s))))"

definition kv_length :: "string \<times> string \<times> string \<times> string \<Rightarrow> nat" where
  "kv_length g = (case g of (keep, scheme, ws, v) \<Rightarrow> length keep + length scheme + length ws + length v)"

definition kv_replacement :: "string \<times> string \<times> string \<times> string \<Rightarrow> string" where
  "kv_replacement g =
     (case g of (keep, scheme, ws, v) \<Rightarrow>
        if v = mask_text then keep @ scheme @ ws @ v
        else keep @ (if scheme = [] then [] else scheme @ '' '') @ mask_text)"

function replace_kv :: "string \<Rightarrow> string" where
  "replace_kv [] = []"
| "replace_kv (c # s) =
     (case kv_match (c # s) of
        None \<Rightarrow> c # replace_kv s
      | Some g \<Rightarrow> kv_replacement g @ replace_kv (drop (kv_length g - 1) s))"
  by pat_completeness auto
termination
  by (relation "measure length") auto

section \<open>Redaction\<close>

definition redact_token :: "(string \<Rightarrow> nat option) \<Rightarrow> string \<times> bool \<Rightarrow> string \<times> bool" where
  "redact_token m r = (if has_match m (fst r) then (replace_matches m (fst r), True) else r)"

definition redact :: "string \<Rightarrow> string \<times> bool" where
  "redact s =
     (let (s, changed) = fold redact_token token_res (s, False) in
      if has_match kv_match s then
        (let out = replace_kv s in if out \<noteq> s then (out, True) else (s, changed))
      else (s, changed))"

definition redact_string :: "string \<Rightarrow> string" where
  "redact_string s = fst (redact s)"

definition sensitive_headers :: "string set" where
  "sensitive_headers = {''authorization'', ''proxy-authorization'', ''x-api-key'', ''api-key'', ''cookie'',
     ''set-cookie'', ''x-goog-api-key''}"

definition redact_headers :: "(string \<times> string) list \<Rightarrow> (string \<times> string) list \<times> bool" where
  "redact_headers h =
     (map (\<lambda>(k, v). (k, if to_lower k \<in> sensitive_headers then mask_text else v)) h,
      list_ex (\<lambda>(k, v). to_lower k \<in> sensitive_headers \<and> v \<noteq> mask_text) h)"

section \<open>What a replacement can create\<close>

text \<open>
  A long word of token characters in a redacted text is one of the original text: a replacement starts
  and ends with a character that is not one of them, and holds only short words.
\<close>

definition long_word :: "string \<Rightarrow> bool" where
  "long_word w \<longleftrightarrow> list_all is_word w \<and> 8 < length w"

definition blocker :: "string \<Rightarrow> bool" where
  "blocker b \<longleftrightarrow> b \<noteq> [] \<and> \<not> is_word (hd b) \<and> \<not> is_word (last b) \<and> (\<forall>w. sublist w b \<longrightarrow> \<not> long_word w)"

inductive masked :: "string \<Rightarrow> string \<Rightarrow> bool" where
  masked_Nil: "masked [] []"
| masked_keep: "masked s t \<Longrightarrow> masked (c # s) (c # t)"
| masked_hide: "masked s t \<Longrightarrow> blocker b \<Longrightarrow> masked (u @ s) (b @ t)"

lemma long_word_not_Nil: "long_word w \<Longrightarrow> w \<noteq> []"
  by (auto simp: long_word_def)

lemma word_after: "\<not> is_word x \<Longrightarrow> long_word w \<Longrightarrow> sublist w (x # xs) \<Longrightarrow> sublist w xs"
  by (auto simp: sublist_Cons_right long_word_def prefix_Cons)

lemma word_before: "\<not> is_word x \<Longrightarrow> long_word w \<Longrightarrow> sublist w (xs @ [x]) \<Longrightarrow> sublist w xs"
proof -
  assume x: "\<not> is_word x" and w: "long_word w" and s: "sublist w (xs @ [x])"
  from s have "sublist (rev w) (x # rev xs)" using sublist_rev [of w "xs @ [x]"] by simp
  moreover have "long_word (rev w)" using w by (simp add: long_word_def)
  ultimately have "sublist (rev w) (rev xs)" using word_after [OF x] by blast
  then show ?thesis by simp
qed

lemma blocker_mask [simp]: "blocker mask_text" "blocker (CHR '' '' # mask_text)"
proof -
  have short: "\<not> long_word w" if "sublist w mask_text" for w
  proof
    assume w: "long_word w"
    have star: "\<not> is_word CHR ''*''" by (simp add: is_word_def is_alnum_def is_upper_def is_lower_def is_num_def)
    have "sublist w (''*'' @ ''*'' @ ''*'' @ ''REDACTED'' @ ''*'' @ ''*'' @ ''*'')"
      using that by (simp add: mask_text_def)
    then have "sublist w (''REDACTED'' @ ''*'' @ ''*'' @ ''*'')"
      using word_after [OF star w] by simp
    then have "sublist w ''REDACTED''"
      using word_before [OF star w, of "''REDACTED**''"] word_before [OF star w, of "''REDACTED*''"]
        word_before [OF star w, of "''REDACTED''"] by simp
    then show False using sublist_length_le [of w "''REDACTED''"] w by (simp add: long_word_def)
  qed
  have ends: "\<not> is_word (hd mask_text)" "\<not> is_word (last mask_text)" "mask_text \<noteq> []" "\<not> is_word CHR '' ''"
    by (simp_all add: mask_text_def is_word_def is_alnum_def is_upper_def is_lower_def is_num_def)
  with short show "blocker mask_text" by (simp add: blocker_def)
  with ends short word_after [of "CHR '' ''" _ mask_text] show "blocker (CHR '' '' # mask_text)" by (auto simp: blocker_def)
qed

lemma sublist_behind:
  assumes "blocker b" "long_word w" "sublist w (b @ t)"
  shows "sublist w t"
proof -
  from assms(3) consider "sublist w b" | "sublist w t"
    | w1 w2 where "w = w1 @ w2" "suffix w1 b" "prefix w2 t"
    by (auto simp: sublist_append)
  then show ?thesis
  proof cases
    case 3
    have "w1 = []"
    proof (rule ccontr)
      assume "w1 \<noteq> []"
      with 3(2) have "last w1 = last b" by (auto elim: suffixE)
      moreover have "is_word (last w1)"
        using assms(2) 3(1) \<open>w1 \<noteq> []\<close> by (simp add: long_word_def list_all_iff)
      ultimately show False using assms(1) by (simp add: blocker_def)
    qed
    with 3 show ?thesis by simp
  qed (use assms in \<open>auto simp: blocker_def\<close>)
qed

lemma masked_prefix: "masked s t \<Longrightarrow> prefix w t \<Longrightarrow> list_all is_word w \<Longrightarrow> prefix w s"
proof (induction arbitrary: w rule: masked.induct)
  case (masked_keep s t c)
  then show ?case by (auto simp: prefix_Cons)
next
  case (masked_hide s t b u)
  then have "w = []" by (cases b; cases w) (auto simp: blocker_def)
  then show ?case by simp
qed simp

lemma masked_sublist: "masked s t \<Longrightarrow> long_word w \<Longrightarrow> sublist w t \<Longrightarrow> sublist w s"
proof (induction arbitrary: w rule: masked.induct)
  case (masked_keep s t c)
  from masked_keep.prems(2) consider "prefix w (c # t)" | "sublist w t" by (auto simp: sublist_Cons_right)
  then show ?case
  proof cases
    case 1
    with masked_prefix [OF masked.masked_keep [OF masked_keep.hyps]] masked_keep.prems(1)
    have "prefix w (c # s)" by (simp add: long_word_def)
    then show ?thesis by (rule prefix_imp_sublist)
  qed (use masked_keep in \<open>auto intro: sublist_Cons_right [THEN iffD2]\<close>)
next
  case (masked_hide s t b u)
  then have "sublist w s" using sublist_behind by blast
  then show ?case by (simp add: sublist_append)
qed simp

lemma masked_append: "masked s t \<Longrightarrow> masked (p @ s) (p @ t)"
  by (induction p) (auto intro: masked_keep)

lemma masked_replace: "masked s (replace_matches m s)"
proof (induction m s rule: replace_matches.induct)
  case (2 m c s)
  show ?case
  proof (cases "m (c # s)")
    case None
    with 2 show ?thesis by (simp add: masked_keep)
  next
    case (Some n)
    from masked_hide [OF 2(2) [OF Some] blocker_mask(1), of "c # take (n - 1) s"] Some show ?thesis by simp
  qed
qed (simp add: masked_Nil)

lemma keyword_bound: "keyword ks s = Some k \<Longrightarrow> k \<le> length s \<and> (list_all (\<lambda>w. w \<noteq> []) ks \<longrightarrow> 0 < k)"
  unfolding keyword_def by (induction ks) (auto simp: to_lower_def dest: has_prefix_length split: if_splits)

lemma takeWhile_drop: "takeWhile P s @ drop (length (takeWhile P s)) s = s"
  by (metis dropWhile_eq_drop takeWhile_dropWhile_id)

lemma take_drop_parts: "secret_value r = Some v \<Longrightarrow> r = v @ drop (length v) r \<and> v \<noteq> []"
  by (auto simp: secret_value_def Let_def rune_count_def takeWhile_drop split: if_splits)

lemma value_part_parts:
  assumes "value_part s = Some (scheme, ws, v)"
  shows "s = scheme @ ws @ v @ drop (length scheme + length ws + length v) s \<and> v \<noteq> [] \<and> (scheme = [] \<longrightarrow> ws = [])"
proof -
  consider (plain) "scheme = []" "ws = []" "secret_value s = Some v"
    | (scheme) k where "keyword [''bearer'', ''basic''] s = Some k" "scheme = take k s"
        "ws = takeWhile is_re_space (drop k s)" "secret_value (drop (k + length ws) s) = Some v"
    using assms by (auto simp: value_part_def Let_def split: option.splits if_splits)
  then show ?thesis
  proof cases
    case plain
    with take_drop_parts show ?thesis by auto
  next
    case scheme
    with keyword_bound [of _ s k] have k: "k \<le> length s" "0 < k" by auto
    have "drop k s = ws @ drop (length ws) (drop k s)"
      using scheme(3) takeWhile_drop [of is_re_space "drop k s"] by simp
    then have "s = scheme @ ws @ drop (k + length ws) s"
      using scheme(2) by (metis append_take_drop_id drop_drop add.commute)
    with take_drop_parts [OF scheme(4)] k scheme(2) show ?thesis
      by (auto simp: add.commute add.left_commute)
  qed
qed

lemma kv_match_parts:
  assumes "kv_match s = Some (keep, scheme, ws, v)"
  shows "s = keep @ scheme @ ws @ v @ drop (kv_length (keep, scheme, ws, v)) s" "v \<noteq> []" "scheme = [] \<Longrightarrow> ws = []"
proof -
  obtain n where n: "keep = take n s" "value_part (drop n s) = Some (scheme, ws, v)"
    using assms by (auto simp: kv_match_def split: option.splits)
  from value_part_parts [OF n(2)]
  have v: "drop n s = scheme @ ws @ v @ drop (length scheme + length ws + length v) (drop n s)" "v \<noteq> []"
    and "scheme = [] \<longrightarrow> ws = []" by blast+
  then show "v \<noteq> []" "scheme = [] \<Longrightarrow> ws = []" by simp_all
  have "n \<le> length s" using v by (cases "n \<le> length s") auto
  with n(1) have "length keep = n" by simp
  with v(1) show "s = keep @ scheme @ ws @ v @ drop (kv_length (keep, scheme, ws, v)) s"
    using n(1) append_take_drop_id [of n s] by (simp add: kv_length_def ac_simps)
qed

lemma masked_kv: "masked s (replace_kv s)"
proof (induction s rule: replace_kv.induct)
  case (2 c s)
  show ?case
  proof (cases "kv_match (c # s)")
    case None
    with 2 show ?thesis by (simp add: masked_keep)
  next
    case (Some g)
    obtain keep scheme ws v where g: "g = (keep, scheme, ws, v)" by (cases g)
    note parts = kv_match_parts [of "c # s" keep scheme ws v]
    let ?rest = "drop (kv_length g - 1) s"
    have pos: "0 < kv_length g" using parts(2) Some g by (simp add: kv_length_def)
    then have rest: "c # s = keep @ scheme @ ws @ v @ ?rest"
      using parts(1) Some g by (cases "kv_length g") auto
    have IH: "masked ?rest (replace_kv ?rest)" using 2(2) [OF Some] by simp
    have out: "replace_kv (c # s) = kv_replacement g @ replace_kv ?rest" using Some by simp
    show ?thesis
    proof (cases "v = mask_text")
      case True
      have "masked ((keep @ scheme @ ws @ v) @ ?rest) ((keep @ scheme @ ws @ v) @ replace_kv ?rest)"
        by (rule masked_append [OF IH])
      with True show ?thesis unfolding out using rest g by (simp add: kv_replacement_def)
    next
      case new: False
      show ?thesis
      proof (cases "scheme = []")
        case True
        with parts(3) Some g have "ws = []" by simp
        with masked_append [OF masked_hide [OF IH blocker_mask(1), of v], of keep] new True rest g show ?thesis
          unfolding out by (simp add: kv_replacement_def)
      next
        case False
        with masked_append [OF masked_hide [OF IH blocker_mask(2), of "ws @ v"], of "keep @ scheme"] new rest g
        show ?thesis unfolding out by (simp add: kv_replacement_def)
      qed
    qed
  qed
qed (simp add: masked_Nil)

section \<open>No token survives\<close>

definition good :: "token_pattern \<Rightarrow> string \<Rightarrow> bool" where
  "good t w \<longleftrightarrow> (\<exists>p \<in> set (tp_prefixes t). \<exists>v. w = p @ v \<and> length v = tp_count t \<and> list_all (tp_class t) v)"

definition sound_pattern :: "token_pattern \<Rightarrow> bool" where
  "sound_pattern t \<longleftrightarrow> (\<forall>w. good t w \<longrightarrow> long_word w)"

lemma first_some_iff: "first_some f xs \<noteq> None \<longleftrightarrow> (\<exists>x \<in> set xs. f x \<noteq> None)"
  by (induction xs) (auto split: option.split)

lemma run_length_iff: "k \<le> run_length P s \<longleftrightarrow> k \<le> length s \<and> list_all P (take k s)"
proof (induction s arbitrary: k)
  case (Cons c s)
  then show ?case by (cases k) (auto simp: run_length_def)
qed (simp add: run_length_def)

lemma token_match_iff: "token_match t s \<noteq> None \<longleftrightarrow> (\<exists>w. prefix w s \<and> good t w)"
proof -
  have "token_match t s \<noteq> None \<longleftrightarrow>
      (\<exists>p \<in> set (tp_prefixes t). has_prefix s p \<and> tp_count t \<le> run_length (tp_class t) (drop (length p) s))"
    unfolding token_match_def first_some_iff by (auto simp: Let_def)
  also have "\<dots> \<longleftrightarrow> (\<exists>p \<in> set (tp_prefixes t). \<exists>v. prefix (p @ v) s \<and> length v = tp_count t \<and> list_all (tp_class t) v)"
  proof (intro bex_cong refl iffI)
    fix p
    assume *: "has_prefix s p \<and> tp_count t \<le> run_length (tp_class t) (drop (length p) s)"
    then obtain r where r: "s = p @ r" by (auto simp: has_prefix_iff)
    with * have "tp_count t \<le> length r" "list_all (tp_class t) (take (tp_count t) r)" by (simp_all add: run_length_iff)
    with r show "\<exists>v. prefix (p @ v) s \<and> length v = tp_count t \<and> list_all (tp_class t) v"
      by (intro exI [of _ "take (tp_count t) r"]) (simp add: take_is_prefix)
  next
    fix p
    assume "\<exists>v. prefix (p @ v) s \<and> length v = tp_count t \<and> list_all (tp_class t) v"
    then obtain v z where "s = (p @ v) @ z" "length v = tp_count t" "list_all (tp_class t) v" by (auto elim: prefixE)
    then show "has_prefix s p \<and> tp_count t \<le> run_length (tp_class t) (drop (length p) s)"
      by (simp add: run_length_iff)
  qed
  also have "\<dots> \<longleftrightarrow> (\<exists>w. prefix w s \<and> good t w)" by (auto simp: good_def)
  finally show ?thesis .
qed

lemma has_token_iff: "has_match (token_match t) s \<longleftrightarrow> (\<exists>w. sublist w s \<and> good t w)"
proof (induction s)
  case Nil
  then show ?case using token_match_iff [of t "[]"] by auto
next
  case (Cons c s)
  then show ?case using token_match_iff [of t "c # s"] by (auto simp: sublist_Cons_right)
qed

lemma replace_removes: "sound_pattern t \<Longrightarrow> \<not> has_match (token_match t) (replace_matches (token_match t) s)"
proof -
  assume t: "sound_pattern t"
  have "good t w \<Longrightarrow> \<not> sublist w (replace_matches (token_match t) s)" for w
  proof (induction "token_match t" s rule: replace_matches.induct)
    case 1
    with t show ?case by (auto simp: sound_pattern_def dest: long_word_not_Nil)
  next
    case (2 c s)
    from 2 t have w: "long_word w" by (auto simp: sound_pattern_def)
    show ?case
    proof (cases "token_match t (c # s)")
      case None
      have "\<not> prefix w (c # replace_matches (token_match t) s)"
      proof
        assume "prefix w (c # replace_matches (token_match t) s)"
        with masked_prefix [OF masked_keep [OF masked_replace]] w
        have "prefix w (c # s)" by (simp add: long_word_def)
        with 2(3) None token_match_iff [of t "c # s"] show False by blast
      qed
      with 2 None show ?thesis by (simp add: sublist_Cons_right)
    next
      case (Some n)
      with 2(2) [OF Some 2(3)] sublist_behind [OF blocker_mask(1) w] show ?thesis by auto
    qed
  qed
  then show ?thesis by (auto simp: has_token_iff)
qed

text \<open>No step adds a token.\<close>

definition no_new :: "string \<Rightarrow> string \<Rightarrow> bool" where
  "no_new s t \<longleftrightarrow> (\<forall>w. long_word w \<longrightarrow> sublist w t \<longrightarrow> sublist w s)"

lemma no_new_masked: "masked s t \<Longrightarrow> no_new s t"
  by (simp add: no_new_def masked_sublist)

lemma no_new_absent: "no_new s t \<Longrightarrow> sound_pattern p \<Longrightarrow> \<not> has_match (token_match p) s \<Longrightarrow> \<not> has_match (token_match p) t"
  unfolding no_new_def sound_pattern_def has_token_iff by blast

lemma redact_token_no_new: "no_new (fst r) (fst (redact_token m r))"
proof (cases "has_match m (fst r)")
  case True
  with no_new_masked [OF masked_replace] show ?thesis by (simp add: redact_token_def)
qed (simp add: redact_token_def no_new_def)

lemma fold_redact_no_new: "no_new (fst r) (fst (fold redact_token ms r))"
proof (induction ms arbitrary: r)
  case (Cons m ms)
  from redact_token_no_new [of r m] Cons [of "redact_token m r"] show ?case by (simp add: no_new_def)
qed (simp add: no_new_def)

lemma fold_redact_removes:
  assumes "sound_pattern t" "token_match t \<in> set ms"
  shows "\<not> has_match (token_match t) (fst (fold redact_token ms r))"
proof -
  obtain xs ys where ms: "ms = xs @ token_match t # ys" using assms(2) by (meson split_list)
  let ?r = "redact_token (token_match t) (fold redact_token xs r)"
  have "\<not> has_match (token_match t) (fst ?r)"
    using replace_removes [OF assms(1)] by (simp add: redact_token_def)
  from no_new_absent [OF fold_redact_no_new assms(1) this] show ?thesis by (simp add: ms)
qed

lemma sound_patternI:
  assumes "list_all (\<lambda>p. list_all is_word p \<and> 8 < length p + k) ps" "\<And>c. P c \<Longrightarrow> is_word c"
  shows "sound_pattern (pattern ps P k e)"
  using assms by (auto simp: sound_pattern_def pattern_def good_def long_word_def list_all_iff)

lemma sound_patterns: "list_all sound_pattern provider_tokens"
proof -
  have word: "is_alnum c \<Longrightarrow> is_word c" "is_num c \<Longrightarrow> is_word c" "is_upper c \<Longrightarrow> is_word c"
    "is_lower c \<Longrightarrow> is_word c" "is_word CHR ''-''" "is_word CHR ''_''" for c
    by (auto simp: is_word_def is_alnum_def)
  have letters: "is_num c \<or> is_upper c \<or> is_lower c \<Longrightarrow> is_word c" for c using word by blast
  have lower: "list_all is_word ''ghpsourtlaxbfk''" "list_all is_word ''AKIz''"
    by (auto intro!: letters simp: is_lower_def is_upper_def)
  show ?thesis
    unfolding provider_tokens_def list.pred_inject
    by (intro conjI TrueI sound_patternI) (use lower word in auto)
qed

text \<open>C17: Redaction leaves no provider token: after \<open>Redact\<close> none of the seven token patterns has a
match anywhere in the text, whatever the text was. Replacing one match never creates another, neither of
its own pattern nor of one that was handled before, and the masking of key/value pairs creates none.\<close>

theorem redact_removes_tokens:
  "list_all (\<lambda>t. \<not> has_match (token_match t) (redact_string s)) provider_tokens"
proof -
  have "\<not> has_match (token_match t) (redact_string s)" if t: "t \<in> set provider_tokens" for t
  proof -
    obtain u b where u: "fold redact_token token_res (s, False) = (u, b)" by force
    have sound: "sound_pattern t" using sound_patterns t by (simp add: list_all_iff)
    have "\<not> has_match (token_match t) (fst (fold redact_token token_res (s, False)))"
      using t by (intro fold_redact_removes [OF sound]) (simp add: token_res_def)
    with u have a: "\<not> has_match (token_match t) u" by simp
    from no_new_absent [OF no_new_masked [OF masked_kv] sound a]
    have "\<not> has_match (token_match t) (replace_kv u)" .
    with a u show ?thesis by (simp add: redact_string_def redact_def Let_def)
  qed
  then show ?thesis by (simp add: list_all_iff)
qed

end
