(* ===== verification/EventPages.thy ===== *)
theory EventPages
  imports World TelemetrySchema Attest
begin

text \<open>
  The listing of events in \<open>internal/telemetry/service.go\<close>: filters, the page after a cursor, the cursor
  itself (JSON in unpadded URL-safe base64) and the integrity hashes; \<open>sha\<close> is the hex SHA-256 of the
  standard library and reads are taken to succeed. The lemmas show that a cursor comes back as it was
  written and that the pages of a listing, one after the other, are the listing.
\<close>

section \<open>Cursors\<close>

definition url_char :: "char \<Rightarrow> char" where
  "url_char c = (if c = CHR ''+'' then CHR ''-'' else if c = CHR ''/'' then CHR ''_'' else c)"

definition std_char :: "char \<Rightarrow> char" where
  "std_char c = (if c = CHR ''-'' then CHR ''+'' else if c = CHR ''_'' then CHR ''/'' else c)"

definition raw_url_encode :: "bytes \<Rightarrow> string" where
  "raw_url_encode b = map url_char (takeWhile (\<lambda>c. c \<noteq> CHR ''='') (b64_encode b))"

definition raw_url_decode :: "string \<Rightarrow> bytes option" where
  "raw_url_decode s =
     (let t = filter (\<lambda>c. c \<noteq> CHR 0x0A \<and> c \<noteq> CHR 0x0D) s in
      if list_ex (\<lambda>c. c \<in> {CHR ''+'', CHR ''/'', CHR ''=''}) t \<or> length t mod 4 = 1 then None
      else b64_quads (map std_char t @ replicate ((4 - length t mod 4) mod 4) CHR ''=''))"

definition format_event_cursor :: "string \<Rightarrow> string \<Rightarrow> string" where
  "format_event_cursor created i =
     raw_url_encode (marshal (JObj [(''v'', JNum 1), (''created_at'', JStr created), (''id'', JStr i)]))"

definition parse_event_cursor :: "string \<Rightarrow> go_error + string \<times> string" where
  "parse_event_cursor cursor =
     (let c = trim_space cursor; bad = Inl (Errorf ''invalid telemetry cursor'') in
      if c = [] then Inr ([], [])
      else case raw_url_decode c of
        None \<Rightarrow> bad
      | Some raw \<Rightarrow>
          (case decode raw of
             Some (JObj kvs) \<Rightarrow>
               (case (int64_field ''v'' kvs, string_field ''created_at'' kvs, string_field ''id'' kvs) of
                  (Some v, Some created, Some i) \<Rightarrow>
                    if v \<noteq> 1 \<or> created = [] \<or> i = [] then bad else Inr (created, i)
                | _ \<Rightarrow> bad)
           | _ \<Rightarrow> bad))"

section \<open>Pages\<close>

record event_filter =
  el_run_id :: string
  el_session_id :: string
  el_type :: string
  el_tool_call_id :: string

record list_result =
  lr_filter :: event_filter
  lr_limit :: int
  lr_cursor :: string
  lr_next_cursor :: string
  lr_has_more :: bool
  lr_event_count :: nat
  lr_total_count :: nat
  lr_result_set_id :: string
  lr_page_hash :: string
  lr_events :: "event list"

definition event_matches :: "event_filter \<Rightarrow> event \<Rightarrow> bool" where
  "event_matches f e \<longleftrightarrow>
     (el_run_id f \<noteq> [] \<longrightarrow> ev_run_id e = Some (el_run_id f)) \<and>
     (el_session_id f \<noteq> [] \<longrightarrow> ev_session_id e = Some (el_session_id f)) \<and>
     (el_type f \<noteq> [] \<longrightarrow> ev_event_type e = el_type f) \<and>
     (el_tool_call_id f \<noteq> [] \<longrightarrow> ev_tool_call_id e = el_tool_call_id f)"

definition count_events :: "event_filter \<Rightarrow> db \<Rightarrow> nat" where
  "count_events f d = length (filter (event_matches f) (db_events d))"

text \<open>\<open>ORDER BY created_at ASC, id ASC\<close>, and the rows behind a cursor.\<close>

definition event_key :: "event \<Rightarrow> string list" where
  "event_key e = [ev_created_at e, ev_id e]"

definition behind :: "string \<times> string \<Rightarrow> event \<Rightarrow> bool" where
  "behind k e \<longleftrightarrow> ev_created_at e > fst k \<or> ev_created_at e = fst k \<and> ev_id e > snd k"

definition text_member :: "string \<Rightarrow> string \<Rightarrow> string" where
  "text_member k v = quote k @ '':'' @ v"

definition object_text :: "string list \<Rightarrow> string" where
  "object_text ms = CHR 0x7B # join '','' ms @ [CHR 0x7D]"

definition filter_text :: "event_filter \<Rightarrow> string" where
  "filter_text f = object_text [text_member ''RunID'' (quote (el_run_id f)),
     text_member ''SessionID'' (quote (el_session_id f)), text_member ''Type'' (quote (el_type f)),
     text_member ''ToolCallID'' (quote (el_tool_call_id f))]"

definition event_list_integrity ::
  "(bytes \<Rightarrow> string) \<Rightarrow> event_filter \<Rightarrow> nat \<Rightarrow> event list \<Rightarrow> int \<Rightarrow> string \<Rightarrow> string \<times> string" where
  "event_list_integrity sha f total_count es limit cursor =
     (let result = ''sha256:'' @ sha (object_text [text_member ''filter'' (filter_text f),
            text_member ''kind'' (quote ''telemetry_events_result_set''),
            text_member ''total_count'' (show_int (int total_count))]);
          page = ''sha256:'' @ sha (object_text [text_member ''cursor'' (quote cursor),
            text_member ''event_ids'' (marshal (JArr (map (\<lambda>e. JStr (ev_id e)) es))),
            text_member ''kind'' (quote ''telemetry_events_page''), text_member ''limit'' (show_int limit),
            text_member ''result_set_id'' (quote result)])
      in (result, page))"

definition list_events_page ::
  "(bytes \<Rightarrow> string) \<Rightarrow> event_filter \<Rightarrow> int \<Rightarrow> string \<Rightarrow> db \<Rightarrow> go_error + list_result" where
  "list_events_page sha f want cursor d =
     (let unbounded = want < 0; limit = (if want = 0 then 100 else if want > 1000 then 1000 else want) in
      case parse_event_cursor cursor of
        Inl e \<Rightarrow> Inl e
      | Inr k \<Rightarrow>
          let rows = sort_key event_key (filter (\<lambda>e. event_matches f e \<and> (cursor \<noteq> [] \<longrightarrow> behind k e)) (db_events d));
              es = (if unbounded then rows else take (nat limit + 1) rows);
              more = (\<not> unbounded \<and> length es > nat limit);
              es = (if more then take (nat limit) es else es);
              next_cursor = (if more \<and> es \<noteq> [] then format_event_cursor (ev_created_at (last es)) (ev_id (last es)) else []);
              tot = count_events f d;
              (set_id, page) = event_list_integrity sha f tot es limit cursor
          in Inr \<lparr>lr_filter = f, lr_limit = limit, lr_cursor = cursor, lr_next_cursor = next_cursor, lr_has_more = more,
                  lr_event_count = length es, lr_total_count = tot, lr_result_set_id = set_id,
                  lr_page_hash = page, lr_events = es\<rparr>)"

definition list_events_filtered :: "(bytes \<Rightarrow> string) \<Rightarrow> event_filter \<Rightarrow> db \<Rightarrow> go_error + event list" where
  "list_events_filtered sha f d = map_sum id lr_events (list_events_page sha f (- 1) [] d)"

definition list_batches :: "string \<Rightarrow> db \<Rightarrow> telemetry_batch list" where
  "list_batches run d =
     order_asc tb_created_at (filter (\<lambda>b. trim_space run \<noteq> [] \<longrightarrow> tb_run_id b = run) (db_telemetry_batches d))"

text \<open>A client that asks for page after page.\<close>

fun follow_pages ::
  "nat \<Rightarrow> (bytes \<Rightarrow> string) \<Rightarrow> event_filter \<Rightarrow> int \<Rightarrow> string \<Rightarrow> db \<Rightarrow> event list option" where
  "follow_pages 0 sha f want cursor d = None"
| "follow_pages (Suc n) sha f want cursor d =
     (case list_events_page sha f want cursor d of
        Inl e \<Rightarrow> None
      | Inr p \<Rightarrow>
          if lr_has_more p then map_option (\<lambda>es. lr_events p @ es) (follow_pages n sha f want (lr_next_cursor p) d)
          else Some (lr_events p))"

section \<open>A cursor comes back\<close>

lemma url_charD:
  assumes "n < 64"
  shows "std_char (url_char (b64_char n)) = b64_char n \<and>
    url_char (b64_char n) \<notin> {CHR ''+'', CHR ''/'', CHR ''='', CHR 0x0A, CHR 0x0D} \<and> \<not> is_space (url_char (b64_char n))"
proof -
  consider "n < 62" | "n = 62" | "n = 63" using assms by linarith
  then show ?thesis
  proof cases
    case 1
    then have "of_char (b64_char n) > (47 :: nat)" "of_char (b64_char n) \<notin> {61, 45, 95 :: nat}"
      by (auto simp: of_b64_char)
    then have "b64_char n \<notin> {CHR ''+'', CHR ''/'', CHR ''='', CHR ''-'', CHR ''_'', CHR 0x0A, CHR 0x0D, CHR '' '',
        CHR 0x09, CHR 0x0B, CHR 0x0C}"
      by auto
    then show ?thesis by (simp add: url_char_def std_char_def is_space_def)
  qed (simp_all add: b64_char_def url_char_def std_char_def is_space_def char_codes)
qed

definition unpadded :: "string \<Rightarrow> string" where
  "unpadded s = takeWhile (\<lambda>c. c \<noteq> CHR ''='') s"

lemma unpadded_encode:
  "set (unpadded (b64_encode b)) \<subseteq> b64_char ` {..<64} \<and> length (unpadded (b64_encode b)) mod 4 \<noteq> 1 \<and>
   b64_encode b = unpadded (b64_encode b) @ replicate ((4 - length (unpadded (b64_encode b)) mod 4) mod 4) CHR ''=''"
proof (induction b rule: b64_encode.induct)
  case (2 a)
  then show ?case by (auto simp: unpadded_def Let_def sextets numeral_2_eq_2)
next
  case (3 a b)
  then show ?case by (auto simp: unpadded_def Let_def sextets numeral_2_eq_2)
next
  case (4 a b c rest)
  then show ?case by (simp add: unpadded_def Let_def sextets)
qed (simp add: unpadded_def)

lemma raw_url_decode_encode: "raw_url_decode (raw_url_encode b) = Some b"
proof -
  let ?u = "unpadded (b64_encode b)"
  note u = unpadded_encode [of b]
  have char: "\<exists>n < 64. c = b64_char n" if "c \<in> set ?u" for c using u that by auto
  have f: "filter (\<lambda>c. c \<noteq> CHR 0x0A \<and> c \<noteq> CHR 0x0D) (map url_char ?u) = map url_char ?u"
    using char url_charD by (fastforce intro!: filter_True)
  have e: "\<not> list_ex (\<lambda>c. c \<in> {CHR ''+'', CHR ''/'', CHR ''=''}) (map url_char ?u)"
    using char url_charD by (fastforce simp: list_ex_iff)
  have m: "map std_char (map url_char ?u) = ?u"
    using char url_charD by (fastforce intro!: map_idI)
  have "raw_url_encode b = map url_char ?u" by (simp add: raw_url_encode_def unpadded_def)
  then have "raw_url_decode (raw_url_encode b) =
      b64_quads (?u @ replicate ((4 - length ?u mod 4) mod 4) CHR ''='')"
    unfolding raw_url_decode_def Let_def using e u f m by (simp del: map_map)
  with u show ?thesis by (metis b64_quads_encode)
qed

lemma raw_url_encode_no_space: "c \<in> set (raw_url_encode b) \<Longrightarrow> \<not> is_space c"
proof -
  assume "c \<in> set (raw_url_encode b)"
  then obtain x where x: "x \<in> set (unpadded (b64_encode b))" "c = url_char x"
    by (auto simp: raw_url_encode_def unpadded_def)
  from x(1) unpadded_encode [of b] obtain n where "n < 64" "x = b64_char n" by auto
  with url_charD x(2) show ?thesis by blast
qed

lemma hex4_low: "d < 16 \<Longrightarrow> e < 16 \<Longrightarrow> hex4 CHR ''0'' CHR ''0'' (digit_char d) (digit_char e) = Some (d * 16 + e)"
proof -
  have "digit_val CHR ''0'' = Some 0" by (simp add: digit_val_def)
  moreover assume "d < 16" "e < 16"
  ultimately show ?thesis by (simp add: hex4_def parse_base_def digit_val_char)
qed

lemma jstring_escape_char: "jstring (escape_char c @ s) = add_str [c] (jstring s)"
proof -
  let ?n = "of_char c :: nat"
  have char: "char_of ?n = c" by simp
  have code: "?n = 34 \<Longrightarrow> c = CHR 0x22" "?n = 92 \<Longrightarrow> c = CHR 0x5C" "?n = 8 \<Longrightarrow> c = CHR 0x08"
    "?n = 12 \<Longrightarrow> c = CHR 0x0C" "?n = 10 \<Longrightarrow> c = CHR 0x0A" "?n = 13 \<Longrightarrow> c = CHR 0x0D" "?n = 9 \<Longrightarrow> c = CHR 0x09"
    using char char_codes by metis+
  consider "?n = 34" | "?n = 92" | "?n = 8" | "?n = 12" | "?n = 10" | "?n = 13" | "?n = 9"
    | (u) "?n < 32 \<or> ?n = 60 \<or> ?n = 62 \<or> ?n = 38" "?n \<notin> {34, 92, 8, 12, 10, 13, 9}"
    | (plain) "\<not> ?n < 32" "?n \<notin> {34, 92, 60, 62, 38}" by fastforce
  then show ?thesis
  proof cases
    case u
    then have lt: "?n < 128" by auto
    then have d: "?n div 16 < 16" "?n mod 16 < 16" by auto
    have "escape_char c = [CHR 0x5C, CHR ''u'', CHR ''0'', CHR ''0'', digit_char (?n div 16), digit_char (?n mod 16)]"
      using u by (auto simp: escape_char_def Let_def)
    with d lt char show ?thesis
      by (simp add: hex4_low is_high_surrogate_def is_low_surrogate_def utf8_def del: of_char_of)
  next
    case plain
    then have "escape_char c = [c]" by (auto simp: escape_char_def Let_def)
    moreover have "c \<noteq> CHR 0x22" "c \<noteq> CHR 0x5C" using plain by auto
    ultimately show ?thesis using plain by simp
  qed (drule code, simp add: escape_char_def simple_escape_def)+
qed

lemma jstring_escape: "jstring (escape s @ CHR 0x22 # r) = Some (s, r)"
proof (induction s)
  case (Cons c s)
  then show ?case using jstring_escape_char [of c "escape s @ CHR 0x22 # r"]
    by (simp add: escape_def add_str_def)
qed (simp add: escape_def)

lemma jvalue_string: "jvalue (Suc n) (quote s @ r) = Some (JStr s, r)"
  by (simp add: quote_def skip_def is_jspace_def jstring_escape)

lemma jmembers_string:
  "jmembers (Suc (Suc n)) (quote k @ CHR '':'' # quote s @ c # r) =
     (if c = CHR 0x7D then Some ([(k, JStr s)], r)
      else if c = CHR '','' then map_option (\<lambda>(kvs, r). (add_member k (JStr s) kvs, r)) (jmembers (Suc n) r)
      else if is_jspace c then jmembers (Suc (Suc n)) (quote k @ CHR '':'' # quote s @ c # r) else None)"
proof -
  have "\<not> is_jspace CHR 0x22" "\<not> is_jspace CHR '':''" "\<not> is_jspace CHR 0x7D" "\<not> is_jspace CHR '',''"
    by (simp_all add: is_jspace_def)
  moreover have "skip (CHR 0x22 # x) = CHR 0x22 # x" "skip (CHR '':'' # x) = CHR '':'' # x" for x
    by (simp_all add: skip_def is_jspace_def)
  ultimately show ?thesis
    using jvalue_string [of n s "c # r"]
    by (auto simp: quote_def jstring_escape skip_def simp del: jvalue.simps)
qed

lemma decode_cursor:
  "decode (marshal (JObj [(''v'', JNum 1), (''created_at'', JStr c), (''id'', JStr i)])) =
     Some (JObj [(''created_at'', JStr c), (''id'', JStr i), (''v'', JNum 1)])"
proof -
  let ?tail = "quote ''v'' @ '':1'' @ [CHR 0x7D]"
  let ?t = "CHR 0x7B # quote ''created_at'' @ CHR '':'' # quote c @ CHR '','' # quote ''id'' @ CHR '':'' # quote i @ CHR '','' # ?tail"
  have m: "marshal (JObj [(''v'', JNum 1), (''created_at'', JStr c), (''id'', JStr i)]) = ?t"
    by (simp add: sort_pairs_def show_num_def show_int_def show_base.simps digit_char_def char_codes)
  obtain n where n: "2 * length ?t + 2 = Suc (Suc (Suc (Suc (Suc (Suc n)))))"
    by (rule that [of "2 * length ?t - 4"]) (simp add: quote_def)
  have tail: "jmembers (Suc (Suc n)) ?tail = Some ([(''v'', JNum 1)], [])" for n
    by (simp add: quote_def escape_def escape_char_def json_eval)
  have "jmembers (Suc (Suc (Suc (Suc (Suc n))))) (tl ?t) = Some ([(''created_at'', JStr c), (''id'', JStr i), (''v'', JNum 1)], [])"
    using tail by (simp add: jmembers_string add_member_def del: jmembers.simps)
  moreover have "skip ?t = ?t" "skip (tl ?t) \<noteq> []" "hd (skip (tl ?t)) \<noteq> CHR 0x7D"
    by (simp_all add: skip_def is_jspace_def quote_def)
  ultimately have "jvalue (Suc (Suc (Suc (Suc (Suc (Suc n)))))) ?t =
      Some (JObj [(''created_at'', JStr c), (''id'', JStr i), (''v'', JNum 1)], [])"
    by (simp del: jmembers.simps)
  then show ?thesis unfolding m decode_def n by (simp add: skip_def)
qed

lemma parse_format_cursor:
  assumes "created \<noteq> []" "i \<noteq> []"
  shows "parse_event_cursor (format_event_cursor created i) = Inr (created, i)"
proof -
  let ?c = "format_event_cursor created i"
  have t: "trim_space ?c = ?c"
    using raw_url_encode_no_space by (auto simp: format_event_cursor_def intro!: trim_space_no_space)
  have "raw_url_decode ?c = Some (marshal (JObj [(''v'', JNum 1), (''created_at'', JStr created), (''id'', JStr i)]))"
    by (simp add: format_event_cursor_def raw_url_decode_encode del: marshal.simps)
  moreover have "?c \<noteq> []"
  proof
    assume "?c = []"
    then have "raw_url_decode ?c = Some []" by (simp add: raw_url_decode_def)
    with calculation show False by simp
  qed
  ultimately show ?thesis using assms
    by (simp add: parse_event_cursor_def Let_def t decode_cursor int64_field_def string_field_def jfield_def
        equal_fold_def to_lower_def ascii_lower_def del: marshal.simps)
qed

section \<open>The pages are the listing\<close>

definition listing :: "event_filter \<Rightarrow> db \<Rightarrow> event list" where
  "listing f d = sort_key event_key (filter (event_matches f) (db_events d))"

definition page_limit :: "int \<Rightarrow> int" where
  "page_limit want = (if want = 0 then 100 else if want > 1000 then 1000 else want)"

text \<open>The cursor that stands before row \<open>m\<close> of the listing.\<close>

definition cursor_at :: "event list \<Rightarrow> nat \<Rightarrow> string" where
  "cursor_at es m = (if m = 0 then [] else format_event_cursor (ev_created_at (es ! (m - 1))) (ev_id (es ! (m - 1))))"

definition identified :: "db \<Rightarrow> bool" where
  "identified d \<longleftrightarrow> distinct (map ev_id (db_events d)) \<and>
     list_all (\<lambda>e. ev_created_at e \<noteq> [] \<and> ev_id e \<noteq> []) (db_events d)"

lemma behind_iff: "behind (ev_created_at a, ev_id a) e \<longleftrightarrow> event_key a < event_key e"
  by (auto simp: behind_def event_key_def)

lemma listing_strict:
  assumes "identified d"
  shows "sorted_wrt (\<lambda>a b. event_key a < event_key b) (listing f d)"
proof -
  have "distinct (map event_key (filter (event_matches f) (db_events d)))"
    using assms by (auto simp: identified_def distinct_map inj_on_def event_key_def)
  then have "distinct (map event_key (listing f d))"
    by (simp add: listing_def distinct_map)
  moreover have "sorted (map event_key (listing f d))" by (simp add: listing_def)
  ultimately show ?thesis using strict_sorted_iff sorted_wrt_map by blast
qed

lemma filter_behind:
  assumes "sorted_wrt (\<lambda>a b. event_key a < event_key b) es" "0 < m" "m \<le> length es"
  shows "filter (behind (ev_created_at (es ! (m - 1)), ev_id (es ! (m - 1)))) es = drop m es"
proof -
  obtain k where k: "m = Suc k" using assms(2) by (cases m) auto
  with assms(3) have split: "es = take k es @ es ! k # drop m es" by (simp add: id_take_nth_drop)
  have "sorted_wrt (\<lambda>a b. event_key a < event_key b) (take k es @ es ! k # drop m es)"
    using assms(1) split by simp
  then have lt: "\<forall>a \<in> set (take k es). event_key a < event_key (es ! k)"
    and gt: "\<forall>a \<in> set (drop m es). event_key (es ! k) < event_key a" by (auto simp: sorted_wrt_append)
  then have "filter (\<lambda>e. event_key (es ! k) < event_key e) (take k es @ es ! k # drop m es) = drop m es"
    by (auto simp: filter_empty_conv filter_id_conv dest: less_asym)
  moreover have "behind (ev_created_at (es ! k), ev_id (es ! k)) = (\<lambda>e. event_key (es ! k) < event_key e)"
    by (rule ext) (rule behind_iff)
  ultimately have "filter (behind (ev_created_at (es ! k), ev_id (es ! k))) (take k es @ es ! k # drop m es) = drop m es"
    by simp
  then have "filter (behind (ev_created_at (es ! k), ev_id (es ! k))) es = drop m es"
    by (simp only: split [symmetric])
  with k show ?thesis by simp
qed

lemma cursor_not_Nil: "created \<noteq> [] \<Longrightarrow> i \<noteq> [] \<Longrightarrow> format_event_cursor created i \<noteq> []"
  using parse_format_cursor [of created i] by (auto simp: parse_event_cursor_def)

lemma page_rows:
  assumes "identified d" "m \<le> length (listing f d)" "cursor = cursor_at (listing f d) m"
  shows "\<exists>k. parse_event_cursor cursor = Inr k \<and>
    sort_key event_key (filter (\<lambda>e. event_matches f e \<and> (cursor \<noteq> [] \<longrightarrow> behind k e)) (db_events d)) = drop m (listing f d)"
proof (cases "m = 0")
  case True
  with assms show ?thesis by (simp add: cursor_at_def parse_event_cursor_def listing_def)
next
  case False
  let ?e = "listing f d ! (m - 1)"
  have "?e \<in> set (listing f d)" using False assms(2) by (intro nth_mem) linarith
  then have e: "ev_created_at ?e \<noteq> []" "ev_id ?e \<noteq> []"
    using assms(1) by (auto simp: listing_def identified_def list_all_iff)
  have c: "cursor = format_event_cursor (ev_created_at ?e) (ev_id ?e)" using False assms(3) by (simp add: cursor_at_def)
  have "sort_key event_key (filter (\<lambda>e. event_matches f e \<and> behind (ev_created_at ?e, ev_id ?e) e) (db_events d)) =
      filter (behind (ev_created_at ?e, ev_id ?e)) (listing f d)"
    unfolding listing_def filter_sort by (simp add: conj_commute)
  also have "\<dots> = drop m (listing f d)"
    using filter_behind [OF listing_strict [OF assms(1)] _ assms(2)] False by simp
  finally show ?thesis using c e parse_format_cursor [OF e] cursor_not_Nil [OF e] by auto
qed

lemma list_events_page_rows:
  assumes "parse_event_cursor cursor = Inr k" "0 \<le> want" "l = nat (page_limit want)"
    and "sort_key event_key (filter (\<lambda>e. event_matches f e \<and> (cursor \<noteq> [] \<longrightarrow> behind k e)) (db_events d)) = rows"
  shows "\<exists>p. list_events_page sha f want cursor d = Inr p \<and> lr_events p = take l rows \<and>
    lr_has_more p = (l < length rows) \<and>
    lr_next_cursor p = (if l < length rows then format_event_cursor (ev_created_at (last (take l rows))) (ev_id (last (take l rows))) else [])"
proof -
  have l: "0 < l" using assms(2,3) by (auto simp: page_limit_def)
  have lim: "(if want = 0 then 100 else if want > 1000 then 1000 else want) = page_limit want"
    by (simp add: page_limit_def)
  have neg: "(want < 0) = False" using assms(2) by simp
  have nonempty: "l < length rows \<Longrightarrow> take l rows \<noteq> []" using l by auto
  obtain a b where "event_list_integrity sha f (count_events f d) (if l < length rows then take l rows else take (l + 1) rows)
      (page_limit want) cursor = (a, b)" by force
  then show ?thesis
    unfolding list_events_page_def Let_def assms(1,4) sum.case lim neg assms(3) [symmetric]
    using nonempty by (cases "l < length rows") (simp_all add: min_def)
qed

lemma list_events_page_at:
  assumes "identified d" "m \<le> length (listing f d)" "0 \<le> want"
  shows "\<exists>p. list_events_page sha f want (cursor_at (listing f d) m) d = Inr p \<and>
    lr_events p = take (nat (page_limit want)) (drop m (listing f d)) \<and>
    lr_has_more p = (nat (page_limit want) < length (drop m (listing f d))) \<and>
    (lr_has_more p \<longrightarrow> lr_next_cursor p = cursor_at (listing f d) (m + nat (page_limit want)))"
proof -
  let ?c = "cursor_at (listing f d) m" and ?l = "nat (page_limit want)" and ?r = "drop m (listing f d)"
  have l: "0 < ?l" using assms(3) by (auto simp: page_limit_def)
  from page_rows [OF assms(1,2) refl] obtain k where k: "parse_event_cursor ?c = Inr k"
    "sort_key event_key (filter (\<lambda>e. event_matches f e \<and> (?c \<noteq> [] \<longrightarrow> behind k e)) (db_events d)) = ?r" by blast
  have last: "last (take ?l ?r) = listing f d ! (m + ?l - 1)" if "?l < length ?r"
    using that l by (simp add: last_conv_nth)
  from list_events_page_rows [OF k(1) assms(3) refl k(2), of sha] last l show ?thesis
    by (auto simp: cursor_at_def)
qed

text \<open>C8: Paging loses nothing and repeats nothing. When event identifiers are distinct, a client that asks
for page after page with the cursor it was given, whatever limit it names, gets a last page after at most
one page per event, and the pages together are the matching events in the order of the listing.\<close>

theorem pages_are_the_listing:
  assumes "identified d"
  shows "follow_pages (Suc (count_events f d)) sha f want [] d = Some (listing f d)"
proof (cases "want < 0")
  case True
  then show ?thesis
    by (simp add: list_events_page_def Let_def parse_event_cursor_def listing_def split: prod.split)
next
  case False
  have "follow_pages (Suc n) sha f want (cursor_at (listing f d) m) d = Some (drop m (listing f d))"
    if "m \<le> length (listing f d)" "length (listing f d) - m \<le> n" for m n
    using that
  proof (induction n arbitrary: m)
    case 0
    from list_events_page_at [OF assms 0(1), of want sha] False 0 show ?case by auto
  next
    case (Suc n)
    let ?l = "nat (page_limit want)"
    have l: "0 < ?l" using False by (auto simp: page_limit_def)
    from list_events_page_at [OF assms Suc.prems(1), of want sha] False
    obtain p where p: "list_events_page sha f want (cursor_at (listing f d) m) d = Inr p"
      "lr_events p = take ?l (drop m (listing f d))" "lr_has_more p = (?l < length (drop m (listing f d)))"
      "lr_has_more p \<longrightarrow> lr_next_cursor p = cursor_at (listing f d) (m + ?l)" by auto
    show ?case
    proof (cases "lr_has_more p")
      case True
      with p(3) l Suc.prems
      have "follow_pages (Suc n) sha f want (cursor_at (listing f d) (m + ?l)) d = Some (drop (m + ?l) (listing f d))"
        by (intro Suc.IH) auto
      with p True show ?thesis by (simp add: add.commute [of m] flip: drop_drop)
    next
      case False
      with p show ?thesis by simp
    qed
  qed
  from this [of 0 "count_events f d"] show ?thesis by (simp add: cursor_at_def listing_def count_events_def)
qed

definition toy_event :: "string \<Rightarrow> string \<Rightarrow> event" where
  "toy_event i ts = \<lparr>ev_id = i, ev_run_id = Some ''run-1'', ev_session_id = None, ev_tool_call_id = [], ev_process_id = [],
     ev_snapshot_id = [], ev_raw_event_id = [], ev_correlation_method = [], ev_correlation_confidence = 0,
     ev_container_id = [], ev_cgroup_id = [], ev_pid = 0, ev_tgid = 0, ev_ppid = 0, ev_binding_source = [],
     ev_source = ''falco_jsonl'', ev_event_type = ''execve'', ev_payload = [], ev_created_at = ts\<rparr>"

definition toy_events :: db where
  "toy_events = empty_db\<lparr>db_events := [toy_event ''e2'' ''t2'', toy_event ''e3'' ''t1'', toy_event ''e1'' ''t1'']\<rparr>"

definition everything :: event_filter where
  "everything = \<lparr>el_run_id = [], el_session_id = [], el_type = [], el_tool_call_id = []\<rparr>"

lemma pages_are_the_listing_witness:
  "follow_pages 4 (\<lambda>b. b) everything 1 [] toy_events =
     Some [toy_event ''e1'' ''t1'', toy_event ''e3'' ''t1'', toy_event ''e2'' ''t2'']"
proof -
  have "identified toy_events" by (simp add: identified_def toy_events_def toy_event_def)
  from pages_are_the_listing [OF this, of everything "\<lambda>b. b" 1]
  show ?thesis
    by (simp add: count_events_def listing_def toy_events_def everything_def event_matches_def event_key_def toy_event_def
        numeral_eq_Suc del: follow_pages.simps)
qed

end
