(* ===== verification/Correlation.thy ===== *)
theory Correlation
  imports World Json GoInt
begin

text \<open>
  \<open>internal/correlation/binding.go\<close>: which execution context a raw event belongs to. A binding says
  that a process, a container or a cgroup worked for a tool call in a window of time; \<open>Resolve\<close> asks the
  tiers from the most to the least specific. Times are texts and are compared as texts. The lemmas state
  the contract of a resolution, what closing a binding is for, and where the order of the texts is not
  the order of time.
\<close>

section \<open>Identities and matches\<close>

record raw_identity =
  ri_run_id :: string
  ri_process_id :: string
  ri_container_id :: string
  ri_cgroup_id :: string
  ri_pid :: int
  ri_tgid :: int
  ri_ppid :: int
  ri_timestamp :: string

record binding_match =
  ma_binding :: binding
  ma_method :: string
  ma_confidence :: rat

record binding_filter =
  bf_run_id :: string
  bf_session_id :: string
  bf_attempt_id :: string
  bf_tool_call_id :: string
  bf_process_id :: string

definition binding_source_k8s :: string where "binding_source_k8s = ''k8s_cgroup''"

definition default_binding_confidence :: "string \<Rightarrow> rat" where
  "default_binding_confidence source =
     (if source = ''ai_asserted'' then 1 / 2 else if source = binding_source_k8s then 4 / 5 else 1)"

section \<open>Writing bindings\<close>

definition record_binding :: "binding \<Rightarrow> world \<Rightarrow> (string \<times> bool) \<times> world" where
  "record_binding b w =
     (let (started, w) = (if bi_started_at b = [] then now w else (bi_started_at b, w));
          source = (if bi_binding_source b = [] then ''control_plane'' else bi_binding_source b);
          conf = (if bi_confidence b \<le> 0 then default_binding_confidence source else bi_confidence b);
          (i, w) = (if bi_id b = [] then new_id ''bind'' w else (bi_id b, w));
          (created, w) = now w;
          (ok, w) = exec (tbl_insert db_execution_context_bindings db_execution_context_bindings_update bi_id
            (b\<lparr>bi_id := i, bi_started_at := started, bi_binding_source := source, bi_confidence := conf,
               bi_created_at := created\<rparr>)) w
      in ((i, ok), w))"

definition close_where :: "(binding \<Rightarrow> bool) \<Rightarrow> string \<Rightarrow> world \<Rightarrow> bool \<times> world" where
  "close_where P ended w =
     (let (ended, w) = (if ended = [] then now w else (ended, w)) in
      exec_total (tbl_update db_execution_context_bindings_update (\<lambda>b. P b \<and> bi_ended_at b = [])
        (\<lambda>b. b\<lparr>bi_ended_at := ended\<rparr>)) w)"

definition close_binding :: "string \<Rightarrow> string \<Rightarrow> world \<Rightarrow> bool \<times> world" where
  "close_binding process ended w =
     (if process = [] then (True, w) else close_where (\<lambda>b. bi_process_id b = process) ended w)"

definition close_binding_by_id :: "string \<Rightarrow> string \<Rightarrow> world \<Rightarrow> bool \<times> world" where
  "close_binding_by_id i ended w =
     (if trim_space i = [] then (False, w) else close_where (\<lambda>b. bi_id b = i) ended w)"

definition close_binding_by_pid :: "int \<Rightarrow> string \<Rightarrow> world \<Rightarrow> bool \<times> world" where
  "close_binding_by_pid pid ended w =
     (if pid = 0 then (True, w) else close_where (\<lambda>b. bi_pid b = pid) ended w)"

section \<open>Reading bindings\<close>

definition binding_filter_matches :: "binding_filter \<Rightarrow> binding \<Rightarrow> bool" where
  "binding_filter_matches f b \<longleftrightarrow>
     (bf_run_id f \<noteq> [] \<longrightarrow> bi_run_id b = bf_run_id f) \<and>
     (bf_session_id f \<noteq> [] \<longrightarrow> bi_session_id b = bf_session_id f) \<and>
     (bf_attempt_id f \<noteq> [] \<longrightarrow> bi_attempt_id b = bf_attempt_id f) \<and>
     (bf_tool_call_id f \<noteq> [] \<longrightarrow> bi_tool_call_id b = bf_tool_call_id f) \<and>
     (bf_process_id f \<noteq> [] \<longrightarrow> bi_process_id b = bf_process_id f)"

definition list_bindings :: "binding_filter \<Rightarrow> db \<Rightarrow> binding list" where
  "list_bindings f d =
     order_asc bi_started_at (order_asc bi_created_at
       (filter (binding_filter_matches f) (db_execution_context_bindings d)))"

definition get_binding :: "string \<Rightarrow> db \<Rightarrow> binding option" where
  "get_binding i d = (if i = [] then None else find (\<lambda>b. bi_id b = i) (db_execution_context_bindings d))"

section \<open>Resolution\<close>

definition max_open_binding_age :: int where
  "max_open_binding_age = 24 * 3600 * 1000000000"

definition open_binding_lower_bound :: "string \<Rightarrow> string" where
  "open_binding_lower_bound ts =
     (case parse_time ts of None \<Rightarrow> [] | Some t \<Rightarrow> format_time (t - max_open_binding_age))"

type_synonym lookup = "world \<Rightarrow> (go_error + binding_match option) \<times> world"

definition scan_one :: "string \<Rightarrow> string \<Rightarrow> rat \<Rightarrow> (db \<Rightarrow> binding option) \<Rightarrow> lookup" where
  "scan_one method source conf sel w =
     (case query sel w of
        (None, w) \<Rightarrow> (Inl SqlError, w)
      | (Some None, w) \<Rightarrow> (Inr None, w)
      | (Some (Some b), w) \<Rightarrow>
          (let conf = (if 0 < bi_confidence b \<and> bi_confidence b < conf then bi_confidence b else conf) in
           (Inr (Some \<lparr>ma_binding = b, ma_method = method @ '':'' @ source, ma_confidence = conf\<rparr>), w)))"

definition run_source :: "string \<Rightarrow> string \<Rightarrow> string" where
  "run_source run source = (if run \<noteq> [] then ''run_id+'' @ source else source)"

definition resolve_by_process :: "string \<Rightarrow> string \<Rightarrow> lookup" where
  "resolve_by_process run process =
     scan_one ''process_id'' (run_source run ''process_id'') 1
       (\<lambda>d. first_max bi_created_at (filter (\<lambda>b. (run \<noteq> [] \<longrightarrow> bi_run_id b = run) \<and> bi_process_id b = process)
         (db_execution_context_bindings d)))"

definition in_window :: "string \<Rightarrow> bool \<Rightarrow> binding \<Rightarrow> bool" where
  "in_window ts bound_open b \<longleftrightarrow>
     bi_started_at b \<le> ts \<and>
     (if bi_ended_at b = [] then bound_open \<longrightarrow> open_binding_lower_bound ts \<le> bi_started_at b
      else ts \<le> bi_ended_at b)"

definition resolve_window :: "string \<Rightarrow> string \<Rightarrow> string \<Rightarrow> (binding \<Rightarrow> bool) \<Rightarrow> rat \<Rightarrow> string \<Rightarrow> bool \<Rightarrow> lookup" where
  "resolve_window run method source P conf ts bound_open =
     scan_one method (run_source run source) conf
       (\<lambda>d. first_max bi_started_at (filter (\<lambda>b. (run \<noteq> [] \<longrightarrow> bi_run_id b = run) \<and> P b \<and> in_window ts bound_open b)
         (db_execution_context_bindings d)))"

definition resolve_by_cgroup :: "string \<Rightarrow> string \<Rightarrow> string \<Rightarrow> lookup" where
  "resolve_by_cgroup run cgroup ts =
     resolve_window run ''cgroup_time_window'' ''cgroup_id+time'' (\<lambda>b. bi_cgroup_id b = cgroup) (98 / 100) ts False"

definition resolve_by_container :: "string \<Rightarrow> string \<Rightarrow> string \<Rightarrow> lookup" where
  "resolve_by_container run container ts =
     resolve_window run ''container_time_window'' ''container_id+time''
       (\<lambda>b. bi_container_id b = container) (92 / 100) ts False"

definition resolve_by_pid :: "string \<Rightarrow> int \<Rightarrow> string \<Rightarrow> lookup" where
  "resolve_by_pid run pid ts =
     resolve_window run ''pid_time_window'' ''pid+time'' (\<lambda>b. bi_pid b = pid \<or> bi_root_pid b = pid) (85 / 100) ts True"

text \<open>A tier whose key the event lacks is skipped; an error or a match ends the search.\<close>

definition try_tier :: "bool \<Rightarrow> lookup \<Rightarrow> lookup \<Rightarrow> lookup" where
  "try_tier on tier next w =
     (if on then (case tier w of (Inr None, w) \<Rightarrow> next w | r \<Rightarrow> r) else next w)"

definition resolve :: "raw_identity \<Rightarrow> lookup" where
  "resolve r w =
     (let run = ri_run_id r; (ts, w) = (if ri_timestamp r = [] then now w else (ri_timestamp r, w)) in
      try_tier (ri_process_id r \<noteq> []) (resolve_by_process run (ri_process_id r))
       (try_tier (ri_cgroup_id r \<noteq> []) (resolve_by_cgroup run (ri_cgroup_id r) ts)
        (try_tier (ri_container_id r \<noteq> []) (resolve_by_container run (ri_container_id r) ts)
         (try_tier (ri_pid r \<noteq> 0) (resolve_by_pid run (ri_pid r) ts) (\<lambda>w. (Inr None, w))))) w)"

section \<open>The stored payload\<close>

text \<open>\<open>%q\<close> of a text whose bytes above 127 are printable runes, and \<open>%.2f\<close>.\<close>

definition go_quote_char :: "char \<Rightarrow> string" where
  "go_quote_char c =
     (let n = of_char c :: nat in
      if n = 34 \<or> n = 92 then [CHR 0x5C, c]
      else if n = 7 then [CHR 0x5C, CHR ''a''] else if n = 8 then [CHR 0x5C, CHR ''b'']
      else if n = 9 then [CHR 0x5C, CHR ''t''] else if n = 10 then [CHR 0x5C, CHR ''n'']
      else if n = 11 then [CHR 0x5C, CHR ''v''] else if n = 12 then [CHR 0x5C, CHR ''f'']
      else if n = 13 then [CHR 0x5C, CHR ''r'']
      else if n < 32 \<or> n = 127 then [CHR 0x5C, CHR ''x'', digit_char (n div 16), digit_char (n mod 16)]
      else [c])"

definition go_quote :: "string \<Rightarrow> string" where
  "go_quote s = CHR 0x22 # concat (map go_quote_char s) @ [CHR 0x22]"

definition show_fixed2 :: "rat \<Rightarrow> string" where
  "show_fixed2 r =
     (let n = round_even (100 * \<bar>r\<bar>) in
      (if r < 0 then ''-'' else []) @ show_int (n div 100) @ ''.'' @ pad 2 (nat (n mod 100)))"

definition key_text :: "string \<Rightarrow> string" where
  "key_text k = CHR 0x22 # k @ [CHR 0x22, CHR '':'']"

definition event_payload_with_correlation :: "string \<Rightarrow> binding_match option \<Rightarrow> string" where
  "event_payload_with_correlation payload m =
     (let payload = (if payload = [] then [CHR 0x7B, CHR 0x7D] else payload) in
      CHR 0x7B # key_text ''raw'' @ payload @ '','' @ key_text ''correlation'' @ [CHR 0x7B] @
      (case m of
         None \<Rightarrow> key_text ''method'' @ go_quote ''unresolved'' @ '','' @ key_text ''confidence'' @ ''0''
       | Some m \<Rightarrow> key_text ''binding_id'' @ go_quote (bi_id (ma_binding m)) @ '','' @ key_text ''method'' @
           go_quote (ma_method m) @ '','' @ key_text ''confidence'' @ show_fixed2 (ma_confidence m)) @
      [CHR 0x7D, CHR 0x7D])"

section \<open>The contract of a resolution\<close>

text \<open>
  The specification: the tiers as a table, and what a result has to be. \<open>tr_key\<close> is the time that
  decides between several candidates.
\<close>

record tier =
  tr_on :: bool
  tr_method :: string
  tr_confidence :: rat
  tr_candidate :: "binding \<Rightarrow> bool"
  tr_key :: "binding \<Rightarrow> string"

definition tiers :: "raw_identity \<Rightarrow> string \<Rightarrow> tier list" where
  "tiers r ts =
     (let run = (\<lambda>b. ri_run_id r \<noteq> [] \<longrightarrow> bi_run_id b = ri_run_id r) in
      [\<lparr>tr_on = ri_process_id r \<noteq> [], tr_method = ''process_id'', tr_confidence = 1,
        tr_candidate = (\<lambda>b. run b \<and> bi_process_id b = ri_process_id r), tr_key = bi_created_at\<rparr>,
       \<lparr>tr_on = ri_cgroup_id r \<noteq> [], tr_method = ''cgroup_time_window'', tr_confidence = 98 / 100,
        tr_candidate = (\<lambda>b. run b \<and> bi_cgroup_id b = ri_cgroup_id r \<and> in_window ts False b), tr_key = bi_started_at\<rparr>,
       \<lparr>tr_on = ri_container_id r \<noteq> [], tr_method = ''container_time_window'', tr_confidence = 92 / 100,
        tr_candidate = (\<lambda>b. run b \<and> bi_container_id b = ri_container_id r \<and> in_window ts False b), tr_key = bi_started_at\<rparr>,
       \<lparr>tr_on = ri_pid r \<noteq> 0, tr_method = ''pid_time_window'', tr_confidence = 85 / 100,
        tr_candidate = (\<lambda>b. run b \<and> (bi_pid b = ri_pid r \<or> bi_root_pid b = ri_pid r) \<and> in_window ts True b),
        tr_key = bi_started_at\<rparr>])"

definition silent :: "binding list \<Rightarrow> tier \<Rightarrow> bool" where
  "silent bs t \<longleftrightarrow> \<not> tr_on t \<or> \<not> list_ex (tr_candidate t) bs"

definition picks :: "binding list \<Rightarrow> tier \<Rightarrow> binding_match \<Rightarrow> bool" where
  "picks bs t m \<longleftrightarrow>
     (let b = ma_binding m in
      tr_on t \<and> b \<in> set bs \<and> tr_candidate t b \<and> list_all (\<lambda>c. tr_candidate t c \<longrightarrow> tr_key t c \<le> tr_key t b) bs \<and>
      has_prefix (ma_method m) (tr_method t @ '':'') \<and>
      ma_confidence m = (if 0 < bi_confidence b then min (bi_confidence b) (tr_confidence t) else tr_confidence t))"

fun resolves_to :: "binding list \<Rightarrow> tier list \<Rightarrow> binding_match option \<Rightarrow> bool" where
  "resolves_to bs [] res \<longleftrightarrow> res = None"
| "resolves_to bs (t # ts) res \<longleftrightarrow>
     (if silent bs t then resolves_to bs ts res else (\<exists>m. res = Some m \<and> picks bs t m))"

definition same_db :: "world \<Rightarrow> world \<Rightarrow> bool" where
  "same_db w w' \<longleftrightarrow> no_faults w' \<and> w_db w' = w_db w"

text \<open>The shape every tier has.\<close>

definition implements :: "lookup \<Rightarrow> tier list \<Rightarrow> bool" where
  "implements f ts \<longleftrightarrow>
     (\<forall>w. no_faults w \<longrightarrow>
        (\<exists>res w'. f w = (Inr res, w') \<and> same_db w w' \<and> resolves_to (db_execution_context_bindings (w_db w)) ts res))"

lemma implements_none: "implements (\<lambda>w. (Inr None, w)) []"
  by (auto simp: implements_def same_db_def)

lemma implements_tier:
  assumes "implements next ts" "tr_method t = method" "tr_confidence t = conf"
  shows "implements (try_tier (tr_on t) (scan_one method source conf
     (\<lambda>d. first_max (tr_key t) (filter (tr_candidate t) (db_execution_context_bindings d)))) next) (t # ts)"
  unfolding implements_def
proof (intro allI impI)
  fix w
  assume w: "no_faults w"
  let ?bs = "db_execution_context_bindings (w_db w)"
  let ?w = "w\<lparr>w_stmts := Suc (w_stmts w)\<rparr>"
  let ?sel = "\<lambda>d. first_max (tr_key t) (filter (tr_candidate t) (db_execution_context_bindings d))"
  from assms(1) w obtain res w' where nx: "next w = (Inr res, w')" "same_db w w'" "resolves_to ?bs ts res"
    unfolding implements_def by blast
  from assms(1) [unfolded implements_def, rule_format, of ?w] w
  obtain res2 w2 where nx2: "next ?w = (Inr res2, w2)" "same_db ?w w2" "resolves_to ?bs ts res2" by auto
  show "\<exists>res w'. try_tier (tr_on t) (scan_one method source conf ?sel) next w = (Inr res, w') \<and> same_db w w' \<and>
      resolves_to ?bs (t # ts) res"
  proof (cases "tr_on t")
    case False
    with nx show ?thesis by (simp add: try_tier_def silent_def)
  next
    case on: True
    show ?thesis
    proof (cases "?sel (w_db w)")
      case None
      then have "silent ?bs t" by (auto simp: silent_def list_ex_iff filter_empty_conv)
      with None on w nx2 show ?thesis by (simp add: try_tier_def scan_one_def query_no_faults same_db_def)
    next
      case (Some b)
      from first_max_Some [OF Some]
      have b: "b \<in> set ?bs" "tr_candidate t b" "\<forall>c \<in> set ?bs. tr_candidate t c \<longrightarrow> tr_key t c \<le> tr_key t b" by auto
      then have "\<not> silent ?bs t" using on by (auto simp: silent_def list_ex_iff)
      with b on Some w assms(2,3) show ?thesis
        by (auto simp: try_tier_def scan_one_def query_no_faults same_db_def picks_def Let_def list_all_iff min_def
            has_prefix_iff)
    qed
  qed
qed

lemma resolve_implements:
  assumes "no_faults w"
  shows "\<exists>res w'. resolve r w = (Inr res, w') \<and> w_db w' = w_db w \<and>
     resolves_to (db_execution_context_bindings (w_db w))
       (tiers r (if ri_timestamp r = [] then fst (now w) else ri_timestamp r)) res"
proof -
  define ts where "ts = (if ri_timestamp r = [] then fst (now w) else ri_timestamp r)"
  define w0 where "w0 = (if ri_timestamp r = [] then snd (now w) else w)"
  have w0: "no_faults w0" "w_db w0 = w_db w" using assms by (simp_all add: w0_def now_def)
  have "resolve r w =
      try_tier (ri_process_id r \<noteq> []) (resolve_by_process (ri_run_id r) (ri_process_id r))
       (try_tier (ri_cgroup_id r \<noteq> []) (resolve_by_cgroup (ri_run_id r) (ri_cgroup_id r) ts)
        (try_tier (ri_container_id r \<noteq> []) (resolve_by_container (ri_run_id r) (ri_container_id r) ts)
         (try_tier (ri_pid r \<noteq> 0) (resolve_by_pid (ri_run_id r) (ri_pid r) ts) (\<lambda>w. (Inr None, w))))) w0"
    by (cases "now w") (simp add: resolve_def Let_def w0_def ts_def)
  moreover have "implements (try_tier (ri_process_id r \<noteq> []) (resolve_by_process (ri_run_id r) (ri_process_id r))
       (try_tier (ri_cgroup_id r \<noteq> []) (resolve_by_cgroup (ri_run_id r) (ri_cgroup_id r) ts)
        (try_tier (ri_container_id r \<noteq> []) (resolve_by_container (ri_run_id r) (ri_container_id r) ts)
         (try_tier (ri_pid r \<noteq> 0) (resolve_by_pid (ri_run_id r) (ri_pid r) ts) (\<lambda>w. (Inr None, w)))))) (tiers r ts)"
    unfolding tiers_def Let_def resolve_by_process_def resolve_by_cgroup_def resolve_by_container_def
      resolve_by_pid_def resolve_window_def
    by (rule implements_tier [where t = "\<lparr>tr_on = a, tr_method = b, tr_confidence = c, tr_candidate = d, tr_key = e\<rparr>"
          for a b c d e, simplified] implements_none refl)+
  ultimately show ?thesis using w0 unfolding implements_def same_db_def ts_def [symmetric] by metis
qed

text \<open>C5: \<open>Resolve\<close> implements its contract. When the store answers, it changes nothing, and its result is
that of the first tier that has a candidate: a binding of that tier with the right key, inside its
window, the latest of all candidates, with a confidence that exceeds neither what the tier nor what the
binding may vouch for; it reports no match exactly when no tier the event has a key for has a candidate.\<close>

theorem resolve_contract:
  assumes "no_faults w"
  shows "case resolve r w of
      (Inr res, w') \<Rightarrow> w_db w' = w_db w \<and>
        resolves_to (db_execution_context_bindings (w_db w))
          (tiers r (if ri_timestamp r = [] then fst (now w) else ri_timestamp r)) res
    | (Inl e, w') \<Rightarrow> False"
  using resolve_implements [OF assms, of r] by auto

lemma resolves_to_Some: "resolves_to bs ts (Some m) \<Longrightarrow> \<exists>t \<in> set ts. picks bs t m"
  by (induction ts) (auto split: if_splits)

lemma resolves_to_silent: "list_all (silent bs) ts \<Longrightarrow> resolves_to bs ts res \<longleftrightarrow> res = None"
  by (induction ts) simp_all

section \<open>A store that never fails\<close>

definition quiet_world :: "db \<Rightarrow> world" where
  "quiet_world d = \<lparr>w_db = d, w_entropy = (\<lambda>i. Some (show_nat i)), w_ids = 0, w_clock = (\<lambda>i. i), w_ticks = 0,
     w_fault = (\<lambda>_. False), w_stmts = 0\<rparr>"

lemma quiet_world_simps [simp]: "no_faults (quiet_world d)" "w_db (quiet_world d) = d"
  by (simp_all add: quiet_world_def no_faults_def)

definition toy_binding :: binding where
  "toy_binding = \<lparr>bi_id = ''bind-1'', bi_run_id = ''run-1'', bi_session_id = ''sess-1'', bi_attempt_id = [],
     bi_tool_call_id = ''call-1'', bi_process_id = ''proc-1'', bi_container_id = [], bi_cgroup_id = ''cg-1'',
     bi_root_pid = 7, bi_pid = 42, bi_started_at = format_time 0, bi_ended_at = [],
     bi_binding_source = ''k8s_cgroup'', bi_confidence = 4 / 5, bi_created_at = format_time 0\<rparr>"

definition toy_identity :: "string \<Rightarrow> raw_identity" where
  "toy_identity ts = \<lparr>ri_run_id = [], ri_process_id = [], ri_container_id = [], ri_cgroup_id = ''cg-1'', ri_pid = 42,
     ri_tgid = 42, ri_ppid = 7, ri_timestamp = ts\<rparr>"

definition binding_db :: "binding list \<Rightarrow> db" where
  "binding_db bs = empty_db\<lparr>db_execution_context_bindings := bs\<rparr>"

lemma binding_db_simps [simp]: "db_execution_context_bindings (binding_db bs) = bs"
  by (simp add: binding_db_def)

lemma resolve_contract_witness:
  "case resolve (toy_identity (format_time 0)) (quiet_world (binding_db [toy_binding])) of
      (Inr res, w') \<Rightarrow> w_db w' = binding_db [toy_binding] \<and>
        resolves_to [toy_binding] (tiers (toy_identity (format_time 0)) (format_time 0)) res
    | (Inl e, w') \<Rightarrow> False"
proof -
  have ts: "ri_timestamp (toy_identity (format_time 0)) = format_time 0" by (simp add: toy_identity_def)
  show ?thesis
    using resolve_contract [of "quiet_world (binding_db [toy_binding])" "toy_identity (format_time 0)"]
    unfolding ts by (simp split: sum.splits prod.splits)
qed

section \<open>Closed scopes\<close>

definition bindings_of :: "world \<Rightarrow> binding list" where
  "bindings_of w = db_execution_context_bindings (w_db w)"

lemma close_binding_by_pid_rows:
  "no_faults w \<Longrightarrow> pid \<noteq> 0 \<Longrightarrow> ended \<noteq> [] \<Longrightarrow>
     close_binding_by_pid pid ended w = (ok, w') \<Longrightarrow> no_faults w' \<and> ok \<and>
       bindings_of w' = map (\<lambda>b. if bi_pid b = pid \<and> bi_ended_at b = [] then b\<lparr>bi_ended_at := ended\<rparr> else b) (bindings_of w)"
  by (auto simp: close_binding_by_pid_def close_where_def exec_total_no_faults bindings_of_def
      execution_context_bindings.update_get)


text \<open>An event with only a process number: before the exit it belongs to the open binding, after it to none.\<close>

definition pid_only :: "string \<Rightarrow> raw_identity" where
  "pid_only ts = (toy_identity ts)\<lparr>ri_cgroup_id := []\<rparr>"

definition closed_toy :: binding where
  "closed_toy = toy_binding\<lparr>bi_ended_at := format_time 9000000000\<rparr>"

lemma toy_times:
  "format_time 0 = ''1970-01-01T00:00:00Z''" "format_time 5000000000 = ''1970-01-01T00:00:05Z''"
  "format_time 9000000000 = ''1970-01-01T00:00:09Z''"
  by code_simp+

lemma toy_close:
  "close_binding_by_pid 42 (format_time 0) (quiet_world (binding_db [toy_binding, closed_toy])) =
     (True, (quiet_world (binding_db [toy_binding\<lparr>bi_ended_at := format_time 0\<rparr>, closed_toy]))\<lparr>w_stmts := 1\<rparr>)"
  by (simp add: close_binding_by_pid_def close_where_def exec_total_no_faults tbl_update_def binding_db_def
      toy_binding_def closed_toy_def) (simp add: quiet_world_def)

lemma toy_resolve:
  "resolve (pid_only (format_time 5000000000))
     ((quiet_world (binding_db [toy_binding\<lparr>bi_ended_at := format_time 0\<rparr>, closed_toy]))\<lparr>w_stmts := 1\<rparr>) =
   (Inr (Some \<lparr>ma_binding = closed_toy, ma_method = ''pid_time_window:pid+time'', ma_confidence = 4 / 5\<rparr>),
     (quiet_world (binding_db [toy_binding\<lparr>bi_ended_at := format_time 0\<rparr>, closed_toy]))\<lparr>w_stmts := 2\<rparr>)"
  by (simp add: resolve_def pid_only_def toy_identity_def try_tier_def resolve_by_pid_def resolve_window_def
      scan_one_def query_no_faults in_window_def closed_toy_def toy_binding_def run_source_def toy_times)


text \<open>A scope loses the events of its first second. When bindings start on a whole second, as those
the Kubernetes informer records do, no event later in that second is attributed to them through its
cgroup, its container or its process number: the start is written without a fraction and compares above
every text of the same second that has one.\<close>

theorem first_second_unattributed:
  assumes "no_faults w" "t mod 1000000000 = 0" "t < t'" "t' < t + 1000000000"
    and "list_all (\<lambda>b. bi_started_at b = format_time t) (bindings_of w)"
    and "ri_process_id r = []" "ri_timestamp r = format_time t'"
  shows "fst (resolve r w) = Inr None"
proof -
  from format_time_misordered [OF assms(2-4)] assms(5)
  have "\<not> in_window (format_time t') bound b" if "b \<in> set (bindings_of w)" for b bound
    using that by (auto simp: in_window_def list_all_iff)
  then have "list_all (silent (bindings_of w)) (tiers r (format_time t'))"
    using assms(6) by (auto simp: tiers_def Let_def silent_def list_ex_iff)
  with resolve_implements [OF assms(1), of r] assms(7) show ?thesis
    by (auto simp: resolves_to_silent bindings_of_def)
qed

lemma first_second_unattributed_witness:
  "fst (resolve (toy_identity (format_time 500000000)) (quiet_world (binding_db [toy_binding]))) = Inr None"
  by (rule first_second_unattributed [of _ 0 500000000])
    (simp_all add: bindings_of_def toy_binding_def toy_identity_def)

end
