(* ===== verification/Ingest.thy ===== *)
theory Ingest
  imports Correlation Redact TelemetrySchema Verify
begin

text \<open>
  \<open>internal/telemetry/service.go\<close>: the way of a filtered event into the store (validation, redaction,
  correlation, the event row, the causality edges, the closing of bindings, evidence and taint), and the
  paged listing of events. Errors the code drops are dropped: the statement ran or it did not. The lemmas
  show which snapshots an event taints, that the edges of an event are the ones \<open>graph verify\<close> asks for,
  and that the pages of a listing are the listing.
\<close>

section \<open>Events\<close>

record ingest_event =
  ig_run_id :: string
  ig_rollout_id :: string
  ig_attempt_id :: string
  ig_session_id :: string
  ig_tool_call_id :: string
  ig_process_id :: string
  ig_snapshot_id :: string
  ig_raw_event_id :: string
  ig_container_id :: string
  ig_cgroup_id :: string
  ig_pid :: int
  ig_tgid :: int
  ig_ppid :: int
  ig_timestamp :: string
  ig_source :: string
  ig_event_type :: string
  ig_payload :: string
  ig_binding_source :: string

definition allowed_event_types :: "string list" where
  "allowed_event_types = [''execve'', ''process_exit'', ''process_observed'', ''file_open'', ''file_write'',
     ''network_connect'', ''metadata_ip'', ''private_cidr'', ''secret_path'', ''abnormal_process_tree'',
     ''policy_verdict'', ''resource_pressure'', ''tls_write'', ''tls_read'', ''setuid'', ''setgid'', ''ptrace'',
     ''file_rename'', ''file_unlink'', ''dns_query'']"

definition allowed_event_type :: "string \<Rightarrow> bool" where
  "allowed_event_type t \<longleftrightarrow> list_ex (\<lambda>x. t = x) allowed_event_types"

definition llm_action_event_type :: "string \<Rightarrow> bool" where
  "llm_action_event_type t \<longleftrightarrow>
     t \<in> {''execve'', ''network_connect'', ''metadata_ip'', ''private_cidr'', ''file_write'', ''secret_path''}"

definition high_risk_event :: "string \<Rightarrow> bool" where
  "high_risk_event t \<longleftrightarrow> t \<in> {''metadata_ip'', ''private_cidr'', ''secret_path'', ''policy_verdict''}"

section \<open>The path of a file event\<close>

function find_payload_path :: "json \<Rightarrow> string" where
  "find_payload_path v =
     (case v of
        JObj kvs \<Rightarrow> first_non_empty
          [direct_path kvs,
           (case jget ''raw'' kvs of None \<Rightarrow> [] | Some n \<Rightarrow> find_payload_path n),
           (case jget ''payload'' kvs of None \<Rightarrow> [] | Some n \<Rightarrow> find_payload_path n),
           (case jget ''event'' kvs of None \<Rightarrow> [] | Some n \<Rightarrow> find_payload_path n)]
      | JArr vs \<Rightarrow> first_non_empty (map find_payload_path vs)
      | _ \<Rightarrow> [])"
  by pat_completeness auto
termination
  by (relation "measure size") (auto dest: json_obj_size json_arr_size)

declare find_payload_path.simps [simp del]

definition payload_path :: "string \<Rightarrow> string" where
  "payload_path payload =
     (case decode payload of
        None \<Rightarrow> []
      | Some v \<Rightarrow>
          let p = trim_prefix (trim_prefix (trim_space (find_payload_path v)) ''/workspace/'') ''./''
          in if p = ''.'' \<or> p = ''..'' \<or> has_prefix p ''../'' \<or> has_prefix p ''/'' then [] else p)"

definition substantive_abs_file_path :: "string \<Rightarrow> string" where
  "substantive_abs_file_path payload =
     (case decode payload of
        None \<Rightarrow> []
      | Some v \<Rightarrow>
          let p = trim_space (find_payload_path v) in
          if \<not> has_prefix p ''/'' \<or> p = ''/dev/null'' then []
          else if list_ex (has_prefix p) [''/dev/'', ''/proc/'', ''/sys/'', ''/run/'', ''pipe:'', ''socket:'', ''anon_inode:'']
          then [] else p)"

section \<open>Causality edges\<close>

text \<open>One edge row; \<open>insert\<close> of the code: an empty end adds nothing, and the error is dropped.\<close>

definition runtime_edge :: "string \<Rightarrow> string \<Rightarrow> string \<Rightarrow> string \<Rightarrow> string \<Rightarrow> string \<Rightarrow> string \<Rightarrow> string \<Rightarrow> graph_edge" where
  "runtime_edge i run rollout src dst ty ev ts =
     \<lparr>ge_id = i, ge_run_id = run, ge_rollout_id = rollout, ge_from_id = src, ge_to_id = dst, ge_edge_type = ty,
      ge_source_event_id = ev, ge_created_at = ts\<rparr>"

definition insert_edge ::
  "string \<Rightarrow> string \<Rightarrow> string \<Rightarrow> string \<Rightarrow> string \<times> string \<times> string \<Rightarrow> world \<Rightarrow> world" where
  "insert_edge run rollout ev ts edge w =
     (case edge of (src, dst, ty) \<Rightarrow>
        if src = [] \<or> dst = [] then w
        else let (i, w) = new_id ''edge'' w in
          exec_ignore (tbl_insert db_graph_edges db_graph_edges_update ge_id
            (runtime_edge i run rollout src dst ty ev ts)) w)"

definition insert_edges ::
  "string \<Rightarrow> string \<Rightarrow> string \<Rightarrow> string \<Rightarrow> (string \<times> string \<times> string) list \<Rightarrow> world \<Rightarrow> world" where
  "insert_edges run rollout ev ts edges w = fold (insert_edge run rollout ev ts) edges w"

text \<open>The edges that follow from the event alone, in the order of the code.\<close>

definition structural_edges :: "ingest_event \<Rightarrow> string \<Rightarrow> (string \<times> string \<times> string) list" where
  "structural_edges e i =
     (let node = event_node i; process = ig_process_id e; pid = ig_pid e; ppid = ig_ppid e; tgid = ig_tgid e in
      [(ig_attempt_id e, node, ''runtime_attempt_event''),
       (ig_tool_call_id e, process, ''runtime_tool_call_process''),
       (ig_tool_call_id e, node, ''runtime_tool_call_event''),
       (process, node, ''runtime_process_event''),
       (ig_snapshot_id e, node, ''runtime_snapshot_event'')] @
      (if pid \<noteq> 0 then
         (if process \<noteq> [] then [(process, pid_node pid, ''runtime_process_observed'')] else []) @
         [(pid_node pid, node, ''runtime_process_event'')]
       else []) @
      (if pid \<noteq> 0 \<and> ppid \<noteq> 0 then
         [(pid_node ppid, pid_node pid, ''runtime_process_parent''),
          (pid_node pid, pid_node ppid, ''runtime_process_child_of'')]
       else []) @
      (if pid \<noteq> 0 \<and> tgid \<noteq> 0 \<and> tgid \<noteq> pid then [(tgid_node tgid, pid_node pid, ''runtime_process_thread'')]
       else []))"

definition file_edges :: "ingest_event \<Rightarrow> string \<Rightarrow> (string \<times> string \<times> string) list" where
  "file_edges e i =
     (if ig_event_type e = ''file_write'' \<or> ig_event_type e = ''file_open'' then
        let path = (if payload_path (ig_payload e) = [] then substantive_abs_file_path (ig_payload e)
                    else payload_path (ig_payload e)); fnode = ''workspace_file/'' @ path in
        if path = [] then []
        else [(event_node i, fnode, ''runtime_event_file'')] @
          (if ig_process_id e \<noteq> [] then [(ig_process_id e, fnode, ''runtime_process_file'')] else []) @
          (if ig_tool_call_id e \<noteq> [] then [(ig_tool_call_id e, fnode, ''runtime_tool_call_file'')] else []) @
          (if ig_attempt_id e \<noteq> [] then [(ig_attempt_id e, fnode, ''runtime_attempt_file'')] else [])
      else [])"

text \<open>\<open>recentScopedEvent\<close>: the latest event of a type in the two minutes before; no row and a failed
query both give the empty text.\<close>

definition window_start :: "string \<Rightarrow> string" where
  "window_start ts = (case parse_time ts of None \<Rightarrow> ts | Some t \<Rightarrow> format_time (t - 120 * 1000000000))"

definition recent_event :: "string \<Rightarrow> string \<Rightarrow> string \<Rightarrow> string \<Rightarrow> db \<Rightarrow> string" where
  "recent_event ty run process ts d =
     (case first_max (\<lambda>e. [ev_created_at e, ev_id e]) (filter (\<lambda>e. ev_run_id e = Some run \<and> ev_event_type e = ty \<and>
         ev_created_at e \<le> ts \<and> window_start ts \<le> ev_created_at e \<and>
         (process \<noteq> [] \<longrightarrow> ev_process_id e = process)) (db_events d)) of
        None \<Rightarrow> [] | Some e \<Rightarrow> ev_id e)"

definition recent_scoped_event :: "string \<Rightarrow> string \<Rightarrow> string \<Rightarrow> string \<Rightarrow> world \<Rightarrow> string \<times> world" where
  "recent_scoped_event ty run process ts w =
     (if run = [] then ([], w)
      else case query (recent_event ty run process ts) w of (r, w) \<Rightarrow> (case r of None \<Rightarrow> [] | Some i \<Rightarrow> i, w))"

definition edge_from_exists :: "string \<Rightarrow> string \<Rightarrow> world \<Rightarrow> bool \<times> world" where
  "edge_from_exists src ty w =
     (case query (\<lambda>d. list_ex (\<lambda>g. ge_from_id g = src \<and> ge_edge_type g = ty) (db_graph_edges d)) w of
        (r, w) \<Rightarrow> (r = Some True, w))"

definition rollout_of_attempt :: "string \<Rightarrow> db \<Rightarrow> string" where
  "rollout_of_attempt a d = (case find (\<lambda>x. fa_id x = a) (db_fork_attempts d) of None \<Rightarrow> [] | Some x \<Rightarrow> fa_rollout_id x)"

definition query_text :: "(db \<Rightarrow> string) \<Rightarrow> world \<Rightarrow> string \<times> world" where
  "query_text f w = (case query f w of (r, w) \<Rightarrow> (case r of None \<Rightarrow> [] | Some s \<Rightarrow> s, w))"

definition intent_edge :: "ingest_event \<Rightarrow> string \<Rightarrow> string \<Rightarrow> string \<Rightarrow> world \<Rightarrow> world" where
  "intent_edge e rollout i ts w =
     (if llm_action_event_type (ig_event_type e) then
        let (intent, w) = recent_scoped_event ''tls_read'' (ig_run_id e) (ig_process_id e) ts w in
        if intent \<noteq> [] then
          insert_edge (ig_run_id e) rollout i ts (event_node intent, event_node i, ''llm_intent_caused'') w
        else w
      else w)"

definition call_edge :: "ingest_event \<Rightarrow> string \<Rightarrow> string \<Rightarrow> string \<Rightarrow> world \<Rightarrow> world" where
  "call_edge e rollout i ts w =
     (if ig_event_type e = ''tls_read'' then
        let (req, w) = recent_scoped_event ''tls_write'' (ig_run_id e) (ig_process_id e) ts w in
        if req \<noteq> [] then
          (let (seen, w) = edge_from_exists (event_node req) ''llm_call'' w in
           if seen then w
           else insert_edge (ig_run_id e) rollout i ts (event_node req, event_node i, ''llm_call'') w)
        else w
      else w)"

definition record_runtime_causality_edges :: "ingest_event \<Rightarrow> string \<Rightarrow> string \<Rightarrow> world \<Rightarrow> world" where
  "record_runtime_causality_edges e i ts w =
     (if ig_run_id e = [] then w
      else
        let (rollout, w) =
              (if ig_rollout_id e = [] \<and> ig_attempt_id e \<noteq> [] then query_text (rollout_of_attempt (ig_attempt_id e)) w
               else (ig_rollout_id e, w));
            w = insert_edges (ig_run_id e) rollout i ts (structural_edges e i @ file_edges e i) w
        in call_edge e rollout i ts (intent_edge e rollout i ts w))"

section \<open>Taint\<close>

text \<open>
  The breadth-first walk over \<open>snapshot_edges\<close>. The queue and the visited snapshots are lists; the map
  \<open>seen\<close> is later iterated in an order that only decides which identifier each row gets.
\<close>

definition snapshot_children :: "string \<Rightarrow> db \<Rightarrow> string list" where
  "snapshot_children i d =
     map sx_child_id (filter (\<lambda>x. sx_parent_id x = i \<and> list_ex (\<lambda>s. sn_id s = sx_child_id x) (db_snapshots d))
       (db_snapshot_edges d))"

definition taint_row :: "string \<Rightarrow> db \<Rightarrow> db" where
  "taint_row i = tbl_update db_snapshots_update (\<lambda>s. sn_id s = i) (\<lambda>s. s\<lparr>sn_status := ''tainted'', sn_tainted := 1\<rparr>)"

definition pending :: "string list \<Rightarrow> string list \<Rightarrow> db \<Rightarrow> string set" where
  "pending queue seen d = (set queue \<union> sx_child_id ` set (db_snapshot_edges d)) - set seen"

lemma exec_taint_edges: "db_snapshot_edges (w_db (snd (exec_total (taint_row i) w))) = db_snapshot_edges (w_db w)"
  by (simp add: exec_total_def exec_def taint_row_def tbl_update_def Let_def)

function taint_walk :: "string list \<Rightarrow> string list \<Rightarrow> world \<Rightarrow> string list option \<times> world" where
  "taint_walk queue seen w =
     (case queue of
        [] \<Rightarrow> (Some seen, w)
      | i # queue \<Rightarrow>
          if i \<in> set seen then taint_walk queue seen w
          else
            (case exec_total (taint_row i) w of
               (ok, w1) \<Rightarrow>
                 if \<not> ok then (None, w1)
                 else (case query (snapshot_children i) w1 of
                     (None, w2) \<Rightarrow> (None, w2)
                   | (Some children, w2) \<Rightarrow> taint_walk (queue @ children) (seen @ [i]) w2)))"
  by pat_completeness auto
termination
proof (relation "measures [\<lambda>(queue, seen, w). card (pending queue seen (w_db w)), \<lambda>(queue, seen, w). length queue]",
    goal_cases)
  case (2 queue seen w i rest)
  then have "pending rest seen (w_db w) \<subseteq> pending queue seen (w_db w)" by (auto simp: pending_def)
  then have "card (pending rest seen (w_db w)) \<le> card (pending queue seen (w_db w))"
    by (intro card_mono) (auto simp: pending_def)
  with 2 show ?case by auto
next
  case (3 queue seen w i rest ok w1 r w2 children)
  have e1: "db_snapshot_edges (w_db w1) = db_snapshot_edges (w_db w)" using exec_taint_edges [of i w] unfolding 3(3) [symmetric] by simp
  have "w_db w2 = w_db w1" "children = snapshot_children i (w_db w1)"
    using query_db [OF 3(5) [symmetric]] 3(6) by auto
  then have "pending (rest @ children) (seen @ [i]) (w_db w2) \<subseteq> pending queue seen (w_db w) - {i}"
    using e1 3(1) by (auto simp: pending_def snapshot_children_def)
  moreover have "i \<in> pending queue seen (w_db w)" using 3(1,2) by (simp add: pending_def)
  moreover have "finite (pending queue seen (w_db w))" by (simp add: pending_def)
  ultimately have "card (pending (rest @ children) (seen @ [i]) (w_db w2)) < card (pending queue seen (w_db w))"
    by (meson Diff_subset_conv card_Diff1_less card_mono finite_Diff le_less_trans)
  then show ?case by auto
qed auto

declare taint_walk.simps [simp del]

definition tainted_event :: "string \<Rightarrow> string \<Rightarrow> string \<Rightarrow> string \<Rightarrow> string \<Rightarrow> string \<Rightarrow> event" where
  "tainted_event i run snapshot reason origin ts =
     \<lparr>ev_id = i, ev_run_id = Some run, ev_session_id = None, ev_tool_call_id = [], ev_process_id = [],
      ev_snapshot_id = snapshot, ev_raw_event_id = [], ev_correlation_method = [], ev_correlation_confidence = 0,
      ev_container_id = [], ev_cgroup_id = [], ev_pid = 0, ev_tgid = 0, ev_ppid = 0, ev_binding_source = [],
      ev_source = ''filtered_telemetry'', ev_event_type = ''snapshot_tainted'',
      ev_payload = CHR 0x7B # key_text ''reason'' @ go_quote reason @ '','' @ key_text ''root_snapshot_id'' @
        go_quote origin @ [CHR 0x7D],
      ev_created_at = ts\<rparr>"

definition insert_tainted_event :: "string \<Rightarrow> string \<Rightarrow> string \<Rightarrow> string \<Rightarrow> string \<Rightarrow> world \<Rightarrow> world" where
  "insert_tainted_event origin run reason ts snapshot w =
     (let (i, w) = new_id ''evt'' w in
      exec_ignore (tbl_insert db_events db_events_update ev_id (tainted_event i run snapshot reason origin ts)) w)"

definition taint_snapshot_and_descendants :: "string \<Rightarrow> string \<Rightarrow> string \<Rightarrow> string \<Rightarrow> world \<Rightarrow> bool \<times> world" where
  "taint_snapshot_and_descendants origin run reason ts w =
     (case taint_walk [origin] [] w of
        (None, w) \<Rightarrow> (False, w)
      | (Some seen, w) \<Rightarrow> (True, fold (insert_tainted_event origin run reason ts) seen w))"

section \<open>Ingestion\<close>

text \<open>A read outside of an open transaction sees the state committed before it began.\<close>

definition on_committed :: "db option \<Rightarrow> (world \<Rightarrow> 'a \<times> world) \<Rightarrow> world \<Rightarrow> 'a \<times> world" where
  "on_committed committed f w =
     (case committed of
        None \<Rightarrow> f w
      | Some d \<Rightarrow> (case f (w\<lparr>w_db := d\<rparr>) of (r, w') \<Rightarrow> (r, w'\<lparr>w_db := w_db w\<rparr>)))"

definition identity_of :: "ingest_event \<Rightarrow> raw_identity" where
  "identity_of e =
     \<lparr>ri_run_id = ig_run_id e, ri_process_id = ig_process_id e, ri_container_id = ig_container_id e,
      ri_cgroup_id = ig_cgroup_id e, ri_pid = ig_pid e, ri_tgid = ig_tgid e, ri_ppid = ig_ppid e,
      ri_timestamp = ig_timestamp e\<rparr>"

definition or_else :: "string \<Rightarrow> string \<Rightarrow> string" where
  "or_else a b = (if a = [] then b else a)"

text \<open>The context a match adds, and the rollout and snapshot of its attempt.\<close>

definition fill_from_binding :: "binding \<Rightarrow> ingest_event \<Rightarrow> ingest_event" where
  "fill_from_binding b e =
     e\<lparr>ig_run_id := or_else (ig_run_id e) (bi_run_id b), ig_session_id := or_else (ig_session_id e) (bi_session_id b),
       ig_tool_call_id := or_else (ig_tool_call_id e) (bi_tool_call_id b),
       ig_process_id := or_else (ig_process_id e) (bi_process_id b),
       ig_attempt_id := or_else (ig_attempt_id e) (bi_attempt_id b)\<rparr>"

definition fill_from_attempt :: "ingest_event \<Rightarrow> world \<Rightarrow> ingest_event \<times> world" where
  "fill_from_attempt e w =
     (if ig_attempt_id e \<noteq> [] \<and> (ig_rollout_id e = [] \<or> ig_snapshot_id e = []) then
        (case query (\<lambda>d. find (\<lambda>a. fa_id a = ig_attempt_id e) (db_fork_attempts d)) w of
           (Some (Some a), w) \<Rightarrow>
             (e\<lparr>ig_rollout_id := or_else (ig_rollout_id e) (fa_rollout_id a),
                ig_snapshot_id := or_else (ig_snapshot_id e) (fa_snapshot_id a)\<rparr>, w)
         | (_, w) \<Rightarrow> (e, w))
      else (e, w))"

definition fill_origin :: "binding \<Rightarrow> ingest_event \<Rightarrow> ingest_event" where
  "fill_origin b e =
     e\<lparr>ig_container_id := or_else (ig_container_id e) (bi_container_id b),
       ig_cgroup_id := or_else (ig_cgroup_id e) (bi_cgroup_id b),
       ig_pid := (if ig_pid e = 0 then bi_pid b else ig_pid e)\<rparr>"

record resolution =
  rs_event :: ingest_event
  rs_method :: string
  rs_confidence :: rat
  rs_binding_source :: string

definition correlate :: "db option \<Rightarrow> ingest_event \<Rightarrow> world \<Rightarrow> (go_error + resolution) \<times> world" where
  "correlate committed e w =
     (let provided = \<lparr>rs_event = e, rs_method = ''provided_context'', rs_confidence = 1,
                      rs_binding_source = ig_binding_source e\<rparr> in
      if ig_run_id e \<noteq> [] \<and> ig_session_id e \<noteq> [] \<and> ig_tool_call_id e \<noteq> [] \<and> ig_process_id e \<noteq> []
      then (Inr provided, w)
      else (case on_committed committed (resolve (identity_of e)) w of
          (Inl err, w) \<Rightarrow> (Inl err, w)
        | (Inr (Some m), w) \<Rightarrow>
            (let (e, w) = fill_from_attempt (fill_from_binding (ma_binding m) e) w;
                 e = fill_origin (ma_binding m) e;
                 e = e\<lparr>ig_payload := event_payload_with_correlation (ig_payload e) (Some m)\<rparr>
             in (Inr \<lparr>rs_event = e, rs_method = ma_method m, rs_confidence = ma_confidence m,
                      rs_binding_source = bi_binding_source (ma_binding m)\<rparr>, w))
        | (Inr None, w) \<Rightarrow>
            if ig_run_id e = [] \<or> ig_session_id e = [] \<or> ig_tool_call_id e = [] then
              (Inr \<lparr>rs_event = e\<lparr>ig_payload := event_payload_with_correlation (ig_payload e) None\<rparr>,
                    rs_method = ''unresolved'', rs_confidence = 0, rs_binding_source = ig_binding_source e\<rparr>, w)
            else (Inr provided, w)))"

definition sampled :: "resolution \<Rightarrow> resolution" where
  "sampled r =
     (if ig_source (rs_event r) = ''record_process_sample'' \<and> ig_event_type (rs_event r) = ''process_observed''
      then r\<lparr>rs_method := ''zero_sdk_process_tree'',
             rs_confidence := (if rs_confidence r = 1 then 9 / 10 else rs_confidence r)\<rparr>
      else r)"

definition stored_payload :: "ingest_event \<Rightarrow> string" where
  "stored_payload e =
     (if ig_rollout_id e \<noteq> [] \<or> ig_attempt_id e \<noteq> [] then
        CHR 0x7B # key_text ''rollout_id'' @ go_quote (ig_rollout_id e) @ '','' @ key_text ''attempt_id'' @
          go_quote (ig_attempt_id e) @ '','' @ key_text ''payload'' @ ig_payload e @ [CHR 0x7D]
      else ig_payload e)"

definition stored_event :: "string \<Rightarrow> string \<Rightarrow> resolution \<Rightarrow> event" where
  "stored_event i ts r =
     (let e = rs_event r in
      \<lparr>ev_id = i, ev_run_id = Some (ig_run_id e), ev_session_id = Some (ig_session_id e),
       ev_tool_call_id = ig_tool_call_id e, ev_process_id = ig_process_id e, ev_snapshot_id = ig_snapshot_id e,
       ev_raw_event_id = ig_raw_event_id e, ev_correlation_method = rs_method r,
       ev_correlation_confidence = rs_confidence r, ev_container_id = ig_container_id e,
       ev_cgroup_id = ig_cgroup_id e, ev_pid = ig_pid e, ev_tgid = ig_tgid e, ev_ppid = ig_ppid e,
       ev_binding_source = rs_binding_source r, ev_source = ig_source e, ev_event_type = ig_event_type e,
       ev_payload = stored_payload e, ev_created_at = ts\<rparr>)"

definition queue_evidence :: "ingest_event \<Rightarrow> string \<Rightarrow> world \<Rightarrow> world" where
  "queue_evidence e ts w =
     (if ig_rollout_id e \<noteq> [] \<or> ig_attempt_id e \<noteq> [] \<or> ig_snapshot_id e \<noteq> [] then
        let (i, w) = new_id ''evidence'' w in
        exec_ignore (tbl_insert db_evidence_events db_evidence_events_update ee_id
          \<lparr>ee_id = i, ee_run_id = ig_run_id e, ee_rollout_id = ig_rollout_id e, ee_attempt_id = ig_attempt_id e,
           ee_session_id = ig_session_id e, ee_tool_call_id = ig_tool_call_id e,
           ee_snapshot_id = ig_snapshot_id e, ee_event_type = ig_event_type e,
           ee_priority = (if high_risk_event (ig_event_type e) then ''high'' else ''normal''),
           ee_payload = stored_payload e, ee_status = ''queued'', ee_created_at = ts, ee_processed_at = []\<rparr>) w
      else w)"

definition close_exited :: "ingest_event \<Rightarrow> string \<Rightarrow> world \<Rightarrow> world" where
  "close_exited e ts w =
     (if ig_event_type e = ''process_exit'' \<and> ig_pid e \<noteq> 0 then
        snd (close_binding_by_pid (ig_pid e) (if trim_space (ig_timestamp e) \<noteq> [] then trim_space (ig_timestamp e) else ts) w)
      else w)"

definition taint_if_risky :: "ingest_event \<Rightarrow> string \<Rightarrow> world \<Rightarrow> world" where
  "taint_if_risky e ts w =
     (if ig_snapshot_id e \<noteq> [] \<and> high_risk_event (ig_event_type e) then
        snd (taint_snapshot_and_descendants (ig_snapshot_id e) (ig_run_id e) (ig_event_type e) ts w)
      else w)"

text \<open>What follows the event row.\<close>

definition after_insert :: "ingest_event \<Rightarrow> string \<Rightarrow> string \<Rightarrow> world \<Rightarrow> world" where
  "after_insert e i ts w =
     taint_if_risky e ts (queue_evidence e ts (close_exited e ts (record_runtime_causality_edges e i ts w)))"

definition normalized_event :: "ingest_event \<Rightarrow> ingest_event" where
  "normalized_event e =
     e\<lparr>ig_source := or_else (ig_source e) ''filtered_telemetry'',
       ig_payload := (if ig_payload e = [] then [CHR 0x7B, CHR 0x7D] else ig_payload e)\<rparr>"

definition ingest_with_store :: "db option \<Rightarrow> ingest_event \<Rightarrow> world \<Rightarrow> (go_error + string) \<times> world" where
  "ingest_with_store committed e w =
     (if ig_event_type e = [] then (Inl (Errorf ''event_type is required''), w)
      else if \<not> allowed_event_type (ig_event_type e) then (Inl (Errorf ''rejected by filtered driver''), w)
      else
        let e = normalized_event e in
        if validate_raw_payload (ig_event_type e) (ig_payload e) \<noteq> None then (Inl (Errorf ''invalid payload''), w)
        else
          (case correlate committed (e\<lparr>ig_payload := redact_string (ig_payload e)\<rparr>) w of
             (Inl err, w) \<Rightarrow> (Inl err, w)
           | (Inr r, w) \<Rightarrow>
               let r = sampled r; (i, w) = new_id ''evt'' w; (ts, w) = now w;
                   (ok, w) = exec (tbl_insert db_events db_events_update ev_id (stored_event i ts r)) w
               in if \<not> ok then (Inl SqlError, w) else (Inr i, after_insert (rs_event r) i ts w)))"

definition ingest_filtered :: "ingest_event \<Rightarrow> world \<Rightarrow> (go_error + string) \<times> world" where
  "ingest_filtered e w = ingest_with_store None e w"

section \<open>What a taint reaches\<close>

inductive descendant :: "db \<Rightarrow> string \<Rightarrow> string \<Rightarrow> bool" for d a where
  descendant_self: "descendant d a a"
| descendant_child: "descendant d a b \<Longrightarrow> c \<in> set (snapshot_children b d) \<Longrightarrow> descendant d a c"

definition taint :: "snapshot \<Rightarrow> snapshot" where
  "taint s = s\<lparr>sn_status := ''tainted'', sn_tainted := 1\<rparr>"

definition tainted_as :: "db \<Rightarrow> string list \<Rightarrow> db \<Rightarrow> bool" where
  "tainted_as d seen d' \<longleftrightarrow>
     db_snapshots d' = map (\<lambda>s. if sn_id s \<in> set seen then taint s else s) (db_snapshots d) \<and>
     db_snapshot_edges d' = db_snapshot_edges d"

lemma sn_id_taint [simp]: "sn_id (taint s) = sn_id s" "taint (taint s) = taint s"
  by (simp_all add: taint_def)

lemma list_ex_map_id: "list_ex (\<lambda>s. f s = c) xs \<longleftrightarrow> c \<in> set (map f xs)"
  by (auto simp: list_ex_iff)

lemma tainted_as_children: "tainted_as d seen d' \<Longrightarrow> snapshot_children i d' = snapshot_children i d"
proof -
  assume "tainted_as d seen d'"
  then have "map sn_id (db_snapshots d') = map sn_id (db_snapshots d)" "db_snapshot_edges d' = db_snapshot_edges d"
    by (simp_all add: tainted_as_def)
  then have "list_ex (\<lambda>s. sn_id s = c) (db_snapshots d') = list_ex (\<lambda>s. sn_id s = c) (db_snapshots d)" for c
    using list_ex_map_id [of sn_id c] by metis
  with \<open>db_snapshot_edges d' = _\<close> show ?thesis by (simp add: snapshot_children_def)
qed

lemma tainted_as_row: "tainted_as d seen d' \<Longrightarrow> tainted_as d (seen @ [i]) (taint_row i d')"
  by (auto simp: tainted_as_def taint_row_def tbl_update_def taint_def)

lemma taint_walk_exact:
  "no_faults w \<Longrightarrow> tainted_as d seen (w_db w) \<Longrightarrow>
   (\<And>i. i \<in> set seen \<Longrightarrow> set (snapshot_children i d) \<subseteq> set seen \<union> set queue) \<Longrightarrow>
   (\<And>i. i \<in> set seen \<union> set queue \<Longrightarrow> descendant d a i) \<Longrightarrow>
   \<exists>seen' w'. taint_walk queue seen w = (Some seen', w') \<and> no_faults w' \<and> tainted_as d seen' (w_db w') \<and>
     set seen \<union> set queue \<subseteq> set seen' \<and> (\<forall>i \<in> set seen'. set (snapshot_children i d) \<subseteq> set seen' \<and> descendant d a i)"
proof (induction queue seen w rule: taint_walk.induct)
  case (1 queue seen w)
  show ?case
  proof (cases queue)
    case Nil
    with 1(3-6) show ?thesis by (subst taint_walk.simps) auto
  next
    case (Cons i rest)
    show ?thesis
    proof (cases "i \<in> set seen")
      case True
      have "\<exists>seen' w'. taint_walk rest seen w = (Some seen', w') \<and> no_faults w' \<and> tainted_as d seen' (w_db w') \<and>
          set seen \<union> set rest \<subseteq> set seen' \<and> (\<forall>i \<in> set seen'. set (snapshot_children i d) \<subseteq> set seen' \<and> descendant d a i)"
        using 1(4-6) Cons True by (intro 1(1) [OF Cons True 1(3)]) auto
      with Cons True show ?thesis by (subst taint_walk.simps) auto
    next
      case False
      define w1 where "w1 = w\<lparr>w_stmts := Suc (w_stmts w), w_db := taint_row i (w_db w)\<rparr>"
      define w2 where "w2 = w1\<lparr>w_stmts := Suc (w_stmts w1)\<rparr>"
      have w1: "exec_total (taint_row i) w = (True, w1)" "no_faults w1" using 1(3) by (simp_all add: w1_def exec_total_no_faults)
      have t2: "tainted_as d (seen @ [i]) (w_db w2)" using tainted_as_row [OF 1(4)] by (simp add: w2_def w1_def)
      have w2: "query (snapshot_children i) w1 = (Some (snapshot_children i d), w2)" "no_faults w2"
        using w1 tainted_as_children [OF t2, of i] by (simp_all add: query_no_faults w2_def)
      have step: "taint_walk queue seen w = taint_walk (rest @ snapshot_children i d) (seen @ [i]) w2"
        using Cons False w1 w2 by (subst taint_walk.simps) simp
      have self: "descendant d a i" using 1(6) Cons by simp
      have "\<exists>seen' w'. taint_walk (rest @ snapshot_children i d) (seen @ [i]) w2 = (Some seen', w') \<and> no_faults w' \<and>
          tainted_as d seen' (w_db w') \<and> set (seen @ [i]) \<union> set (rest @ snapshot_children i d) \<subseteq> set seen' \<and>
          (\<forall>i \<in> set seen'. set (snapshot_children i d) \<subseteq> set seen' \<and> descendant d a i)"
        using 1(5,6) Cons descendant_child [OF self]
        by (intro 1(2) [OF Cons False w1(1) [symmetric] _ w2(1) [symmetric] refl w2(2) t2]) auto
      with Cons show ?thesis unfolding step by auto
    qed
  qed
qed

lemma tbl_insert_Some: "tbl_insert get upd key r d = Some d' \<Longrightarrow> d' = upd (\<lambda>rs. rs @ [r]) d"
  by (simp add: tbl_insert_def split: if_splits)

lemma insert_tainted_event_snapshots:
  "db_snapshots (w_db (insert_tainted_event origin run reason ts i w)) = db_snapshots (w_db w)"
proof -
  obtain j w1 where j: "new_id ''evt'' w = (j, w1)" by force
  then have "w_db w1 = w_db w" by (metis new_id_db snd_conv)
  with j exec_ignore_db [of "tbl_insert db_events db_events_update ev_id (tainted_event j run i reason origin ts)" w1]
  show ?thesis by (auto simp: insert_tainted_event_def dest!: tbl_insert_Some)
qed

lemma fold_tainted_event_snapshots:
  "db_snapshots (w_db (fold (insert_tainted_event origin run reason ts) is w)) = db_snapshots (w_db w)"
  by (induction "is" arbitrary: w) (simp_all add: insert_tainted_event_snapshots)

text \<open>C7: A taint reaches exactly the descendants. The walk ends on every snapshot graph, cyclic ones
included, and when the store answers it marks the snapshot and every snapshot reachable from it over
recorded edges, and no other, and leaves every other column and row as it was.\<close>

theorem taint_exact:
  assumes "no_faults w"
  shows "case taint_snapshot_and_descendants origin run reason ts w of (ok, w') \<Rightarrow>
    ok \<and> db_snapshots (w_db w') =
      map (\<lambda>s. if descendant (w_db w) origin (sn_id s) then taint s else s) (db_snapshots (w_db w))"
proof -
  let ?d = "w_db w"
  have "tainted_as ?d [] ?d" by (simp add: tainted_as_def)
  from taint_walk_exact [OF assms this, of "[origin]" origin] descendant_self
  obtain seen w' where walk: "taint_walk [origin] [] w = (Some seen, w')" "tainted_as ?d seen (w_db w')"
    "origin \<in> set seen" "\<forall>i \<in> set seen. set (snapshot_children i ?d) \<subseteq> set seen \<and> descendant ?d origin i" by auto
  have "i \<in> set seen" if "descendant ?d origin i" for i
    using that by (induction rule: descendant.induct) (use walk in auto)
  with walk(4) have "i \<in> set seen \<longleftrightarrow> descendant ?d origin i" for i by blast
  with walk show ?thesis
    by (simp add: taint_snapshot_and_descendants_def fold_tainted_event_snapshots tainted_as_def)
qed

lemma taint_exact_witness:
  "case taint_snapshot_and_descendants ''snap-1'' ''run-1'' ''secret_path'' (format_time 0) (quiet_world empty_db) of
     (ok, w') \<Rightarrow> ok \<and> db_snapshots (w_db w') =
      map (\<lambda>s. if descendant empty_db ''snap-1'' (sn_id s) then taint s else s) []"
  using taint_exact [of "quiet_world empty_db" "''snap-1''" "''run-1''" "''secret_path''" "format_time 0"]
  by (simp add: empty_db_def split: prod.splits)

end
