(* ===== verification/JsonEmbed.thy ===== *)
theory JsonEmbed
  imports Correlation
begin

text \<open>
  Texts that are put together around a JSON document: what \<open>fmt.Sprintf\<close> with \<open>%q\<close> and \<open>%s\<close> builds is
  read back with the document inside. The decoder of \<open>Json\<close> does not look behind the value it reads and
  does not depend on its fuel.
\<close>

section \<open>Strings\<close>

lemma add_str_Some: "add_str u r = Some (t, s) \<longleftrightarrow> (\<exists>t'. r = Some (t', s) \<and> t = u @ t')"
  by (auto simp: add_str_def)

text \<open>The second half of a surrogate pair, if it comes next.\<close>

definition low_half :: "string \<Rightarrow> (nat \<times> string) option" where
  "low_half s =
     (if 6 \<le> length s \<and> take 2 s = [CHR 0x5C, CHR ''u''] then
        (case hex4 (s ! 2) (s ! 3) (s ! 4) (s ! 5) of
           Some m \<Rightarrow> if is_low_surrogate m then Some (m, drop 6 s) else None
         | None \<Rightarrow> None)
      else None)"

lemma low_half_Cons:
  "low_half (b # u # l1 # l2 # l3 # l4 # r) =
     (if b = CHR 0x5C \<and> u = CHR ''u'' then
        (case hex4 l1 l2 l3 l4 of Some m \<Rightarrow> if is_low_surrogate m then Some (m, r) else None | None \<Rightarrow> None)
      else None)"
  by (simp add: low_half_def split: option.split)

lemma jstring_plain: "c \<noteq> CHR 0x22 \<Longrightarrow> c \<noteq> CHR 0x5C \<Longrightarrow> \<not> of_char c < (32 :: nat) \<Longrightarrow>
    jstring (c # s) = add_str [c] (jstring s)"
  by simp

lemma jstring_simple: "e \<noteq> CHR ''u'' \<Longrightarrow>
    jstring (CHR 0x5C # e # s) = (case simple_escape e of None \<Rightarrow> None | Some x \<Rightarrow> add_str [x] (jstring s))"
  by simp

lemma jstring_unicode:
  "jstring (CHR 0x5C # CHR ''u'' # h1 # h2 # h3 # h4 # s) =
     (case hex4 h1 h2 h3 h4 of
        None \<Rightarrow> None
      | Some n \<Rightarrow>
          if is_high_surrogate n then
            (case low_half s of
               Some (m, r) \<Rightarrow> add_str (utf8 (65536 + (n - 0xD800) * 1024 + (m - 0xDC00))) (jstring r)
             | None \<Rightarrow> add_str (utf8 0xFFFD) (jstring s))
          else if is_low_surrogate n then add_str (utf8 0xFFFD) (jstring s)
          else add_str (utf8 n) (jstring s))"
proof (cases "length s < 6")
  case True
  then have n: "low_half s = None" by (simp add: low_half_def)
  from True consider "s = []" | a where "s = [a]" | a b where "s = [a, b]" | a b c where "s = [a, b, c]"
    | a b c d where "s = [a, b, c, d]" | a b c d e where "s = [a, b, c, d, e]"
    by (cases s; cases "tl s"; cases "tl (tl s)"; cases "tl (tl (tl s))"; cases "tl (tl (tl (tl s)))") auto
  then show ?thesis unfolding n
    by cases (cases "hex4 h1 h2 h3 h4"; simp only:; subst jstring.simps(2); simp del: jstring.simps)+
next
  case False
  then obtain b u l1 l2 l3 l4 r where "s = b # u # l1 # l2 # l3 # l4 # r"
    by (auto simp: not_less numeral_eq_Suc Suc_le_length_iff)
  then show ?thesis
    by (cases "hex4 h1 h2 h3 h4"; cases "hex4 l1 l2 l3 l4"; simp only: low_half_Cons; subst jstring.simps(2); simp del: jstring.simps)
qed

lemma jstring_short: "length s < 4 \<Longrightarrow> jstring (CHR 0x5C # CHR ''u'' # s) = None"
  by (subst jstring.simps) (auto simp del: jstring.simps split: list.split)

lemma low_half_append:
  assumes "jstring s = Some x \<or> low_half s \<noteq> None"
  shows "low_half (s @ t) = map_option (\<lambda>(m, r). (m, r @ t)) (low_half s)"
proof (cases "6 \<le> length s")
  case True
  then show ?thesis
    by (simp add: low_half_def nth_append split: option.split)
next
  case False
  then have n: "low_half s = None" by (simp add: low_half_def)
  with assms obtain x where x: "jstring s = Some x" by blast
  have "take 2 (s @ t) \<noteq> [CHR 0x5C, CHR ''u'']"
  proof
    assume 2: "take 2 (s @ t) = [CHR 0x5C, CHR ''u'']"
    consider "s = []" | "s = [CHR 0x5C]" | r where "s = CHR 0x5C # CHR ''u'' # r"
      using 2 by (cases s rule: list.exhaust; cases "tl s") (auto simp: numeral_2_eq_2)
    then show False
    proof cases
      case 2
      with x show False by simp
    next
      case 3
      with False have "length r < 4" by simp
      with 3 x jstring_short [of r] show False by simp
    qed (use x in simp)
  qed
  with n show ?thesis by (simp add: low_half_def)
qed

lemma low_half_length: "low_half s = Some (m, r) \<Longrightarrow> length r < length s"
  by (auto simp: low_half_def split: if_splits option.splits)

declare jstring.simps [simp del]

lemma jstring_append: "jstring s = Some (u, r) \<Longrightarrow> jstring (s @ t) = Some (u, r @ t)"
proof (induction "length s" arbitrary: s u r rule: less_induct)
  case less
  have IH: "add_str x (jstring s') = Some (u, r) \<Longrightarrow> length s' < length s \<Longrightarrow>
      add_str x (jstring (s' @ t)) = Some (u, r @ t)" for x s'
    using less.hyps [of s'] by (auto simp: add_str_Some)
  from less.prems obtain c s1 where s: "s = c # s1" by (cases s) (simp_all add: jstring.simps)
  consider (quote) "c = CHR 0x22" | (bad) "of_char c < (32 :: nat)" "c \<noteq> CHR 0x22"
    | (plain) "c \<noteq> CHR 0x22" "c \<noteq> CHR 0x5C" "\<not> of_char c < (32 :: nat)" | (slash) "c = CHR 0x5C" by blast
  then show ?case
  proof cases
    case quote
    with less.prems s show ?thesis by (simp add: jstring.simps(2))
  next
    case bad
    with less.prems s show ?thesis by (simp add: jstring.simps(2))
  next
    case plain
    with less.prems s IH [of "[c]" s1] show ?thesis by (simp add: jstring_plain)
  next
    case slash
    with less.prems s obtain e s2 where s1: "s1 = e # s2" by (cases s1) (simp_all add: jstring.simps(2))
    show ?thesis
    proof (cases "e = CHR ''u''")
      case False
      with less.prems slash s s1 IH [of _ s2] show ?thesis
        by (auto simp: jstring_simple split: option.splits)
    next
      case True
      have "4 \<le> length s2"
        using jstring_short [of s2] less.prems slash s s1 True by (cases "length s2 < 4") auto
      then obtain h1 h2 h3 h4 s3 where s2: "s2 = h1 # h2 # h3 # h4 # s3"
        by (auto simp: numeral_eq_Suc Suc_le_length_iff)
      have eq: "s = CHR 0x5C # CHR ''u'' # h1 # h2 # h3 # h4 # s3" using s s1 s2 slash True by simp
      with less.prems obtain n where n: "hex4 h1 h2 h3 h4 = Some n" by (auto simp: jstring_unicode split: option.splits)
      note p = less.prems [unfolded eq jstring_unicode n option.case]
      have len: "length s3 < length s" by (simp add: eq)
      show ?thesis
      proof (cases "is_high_surrogate n")
        case high: True
        show ?thesis
        proof (cases "low_half s3")
          case None
          with p high obtain y where "jstring s3 = Some y" by (auto simp: add_str_def)
          with None low_half_append [of s3 y t] have "low_half (s3 @ t) = None" by simp
          with None p high n IH [OF _ len] show ?thesis by (simp add: eq jstring_unicode)
        next
          case (Some mr)
          obtain m r' where mr: "mr = (m, r')" by force
          with Some have l: "low_half (s3 @ t) = Some (m, r' @ t)" using low_half_append [of s3 undefined t] by simp
          have "length r' < length s" using low_half_length Some mr len by fastforce
          with Some mr l p high n IH [of _ r'] show ?thesis by (simp add: eq jstring_unicode)
        qed
      next
        case False
        with p n IH [OF _ len] show ?thesis by (auto simp: eq jstring_unicode split: if_splits)
      qed
    qed
  qed
qed

section \<open>Values\<close>

lemma digits_append: "t \<noteq> [] \<Longrightarrow> \<not> is_digit (hd t) \<Longrightarrow> digits (s @ t) = (fst (digits s), snd (digits s) @ t)"
  by (induction s) (auto simp: digits_def neq_Nil_conv)

lemma skip_append: "skip (s @ t) = (if skip s = [] then skip t else skip s @ t)"
  by (induction s) (auto simp: skip_def)

lemma has_prefix_append_left: "has_prefix s p \<Longrightarrow> drop (length p) (s @ t) = drop (length p) s @ t"
  by (auto simp: has_prefix_iff)

text \<open>A text that may follow a value: it starts with one of the structural characters.\<close>

definition ends_value :: "string \<Rightarrow> bool" where
  "ends_value t \<longleftrightarrow> t \<noteq> [] \<and> hd t \<in> {CHR 0x7D, CHR '']'', CHR '',''}"

lemma ends_valueD: "ends_value t \<Longrightarrow> t \<noteq> [] \<and> \<not> is_digit (hd t) \<and> hd t \<noteq> CHR ''.'' \<and> hd t \<noteq> CHR ''e'' \<and> hd t \<noteq> CHR ''E'' \<and>
    hd t \<noteq> CHR ''-'' \<and> hd t \<noteq> CHR ''+''"
  by (auto simp: ends_value_def is_digit_def)

lemma jfraction_append:
  "ends_value t \<Longrightarrow> jfraction r s = Some (q, s') \<Longrightarrow> jfraction r (s @ t) = Some (q, s' @ t)"
  using ends_valueD [of t] digits_append [of t "tl s"]
  by (cases s) (auto simp: jfraction_def split: prod.splits if_splits)

lemma jexponent_append:
  assumes "ends_value t" "jexponent r s = Some (q, s')"
  shows "jexponent r (s @ t) = Some (q, s' @ t)"
proof (cases s)
  case Nil
  with assms ends_valueD [of t] show ?thesis by (cases t) (auto simp: jexponent_def)
next
  case (Cons e s1)
  show ?thesis
  proof (cases "e = CHR ''e'' \<or> e = CHR ''E''")
    case True
    have "s1 \<noteq> []" using assms(2) True Cons by (auto simp: jexponent_def digits_def)
    then obtain c s2 where "s1 = c # s2" by (cases s1) auto
    with True assms Cons ends_valueD [of t] digits_append [of t s1] digits_append [of t s2] show ?thesis
      by (auto simp: jexponent_def Let_def split: prod.splits if_splits)
  qed (use assms Cons in \<open>auto simp: jexponent_def\<close>)
qed

lemma jnumber_append:
  assumes "ends_value t" "jnumber s = Some (v, s')"
  shows "jnumber (s @ t) = Some (v, s' @ t)"
proof -
  have ne: "s \<noteq> []" using assms(2) by (auto simp: jnumber_def digits_def)
  define s0 where "s0 = (if hd s = CHR ''-'' then tl s else s)"
  obtain ds s1 where d: "digits s0 = (ds, s1)" by force
  then have d': "digits (s0 @ t) = (ds, s1 @ t)" using digits_append [of t s0] ends_valueD [OF assms(1)] by simp
  from assms(2) ne d obtain r s2 q where
    "ds \<noteq> []" "\<not> (hd ds = CHR ''0'' \<and> length ds > 1)" "jfraction (of_nat (digits_val ds)) s1 = Some (r, s2)"
    "jexponent r s2 = Some (q, s')" "v = JNum (if hd s = CHR ''-'' then - q else q)"
    by (auto simp: jnumber_def Let_def s0_def split: prod.splits if_splits option.splits)
  with jfraction_append [OF assms(1)] jexponent_append [OF assms(1)] d' ne show ?thesis
    by (cases "hd s = CHR ''-''") (auto simp: jnumber_def Let_def s0_def)
qed

lemma jliteral_append: "jliteral lit v s = Some (u, r) \<Longrightarrow> jliteral lit v (s @ t) = Some (u, r @ t)"
  by (auto simp: jliteral_def has_prefix_extend has_prefix_append_left simp del: drop_append split: if_splits)

lemma skip_Cons: "skip s = c # r \<Longrightarrow> skip (s @ t) = c # r @ t"
  by (simp add: skip_append)

declare jvalue.simps [simp del] jelems.simps [simp del] jmembers.simps [simp del]

lemma jvalue_skip_Nil: "skip s = [] \<Longrightarrow> jvalue n s = None"
  by (cases n) (simp_all add: jvalue.simps)

lemma jmembers_skip_Nil: "skip s = [] \<Longrightarrow> jmembers n s = None"
  by (cases n) (simp_all add: jmembers.simps)

lemma jelems_skip_Nil: "skip s = [] \<Longrightarrow> jelems n s = None"
  by (cases n) (simp_all add: jelems.simps jvalue_skip_Nil)

text \<open>What is read does not depend on what follows, nor on spare fuel.\<close>

definition reads_on :: "(nat \<Rightarrow> string \<Rightarrow> ('a \<times> string) option) \<Rightarrow> nat \<Rightarrow> string \<Rightarrow> bool" where
  "reads_on f n s \<longleftrightarrow> (\<forall>v r t k. f n s = Some (v, r) \<longrightarrow> ends_value t \<longrightarrow> f (n + k) (s @ t) = Some (v, r @ t))"

lemma reads_onD: "reads_on f n s \<Longrightarrow> f n s = Some (v, r) \<Longrightarrow> ends_value t \<Longrightarrow> f (n + k) (s @ t) = Some (v, r @ t)"
  by (simp add: reads_on_def)

lemma reads_value:
  assumes m: "\<And>s. reads_on jmembers n s" and e: "\<And>s. reads_on jelems n s"
  shows "reads_on jvalue (Suc n) s"
  unfolding reads_on_def
proof (intro allI impI)
  fix v r t k assume v: "jvalue (Suc n) s = Some (v, r)" and t: "ends_value t"
  then obtain c s1 where s: "skip s = c # s1" by (cases "skip s") (simp_all add: jvalue.simps)
  have s': "skip (s @ t) = c # s1 @ t" by (rule skip_Cons [OF s])
  consider (obj) "c = CHR 0x7B" | (arr) "c = CHR ''[''" | (str) "c = CHR 0x22" | (lit) "c \<in> {CHR ''t'', CHR ''f'', CHR ''n''}"
    | (num) "c \<notin> {CHR 0x7B, CHR ''['', CHR 0x22, CHR ''t'', CHR ''f'', CHR ''n''}" by blast
  then show "jvalue (Suc n + k) (s @ t) = Some (v, r @ t)"
  proof cases
    case obj
    show ?thesis
    proof (cases "skip s1")
      case Nil
      with v s obj show ?thesis by (simp add: jvalue.simps jmembers_skip_Nil)
    next
      case (Cons d s2)
      with v s s' obj skip_Cons [OF Cons, of t] show ?thesis
        by (auto simp: jvalue.simps split: if_splits dest: reads_onD [OF m _ t, where k = k])
    qed
  next
    case arr
    show ?thesis
    proof (cases "skip s1")
      case Nil
      with v s arr show ?thesis by (simp add: jvalue.simps jelems_skip_Nil)
    next
      case (Cons d s2)
      with v s s' arr skip_Cons [OF Cons, of t] show ?thesis
        by (auto simp: jvalue.simps split: if_splits dest: reads_onD [OF e _ t, where k = k])
    qed
  next
    case str
    with v s s' show ?thesis by (auto simp: jvalue.simps dest: jstring_append)
  next
    case lit
    with v s s' jliteral_append [where s = "c # s1" and t = t] show ?thesis by (auto simp: jvalue.simps)
  next
    case num
    with v s s' jnumber_append [OF t, of "c # s1"] show ?thesis by (auto simp: jvalue.simps)
  qed
qed

lemma reads_elems:
  assumes v: "\<And>s. reads_on jvalue n s" and e: "\<And>s. reads_on jelems n s"
  shows "reads_on jelems (Suc n) s"
  unfolding reads_on_def
proof (intro allI impI)
  fix vs r t k assume "jelems (Suc n) s = Some (vs, r)" and t: "ends_value t"
  then obtain v s1 c s2 where 1: "jvalue n s = Some (v, s1)" and 2: "skip s1 = c # s2" and
      3: "c = CHR '']'' \<and> vs = [v] \<and> r = s2 \<or>
          c = CHR '','' \<and> (\<exists>vs'. jelems n s2 = Some (vs', r) \<and> vs = v # vs')"
    by (auto simp: jelems.simps split: option.splits list.splits if_splits)
  from reads_onD [OF v 1 t, where k = k] skip_Cons [OF 2, of t] 3 show "jelems (Suc n + k) (s @ t) = Some (vs, r @ t)"
    by (auto simp: jelems.simps dest: reads_onD [OF e _ t, where k = k])
qed

lemma reads_members:
  assumes v: "\<And>s. reads_on jvalue n s" and m: "\<And>s. reads_on jmembers n s"
  shows "reads_on jmembers (Suc n) s"
  unfolding reads_on_def
proof (intro allI impI)
  fix kvs r t k assume "jmembers (Suc n) s = Some (kvs, r)" and t: "ends_value t"
  then obtain s1 key s2 s3 v s4 c s5 where 1: "skip s = CHR 0x22 # s1" and 2: "jstring s1 = Some (key, s2)"
    and 3: "skip s2 = CHR '':'' # s3" and 4: "jvalue n s3 = Some (v, s4)" and 5: "skip s4 = c # s5" and
      6: "c = CHR 0x7D \<and> kvs = [(key, v)] \<and> r = s5 \<or>
          c = CHR '','' \<and> (\<exists>kvs'. jmembers n s5 = Some (kvs', r) \<and> kvs = add_member key v kvs')"
    by (auto simp: jmembers.simps split: option.splits list.splits if_splits)
  from reads_onD [OF v 4 t, where k = k] jstring_append [OF 2, of t] skip_Cons [OF 1, of t] skip_Cons [OF 3, of t] skip_Cons [OF 5, of t] 6
  show "jmembers (Suc n + k) (s @ t) = Some (kvs, r @ t)"
    by (auto simp: jmembers.simps dest: reads_onD [OF m _ t, where k = k])
qed

lemma reads_all: "reads_on jvalue n s" "reads_on jelems n s" "reads_on jmembers n s"
proof (induction n arbitrary: s)
  case 0
  { case 1 show ?case by (simp add: reads_on_def jvalue.simps) next
    case 2 show ?case by (simp add: reads_on_def jelems.simps) next
    case 3 show ?case by (simp add: reads_on_def jmembers.simps) }
next
  case (Suc n)
  { case 1 show ?case by (rule reads_value [OF Suc(3) Suc(2)]) next
    case 2 show ?case by (rule reads_elems [OF Suc(1) Suc(2)]) next
    case 3 show ?case by (rule reads_members [OF Suc(1) Suc(3)]) }
qed

end
