(* ===== verification/IngestVerify.thy ===== *)
theory IngestVerify
  imports Ingest JsonEmbed PolicyChain
begin

text \<open>
  Ingestion against verification: the edges that \<open>recordRuntimeCausalityEdges\<close> of
  \<open>internal/telemetry/service.go\<close> writes for an event are those \<open>verifyRuntimeCausality\<close> of
  \<open>internal/provenance/verify.go\<close> later asks for. The two sides look at different texts, the payload
  before and after it is wrapped, so the decoder is shown to find the same path in both.
\<close>

declare jstring.simps [simp del] jvalue.simps [simp del] jelems.simps [simp del] jmembers.simps [simp del]

section \<open>Wrapped payloads\<close>

text \<open>Texts whose Go quotation is a JSON string: no \<open>\a\<close>, \<open>\v\<close> or \<open>\x\<close> escape.\<close>

definition plain_char :: "char \<Rightarrow> bool" where
  "plain_char c \<longleftrightarrow> (let n = of_char c :: nat in n \<noteq> 127 \<and> (32 \<le> n \<or> n \<in> {8, 9, 10, 12, 13}))"

lemma jstring_go_quote_char:
  assumes "plain_char c"
  shows "jstring (go_quote_char c @ s) = add_str [c] (jstring s)"
proof -
  let ?n = "of_char c :: nat"
  have char: "char_of ?n = c" by simp
  have code: "?n = 34 \<Longrightarrow> c = CHR 0x22" "?n = 92 \<Longrightarrow> c = CHR 0x5C" "?n = 8 \<Longrightarrow> c = CHR 0x08"
    "?n = 12 \<Longrightarrow> c = CHR 0x0C" "?n = 10 \<Longrightarrow> c = CHR 0x0A" "?n = 13 \<Longrightarrow> c = CHR 0x0D" "?n = 9 \<Longrightarrow> c = CHR 0x09"
    using char char_codes by metis+
  consider "?n = 34" | "?n = 92" | "?n = 8" | "?n = 12" | "?n = 10" | "?n = 13" | "?n = 9"
    | (plain) "\<not> ?n < 32" "?n \<notin> {34, 92, 127}" using assms unfolding plain_char_def Let_def by fastforce
  then show ?thesis
  proof cases
    case plain
    then have "go_quote_char c = [c]" by (auto simp: go_quote_char_def Let_def)
    moreover have "c \<noteq> CHR 0x22" "c \<noteq> CHR 0x5C" using plain by auto
    ultimately show ?thesis using plain by (simp add: jstring_plain)
  qed (drule code, simp add: go_quote_char_def jstring_simple simple_escape_def)+
qed

lemma jstring_go_quote: "list_all plain_char s \<Longrightarrow>
    jstring (concat (map go_quote_char s) @ CHR 0x22 # r) = Some (s, r)"
  by (induction s) (simp_all add: jstring_go_quote_char add_str_def jstring.simps)

lemma jvalue_go_quote: "list_all plain_char s \<Longrightarrow> jvalue (Suc n) (go_quote s @ r) = Some (JStr s, r)"
  by (simp add: go_quote_def jvalue.simps skip_def is_jspace_def jstring_go_quote)

text \<open>A member with a plain key, and what follows it.\<close>

lemma jmembers_key:
  assumes "list_all (\<lambda>c. 32 \<le> (of_char c :: nat) \<and> of_char c \<notin> {34, 92, 127 :: nat}) k"
    and "jvalue n r = Some (v, r')" "skip r' = c # r''"
  shows "jmembers (Suc n) (key_text k @ r) =
    (if c = CHR 0x7D then Some ([(k, v)], r'')
     else if c = CHR '','' then map_option (\<lambda>(kvs, r). (add_member k v kvs, r)) (jmembers n r'') else None)"
proof -
  have "go_quote_char x = [x] \<and> plain_char x" if "32 \<le> (of_char x :: nat)" "of_char x \<notin> {34, 92, 127 :: nat}" for x
    using that by (auto simp: go_quote_char_def plain_char_def Let_def)
  with assms(1) have "concat (map go_quote_char k) = k \<and> list_all plain_char k" by (induction k) auto
  then have "jstring (k @ CHR 0x22 # CHR '':'' # r) = Some (k, CHR '':'' # r)"
    using jstring_go_quote [of k] by simp
  with assms(2,3) show ?thesis by (simp add: key_text_def jmembers.simps skip_def is_jspace_def)
qed

definition wrapped :: "string \<Rightarrow> string \<Rightarrow> json \<Rightarrow> json" where
  "wrapped rollout attempt v = JObj [(''rollout_id'', JStr rollout), (''attempt_id'', JStr attempt), (''payload'', v)]"

lemma keys_plain:
  "list_all (\<lambda>c. 32 \<le> (of_char c :: nat) \<and> of_char c \<notin> {34, 92, 127 :: nat}) ''rollout_id''"
  "list_all (\<lambda>c. 32 \<le> (of_char c :: nat) \<and> of_char c \<notin> {34, 92, 127 :: nat}) ''attempt_id''"
  "list_all (\<lambda>c. 32 \<le> (of_char c :: nat) \<and> of_char c \<notin> {34, 92, 127 :: nat}) ''payload''"
  by simp_all

lemma skip_mark: "skip (CHR '','' # s) = CHR '','' # s" "skip (CHR 0x7D # s) = CHR 0x7D # s"
  by (simp_all add: skip_def is_jspace_def)

lemma jmembers_text:
  assumes "list_all (\<lambda>c. 32 \<le> (of_char c :: nat) \<and> of_char c \<notin> {34, 92, 127 :: nat}) k" "list_all plain_char t"
    and "jmembers (Suc n) r = Some (kvs, [])" "k \<notin> fst ` set kvs"
  shows "jmembers (Suc (Suc n)) (key_text k @ go_quote t @ CHR '','' # r) = Some ((k, JStr t) # kvs, [])"
  using jmembers_key [OF assms(1) jvalue_go_quote [OF assms(2), of n "CHR '','' # r"] skip_mark(1)] assms(3,4)
  by (simp add: add_member_def)

lemma jmembers_wrapped:
  assumes "list_all plain_char rollout" "list_all plain_char attempt" "jvalue (Suc n) (p @ [CHR 0x7D]) = Some (v, r)"
    and "skip r = [CHR 0x7D]"
  shows "jmembers (Suc (Suc (Suc (Suc n)))) (key_text ''rollout_id'' @ go_quote rollout @ CHR '','' #
      key_text ''attempt_id'' @ go_quote attempt @ CHR '','' # key_text ''payload'' @ p @ [CHR 0x7D]) =
      Some ([(''rollout_id'', JStr rollout), (''attempt_id'', JStr attempt), (''payload'', v)], [])"
proof -
  have "jmembers (Suc (Suc n)) (key_text ''payload'' @ p @ [CHR 0x7D]) = Some ([(''payload'', v)], [])"
    using jmembers_key [OF keys_plain(3) assms(3,4)] by simp
  from jmembers_text [OF keys_plain(2) assms(2) this]
  have "jmembers (Suc (Suc (Suc n))) (key_text ''attempt_id'' @ go_quote attempt @ CHR '','' # key_text ''payload'' @ p @ [CHR 0x7D]) =
      Some ([(''attempt_id'', JStr attempt), (''payload'', v)], [])" by simp
  from jmembers_text [OF keys_plain(1) assms(1) this] show ?thesis by simp
qed

lemma decode_wrapped:
  assumes "list_all plain_char rollout" "list_all plain_char attempt" "decode p = Some v"
  shows "decode (CHR 0x7B # key_text ''rollout_id'' @ go_quote rollout @ CHR '','' # key_text ''attempt_id'' @
          go_quote attempt @ CHR '','' # key_text ''payload'' @ p @ [CHR 0x7D]) = Some (wrapped rollout attempt v)"
proof -
  define s where "s = key_text ''rollout_id'' @ go_quote rollout @ CHR '','' # key_text ''attempt_id'' @
          go_quote attempt @ CHR '','' # key_text ''payload'' @ p @ [CHR 0x7D]"
  from assms(3) obtain r where r: "jvalue (2 * length p + 2) p = Some (v, r)" "skip r = []"
    by (auto simp: decode_def split: option.splits if_splits)
  have "2 * length p + 2 \<le> 2 * length s" by (simp add: s_def key_text_def)
  then obtain k where "2 * length s = 2 * length p + 2 + k" by (auto simp only: le_iff_add)
  moreover define n where "n = Suc (2 * length p + k)"
  ultimately have n: "2 * length (CHR 0x7B # s) + 2 = Suc (Suc (Suc (Suc (Suc n))))" "2 * length p + 2 + k = Suc n" by simp_all
  have "ends_value [CHR 0x7D]" by (simp add: ends_value_def)
  from reads_onD [OF reads_all(1) r(1) this, of k] r(2) n(2)
  have v: "jvalue (Suc n) (p @ [CHR 0x7D]) = Some (v, r @ [CHR 0x7D])" "skip (r @ [CHR 0x7D]) = [CHR 0x7D]"
    by (simp_all add: skip_append skip_mark)
  have "skip s \<noteq> [] \<and> hd (skip s) \<noteq> CHR 0x7D" by (simp add: s_def key_text_def skip_def is_jspace_def)
  then have "jvalue (Suc (Suc (Suc (Suc (Suc n))))) (CHR 0x7B # s) = Some (wrapped rollout attempt v, [])"
    unfolding jvalue.simps(2) [of "Suc (Suc (Suc (Suc n)))"] skip_def [of "CHR 0x7B # s"]
    using jmembers_wrapped [OF assms(1,2) v] by (simp add: is_jspace_def wrapped_def s_def)
  then show ?thesis unfolding decode_def s_def [symmetric] n(1) by (simp add: skip_def)
qed

lemma find_paths_agree: "find_payload_path v = find_verify_payload_path v"
proof (induction v rule: find_payload_path.induct)
  case (1 v)
  show ?case
  proof (cases v)
    case (JArr vs)
    with 1 have "map find_payload_path vs = map find_verify_payload_path vs" by simp
    then show ?thesis unfolding JArr find_payload_path.simps [of "JArr vs"] find_verify_payload_path.simps [of "JArr vs"]
      by (simp only: json.case)
  next
    case (JObj kvs)
    have "(case jget k kvs of None \<Rightarrow> [] | Some x \<Rightarrow> find_payload_path x) =
        (case jget k kvs of None \<Rightarrow> [] | Some x \<Rightarrow> find_verify_payload_path x)" if "k \<in> {''raw'', ''payload'', ''event''}" for k
    proof (cases "jget k kvs")
      case (Some x)
      with that 1(2-4) [OF JObj, of x] have "find_payload_path x = find_verify_payload_path x" by blast
      with Some show ?thesis by (simp only: option.case)
    qed (simp only: option.case)
    then have k: "(case jget ''raw'' kvs of None \<Rightarrow> [] | Some x \<Rightarrow> find_payload_path x) =
        (case jget ''raw'' kvs of None \<Rightarrow> [] | Some x \<Rightarrow> find_verify_payload_path x)"
      "(case jget ''payload'' kvs of None \<Rightarrow> [] | Some x \<Rightarrow> find_payload_path x) =
        (case jget ''payload'' kvs of None \<Rightarrow> [] | Some x \<Rightarrow> find_verify_payload_path x)"
      "(case jget ''event'' kvs of None \<Rightarrow> [] | Some x \<Rightarrow> find_payload_path x) =
        (case jget ''event'' kvs of None \<Rightarrow> [] | Some x \<Rightarrow> find_verify_payload_path x)" by simp_all
    show ?thesis unfolding JObj find_payload_path.simps [of "JObj kvs"] find_verify_payload_path.simps [of "JObj kvs"] json.case k ..
  qed (simp_all add: find_payload_path.simps [of JNull] find_verify_payload_path.simps [of JNull]
      find_payload_path.simps [of "JBool b" for b] find_verify_payload_path.simps [of "JBool b" for b]
      find_payload_path.simps [of "JNum b" for b] find_verify_payload_path.simps [of "JNum b" for b]
      find_payload_path.simps [of "JStr b" for b] find_verify_payload_path.simps [of "JStr b" for b])
qed

lemma path_in_wrapped: "find_verify_payload_path (wrapped rollout attempt v) = find_verify_payload_path v"
  unfolding wrapped_def
  by (subst find_verify_payload_path.simps) (simp add: jget_def direct_path_def first_non_empty_def)

lemma stored_path:
  assumes "list_all plain_char (ig_rollout_id e)" "list_all plain_char (ig_attempt_id e)" "decode (ig_payload e) \<noteq> None"
  shows "verify_payload_path (stored_payload e) = payload_path (ig_payload e)"
proof -
  obtain v where v: "decode (ig_payload e) = Some v" using assms(3) by blast
  show ?thesis
  proof (cases "ig_rollout_id e \<noteq> [] \<or> ig_attempt_id e \<noteq> []")
    case True
    with decode_wrapped [OF assms(1,2) v] v show ?thesis
      by (simp add: stored_payload_def verify_payload_path_def payload_path_def path_in_wrapped find_paths_agree)
  next
    case False
    with v show ?thesis by (simp add: stored_payload_def verify_payload_path_def payload_path_def find_paths_agree)
  qed
qed

section \<open>What later steps keep\<close>

text \<open>Every step keeps the edges there are, the row of an event that is stored, and the batch records.\<close>

definition keeps :: "string \<Rightarrow> world \<Rightarrow> world \<Rightarrow> bool" where
  "keeps i w w' \<longleftrightarrow>
     set (db_graph_edges (w_db w)) \<subseteq> set (db_graph_edges (w_db w')) \<and>
     db_telemetry_batches (w_db w') = db_telemetry_batches (w_db w) \<and>
     (filter (\<lambda>x. ev_id x = i) (db_events (w_db w)) \<noteq> [] \<longrightarrow>
        filter (\<lambda>x. ev_id x = i) (db_events (w_db w')) = filter (\<lambda>x. ev_id x = i) (db_events (w_db w)))"

lemma keeps_trans [trans]: "keeps i w w' \<Longrightarrow> keeps i w' w'' \<Longrightarrow> keeps i w w''"
  unfolding keeps_def by auto

lemma keeps_db: "w_db w' = w_db w \<Longrightarrow> keeps i w w'"
  by (simp add: keeps_def)

lemma keeps_new_id: "new_id p w = (x, w1) \<Longrightarrow> keeps i w1 w' \<Longrightarrow> keeps i w w'"
  using new_id_db [of p w] by (simp add: keeps_def)

lemma keeps_exec_ignore:
  "(\<And>d. f (w_db w) = Some d \<Longrightarrow> keeps i w (w\<lparr>w_db := d\<rparr>)) \<Longrightarrow> keeps i w (exec_ignore f w)"
  using exec_ignore_db [of f w] by (auto simp: keeps_def)

lemma keeps_insert_edge_row: "keeps i w (exec_ignore (tbl_insert db_graph_edges db_graph_edges_update ge_id g) w)"
  by (rule keeps_exec_ignore) (auto dest!: tbl_insert_Some simp: keeps_def)

lemma keeps_insert_event: "keeps i w (exec_ignore (tbl_insert db_events db_events_update ev_id x) w)"
  by (rule keeps_exec_ignore) (auto simp: keeps_def tbl_insert_def filter_empty_conv split: if_splits)

lemma keeps_insert_edge: "keeps i w (insert_edge run rollout ev ts x w)"
  by (auto simp: insert_edge_def keeps_db split: prod.split intro: keeps_new_id [OF _ keeps_insert_edge_row])

lemma keeps_insert_edges: "keeps i w (insert_edges run rollout ev ts xs w)"
  unfolding insert_edges_def
proof (induction xs arbitrary: w)
  case (Cons x xs)
  from keeps_trans [OF keeps_insert_edge Cons] show ?case by simp
qed (simp add: keeps_db)

text \<open>Steps that only read.\<close>

definition only_reads :: "world \<Rightarrow> world \<Rightarrow> bool" where
  "only_reads w w' \<longleftrightarrow> w_db w' = w_db w \<and> w_ids w' = w_ids w \<and> w_entropy w' = w_entropy w \<and> w_fault w' = w_fault w"

lemma only_reads_refl [simp]: "only_reads w w"
  by (simp add: only_reads_def)

lemma only_reads_trans: "only_reads w w' \<Longrightarrow> only_reads w' w'' \<Longrightarrow> only_reads w w''"
  by (simp add: only_reads_def)

lemma only_reads_keeps: "only_reads w w' \<Longrightarrow> keeps i w w'"
  by (simp add: only_reads_def keeps_db)

lemma only_reads_query: "query f w = (r, w') \<Longrightarrow> only_reads w w'"
  by (auto simp: query_def only_reads_def Let_def split: if_splits)

lemma only_reads_now: "now w = (t, w') \<Longrightarrow> only_reads w w'"
  by (auto simp: now_def only_reads_def)

lemma only_reads_ready: "only_reads w w' \<Longrightarrow> ready w \<Longrightarrow> ready w'"
  by (simp add: only_reads_def ready_def no_faults_def good_entropy_def drawn_def)

lemma only_reads_recent: "recent_scoped_event ty run process ts w = (r, w') \<Longrightarrow> only_reads w w'"
  by (auto simp: recent_scoped_event_def dest: only_reads_query split: if_splits prod.splits)

lemma only_reads_text: "query_text f w = (r, w') \<Longrightarrow> only_reads w w'"
  by (auto simp: query_text_def dest: only_reads_query split: prod.splits)

lemma only_reads_edge: "edge_from_exists src ty w = (r, w') \<Longrightarrow> only_reads w w'"
  by (auto simp: edge_from_exists_def dest: only_reads_query split: prod.splits)

lemma keeps_intent_edge: "keeps i w (intent_edge e rollout ev ts w)"
proof -
  obtain r w1 where r: "recent_scoped_event ''tls_read'' (ig_run_id e) (ig_process_id e) ts w = (r, w1)" by force
  have k: "keeps i w w1" by (rule only_reads_keeps [OF only_reads_recent [OF r]])
  show ?thesis unfolding intent_edge_def
    by (auto simp: r keeps_db k intro: keeps_trans [OF k keeps_insert_edge])
qed

lemma keeps_call_edge: "keeps i w (call_edge e rollout ev ts w)"
proof -
  obtain r w1 where r: "recent_scoped_event ''tls_write'' (ig_run_id e) (ig_process_id e) ts w = (r, w1)" by force
  obtain b w2 where b: "edge_from_exists (event_node r) ''llm_call'' w1 = (b, w2)" by force
  have k: "keeps i w w1" "keeps i w w2"
    using only_reads_keeps [OF only_reads_recent [OF r]]
      only_reads_keeps [OF only_reads_trans [OF only_reads_recent [OF r] only_reads_edge [OF b]]] by auto
  show ?thesis unfolding call_edge_def
    by (auto simp: r b keeps_db k intro: keeps_trans [OF k(2) keeps_insert_edge])
qed

lemma keeps_close: "keeps i w (close_exited e ts w)"
proof -
  have "keeps i w (snd (close_where P t w))" for P t
    by (auto simp: close_where_def exec_total_def exec_def tbl_update_def keeps_def Let_def now_def)
  then show ?thesis by (auto simp: close_exited_def close_binding_by_pid_def keeps_db)
qed

lemma keeps_evidence: "keeps i w (queue_evidence e ts w)"
proof -
  have "keeps i w (exec_ignore (tbl_insert db_evidence_events db_evidence_events_update ee_id x) w)" for w x
    by (rule keeps_exec_ignore) (auto dest!: tbl_insert_Some simp: keeps_def)
  then show ?thesis unfolding queue_evidence_def
    by (auto simp: keeps_db split: prod.split intro: keeps_new_id)
qed

lemma keeps_taint_walk: "taint_walk queue seen w = (r, w') \<Longrightarrow> keeps i w w'"
proof (induction queue seen w rule: taint_walk.induct)
  case (1 queue seen w)
  show ?case
  proof (cases queue)
    case (Cons j rest)
    show ?thesis
    proof (cases "j \<in> set seen")
      case False
      obtain ok w1 where w1: "exec_total (taint_row j) w = (ok, w1)" by force
      obtain c w2 where w2: "query (snapshot_children j) w1 = (c, w2)" by force
      have "keeps i w w1" using exec_total_db [OF w1] by (auto simp: keeps_def taint_row_def tbl_update_def)
      moreover have "keeps i w1 w2" by (rule only_reads_keeps [OF only_reads_query [OF w2]])
      ultimately have k: "keeps i w w1" "keeps i w w2" using keeps_trans by blast+
      have t: "taint_walk queue seen w = (if \<not> ok then (None, w1)
          else case c of None \<Rightarrow> (None, w2) | Some children \<Rightarrow> taint_walk (rest @ children) (seen @ [j]) w2)"
        using Cons False by (subst taint_walk.simps) (simp add: w1 w2 split: option.split)
      show ?thesis
      proof (cases "ok \<and> c \<noteq> None")
        case True
        then obtain children where c: "c = Some children" by blast
        have "keeps i w2 w'"
          using 1(2) [OF Cons False w1 [symmetric] _ w2 [symmetric, unfolded c] refl] 1(3) t True c by simp
        then show ?thesis by (rule keeps_trans [OF k(2)])
      next
        case stop: False
        with 1(3) t k show ?thesis by (cases c) (auto split: if_splits)
      qed
    qed (use 1(1,3) Cons in \<open>subst (asm) taint_walk.simps, simp\<close>)
  qed (use 1(3) in \<open>subst (asm) taint_walk.simps, simp add: keeps_db\<close>)
qed

lemma keeps_tainted: "keeps i w (fold (insert_tainted_event origin run reason ts) js w)"
proof (induction js arbitrary: w)
  case (Cons j js)
  have "keeps i w (insert_tainted_event origin run reason ts j w)"
    by (auto simp: insert_tainted_event_def split: prod.split intro: keeps_new_id [OF _ keeps_insert_event])
  from keeps_trans [OF this Cons] show ?case by simp
qed (simp add: keeps_db)

lemma keeps_taint: "keeps i w (taint_if_risky e ts w)"
proof -
  obtain r w1 where r: "taint_walk [ig_snapshot_id e] [] w = (r, w1)" by force
  have k: "keeps i w w1" by (rule keeps_taint_walk [OF r])
  show ?thesis unfolding taint_if_risky_def taint_snapshot_and_descendants_def
    by (auto simp: r keeps_db k split: option.split intro: keeps_trans [OF k keeps_tainted])
qed

section \<open>The edges of an event\<close>

definition recorded :: "world \<Rightarrow> string \<Rightarrow> string \<times> string \<times> string \<Rightarrow> bool" where
  "recorded w run x \<longleftrightarrow> x \<in> set (load_run_edge_set (w_db w) run)"

lemma keeps_recorded: "keeps i w w' \<Longrightarrow> recorded w run x \<Longrightarrow> recorded w' run x"
  by (auto simp: keeps_def recorded_def load_run_edge_set_def)

lemma ready_insert_edge: "ready w \<Longrightarrow> ready (insert_edge run rollout ev ts x w)"
  and recorded_insert_edge: "ready w \<Longrightarrow> src \<noteq> [] \<Longrightarrow> dst \<noteq> [] \<Longrightarrow>
    recorded (insert_edge run rollout ev ts (src, dst, ty) w) run (src, dst, ty)"
proof -
  have eq: "insert_edge run rollout ev ts (src, dst, ty) w = w\<lparr>w_ids := Suc (w_ids w), w_stmts := Suc (w_stmts w),
      w_db := (w_db w)\<lparr>db_graph_edges := db_graph_edges (w_db w) @
        [runtime_edge (drawn ''edge'' w (w_ids w)) run rollout src dst ty ev ts]\<rparr>\<rparr>"
    if r: "ready w" and "src \<noteq> []" "dst \<noteq> []" for src dst ty
  proof -
    have "drawn ''edge'' w (w_ids w) \<notin> ge_id ` set (db_graph_edges (w_db w))"
      using ready_fresh [OF r, of "''edge''"] by (auto simp: db_ids_def)
    then show ?thesis
      using that by (simp add: insert_edge_def ready_new_id exec_ignore_def runtime_edge_def
          exec_insert_fresh ready_no_faults)
  qed
  show "ready w \<Longrightarrow> ready (insert_edge run rollout ev ts x w)"
  proof (cases x)
    case (fields src dst ty)
    assume r: "ready w"
    show ?thesis
    proof (cases "src = [] \<or> dst = []")
      case True
      with r fields show ?thesis by (auto simp: insert_edge_def)
    next
      case False
      with eq [OF r, of src dst ty] fields show ?thesis
        by (intro ready_step [OF r]) (auto simp: db_ids_def runtime_edge_def ready_no_faults [OF r])
    qed
  qed
  show "ready w \<Longrightarrow> src \<noteq> [] \<Longrightarrow> dst \<noteq> [] \<Longrightarrow>
      recorded (insert_edge run rollout ev ts (src, dst, ty) w) run (src, dst, ty)"
    by (simp add: eq recorded_def load_run_edge_set_def runtime_edge_def)
qed

lemma recorded_insert_edges:
  "ready w \<Longrightarrow> (src, dst, ty) \<in> set xs \<Longrightarrow> src \<noteq> [] \<Longrightarrow> dst \<noteq> [] \<Longrightarrow>
     recorded (insert_edges run rollout ev ts xs w) run (src, dst, ty)"
proof (induction xs arbitrary: w)
  case (Cons x xs)
  have r: "ready (insert_edge run rollout ev ts x w)" by (rule ready_insert_edge [OF Cons.prems(1)])
  show ?case
  proof (cases "x = (src, dst, ty)")
    case True
    from keeps_recorded [OF keeps_insert_edges recorded_insert_edge [OF Cons.prems(1,3,4)]] True
    show ?thesis by (simp add: insert_edges_def)
  next
    case False
    with Cons.IH [OF r] Cons.prems show ?thesis by (simp add: insert_edges_def)
  qed
qed simp

lemma recorded_after_insert:
  assumes "ready w" "ig_run_id e \<noteq> []" "(src, dst, ty) \<in> set (structural_edges e i @ file_edges e i)" "src \<noteq> []" "dst \<noteq> []"
  shows "recorded (after_insert e i ts w) (ig_run_id e) (src, dst, ty)"
proof -
  obtain rollout w1 where w1: "(if ig_rollout_id e = [] \<and> ig_attempt_id e \<noteq> []
      then query_text (rollout_of_attempt (ig_attempt_id e)) w else (ig_rollout_id e, w)) = (rollout, w1)" by force
  then have "only_reads w w1" by (auto dest: only_reads_text split: if_splits)
  then have "ready w1" using assms(1) only_reads_ready by blast
  from recorded_insert_edges [OF this assms(3-5)]
  have "recorded (insert_edges (ig_run_id e) rollout i ts (structural_edges e i @ file_edges e i) w1)
      (ig_run_id e) (src, dst, ty)" .
  from keeps_recorded [OF keeps_taint] keeps_recorded [OF keeps_evidence] keeps_recorded [OF keeps_close]
    keeps_recorded [OF keeps_call_edge] keeps_recorded [OF keeps_intent_edge this]
  show ?thesis using assms(2) by (simp add: after_insert_def record_runtime_causality_edges_def w1)
qed

lemma keeps_record: "keeps j w (record_runtime_causality_edges e i ts w)"
proof -
  obtain rollout w1 where w1: "(if ig_rollout_id e = [] \<and> ig_attempt_id e \<noteq> []
      then query_text (rollout_of_attempt (ig_attempt_id e)) w else (ig_rollout_id e, w)) = (rollout, w1)" by force
  then have "only_reads w w1" by (auto dest: only_reads_text split: if_splits)
  from keeps_trans [OF keeps_trans [OF keeps_trans [OF only_reads_keeps [OF this] keeps_insert_edges]
      keeps_intent_edge] keeps_call_edge]
  show ?thesis by (simp add: record_runtime_causality_edges_def w1 keeps_db)
qed

lemma keeps_after_insert: "keeps j w (after_insert e i ts w)"
  unfolding after_insert_def
  by (rule keeps_trans [OF keeps_trans [OF keeps_trans [OF keeps_record keeps_close] keeps_evidence] keeps_taint])

text \<open>Verification asks for nothing else.\<close>

lemma nodes_nonempty [simp]: "event_node i \<noteq> []" "pid_node p \<noteq> []" "tgid_node p \<noteq> []"
  by (simp_all add: event_node_def pid_node_def tgid_node_def)

lemma no_causality_issue:
  assumes rec: "\<And>src dst ty. (src, dst, ty) \<in> set (structural_edges e i @ file_edges e i) \<Longrightarrow> src \<noteq> [] \<Longrightarrow> dst \<noteq> [] \<Longrightarrow>
      has_edge edges src dst ty"
    and r: "rs_event r = e" and a: "lookup_attempt attempts (ig_tool_call_id e) \<in> {[], ig_attempt_id e}"
    and p: "verify_payload_path (stored_payload e) = payload_path (ig_payload e)"
  shows "list_all (\<lambda>x. vi_kind x = ''invalid_telemetry_payload_schema'') (causality_issues edges attempts (stored_event i ts r))"
proof -
  have s: "src \<noteq> [] \<Longrightarrow> dst \<noteq> [] \<Longrightarrow> (src, dst, ty) \<in> set (structural_edges e i) \<Longrightarrow> has_edge edges src dst ty"
    "src \<noteq> [] \<Longrightarrow> dst \<noteq> [] \<Longrightarrow> (src, dst, ty) \<in> set (file_edges e i) \<Longrightarrow> has_edge edges src dst ty" for src dst ty
    using rec by auto
  have at: "lookup_attempt attempts (ig_tool_call_id e) = [] \<or> lookup_attempt attempts (ig_tool_call_id e) = ig_attempt_id e"
    using a by auto
  have st: "ig_attempt_id e \<noteq> [] \<Longrightarrow> has_edge edges (ig_attempt_id e) (event_node i) ''runtime_attempt_event''"
    "ig_tool_call_id e \<noteq> [] \<Longrightarrow> has_edge edges (ig_tool_call_id e) (event_node i) ''runtime_tool_call_event''"
    "ig_tool_call_id e \<noteq> [] \<Longrightarrow> ig_process_id e \<noteq> [] \<Longrightarrow> has_edge edges (ig_tool_call_id e) (ig_process_id e) ''runtime_tool_call_process''"
    "ig_process_id e \<noteq> [] \<Longrightarrow> has_edge edges (ig_process_id e) (event_node i) ''runtime_process_event''"
    "ig_pid e \<noteq> 0 \<Longrightarrow> ig_process_id e \<noteq> [] \<Longrightarrow> has_edge edges (ig_process_id e) (pid_node (ig_pid e)) ''runtime_process_observed''"
    "ig_pid e \<noteq> 0 \<Longrightarrow> ig_ppid e \<noteq> 0 \<Longrightarrow> has_edge edges (pid_node (ig_ppid e)) (pid_node (ig_pid e)) ''runtime_process_parent''"
    "ig_pid e \<noteq> 0 \<Longrightarrow> ig_ppid e \<noteq> 0 \<Longrightarrow> has_edge edges (pid_node (ig_pid e)) (pid_node (ig_ppid e)) ''runtime_process_child_of''"
    "ig_pid e \<noteq> 0 \<Longrightarrow> ig_tgid e \<noteq> 0 \<Longrightarrow> ig_pid e \<noteq> ig_tgid e \<Longrightarrow> has_edge edges (tgid_node (ig_tgid e)) (pid_node (ig_pid e)) ''runtime_process_thread''"
    by (rule s(1), simp_all add: structural_edges_def Let_def)+
  define f where "f = ''workspace_file/'' @ payload_path (ig_payload e)"
  have "f \<noteq> []" by (simp add: f_def)
  have ft: "has_edge edges (event_node i) f ''runtime_event_file''"
    "ig_process_id e \<noteq> [] \<Longrightarrow> has_edge edges (ig_process_id e) f ''runtime_process_file''"
    "ig_tool_call_id e \<noteq> [] \<Longrightarrow> has_edge edges (ig_tool_call_id e) f ''runtime_tool_call_file''"
    "ig_attempt_id e \<noteq> [] \<Longrightarrow> has_edge edges (ig_attempt_id e) f ''runtime_attempt_file''"
    if "payload_path (ig_payload e) \<noteq> []" "ig_event_type e = ''file_write'' \<or> ig_event_type e = ''file_open''"
    using that \<open>f \<noteq> []\<close> by - (rule s(2), simp_all add: file_edges_def f_def Let_def)+
  let ?a = "lookup_attempt attempts (ig_tool_call_id e)"
  have a1: "?a \<noteq> [] \<Longrightarrow> has_edge edges ?a (event_node i) ''runtime_attempt_event''" using at st(1) by auto
  have a2: "payload_path (ig_payload e) \<noteq> [] \<Longrightarrow> ig_event_type e = ''file_write'' \<or> ig_event_type e = ''file_open'' \<Longrightarrow>
      ?a \<noteq> [] \<Longrightarrow> has_edge edges ?a f ''runtime_attempt_file''" using at ft(4) by auto
  show ?thesis
    unfolding causality_issues_def stored_event_def Let_def event.simps r p f_def [symmetric]
    by (simp add: err_if_def a1 a2 st ft issue_def cong: conj_cong if_cong)
qed

section \<open>Ingestion\<close>

definition reads_only :: "(world \<Rightarrow> 'a \<times> world) \<Rightarrow> bool" where
  "reads_only t \<longleftrightarrow> (\<forall>w. only_reads w (snd (t w)))"

lemma reads_only_tier: "reads_only t \<Longrightarrow> reads_only n \<Longrightarrow> reads_only (try_tier on t n)"
  unfolding reads_only_def
proof
  fix w assume a: "\<forall>w. only_reads w (snd (t w))" "\<forall>w. only_reads w (snd (n w))"
  obtain r w1 where t: "t w = (r, w1)" by force
  with a(1) have "only_reads w w1" by (metis snd_conv)
  moreover from this have "only_reads w (snd (n w1))" using a(2) only_reads_trans by blast
  ultimately show "only_reads w (snd (try_tier on t n w))"
    using a(2) t by (auto simp: try_tier_def split: sum.split option.split)
qed

lemma reads_only_scan: "reads_only (scan_one method source conf sel)"
  unfolding reads_only_def
proof
  fix w
  obtain r w1 where q: "query sel w = (r, w1)" by force
  from only_reads_query [OF q] q show "only_reads w (snd (scan_one method source conf sel w))"
    by (auto simp: scan_one_def Let_def split: option.split)
qed

lemma only_reads_resolve: "resolve x w = (r, w') \<Longrightarrow> only_reads w w'"
proof -
  assume r: "resolve x w = (r, w')"
  obtain t w1 where t: "now w = (t, w1)" by force
  define w0 where "w0 = (if ri_timestamp x = [] then w1 else w)"
  have o: "only_reads w w0" using only_reads_now [OF t] by (simp add: w0_def)
  have "reads_only (try_tier (ri_process_id x \<noteq> []) (resolve_by_process (ri_run_id x) (ri_process_id x))
       (try_tier (ri_cgroup_id x \<noteq> []) (resolve_by_cgroup (ri_run_id x) (ri_cgroup_id x) ts)
        (try_tier (ri_container_id x \<noteq> []) (resolve_by_container (ri_run_id x) (ri_container_id x) ts)
         (try_tier (ri_pid x \<noteq> 0) (resolve_by_pid (ri_run_id x) (ri_pid x) ts) (\<lambda>w. (Inr None, w))))))" for ts
    unfolding resolve_by_process_def resolve_by_cgroup_def resolve_by_container_def resolve_by_pid_def resolve_window_def
    by (intro reads_only_tier reads_only_scan) (simp add: reads_only_def)
  then have "only_reads w0 (snd (resolve x w))"
    unfolding resolve_def Let_def reads_only_def using t by (simp add: w0_def)
  with o r show ?thesis using only_reads_trans by fastforce
qed

lemma only_reads_fill: "fill_from_attempt e w = (e', w') \<Longrightarrow> only_reads w w'"
  unfolding fill_from_attempt_def by (auto split: if_splits prod.splits option.splits dest: only_reads_query)

lemma only_reads_on_committed:
  assumes "\<And>w r w'. f w = (r, w') \<Longrightarrow> only_reads w w'" "on_committed committed f w = (r, w')"
  shows "only_reads w w'"
proof (cases committed)
  case None
  with assms show ?thesis by (simp add: on_committed_def)
next
  case (Some d)
  obtain x v where v: "f (w\<lparr>w_db := d\<rparr>) = (x, v)" by force
  with assms(1) [OF v] assms(2) Some show ?thesis by (auto simp: on_committed_def only_reads_def)
qed

lemma only_reads_correlate: "correlate committed e w = (r, w') \<Longrightarrow> only_reads w w'"
proof -
  assume c: "correlate committed e w = (r, w')"
  obtain m w1 where m: "on_committed committed (resolve (identity_of e)) w = (m, w1)" by force
  have o: "only_reads w w1" by (rule only_reads_on_committed [OF only_reads_resolve m])
  show ?thesis
  proof (cases m)
    case (Inl a)
    with c m o show ?thesis by (auto simp: correlate_def Let_def split: if_splits)
  next
    case (Inr b)
    show ?thesis
    proof (cases b)
      case None
      with c m o Inr show ?thesis by (auto simp: correlate_def Let_def split: if_splits)
    next
      case (Some x)
      obtain e' w2 where f: "fill_from_attempt (fill_from_binding (ma_binding x) e) w1 = (e', w2)" by force
      have "only_reads w w2" by (rule only_reads_trans [OF o only_reads_fill [OF f]])
      with c m o Inr Some f show ?thesis by (auto simp: correlate_def Let_def split: if_splits)
    qed
  qed
qed

text \<open>What correlation is given.\<close>

definition prepared :: "ingest_event \<Rightarrow> ingest_event" where
  "prepared e = (normalized_event e)\<lparr>ig_payload := redact_string (ig_payload (normalized_event e))\<rparr>"

lemma ingest_stages:
  assumes "ready w" "ingest_filtered e w = (Inr i, w')" "correlate None (prepared e) w = (Inr r, w1)"
  shows "\<exists>ts w2. ready w2 \<and> w' = after_insert (rs_event r) i ts w2 \<and>
    filter (\<lambda>x. ev_id x = i) (db_events (w_db w2)) = [stored_event i ts (sampled r)]"
proof -
  obtain j w2 where j: "new_id ''evt'' w1 = (j, w2)" by force
  obtain ts w3 where ts: "now w2 = (ts, w3)" by force
  obtain ok w4 where ok: "exec (tbl_insert db_events db_events_update ev_id (stored_event j ts (sampled r))) w3 = (ok, w4)" by force
  have r1: "ready w1" by (rule only_reads_ready [OF only_reads_correlate [OF assms(3)] assms(1)])
  then have w2: "w2 = w1\<lparr>w_ids := Suc (w_ids w1)\<rparr>" "j = drawn ''evt'' w1 (w_ids w1)" using j ready_new_id by auto
  have "ready w2" unfolding w2(1)
    by (rule ready_step [OF r1]) (auto simp: ready_no_faults [OF r1])
  then have r3: "ready w3" using ready_now [OF _ ts] by blast
  have ev: "rs_event (sampled r) = rs_event r" by (simp add: sampled_def)
  from assms(2,3) have f: "ok" "i = j" "w' = after_insert (rs_event r) j ts w4"
    unfolding ingest_filtered_def ingest_with_store_def prepared_def Let_def
    by (auto simp: j ts ok ev split: if_splits)
  from exec_db [OF ok] f(1) have ins: "tbl_insert db_events db_events_update ev_id (stored_event j ts (sampled r)) (w_db w3) = Some (w_db w4)"
    by simp
  then have db: "w_db w4 = db_events_update (\<lambda>rs. rs @ [stored_event j ts (sampled r)]) (w_db w3)"
    and fresh: "j \<notin> ev_id ` set (db_events (w_db w3))"
    by (auto simp: tbl_insert_def stored_event_def Let_def split: if_splits)
  have w4: "w4 = w3\<lparr>w_stmts := Suc (w_stmts w3), w_db := w_db w4\<rparr>"
    using ok f(1) by (auto simp: exec_def Let_def split: if_splits option.splits)
  have "ready w4"
    by (subst w4, rule ready_step [OF r3]) (auto simp: ready_no_faults [OF r3] db db_ids_def)
  moreover have "filter (\<lambda>x. ev_id x = i) (db_events (w_db w3)) = []" using fresh f(2) by (auto simp: filter_empty_conv)
  then have "filter (\<lambda>x. ev_id x = i) (db_events (w_db w4)) = [stored_event i ts (sampled r)]"
    using f(2) by (simp add: db stored_event_def Let_def)
  ultimately show ?thesis using f(2,3) by blast
qed

lemma ingest_stored:
  assumes "ready w" "ingest_filtered e w = (Inr i, w')" "correlate None (prepared e) w = (Inr r, w1)"
  shows "\<exists>row \<in> set (db_events (w_db w')). ev_id row = i"
proof -
  obtain ts w2 where w2: "w' = after_insert (rs_event r) i ts w2"
    "filter (\<lambda>x. ev_id x = i) (db_events (w_db w2)) = [stored_event i ts (sampled r)]"
    using ingest_stages [OF assms] by blast
  then have "filter (\<lambda>x. ev_id x = i) (db_events (w_db w')) \<noteq> []"
    using keeps_after_insert [of i w2 "rs_event r" i ts] by (simp add: keeps_def)
  then show ?thesis by (auto simp: filter_empty_conv)
qed

text \<open>C2: What is ingested verifies. When the store works and an accepted event of a run is resolved to a
context whose tool call, if recorded, belongs to the same attempt, \<open>graph verify\<close> finds every causality
edge it asks for at the stored row: the only thing it can still object to is the payload's schema. The
payload has to be well-formed JSON after redaction, and the identifiers wrapped around it free of control
characters.\<close>

theorem ingested_event_linked:
  assumes "ready w" "ingest_filtered e w = (Inr i, w')" "correlate None (prepared e) w = (Inr r, w1)"
    and "ig_run_id (rs_event r) \<noteq> []"
    and "lookup_attempt attempts (ig_tool_call_id (rs_event r)) \<in> {[], ig_attempt_id (rs_event r)}"
    and "decode (ig_payload (rs_event r)) \<noteq> None"
    and "list_all plain_char (ig_rollout_id (rs_event r))" "list_all plain_char (ig_attempt_id (rs_event r))"
    and "row \<in> set (db_events (w_db w'))" "ev_id row = i"
  shows "list_all (\<lambda>x. vi_kind x = ''invalid_telemetry_payload_schema'')
    (causality_issues (load_run_edge_set (w_db w') (ig_run_id (rs_event r))) attempts row)"
proof -
  obtain ts w2 where w2: "ready w2" "w' = after_insert (rs_event r) i ts w2"
    "filter (\<lambda>x. ev_id x = i) (db_events (w_db w2)) = [stored_event i ts (sampled r)]"
    using ingest_stages [OF assms(1-3)] by blast
  have "filter (\<lambda>x. ev_id x = i) (db_events (w_db w')) = [stored_event i ts (sampled r)]"
    using keeps_after_insert [of i w2 "rs_event r" i ts] w2(2,3) by (simp add: keeps_def)
  moreover have "row \<in> set (filter (\<lambda>x. ev_id x = i) (db_events (w_db w')))" using assms(9,10) by simp
  ultimately have row: "row = stored_event i ts (sampled r)" by simp
  have "has_edge (load_run_edge_set (w_db w') (ig_run_id (rs_event r))) src dst ty"
    if "(src, dst, ty) \<in> set (structural_edges (rs_event r) i @ file_edges (rs_event r) i)" "src \<noteq> []" "dst \<noteq> []" for src dst ty
    using recorded_after_insert [OF w2(1) assms(4) that, of ts] w2(2) by (simp add: recorded_def has_edge_def)
  moreover have "rs_event (sampled r) = rs_event r" by (simp add: sampled_def)
  ultimately show ?thesis
    unfolding row by (intro no_causality_issue [of "rs_event r"] assms(5) stored_path assms(6-8))
qed

text \<open>A write of a file, with its context given.\<close>

definition toy_write :: ingest_event where
  "toy_write = \<lparr>ig_run_id = ''run-1'', ig_rollout_id = [], ig_attempt_id = ''att-1'', ig_session_id = ''sess-1'',
     ig_tool_call_id = ''call-1'', ig_process_id = ''proc-1'', ig_snapshot_id = [], ig_raw_event_id = [],
     ig_container_id = [], ig_cgroup_id = [], ig_pid = 42, ig_tgid = 42, ig_ppid = 7, ig_timestamp = [],
     ig_source = ''native_runtime'', ig_event_type = ''file_write'',
     ig_payload = CHR 0x7B # key_text ''path'' @ go_quote ''a.go'' @ [CHR 0x7D], ig_binding_source = []\<rparr>"

lemma toy_payload:
  "validate_raw_payload ''file_write'' (ig_payload toy_write) = None"
  "redact_string (ig_payload toy_write) = ig_payload toy_write"
  "decode (ig_payload toy_write) \<noteq> None"
  by code_simp+

definition fresh_world :: world where
  "fresh_world = (quiet_world empty_db)\<lparr>w_entropy := \<lambda>i. Some (replicate i CHR ''a'')\<rparr>"

lemma fresh_world_ready: "ready fresh_world"
proof -
  have "good_entropy fresh_world"
    by (auto simp: good_entropy_def fresh_world_def inj_on_def dest: arg_cong [of _ _ length])
  then show ?thesis
    by (simp add: ready_def db_ids_def fresh_world_def empty_db_def no_faults_def quiet_world_def)
qed

lemma toy_correlate:
  "correlate None (prepared toy_write) w = (Inr \<lparr>rs_event = toy_write, rs_method = ''provided_context'',
     rs_confidence = 1, rs_binding_source = []\<rparr>, w)"
proof -
  have "ig_payload toy_write \<noteq> []" by (simp add: toy_write_def)
  then have "prepared toy_write = toy_write"
    using toy_payload(2) by (simp add: prepared_def normalized_event_def) (simp add: toy_write_def or_else_def)
  then show ?thesis by (simp add: correlate_def) (simp add: toy_write_def)
qed

lemma toy_ingested: "\<exists>i w'. ingest_filtered toy_write fresh_world = (Inr i, w')"
proof -
  obtain i w1 where i: "new_id ''evt'' fresh_world = (i, w1)" by force
  obtain ts w2 where ts: "now w1 = (ts, w2)" by force
  have w1: "w1 = fresh_world\<lparr>w_ids := Suc (w_ids fresh_world)\<rparr>" using i ready_new_id [OF fresh_world_ready] by auto
  have "no_faults w2" "w_db w2 = empty_db"
    using ts by (auto simp: now_def w1 fresh_world_def no_faults_def quiet_world_def)
  then have ok: "\<exists>w3. exec (tbl_insert db_events db_events_update ev_id x) w2 = (True, w3)" for x
    by (simp add: exec_no_faults tbl_insert_def empty_db_def)
  have n: "(normalized_event toy_write)\<lparr>ig_payload := redact_string (ig_payload (normalized_event toy_write))\<rparr> = prepared toy_write"
    by (simp add: prepared_def)
  have v: "ig_event_type toy_write = ''file_write''" "ig_event_type (normalized_event toy_write) = ''file_write''"
    "ig_payload (normalized_event toy_write) = ig_payload toy_write" "allowed_event_type ''file_write''"
    by (simp_all add: toy_write_def normalized_event_def allowed_event_type_def allowed_event_types_def)
  obtain w3 where "exec (tbl_insert db_events db_events_update ev_id (stored_event i ts (sampled
      \<lparr>rs_event = toy_write, rs_method = ''provided_context'', rs_confidence = 1, rs_binding_source = []\<rparr>))) w2 = (True, w3)"
    using ok by blast
  then show ?thesis
    by (simp add: ingest_filtered_def ingest_with_store_def Let_def v toy_payload(1) n [unfolded v] toy_correlate i ts)
qed

lemma ingested_event_linked_witness:
  "case ingest_filtered toy_write fresh_world of
     (Inl err, w') \<Rightarrow> False
   | (Inr i, w') \<Rightarrow> list_ex (\<lambda>row. ev_id row = i \<and>
       list_all (\<lambda>x. vi_kind x = ''invalid_telemetry_payload_schema'')
         (causality_issues (load_run_edge_set (w_db w') ''run-1'') [] row)) (db_events (w_db w'))"
proof -
  obtain i w' where i: "ingest_filtered toy_write fresh_world = (Inr i, w')" using toy_ingested by blast
  obtain row where row: "row \<in> set (db_events (w_db w'))" "ev_id row = i"
    using ingest_stored [OF fresh_world_ready i toy_correlate] by blast
  from ingested_event_linked [OF fresh_world_ready i toy_correlate _ _ _ _ _ row, of "[]"] toy_payload(3)
  have "list_all (\<lambda>x. vi_kind x = ''invalid_telemetry_payload_schema'')
      (causality_issues (load_run_edge_set (w_db w') ''run-1'') [] row)"
    by (simp add: lookup_attempt_def) (simp add: toy_write_def plain_char_def)
  with row i show ?thesis by (auto simp: list_ex_iff)
qed

end
