(* ===== verification/Tlsmeta.thy ===== *)
theory Tlsmeta
  imports Json GoInt
begin

text \<open>
  \<open>internal/telemetry/tlsmeta.go\<close>: what a captured TLS window says about the HTTP exchange. Only listed
  fields are taken from it; the lemmas show that no other key is ever written.
\<close>

section \<open>Lines\<close>

definition index_byte :: "char \<Rightarrow> string \<Rightarrow> nat option" where
  "index_byte c s = (if c \<in> set s then Some (length (takeWhile (\<lambda>x. x \<noteq> c) s)) else None)"

definition http_methods :: "string set" where
  "http_methods = {''GET'', ''POST'', ''PUT'', ''DELETE'', ''PATCH'', ''HEAD'', ''OPTIONS'', ''CONNECT'', ''TRACE''}"

definition trim_cr :: "string \<Rightarrow> string" where
  "trim_cr s = trim_right (\<lambda>c. c = CHR 0x0D) s"

definition first_line :: "string \<Rightarrow> string" where
  "first_line s = (case index_byte CHR 0x0A s of None \<Rightarrow> s | Some i \<Rightarrow> trim_cr (take i s))"

definition first_token :: "string \<Rightarrow> string" where
  "first_token s =
     (case index_byte CHR '' '' (first_line s) of None \<Rightarrow> first_line s | Some i \<Rightarrow> take i (first_line s))"

definition is_http1_response_line :: "string \<Rightarrow> bool" where
  "is_http1_response_line s \<longleftrightarrow> has_prefix s ''HTTP/1.0 '' \<or> has_prefix s ''HTTP/1.1 ''"

definition is_http1_request_line :: "string \<Rightarrow> bool" where
  "is_http1_request_line s =
     (let parts = split_char CHR '' '' (first_line s) in
      if length parts \<noteq> 3 \<or> parts ! 0 \<notin> http_methods then False else has_prefix (parts ! 2) ''HTTP/1.'')"

definition http1_version :: "string \<Rightarrow> string" where
  "http1_version token =
     (if token = ''HTTP/1.0'' then ''http/1.0'' else if token = ''HTTP/1.1'' then ''http/1.1'' else ''http/1'')"

definition http1_status :: "string \<Rightarrow> int" where
  "http1_status s =
     (let parts = split_char CHR '' '' (first_line s) in
      if length parts < 2 then 0
      else case atoi (parts ! 1) of (code, ok) \<Rightarrow> if \<not> ok \<or> code < 100 \<or> code > 599 then 0 else code)"

definition http1_request_line :: "string \<Rightarrow> string \<times> string \<times> string" where
  "http1_request_line s =
     (let parts = split_char CHR '' '' (first_line s) in
      if length parts \<noteq> 3 then ([], [], ''http/1'') else (parts ! 0, parts ! 1, http1_version (parts ! 2)))"

section \<open>Headers and scalars\<close>

fun header_lines_value :: "string \<Rightarrow> string list \<Rightarrow> string" where
  "header_lines_value p [] = []"
| "header_lines_value p (l # ls) =
     (let line = trim_cr l in
      if line = [] then []
      else if has_prefix (to_lower line) p then trim_space (drop (length p) line)
      else header_lines_value p ls)"

definition header_value :: "string \<Rightarrow> string \<Rightarrow> string" where
  "header_value s name = header_lines_value (to_lower name @ '':'') (split_char CHR 0x0A s)"

definition after_byte :: "char \<Rightarrow> string \<Rightarrow> string option" where
  "after_byte c s = map_option (\<lambda>i. drop (i + 1) s) (index_byte c s)"

definition json_string_value :: "string \<Rightarrow> string \<Rightarrow> string" where
  "json_string_value s key =
     (let needle = CHR 0x22 # key @ [CHR 0x22] in
      case index_of s needle of
        None \<Rightarrow> []
      | Some i \<Rightarrow>
          (case after_byte CHR '':'' (drop (i + length needle) s) of
             None \<Rightarrow> []
           | Some rest \<Rightarrow>
               (case after_byte CHR 0x22 rest of
                  None \<Rightarrow> []
                | Some rest \<Rightarrow>
                    (case index_byte CHR 0x22 rest of None \<Rightarrow> [] | Some j \<Rightarrow> take j rest))))"

definition non_printable :: "char \<Rightarrow> bool" where
  "non_printable c \<longleftrightarrow>
     c \<notin> {CHR 0x09, CHR 0x0D, CHR 0x0A} \<and> (of_char c < (32 :: nat) \<or> of_char c > (126 :: nat))"

definition looks_binary :: "string \<Rightarrow> bool" where
  "looks_binary s =
     (let n = min (length s) 64 in
      if n = 0 then False else length (filter non_printable (take n s)) * 5 > n)"

section \<open>Metadata\<close>

definition tls_head :: "string \<Rightarrow> (string \<times> json) list" where
  "tls_head s =
     (if has_prefix s ''PRI * HTTP/2.0'' then [(''protocol'', JStr ''h2''), (''headers_decoded'', JBool False)]
      else if is_http1_response_line s then
        [(''protocol'', JStr (http1_version (first_token s))), (''kind'', JStr ''response'')] @
        (if http1_status s > 0 then [(''status'', JNum (of_int (http1_status s)))] else [])
      else if is_http1_request_line s then
        (case http1_request_line s of (meth, path, version) \<Rightarrow>
           [(''protocol'', JStr version), (''kind'', JStr ''request''), (''method'', JStr meth)] @
           (if path \<noteq> [] then [(''path'', JStr path)] else []))
      else if looks_binary s then [(''protocol'', JStr ''h2''), (''headers_decoded'', JBool False)]
      else [])"

definition tls_headers :: "string \<Rightarrow> (string \<times> json) list" where
  "tls_headers s =
     (let host = header_value s ''host''; ct = header_value s ''content-type''; model = json_string_value s ''model'' in
      (if host \<noteq> [] then [(''host'', JStr host)] else []) @
      (if ct \<noteq> [] then [(''content_type'', JStr ct)] @
         (if contains (to_lower ct) ''text/event-stream'' then [(''is_stream'', JBool True)] else [])
       else []) @
      (if model \<noteq> [] then [(''model'', JStr model)] else []))"

definition tls_meta :: "string \<Rightarrow> string \<Rightarrow> (string \<times> json) list option" where
  "tls_meta s direction =
     (if s = [] then None
      else
        let meta = tls_head s @ tls_headers s in
        if meta = [] then None
        else Some (meta @ (if jget ''kind'' meta = None \<and> direction \<noteq> [] then [(''kind'', JStr direction)] else [])))"

section \<open>Lemmas\<close>

definition tls_meta_keys :: "string set" where
  "tls_meta_keys = {''protocol'', ''headers_decoded'', ''kind'', ''status'', ''method'', ''path'', ''host'',
     ''content_type'', ''is_stream'', ''model''}"

lemma tls_head_keys: "map fst (tls_head s) \<in> {[], [''protocol'', ''headers_decoded''], [''protocol'', ''kind''],
    [''protocol'', ''kind'', ''status''], [''protocol'', ''kind'', ''method''], [''protocol'', ''kind'', ''method'', ''path'']}"
  by (cases "http1_request_line s") (simp add: tls_head_def)

lemma tls_headers_keys:
  "set (map fst (tls_headers s)) \<subseteq> {''host'', ''content_type'', ''is_stream'', ''model''} \<and> distinct (map fst (tls_headers s))"
  by (cases "header_value s ''host'' = []"; cases "header_value s ''content-type'' = []"; cases "json_string_value s ''model'' = []";
      simp add: tls_headers_def Let_def)

lemma tls_meta_allow_listed: "tls_meta s direction = Some meta \<Longrightarrow> set (map fst meta) \<subseteq> tls_meta_keys \<and> distinct (map fst meta)"
proof -
  assume m: "tls_meta s direction = Some meta"
  define hs ts where "hs = map fst (tls_head s)" and "ts = map fst (tls_headers s)"
  have hs: "set hs \<subseteq> {''protocol'', ''headers_decoded'', ''kind'', ''status'', ''method'', ''path''} \<and> distinct hs"
    using tls_head_keys [of s] unfolding hs_def [symmetric] by (elim insertE emptyE) simp_all
  have ts: "set ts \<subseteq> {''host'', ''content_type'', ''is_stream'', ''model''} \<and> distinct ts"
    using tls_headers_keys [of s] unfolding ts_def [symmetric] .
  have d: "set hs \<inter> set ts = {}" "''kind'' \<notin> set ts" using hs ts by fastforce+
  have meta: "meta = tls_head s @ tls_headers s \<or>
      meta = tls_head s @ tls_headers s @ [(''kind'', JStr direction)] \<and> ''kind'' \<notin> set hs"
    using m unfolding tls_meta_def Let_def hs_def jget_def
    by (cases "map_of (tls_head s @ tls_headers s) ''kind''"; simp split: if_splits) (auto simp: map_of_eq_None_iff)
  then have "map fst meta = hs @ ts \<or> map fst meta = hs @ ts @ [''kind''] \<and> ''kind'' \<notin> set hs"
    by (auto simp: hs_def ts_def)
  then obtain ks where ks: "map fst meta = ks" "ks = hs @ ts \<or> ks = hs @ ts @ [''kind''] \<and> ''kind'' \<notin> set hs" by blast
  then have "distinct ks" "set ks \<subseteq> set hs \<union> set ts \<union> {''kind''}" using hs ts d by auto
  moreover have "set hs \<union> set ts \<union> {''kind''} \<subseteq> tls_meta_keys"
  proof -
    have "{''protocol'', ''headers_decoded'', ''kind'', ''status'', ''method'', ''path''} \<subseteq> tls_meta_keys"
      "{''host'', ''content_type'', ''is_stream'', ''model''} \<subseteq> tls_meta_keys" "{''kind''} \<subseteq> tls_meta_keys"
      by (simp_all add: tls_meta_keys_def)
    with hs ts show ?thesis by (meson Un_least order_trans)
  qed
  ultimately show ?thesis unfolding ks(1) by blast
qed

end
