(* ===== verification/JsonlMap.thy ===== *)
theory JsonlMap
  imports Ingest Policy Tlsmeta
begin

text \<open>
  The mapping half of \<open>internal/telemetry/jsonl.go\<close>: from one decoded line of Tetragon, Falco,
  LoongCollector or of the program's own sensor to an event. The lemmas show what a mapped event can be.
\<close>

section \<open>Reading fields\<close>

type_synonym raw_object = "(string \<times> json) list"

definition string_at :: "raw_object \<Rightarrow> string \<Rightarrow> string" where
  "string_at raw k =
     (case jget k raw of
        Some (JStr s) \<Rightarrow> trim_space s
      | Some (JNum r) \<Rightarrow> show_int (int64_of_number r)
      | _ \<Rightarrow> [])"

definition int_at :: "raw_object \<Rightarrow> string \<Rightarrow> int" where
  "int_at raw k =
     (case jget k raw of
        Some (JNum r) \<Rightarrow> int64_of_number r
      | Some (JStr s) \<Rightarrow> fst (atoi (trim_space s))
      | _ \<Rightarrow> 0)"

definition string_array_at :: "raw_object \<Rightarrow> string \<Rightarrow> string list" where
  "string_array_at raw k =
     (case jget k raw of
        Some (JArr vs) \<Rightarrow> concat (map (\<lambda>v. case v of JStr s \<Rightarrow> if trim_space s \<noteq> [] then [s] else [] | _ \<Rightarrow> []) vs)
      | _ \<Rightarrow> [])"

fun first_trimmed :: "string list \<Rightarrow> string" where
  "first_trimmed [] = []"
| "first_trimmed (v # vs) = (if trim_space v \<noteq> [] then trim_space v else first_trimmed vs)"

fun first_int :: "int list \<Rightarrow> int" where
  "first_int [] = 0"
| "first_int (v # vs) = (if v \<noteq> 0 then v else first_int vs)"

definition or_unknown :: "string list \<Rightarrow> string list" where
  "or_unknown argv = (if argv = [] then [''unknown''] else argv)"

definition jstrings :: "string list \<Rightarrow> json" where
  "jstrings vs = JArr (map JStr vs)"

definition jint :: "int \<Rightarrow> json" where
  "jint n = JNum (of_int n)"

definition trim_brackets :: "string \<Rightarrow> string" where
  "trim_brackets s = trim_left (\<lambda>c. c \<in> {CHR ''['', CHR '']''}) (trim_right (\<lambda>c. c \<in> {CHR ''['', CHR '']''}) s)"

section \<open>Classification\<close>

definition private_ip :: "string \<Rightarrow> bool" where
  "private_ip raw = is_private_ip (trim_brackets raw)"

definition secret_path :: "string \<Rightarrow> bool" where
  "secret_path path \<longleftrightarrow> list_ex (contains (to_lower path)) [''.env'', ''id_rsa'', ''secret'', ''credentials'']"

definition write_open_flags :: "string \<Rightarrow> bool" where
  "write_open_flags flags \<longleftrightarrow>
     list_ex (contains (to_lower flags)) [''o_wronly'', ''o_rdwr'', ''o_creat'', ''o_trunc'', ''write'']"

definition connect_type :: "string \<Rightarrow> string" where
  "connect_type host =
     (if host = ''169.254.169.254'' then ''metadata_ip'' else if private_ip host then ''private_cidr''
      else ''network_connect'')"

text \<open>\<open>net.SplitHostPort\<close>.\<close>

definition last_index :: "char \<Rightarrow> string \<Rightarrow> nat option" where
  "last_index c s = map_option (\<lambda>i. length s - Suc i) (index_byte c (rev s))"

definition split_host_port :: "string \<Rightarrow> (string \<times> string) option" where
  "split_host_port s =
     (case last_index CHR '':'' s of
        None \<Rightarrow> None
      | Some i \<Rightarrow>
          let port = drop (i + 1) s in
          if hd s = CHR ''['' then
            (case index_byte CHR '']'' s of
               None \<Rightarrow> None
             | Some j \<Rightarrow>
                 if j + 1 \<noteq> i then None
                 else if CHR ''['' \<in> set (drop 1 s) \<or> CHR '']'' \<in> set (drop (j + 1) s) then None
                 else Some (drop 1 (take j s), port))
          else
            let host = take i s in
            if CHR '':'' \<in> set host \<or> CHR ''['' \<in> set s \<or> CHR '']'' \<in> set s then None else Some (host, port))"

definition split_falco_destination :: "string \<Rightarrow> string \<times> string" where
  "split_falco_destination dst =
     (let dst = trim_space dst in
      if dst = [] then ([], [])
      else case split_host_port dst of
        Some (host, port) \<Rightarrow> (trim_brackets host, port)
      | None \<Rightarrow>
          (case last_index CHR '':'' dst of
             Some i \<Rightarrow> if count_list dst CHR '':'' = 1 then (take i dst, drop (i + 1) dst) else (trim_brackets dst, [])
           | None \<Rightarrow> (trim_brackets dst, [])))"

section \<open>TLS payloads\<close>

text \<open>The SHA-256 in hex, and whether \<open>AGENTPROV_TLS_CAPTURE_BODY\<close> is 1.\<close>

record mapper_env =
  me_sha :: "bytes \<Rightarrow> string"
  me_capture_body :: bool

definition truncate_preview :: "string \<Rightarrow> nat \<Rightarrow> string" where
  "truncate_preview s n = (if length s > n then take n s else s)"

definition ssl_payload :: "mapper_env \<Rightarrow> raw_object \<Rightarrow> string \<Rightarrow> string \<Rightarrow> string" where
  "ssl_payload env raw comm direction =
     (let text = string_at raw ''data'' in
      marshal (JObj (
        [(''preview_sha256'', JStr (me_sha env text)), (''preview'', JStr (truncate_preview text 80)),
         (''length'', jint (int_at raw ''length'')), (''comm'', JStr comm)] @
        (if string_at raw ''model'' \<noteq> [] then [(''model'', JStr (string_at raw ''model''))] else []) @
        (if text \<noteq> [] \<and> me_capture_body env then [(''content'', JStr text)] else []) @
        (case tls_meta text direction of None \<Rightarrow> [] | Some meta \<Rightarrow> [(''http'', JObj meta)]))))"

section \<open>Mappers\<close>

definition base_mapped_event :: "raw_object \<Rightarrow> string \<Rightarrow> ingest_event" where
  "base_mapped_event raw source =
     \<lparr>ig_run_id = [], ig_rollout_id = [], ig_attempt_id = [], ig_session_id = [], ig_tool_call_id = [],
      ig_process_id = [], ig_snapshot_id = [],
      ig_raw_event_id = first_trimmed [string_at raw ''id'', string_at raw ''uuid'', string_at raw ''event_id''],
      ig_container_id = first_trimmed [string_at raw ''container_id'', string_at raw ''container.id''],
      ig_cgroup_id = first_trimmed [string_at raw ''cgroup_id'', string_at raw ''cgroup.id''],
      ig_pid = int_at raw ''pid'', ig_tgid = int_at raw ''tgid'', ig_ppid = int_at raw ''ppid'',
      ig_timestamp = first_trimmed [string_at raw ''time'', string_at raw ''timestamp''],
      ig_source = source, ig_event_type = [], ig_payload = [], ig_binding_source = []\<rparr>"

definition typed :: "ingest_event \<Rightarrow> string \<Rightarrow> string \<Rightarrow> ingest_event option" where
  "typed e ty payload = Some (e\<lparr>ig_event_type := ty, ig_payload := payload\<rparr>)"

definition native_exec :: "raw_object \<Rightarrow> ingest_event \<Rightarrow> string \<Rightarrow> ingest_event option" where
  "native_exec raw e comm =
     (let path = string_at raw ''path''; command = string_at raw ''command''; argv = GoPrelude.fields command;
          argv = (if argv = [] then (if path \<noteq> [] then [path] else if comm \<noteq> [] then [comm] else [''unknown'']) else argv);
          command = (if command = [] then join '' '' argv else command)
      in typed e ''execve'' (marshal (JObj [(''argv'', jstrings argv), (''command'', JStr command), (''comm'', JStr comm)])))"

definition native_connect :: "raw_object \<Rightarrow> ingest_event \<Rightarrow> string \<Rightarrow> ingest_event option" where
  "native_connect raw e comm =
     (let host = string_at raw ''dst_ip'' in
      typed e (connect_type host) (marshal (JObj [(''dst_ip'', JStr host), (''host'', JStr host),
        (''port'', JStr (string_at raw ''dst_port'')), (''comm'', JStr comm)])))"

definition native_file :: "raw_object \<Rightarrow> ingest_event \<Rightarrow> string \<Rightarrow> ingest_event option" where
  "native_file raw e comm =
     (let path = string_at raw ''path''; mode = first_trimmed [string_at raw ''mode'', ''write''] in
      typed e (if mode = ''read'' \<and> secret_path path then ''secret_path'' else if mode = ''read'' then ''file_open''
               else ''file_write'')
        (marshal (JObj [(''path'', JStr path), (''mode'', JStr mode), (''comm'', JStr comm)])))"

definition map_native :: "mapper_env \<Rightarrow> raw_object \<Rightarrow> ingest_event option" where
  "map_native env raw =
     (let e = base_mapped_event raw ''agentprov_ebpf''; comm = string_at raw ''comm'';
          ty = to_lower (first_trimmed [string_at raw ''event_type'', string_at raw ''type'']);
          path = JStr (string_at raw ''path'') in
      if ty \<in> {''execve'', ''exec'', ''process_exec''} then native_exec raw e comm
      else if ty \<in> {''network_connect'', ''connect''} then native_connect raw e comm
      else if ty \<in> {''file_open'', ''open'', ''openat'', ''file_write''} then native_file raw e comm
      else if ty \<in> {''process_exit'', ''exit''} then
        typed e ''process_exit'' (marshal (JObj [(''exit_code'', jint (int_at raw ''exit_code'')), (''comm'', JStr comm)]))
      else if ty = ''setuid'' then
        typed e ''setuid'' (marshal (JObj [(''uid'', jint (int_at raw ''uid'')), (''comm'', JStr comm)]))
      else if ty = ''setgid'' then
        typed e ''setgid'' (marshal (JObj [(''gid'', jint (int_at raw ''gid'')), (''comm'', JStr comm)]))
      else if ty = ''ptrace'' then
        typed e ''ptrace'' (marshal (JObj [(''request'', jint (int_at raw ''request'')),
          (''target_pid'', jint (int_at raw ''target_pid'')), (''comm'', JStr comm)]))
      else if ty \<in> {''file_rename'', ''rename'', ''renameat'', ''renameat2''} then
        typed e ''file_rename'' (marshal (JObj [(''path'', path), (''comm'', JStr comm)]))
      else if ty \<in> {''file_unlink'', ''unlink'', ''unlinkat''} then
        typed e ''file_unlink'' (marshal (JObj [(''path'', path), (''comm'', JStr comm)]))
      else if ty \<in> {''dns_query'', ''dns'', ''getaddrinfo''} then
        typed e ''dns_query'' (marshal (JObj [(''host'', JStr (string_at raw ''host'')), (''comm'', JStr comm)]))
      else if ty = ''resource_pressure'' then
        typed e ''resource_pressure'' (marshal (JObj
          [(''resource'', JStr (first_trimmed [string_at raw ''resource'', ''sensor_ringbuf''])),
           (''signal'', JStr (first_trimmed [string_at raw ''signal'', ''event_drop''])),
           (''dropped'', jint (int_at raw ''dropped'')), (''dropped_delta'', jint (int_at raw ''dropped_delta''))]))
      else if ty = ''tls_write'' then typed e ''tls_write'' (ssl_payload env raw comm ''request'')
      else if ty = ''tls_read'' then typed e ''tls_read'' (ssl_payload env raw comm ''response'')
      else None)"

definition tetragon_argv :: "raw_object \<Rightarrow> string list" where
  "tetragon_argv proc =
     (let binary = string_at proc ''binary''; args = GoPrelude.fields (string_at proc ''arguments'') in
      if binary \<noteq> [] then binary # args else or_unknown args)"

definition or_nil :: "raw_object option \<Rightarrow> raw_object" where
  "or_nil m = (case m of None \<Rightarrow> [] | Some kvs \<Rightarrow> kvs)"

definition map_tetragon :: "raw_object \<Rightarrow> ingest_event option" where
  "map_tetragon raw =
     (let e = base_mapped_event raw ''tetragon_jsonl'' in
      case nested_object ''process_exec'' raw of
        Some ex \<Rightarrow>
          let proc = or_nil (nested_object ''process'' ex) in
          typed (e\<lparr>ig_pid := first_int [ig_pid e, int_at proc ''pid''],
                   ig_ppid := first_int [ig_ppid e, int_at proc ''parent_exec_id''],
                   ig_container_id := first_trimmed [ig_container_id e, string_at proc ''docker'']\<rparr>)
            ''execve'' (marshal (JObj [(''argv'', jstrings (tetragon_argv proc))]))
      | None \<Rightarrow>
          (case nested_object ''process_exit'' raw of
             Some ex \<Rightarrow>
               let proc = or_nil (nested_object ''process'' ex) in
               typed (e\<lparr>ig_pid := first_int [ig_pid e, int_at proc ''pid'']\<rparr>) ''process_exit''
                 (marshal (JObj [(''exit_code'', jint (int_at ex ''status''))]))
           | None \<Rightarrow> None))"

definition falco_context :: "raw_object \<Rightarrow> (string \<times> json) list" where
  "falco_context raw =
     [(''rule'', JStr (first_trimmed [string_at raw ''rule'', string_at raw ''output''])),
      (''priority'', JStr (string_at raw ''priority'')), (''falco_time'', JStr (string_at raw ''time''))]"

definition map_falco :: "raw_object \<Rightarrow> ingest_event option" where
  "map_falco raw =
     (case nested_object ''output_fields'' raw of
        None \<Rightarrow> None
      | Some fs \<Rightarrow>
          let e = base_mapped_event raw ''falco_jsonl'';
              e = e\<lparr>ig_pid := first_int [ig_pid e, int_at fs ''proc.pid''],
                    ig_ppid := first_int [ig_ppid e, int_at fs ''proc.ppid''],
                    ig_container_id := first_trimmed [ig_container_id e, string_at fs ''container.id''],
                    ig_cgroup_id := first_trimmed [ig_cgroup_id e, string_at fs ''container.cgroup'', string_at fs ''proc.cgroup'']\<rparr>;
              ty = to_lower (first_trimmed [string_at fs ''evt.type'', string_at raw ''evt.type'']) in
          if ty \<in> {''execve'', ''execveat'', ''spawned_process''} then
            let argv = or_unknown (GoPrelude.fields (first_trimmed [string_at fs ''proc.cmdline'', string_at fs ''proc.exepath''])) in
            typed e ''execve'' (marshal (JObj ([(''argv'', jstrings argv), (''command'', JStr (join '' '' argv))] @ falco_context raw)))
          else if ty \<in> {''open'', ''openat'', ''openat2'', ''creat''} then
            let path = first_trimmed [string_at fs ''fd.name'', string_at fs ''evt.arg.path'', string_at fs ''evt.arg.name''];
                flags = first_trimmed [string_at fs ''evt.arg.flags'', string_at fs ''evt.args''] in
            typed e (if secret_path path then ''secret_path'' else if write_open_flags flags then ''file_write'' else ''file_open'')
              (marshal (JObj ([(''path'', JStr path), (''flags'', JStr flags)] @ falco_context raw)))
          else if ty = ''connect'' then
            let dst = first_trimmed [string_at fs ''fd.rip'', string_at fs ''fd.name'', string_at fs ''fd.sip''];
                (host, port) = split_falco_destination dst in
            typed e (connect_type host) (marshal (JObj ([(''dst'', JStr dst), (''dst_ip'', JStr host), (''host'', JStr host),
              (''port'', JStr port)] @ falco_context raw)))
          else None)"

definition map_loong_collector :: "raw_object \<Rightarrow> ingest_event option" where
  "map_loong_collector raw =
     (let e = base_mapped_event raw ''loongcollector_jsonl'';
          ty = to_lower (first_trimmed [string_at raw ''event_type'', string_at raw ''type'', string_at raw ''event.name'']) in
      if ty \<in> {''execve'', ''exec'', ''process_exec''} then
        let argv = string_array_at raw ''argv'';
            argv = (if argv = [] then GoPrelude.fields (string_at raw ''command'') else argv) in
        typed e ''execve'' (marshal (JObj [(''argv'', jstrings (or_unknown argv))]))
      else if ty \<in> {''process_exit'', ''exit''} then
        typed e ''process_exit'' (marshal (JObj [(''exit_code'', jint (int_at raw ''exit_code''))]))
      else if ty \<in> {''file_open'', ''file_write''} then
        typed e ty (marshal (JObj [(''path'', JStr (first_trimmed [string_at raw ''path'', string_at raw ''file'']))]))
      else if ty \<in> {''network_connect'', ''connect''} then
        typed e ''network_connect'' (marshal (JObj [(''dst'',
          JStr (first_trimmed [string_at raw ''dst'', string_at raw ''dst_ip'', string_at raw ''host'']))]))
      else None)"

section \<open>Formats\<close>

definition detect_format :: "raw_object \<Rightarrow> string" where
  "detect_format raw =
     (if jget ''process_exec'' raw \<noteq> None then ''tetragon''
      else if jget ''process_exit'' raw \<noteq> None then ''tetragon''
      else if jget ''output_fields'' raw \<noteq> None then ''falco''
      else if string_at raw ''source'' = ''agentprov_ebpf'' then ''native''
      else ''loongcollector'')"

record jsonl_options =
  jo_format :: string
  jo_path :: string
  jo_run_id :: string
  jo_session_id :: string
  jo_attempt_id :: string
  jo_tool_call_id :: string
  jo_process_id :: string
  jo_snapshot_id :: string
  jo_rollout_id :: string
  jo_exclude_path_prefixes :: "string list"
  jo_exclude_cgroup_ids :: "string list"
  jo_drop_uncorrelated :: bool

definition detected_jsonl_format :: "jsonl_options \<Rightarrow> raw_object \<Rightarrow> string" where
  "detected_jsonl_format opts raw =
     (if jo_format opts \<noteq> [] \<and> jo_format opts \<noteq> ''auto'' then jo_format opts else detect_format raw)"

definition map_format :: "mapper_env \<Rightarrow> string \<Rightarrow> raw_object \<Rightarrow> go_error + ingest_event option" where
  "map_format env format raw =
     (if format = ''tetragon'' then Inr (map_tetragon raw)
      else if format = ''falco'' then Inr (map_falco raw)
      else if format = ''loongcollector'' then Inr (map_loong_collector raw)
      else if format = ''native'' then Inr (map_native env raw)
      else Inl (Errorf ''unsupported telemetry jsonl format''))"

definition with_context :: "jsonl_options \<Rightarrow> string \<Rightarrow> nat \<Rightarrow> ingest_event \<Rightarrow> ingest_event" where
  "with_context opts format n e =
     e\<lparr>ig_run_id := first_trimmed [ig_run_id e, jo_run_id opts],
       ig_rollout_id := first_trimmed [ig_rollout_id e, jo_rollout_id opts],
       ig_attempt_id := first_trimmed [ig_attempt_id e, jo_attempt_id opts],
       ig_session_id := first_trimmed [ig_session_id e, jo_session_id opts],
       ig_tool_call_id := first_trimmed [ig_tool_call_id e, jo_tool_call_id opts],
       ig_process_id := first_trimmed [ig_process_id e, jo_process_id opts],
       ig_snapshot_id := first_trimmed [ig_snapshot_id e, jo_snapshot_id opts],
       ig_raw_event_id := (if ig_raw_event_id e = [] then format @ '':'' @ show_nat n else ig_raw_event_id e)\<rparr>"

definition map_jsonl_event ::
  "mapper_env \<Rightarrow> jsonl_options \<Rightarrow> raw_object \<Rightarrow> nat \<Rightarrow> go_error + ingest_event option" where
  "map_jsonl_event env opts raw n =
     (let format = (if jo_format opts = ''auto'' then detect_format raw else jo_format opts) in
      map_sum id (map_option (with_context opts format n)) (map_format env format raw))"

definition exclude_event :: "jsonl_options \<Rightarrow> raw_object \<Rightarrow> ingest_event \<Rightarrow> bool" where
  "exclude_event opts raw e \<longleftrightarrow>
     (if ig_cgroup_id e \<noteq> [] \<and> list_ex (\<lambda>cg. cg \<noteq> [] \<and> ig_cgroup_id e = cg) (jo_exclude_cgroup_ids opts) then True
      else
        let path = first_trimmed [string_at raw ''path'', string_at raw ''file'', string_at raw ''filename''] in
        path \<noteq> [] \<and> list_ex (\<lambda>p. p \<noteq> [] \<and> has_prefix path p) (jo_exclude_path_prefixes opts))"

section \<open>What is mapped\<close>

lemma typed_Some: "typed e ty p = Some x \<longleftrightarrow> x = e\<lparr>ig_event_type := ty, ig_payload := p\<rparr>"
  by (auto simp: typed_def)

text \<open>The run, session and so on that an event says it belongs to.\<close>

definition context_of :: "ingest_event \<Rightarrow> string list" where
  "context_of e = [ig_run_id e, ig_rollout_id e, ig_attempt_id e, ig_session_id e, ig_tool_call_id e, ig_process_id e,
     ig_snapshot_id e, ig_binding_source e]"

definition option_context :: "jsonl_options \<Rightarrow> string list" where
  "option_context o' = map trim_space [jo_run_id o', jo_rollout_id o', jo_attempt_id o', jo_session_id o',
     jo_tool_call_id o', jo_process_id o', jo_snapshot_id o', []]"

definition no_context :: "ingest_event \<Rightarrow> bool" where
  "no_context e \<longleftrightarrow> context_of e = replicate 8 []"

definition mapped_shape :: "string \<Rightarrow> ingest_event option \<Rightarrow> bool" where
  "mapped_shape source r \<longleftrightarrow>
     (\<forall>e. r = Some e \<longrightarrow> allowed_event_type (ig_event_type e) \<and> ig_source e = source \<and> no_context e \<and>
        (\<exists>kvs. ig_payload e = marshal (JObj kvs)))"

lemma mapped_shape_typed: "ig_source e = source \<Longrightarrow> no_context e \<Longrightarrow> allowed_event_type ty \<Longrightarrow>
    mapped_shape source (typed e ty (marshal (JObj kvs)))"
  by (auto simp: mapped_shape_def typed_def no_context_def context_of_def)

lemma mapped_shape_None [simp]: "mapped_shape source None"
  by (simp add: mapped_shape_def)

lemma base_fields [simp]: "ig_source (base_mapped_event raw source) = source" "no_context (base_mapped_event raw source)"
  by (simp_all add: base_mapped_event_def no_context_def context_of_def numeral_eq_Suc)

lemma no_context_update [simp]:
  "no_context (e\<lparr>ig_pid := pid\<rparr>) = no_context e" "no_context (e\<lparr>ig_ppid := ppid\<rparr>) = no_context e"
  "no_context (e\<lparr>ig_container_id := c\<rparr>) = no_context e" "no_context (e\<lparr>ig_cgroup_id := g\<rparr>) = no_context e"
  by (simp_all add: no_context_def context_of_def)

lemma allowed_types [simp]:
  "allowed_event_type ''execve''" "allowed_event_type ''process_exit''" "allowed_event_type ''file_open''"
  "allowed_event_type ''file_write''" "allowed_event_type ''network_connect''" "allowed_event_type ''metadata_ip''"
  "allowed_event_type ''private_cidr''" "allowed_event_type ''secret_path''" "allowed_event_type ''setuid''"
  "allowed_event_type ''setgid''" "allowed_event_type ''ptrace''" "allowed_event_type ''file_rename''"
  "allowed_event_type ''file_unlink''" "allowed_event_type ''dns_query''" "allowed_event_type ''resource_pressure''"
  "allowed_event_type ''tls_write''" "allowed_event_type ''tls_read''"
  by (simp_all add: allowed_event_type_def allowed_event_types_def)

lemma allowed_connect [simp]: "allowed_event_type (connect_type host)"
  by (simp add: connect_type_def)

lemma mapped_shape_if: "(c \<Longrightarrow> mapped_shape source a) \<Longrightarrow> (\<not> c \<Longrightarrow> mapped_shape source b) \<Longrightarrow>
    mapped_shape source (if c then a else b)"
  by simp

lemma mapped_shape_option: "mapped_shape source a \<Longrightarrow> (\<And>x. mapped_shape source (f x)) \<Longrightarrow>
    mapped_shape source (case r of None \<Rightarrow> a | Some x \<Rightarrow> f x)"
  by (simp split: option.split)

lemma mapped_shape_pair: "(\<And>x y. mapped_shape source (f x y)) \<Longrightarrow> mapped_shape source (case r of (x, y) \<Rightarrow> f x y)"
  by (simp split: prod.split)

lemmas shape_intros = mapped_shape_if mapped_shape_option mapped_shape_pair mapped_shape_None mapped_shape_typed

lemma shape_tetragon: "mapped_shape ''tetragon_jsonl'' (map_tetragon raw)"
  unfolding map_tetragon_def Let_def by (intro shape_intros) simp_all

lemma shape_falco: "mapped_shape ''falco_jsonl'' (map_falco raw)"
  unfolding map_falco_def Let_def by (intro shape_intros) simp_all

lemma shape_loong: "mapped_shape ''loongcollector_jsonl'' (map_loong_collector raw)"
proof -
  have "allowed_event_type ty" if "ty \<in> {''file_open'', ''file_write''}" for ty using that by auto
  then show ?thesis unfolding map_loong_collector_def Let_def by (intro shape_intros) simp_all
qed

lemma shape_native: "mapped_shape ''agentprov_ebpf'' (map_native env raw)"
  unfolding map_native_def native_exec_def native_connect_def native_file_def ssl_payload_def Let_def
  by (intro shape_intros) simp_all

definition source_of_format :: "string \<Rightarrow> string" where
  "source_of_format f =
     (if f = ''tetragon'' then ''tetragon_jsonl'' else if f = ''falco'' then ''falco_jsonl''
      else if f = ''loongcollector'' then ''loongcollector_jsonl'' else ''agentprov_ebpf'')"

lemma shape_format: "map_format env f raw = Inr r \<Longrightarrow> mapped_shape (source_of_format f) r"
  using shape_tetragon shape_falco shape_loong shape_native
  by (auto simp: map_format_def source_of_format_def split: if_splits)

lemma mapped_context:
  assumes "no_context x"
  shows "context_of (with_context opts f n x) = option_context opts"
proof -
  have f: "first_trimmed [[], v] = trim_space v" for v by (simp add: trim_space_def trim_left_def trim_right_def)
  from assms have "ig_run_id x = []" "ig_rollout_id x = []" "ig_attempt_id x = []" "ig_session_id x = []"
    "ig_tool_call_id x = []" "ig_process_id x = []" "ig_snapshot_id x = []" "ig_binding_source x = []"
    by (simp_all add: no_context_def context_of_def numeral_eq_Suc)
  then show ?thesis
    unfolding with_context_def context_of_def option_context_def by (simp add: f del: first_trimmed.simps)
qed

lemma mapped_run:
  assumes "map_jsonl_event env opts raw n = Inr (Some e)"
  shows "ig_run_id e = trim_space (jo_run_id opts)"
proof -
  let ?f = "if jo_format opts = ''auto'' then detect_format raw else jo_format opts"
  from assms obtain x where x: "map_format env ?f raw = Inr (Some x)" "e = with_context opts ?f n x"
    by (auto simp: map_jsonl_event_def Let_def map_sum_def split: sum.splits)
  have "no_context x" using shape_format [OF x(1)] by (simp add: mapped_shape_def)
  from mapped_context [OF this, of opts ?f n] show ?thesis by (simp add: x(2) context_of_def option_context_def)
qed

text \<open>C32: A line cannot name its own context. Whatever a line of any format says, an event mapped from it
has a type the filtered driver accepts, the source of its format, an identifier and an object as its payload,
and its run, session, tool call and so on are exactly those of the options of the ingestion.\<close>

theorem mapped_event_shape:
  assumes "map_jsonl_event env opts raw n = Inr (Some e)"
  shows "allowed_event_type (ig_event_type e) \<and> context_of e = option_context opts \<and> ig_raw_event_id e \<noteq> [] \<and>
    ig_source e = source_of_format (if jo_format opts = ''auto'' then detect_format raw else jo_format opts) \<and>
    list_ex (\<lambda>p. \<exists>kvs. p = marshal (JObj kvs)) [ig_payload e]"
proof -
  let ?f = "if jo_format opts = ''auto'' then detect_format raw else jo_format opts"
  from assms obtain x where x: "map_format env ?f raw = Inr (Some x)" "e = with_context opts ?f n x"
    by (auto simp: map_jsonl_event_def Let_def map_sum_def split: sum.splits)
  from shape_format [OF x(1)] have s: "allowed_event_type (ig_event_type x)" "ig_source x = source_of_format ?f"
    "no_context x" "\<exists>kvs. ig_payload x = marshal (JObj kvs)" by (auto simp: mapped_shape_def)
  from mapped_context [OF s(3)] have "context_of e = option_context opts" by (simp only: x(2))
  with s show ?thesis by (simp add: x(2) with_context_def del: first_trimmed.simps)
qed

definition plain_options :: jsonl_options where
  "plain_options = \<lparr>jo_format = ''auto'', jo_path = ''-'', jo_run_id = ''run-1'', jo_session_id = [], jo_attempt_id = [],
     jo_tool_call_id = [], jo_process_id = [], jo_snapshot_id = [], jo_rollout_id = [], jo_exclude_path_prefixes = [],
     jo_exclude_cgroup_ids = [], jo_drop_uncorrelated = False\<rparr>"

text \<open>A line that claims to belong to another run.\<close>

definition forged_line :: raw_object where
  "forged_line = [(''event_type'', JStr ''exit''), (''run_id'', JStr ''run-2''), (''id'', JStr ''x1'')]"

definition no_env :: mapper_env where
  "no_env = \<lparr>me_sha = (\<lambda>b. b), me_capture_body = False\<rparr>"

lemma forged_mapped: "\<exists>e. map_jsonl_event no_env plain_options forged_line 1 = Inr (Some e)"
proof -
  have "map_loong_collector forged_line \<noteq> None"
    by (simp add: map_loong_collector_def forged_line_def string_at_def jget_def typed_def Let_def
        trim_space_no_space is_space_def to_lower_def ascii_lower_def)
  moreover have "detect_format forged_line = ''loongcollector''"
    by (simp add: detect_format_def forged_line_def jget_def string_at_def)
  ultimately show ?thesis by (auto simp: map_jsonl_event_def plain_options_def map_format_def)
qed

lemma mapped_event_shape_witness:
  "case map_jsonl_event no_env plain_options forged_line 1 of
     Inr (Some e) \<Rightarrow> allowed_event_type (ig_event_type e) \<and> context_of e = option_context plain_options
   | _ \<Rightarrow> False"
proof -
  obtain e where "map_jsonl_event no_env plain_options forged_line 1 = Inr (Some e)" using forged_mapped by blast
  from mapped_event_shape [OF this] this show ?thesis by simp
qed

end
