(* ===== verification/Windows.thy ===== *)
theory Windows
  imports TelemetrySchema EventPages Correlation "HOL-Library.AList"
begin

text \<open>
  \<open>internal/telemetry/windows.go\<close>: the counts of events per window of ten and of sixty seconds, rebuilt
  from the event table in one transaction, and their listing. The lemmas show that a rebuild leaves exact
  counts.
\<close>

section \<open>Transactions\<close>

text \<open>Beginning and committing may fail; a transaction that does not commit leaves the database of its start.\<close>

definition tx_begin :: "world \<Rightarrow> bool \<times> world" where
  "tx_begin w = exec_total (\<lambda>d. d) w"

definition tx_commit :: "world \<Rightarrow> bool \<times> world" where
  "tx_commit w = exec_total (\<lambda>d. d) w"

definition rollback :: "db \<Rightarrow> world \<Rightarrow> world" where
  "rollback d w = w\<lparr>w_db := d\<rparr>"

section \<open>Accumulation\<close>

definition high_risk_window_event :: "string \<Rightarrow> bool" where
  "high_risk_window_event t \<longleftrightarrow>
     t \<in> {''metadata_ip'', ''private_cidr'', ''secret_path'', ''abnormal_process_tree'', ''resource_pressure''}"

definition window_sizes :: "int list" where
  "window_sizes = [10, 60]"

definition window_start_text :: "int \<Rightarrow> int \<Rightarrow> string" where
  "window_start_text seconds t = format_time (truncate_to seconds t)"

text \<open>The key joins the fields with NUL bytes.\<close>

definition window_key :: "event \<Rightarrow> int \<Rightarrow> int \<Rightarrow> string" where
  "window_key e seconds t =
     join [CHR 0x00] [coalesce (ev_run_id e), coalesce (ev_session_id e), ev_tool_call_id e, ev_source e,
       ev_event_type e, show_int seconds, window_start_text seconds t]"

definition fresh_window :: "event \<Rightarrow> int \<Rightarrow> int \<Rightarrow> event_window" where
  "fresh_window e seconds t =
     \<lparr>ew_run_id = coalesce (ev_run_id e), ew_session_id = coalesce (ev_session_id e),
      ew_tool_call_id = ev_tool_call_id e, ew_source = ev_source e, ew_event_type = ev_event_type e,
      ew_window_seconds = seconds, ew_window_start = window_start_text seconds t, ew_event_count = 0,
      ew_resolved_count = 0, ew_unresolved_count = 0, ew_high_risk_count = 0, ew_updated_at = []\<rparr>"

definition unresolved_method :: "string \<Rightarrow> bool" where
  "unresolved_method m \<longleftrightarrow> m = [] \<or> m = ''unresolved''"

definition count_event :: "event \<Rightarrow> event_window \<Rightarrow> event_window" where
  "count_event e a =
     (let a = a\<lparr>ew_event_count := ew_event_count a + 1\<rparr>;
          a = (if unresolved_method (ev_correlation_method e) then a\<lparr>ew_unresolved_count := ew_unresolved_count a + 1\<rparr>
               else a\<lparr>ew_resolved_count := ew_resolved_count a + 1\<rparr>)
      in if high_risk_window_event (ev_event_type e) then a\<lparr>ew_high_risk_count := ew_high_risk_count a + 1\<rparr> else a)"

text \<open>The accumulators by key, in the order of their first event; the order of Go's map is not observable,
since a listing sorts by every column of the primary key.\<close>

type_synonym accumulators = "(string \<times> event_window) list"

definition bump :: "event \<Rightarrow> int \<Rightarrow> int \<Rightarrow> accumulators \<Rightarrow> accumulators" where
  "bump e t seconds ws =
     (let k = window_key e seconds t; a = (case map_of ws k of None \<Rightarrow> fresh_window e seconds t | Some a \<Rightarrow> a)
      in AList.update k (count_event e a) ws)"

definition accumulate_event :: "event \<Rightarrow> accumulators \<Rightarrow> accumulators" where
  "accumulate_event e ws =
     (if trim_space (coalesce (ev_run_id e)) = [] then ws
      else case parse_time (ev_created_at e) of
        None \<Rightarrow> ws
      | Some t \<Rightarrow> fold (bump e t) window_sizes ws)"

definition accumulate :: "event list \<Rightarrow> accumulators" where
  "accumulate es = fold accumulate_event es []"

section \<open>Rebuilding\<close>

fun insert_windows :: "string \<Rightarrow> event_window list \<Rightarrow> world \<Rightarrow> bool \<times> world" where
  "insert_windows ts [] w = (True, w)"
| "insert_windows ts (a # as) w =
     (case exec (tbl_insert db_telemetry_event_windows db_telemetry_event_windows_update
         (\<lambda>r. (ew_run_id r, ew_session_id r, ew_tool_call_id r, ew_source r, ew_event_type r, ew_window_seconds r,
               ew_window_start r)) (a\<lparr>ew_updated_at := ts\<rparr>)) w of
        (ok, w) \<Rightarrow> if ok then insert_windows ts as w else (False, w))"

definition run_events :: "string \<Rightarrow> db \<Rightarrow> event list" where
  "run_events run d = filter (\<lambda>e. run \<noteq> [] \<longrightarrow> ev_run_id e = Some run) (db_events d)"

definition in_scope :: "string \<Rightarrow> event_window \<Rightarrow> bool" where
  "in_scope run a \<longleftrightarrow> (run \<noteq> [] \<longrightarrow> ew_run_id a = run)"

definition rebuild_event_windows :: "string \<Rightarrow> world \<Rightarrow> (go_error + nat) \<times> world" where
  "rebuild_event_windows run w =
     (let run = trim_space run in
      case query (run_events run) w of
        (None, w) \<Rightarrow> (Inl SqlError, w)
      | (Some es, w) \<Rightarrow>
          let ws = accumulate es; d0 = w_db w; (ok, w) = tx_begin w in
          if \<not> ok then (Inl SqlError, w)
          else
            let (ok, w) = exec_total (tbl_delete db_telemetry_event_windows_update (in_scope run)) w in
            if \<not> ok then (Inl SqlError, rollback d0 w)
            else
              let (ts, w) = now w; (ok, w) = insert_windows ts (map snd ws) w in
              if \<not> ok then (Inl SqlError, rollback d0 w)
              else
                let (ok, w) = tx_commit w in
                if \<not> ok then (Inl SqlError, rollback d0 w) else (Inr (length ws), w))"

section \<open>Listing\<close>

record window_filter =
  wf_run_id :: string
  wf_session_id :: string
  wf_tool_call_id :: string
  wf_type :: string
  wf_source :: string
  wf_window_seconds :: int

record window_result =
  wr_filter :: window_filter
  wr_window_count :: nat
  wr_result_set_id :: string
  wr_page_hash :: string
  wr_windows :: "event_window list"

definition window_matches :: "window_filter \<Rightarrow> event_window \<Rightarrow> bool" where
  "window_matches f a \<longleftrightarrow>
     (wf_run_id f \<noteq> [] \<longrightarrow> ew_run_id a = wf_run_id f) \<and>
     (wf_session_id f \<noteq> [] \<longrightarrow> ew_session_id a = wf_session_id f) \<and>
     (wf_tool_call_id f \<noteq> [] \<longrightarrow> ew_tool_call_id a = wf_tool_call_id f) \<and>
     (wf_source f \<noteq> [] \<longrightarrow> ew_source a = wf_source f) \<and>
     (wf_type f \<noteq> [] \<longrightarrow> ew_event_type a = wf_type f) \<and>
     (wf_window_seconds f \<noteq> 0 \<longrightarrow> ew_window_seconds a = wf_window_seconds f)"

definition window_order :: "event_window \<Rightarrow> string list" where
  "window_order a = [ew_window_start a, ew_run_id a, ew_session_id a, ew_tool_call_id a, ew_source a, ew_event_type a]"

text \<open>\<open>omitempty\<close> leaves empty fields out.\<close>

definition opt_member :: "string \<Rightarrow> string \<Rightarrow> string list" where
  "opt_member k v = (if v = [] then [] else [text_member k (quote v)])"

definition window_filter_text :: "window_filter \<Rightarrow> string" where
  "window_filter_text f = object_text (opt_member ''run_id'' (wf_run_id f) @ opt_member ''session_id'' (wf_session_id f) @
     opt_member ''tool_call_id'' (wf_tool_call_id f) @ opt_member ''type'' (wf_type f) @
     opt_member ''source'' (wf_source f) @
     (if wf_window_seconds f = 0 then [] else [text_member ''window_seconds'' (show_int (wf_window_seconds f))]))"

definition window_text :: "event_window \<Rightarrow> string" where
  "window_text a = object_text ([text_member ''run_id'' (quote (ew_run_id a))] @
     opt_member ''session_id'' (ew_session_id a) @ opt_member ''tool_call_id'' (ew_tool_call_id a) @
     [text_member ''source'' (quote (ew_source a)), text_member ''event_type'' (quote (ew_event_type a)),
      text_member ''window_seconds'' (show_int (ew_window_seconds a)),
      text_member ''window_start'' (quote (ew_window_start a)),
      text_member ''event_count'' (show_int (ew_event_count a)),
      text_member ''resolved_count'' (show_int (ew_resolved_count a)),
      text_member ''unresolved_count'' (show_int (ew_unresolved_count a)),
      text_member ''high_risk_count'' (show_int (ew_high_risk_count a)),
      text_member ''updated_at'' (quote (ew_updated_at a))])"

text \<open>\<open>raw\<close> gives the 32 bytes of a SHA-256. A nil slice is written as \<open>null\<close>.\<close>

definition event_window_integrity ::
  "(bytes \<Rightarrow> bytes) \<Rightarrow> window_filter \<Rightarrow> event_window list \<Rightarrow> string \<times> string" where
  "event_window_integrity raw f ws =
     (let result = object_text [text_member ''kind'' (quote ''telemetry_event_windows_result_set''),
            text_member ''filter'' (window_filter_text f)];
          page = object_text [text_member ''kind'' (quote ''telemetry_event_windows_page''),
            text_member ''filter'' (window_filter_text f),
            text_member ''windows'' (if ws = [] then ''null'' else ''['' @ join '','' (map window_text ws) @ '']'')]
      in (''sha256:'' @ raw_url_encode (raw result), ''sha256:'' @ raw_url_encode (raw page)))"

definition list_event_windows :: "(bytes \<Rightarrow> bytes) \<Rightarrow> window_filter \<Rightarrow> db \<Rightarrow> window_result" where
  "list_event_windows raw f d =
     (let ws = order_asc window_order (order_asc ew_window_seconds
            (filter (window_matches f) (db_telemetry_event_windows d)));
          (set_id, page) = event_window_integrity raw f ws
      in \<lparr>wr_filter = f, wr_window_count = length ws, wr_result_set_id = set_id, wr_page_hash = page, wr_windows = ws\<rparr>)"

section \<open>Exact counts\<close>

text \<open>What is counted: every event of a named run with a readable time, once per window size.\<close>

definition contributions :: "event list \<Rightarrow> (event \<times> int \<times> int) list" where
  "contributions es = concat (map (\<lambda>e.
     if trim_space (coalesce (ev_run_id e)) = [] then []
     else case parse_time (ev_created_at e) of None \<Rightarrow> [] | Some t \<Rightarrow> map (\<lambda>s. (e, s, t)) window_sizes) es)"

definition key_of :: "event \<times> int \<times> int \<Rightarrow> string" where
  "key_of c = (case c of (e, s, t) \<Rightarrow> window_key e s t)"

definition row_key :: "event_window \<Rightarrow> string" where
  "row_key a = join [CHR 0x00] [ew_run_id a, ew_session_id a, ew_tool_call_id a, ew_source a, ew_event_type a,
     show_int (ew_window_seconds a), ew_window_start a]"

definition counts_exactly :: "(event \<times> int \<times> int) list \<Rightarrow> event_window \<Rightarrow> bool" where
  "counts_exactly cs a \<longleftrightarrow>
     (let mine = map fst (filter (\<lambda>c. key_of c = row_key a) cs) in
      ew_event_count a = int (length mine) \<and>
      ew_unresolved_count a = int (length (filter (\<lambda>e. unresolved_method (ev_correlation_method e)) mine)) \<and>
      ew_resolved_count a = int (length (filter (\<lambda>e. \<not> unresolved_method (ev_correlation_method e)) mine)) \<and>
      ew_high_risk_count a = int (length (filter (\<lambda>e. high_risk_window_event (ev_event_type e)) mine)))"

definition add_contribution :: "event \<times> int \<times> int \<Rightarrow> accumulators \<Rightarrow> accumulators" where
  "add_contribution c ws = (case c of (e, s, t) \<Rightarrow> bump e t s ws)"

lemma accumulate_contributions: "accumulate es = fold add_contribution (contributions es) []"
proof -
  have "fold accumulate_event es ws = fold add_contribution (contributions es) ws" for ws
  proof (induction es arbitrary: ws)
    case (Cons e es)
    have "bump e t = (\<lambda>s. add_contribution (e, s, t))" for t by (simp add: add_contribution_def fun_eq_iff)
    then have "accumulate_event e ws = fold add_contribution (contributions [e]) ws"
      by (simp add: accumulate_event_def contributions_def fold_map comp_def split: option.split)
    moreover have "contributions (e # es) = contributions [e] @ contributions es" by (simp add: contributions_def)
    ultimately show ?case using Cons by simp
  qed (simp add: contributions_def)
  then show ?thesis by (simp add: accumulate_def)
qed

lemma row_key_fresh: "row_key (fresh_window e s t) = window_key e s t"
  by (simp add: row_key_def fresh_window_def window_key_def)

lemma row_key_count [simp]: "row_key (count_event e a) = row_key a"
  by (simp add: row_key_def count_event_def Let_def)

text \<open>The accumulators of a list of contributions.\<close>

definition exact :: "(event \<times> int \<times> int) list \<Rightarrow> accumulators \<Rightarrow> bool" where
  "exact cs ws \<longleftrightarrow> distinct (map fst ws) \<and> set (map fst ws) = key_of ` set cs \<and>
     (\<forall>(k, a) \<in> set ws. row_key a = k \<and> counts_exactly cs a \<and>
        (\<exists>c \<in> set cs. ew_run_id a = coalesce (ev_run_id (fst c))))"

lemma counts_one_more: "counts_exactly cs a \<Longrightarrow> row_key a = key_of (e, s, t) \<Longrightarrow>
    counts_exactly (cs @ [(e, s, t)]) (count_event e a)"
  by (simp add: counts_exactly_def Let_def) (simp add: count_event_def Let_def)

lemma counts_other: "counts_exactly cs a \<Longrightarrow> row_key a \<noteq> key_of c \<Longrightarrow> counts_exactly (cs @ [c]) a"
  by (simp add: counts_exactly_def)

lemma counts_first: "key_of (e, s, t) \<notin> key_of ` set cs \<Longrightarrow> counts_exactly cs (fresh_window e s t)"
proof -
  assume "key_of (e, s, t) \<notin> key_of ` set cs"
  then have "\<forall>c \<in> set cs. key_of c \<noteq> key_of (e, s, t)" by (metis image_eqI)
  then have "filter (\<lambda>c. key_of c = row_key (fresh_window e s t)) cs = []"
    by (simp add: filter_empty_conv row_key_fresh key_of_def [of "(e, s, t)"])
  then show ?thesis by (simp add: counts_exactly_def) (simp add: fresh_window_def)
qed

lemma in_update:
  assumes "distinct (map fst ws)" "(k', b) \<in> set (AList.update k v ws)"
  shows "k' = k \<and> b = v \<or> (k', b) \<in> set ws \<and> k' \<noteq> k"
proof -
  have "map_of (AList.update k v ws) k' = Some b"
    using assms by (intro map_of_is_SomeI) (simp_all add: distinct_update)
  then show ?thesis by (auto simp: update_conv' split: if_splits dest: map_of_SomeD)
qed

lemma exact_step: "exact cs ws \<Longrightarrow> exact (cs @ [c]) (add_contribution c ws)"
proof -
  assume x: "exact cs ws"
  obtain e s t where c: "c = (e, s, t)" by (cases c)
  define k where "k = window_key e s t"
  have kc: "key_of c = k" by (simp add: c k_def key_of_def)
  define a where "a = (case map_of ws k of None \<Rightarrow> fresh_window e s t | Some a \<Rightarrow> a)"
  have add: "add_contribution c ws = AList.update k (count_event e a) ws"
    by (simp add: add_contribution_def c bump_def k_def a_def Let_def)
  have a: "row_key a = k" "counts_exactly cs a"
    "map_of ws k \<noteq> None \<Longrightarrow> \<exists>c \<in> set cs. ew_run_id a = coalesce (ev_run_id (fst c))"
    "map_of ws k = None \<Longrightarrow> ew_run_id a = coalesce (ev_run_id e)"
  proof -
    have none: "row_key a = k \<and> counts_exactly cs a \<and> ew_run_id a = coalesce (ev_run_id e)" if n: "map_of ws k = None"
    proof -
      have "k \<notin> set (map fst ws)" using n by (simp add: map_of_eq_None_iff)
      then have "key_of (e, s, t) \<notin> key_of ` set cs" using x kc c by (simp add: exact_def)
      from counts_first [OF this] n show ?thesis by (simp add: a_def row_key_fresh k_def) (simp add: fresh_window_def)
    qed
    have some: "row_key a = k \<and> counts_exactly cs a \<and> (\<exists>c \<in> set cs. ew_run_id a = coalesce (ev_run_id (fst c)))"
      if b: "map_of ws k = Some b" for b
    proof -
      have "(k, b) \<in> set ws" using b by (rule map_of_SomeD)
      with x have "row_key b = k \<and> counts_exactly cs b \<and> (\<exists>c \<in> set cs. ew_run_id b = coalesce (ev_run_id (fst c)))"
        unfolding exact_def by blast
      with b show ?thesis by (simp add: a_def)
    qed
    show "row_key a = k" "counts_exactly cs a" using none some by (cases "map_of ws k"; blast)+
    show "map_of ws k \<noteq> None \<Longrightarrow> \<exists>c \<in> set cs. ew_run_id a = coalesce (ev_run_id (fst c))" using some by blast
    show "map_of ws k = None \<Longrightarrow> ew_run_id a = coalesce (ev_run_id e)" using none by blast
  qed
  have run: "ew_run_id (count_event e a) = ew_run_id a" by (simp add: count_event_def Let_def)
  have new: "counts_exactly (cs @ [c]) (count_event e a)"
    using counts_one_more [OF a(2)] a(1) kc by (simp add: c)
  have old: "counts_exactly (cs @ [c]) b \<and> row_key b = k' \<and> (\<exists>c \<in> set cs. ew_run_id b = coalesce (ev_run_id (fst c)))"
    if "(k', b) \<in> set ws" "k' \<noteq> k" for k' b
    using that x counts_other [of cs b c] kc by (auto simp: exact_def)
  have mem: "(k', b) \<in> set (AList.update k (count_event e a) ws) \<Longrightarrow>
      (k' = k \<and> b = count_event e a) \<or> ((k', b) \<in> set ws \<and> k' \<noteq> k)" for k' b
    using x in_update [of ws k' b k "count_event e a"] by (simp add: exact_def)
  have keys: "fst ` set (AList.update k (count_event e a) ws) = insert k (fst ` set ws)"
    by (simp add: dom_map_of_conv_image_fst [symmetric] update_conv')
  show ?thesis
    unfolding exact_def add
  proof (intro conjI ballI)
    show "distinct (map fst (AList.update k (count_event e a) ws))" using x by (simp add: exact_def distinct_update)
    show "set (map fst (AList.update k (count_event e a) ws)) = key_of ` set (cs @ [c])"
      using x keys kc by (auto simp: exact_def)
  next
    fix y assume "y \<in> set (AList.update k (count_event e a) ws)"
    moreover obtain k' b where y: "y = (k', b)" by force
    ultimately consider "k' = k" "b = count_event e a" | "(k', b) \<in> set ws" "k' \<noteq> k" using mem by blast
    then show "case y of (k, a) \<Rightarrow> row_key a = k \<and> counts_exactly (cs @ [c]) a \<and>
        (\<exists>c' \<in> set (cs @ [c]). ew_run_id a = coalesce (ev_run_id (fst c')))"
    proof cases
      case 1
      then show ?thesis using y new a run by (cases "map_of ws k") (auto simp: c)
    next
      case 2
      with old show ?thesis using y by auto
    qed
  qed
qed

lemma exact_accumulate: "exact (contributions es) (accumulate es)"
proof -
  have "exact cs (fold add_contribution cs [])" for cs
    by (induction cs rule: rev_induct) (simp_all add: exact_def [of "[]"] exact_step)
  then show ?thesis by (simp add: accumulate_contributions)
qed

section \<open>A rebuild\<close>

definition windows_of :: "world \<Rightarrow> event_window list" where
  "windows_of w = db_telemetry_event_windows (w_db w)"

definition pk :: "event_window \<Rightarrow> string \<times> string \<times> string \<times> string \<times> string \<times> int \<times> string" where
  "pk r = (ew_run_id r, ew_session_id r, ew_tool_call_id r, ew_source r, ew_event_type r, ew_window_seconds r,
     ew_window_start r)"

lemma row_key_pk: "pk a = pk b \<Longrightarrow> row_key a = row_key b"
  by (simp add: pk_def row_key_def)

lemma insert_windows_all:
  assumes "no_faults w" "distinct (map row_key as)" "\<forall>a \<in> set as. \<forall>b \<in> set (windows_of w). pk a \<noteq> pk b"
  shows "\<exists>w'. insert_windows ts as w = (True, w') \<and> no_faults w' \<and>
    w_db w' = db_telemetry_event_windows_update (\<lambda>rs. rs @ map (\<lambda>a. a\<lparr>ew_updated_at := ts\<rparr>) as) (w_db w)"
  using assms
proof (induction as arbitrary: w)
  case (Cons a as)
  let ?a = "a\<lparr>ew_updated_at := ts\<rparr>"
  let ?w = "w\<lparr>w_stmts := Suc (w_stmts w), w_db := db_telemetry_event_windows_update (\<lambda>rs. rs @ [?a]) (w_db w)\<rparr>"
  have pk [simp]: "pk ?a = pk a" by (simp add: pk_def)
  have "pk ?a \<notin> pk ` set (windows_of w)" using Cons.prems(3) by force
  then have ex: "exec (tbl_insert db_telemetry_event_windows db_telemetry_event_windows_update pk ?a) w = (True, ?w)"
    using Cons.prems(1) by (simp add: exec_no_faults tbl_insert_def windows_of_def)
  have "windows_of ?w = windows_of w @ [?a]" by (simp add: windows_of_def)
  moreover have "pk b \<noteq> pk a" if "b \<in> set as" for b
    using that Cons.prems(2) row_key_pk [of b a] by (metis distinct.simps(2) image_eqI list.set_map list.simps(9))
  ultimately have fresh: "\<forall>b \<in> set as. \<forall>c \<in> set (windows_of ?w). pk b \<noteq> pk c"
    using Cons.prems(3) by (metis Un_iff list.set_intros(2) pk set_ConsD set_append empty_iff list.set(1))
  have nf: "no_faults ?w" using Cons.prems(1) by simp
  have "distinct (map row_key as)" using Cons.prems(2) by simp
  from Cons.IH [OF nf this fresh] obtain w' where
    "insert_windows ts as ?w = (True, w')" "no_faults w'"
    "w_db w' = db_telemetry_event_windows_update (\<lambda>rs. rs @ map (\<lambda>a. a\<lparr>ew_updated_at := ts\<rparr>) as) (w_db ?w)" by blast
  with ex show ?case by (simp add: pk_def [abs_def])
qed simp

lemma rebuild_rows:
  fixes run :: string
  assumes "no_faults w"
  defines "r \<equiv> trim_space run"
  defines "ws \<equiv> accumulate (run_events r (w_db w))"
  shows "\<exists>ts w'. rebuild_event_windows run w = (Inr (length ws), w') \<and>
    windows_of w' = filter (\<lambda>a. \<not> in_scope r a) (windows_of w) @ map (\<lambda>a. a\<lparr>ew_updated_at := ts\<rparr>) (map snd ws)"
proof -
  define w1 where "w1 = w\<lparr>w_stmts := Suc (w_stmts w)\<rparr>"
  have q: "query (run_events r) w = (Some (run_events r (w_db w)), w1)" "no_faults w1"
    using assms(1) by (simp_all add: query_no_faults w1_def)
  define w2 where "w2 = w1\<lparr>w_stmts := Suc (w_stmts w1)\<rparr>"
  have b: "tx_begin w1 = (True, w2)" "no_faults w2" using q(2) by (simp_all add: tx_begin_def exec_total_no_faults w2_def)
  define w3 where "w3 = w2\<lparr>w_stmts := Suc (w_stmts w2),
     w_db := tbl_delete db_telemetry_event_windows_update (in_scope r) (w_db w2)\<rparr>"
  have d: "exec_total (tbl_delete db_telemetry_event_windows_update (in_scope r)) w2 = (True, w3)" "no_faults w3"
    using b(2) by (simp_all add: exec_total_no_faults w3_def)
  obtain ts w4 where n: "now w3 = (ts, w4)" by force
  have w4: "no_faults w4" "w_db w4 = w_db w3" using n d(2) by (auto simp: now_def)
  have rows3: "windows_of w3 = filter (\<lambda>a. \<not> in_scope r a) (windows_of w)"
    by (simp add: windows_of_def w3_def w2_def w1_def telemetry_event_windows.delete_get)
  have x: "exact (contributions (run_events r (w_db w))) ws" unfolding ws_def by (rule exact_accumulate)
  have "map row_key (map snd ws) = map fst ws" using x by (auto simp: exact_def)
  then have dist: "distinct (map row_key (map snd ws))" using x unfolding exact_def by (simp only:)
  have scope: "in_scope r a" if "a \<in> set (map snd ws)" for a
  proof -
    from that obtain k where "(k, a) \<in> set ws" by auto
    with x obtain c where c: "c \<in> set (contributions (run_events r (w_db w)))" "ew_run_id a = coalesce (ev_run_id (fst c))"
      unfolding exact_def by blast
    from c(1) obtain e where "e \<in> set (run_events r (w_db w))" "fst c = e"
      by (auto simp: contributions_def split: if_splits option.splits)
    with c(2) show ?thesis by (auto simp: in_scope_def run_events_def coalesce_def)
  qed
  have "\<forall>a \<in> set (map snd ws). \<forall>b \<in> set (windows_of w4). pk a \<noteq> pk b"
  proof (intro ballI)
    fix a b assume a: "a \<in> set (map snd ws)" and b: "b \<in> set (windows_of w4)"
    have "windows_of w4 = filter (\<lambda>a. \<not> in_scope r a) (windows_of w)" using rows3 by (simp add: windows_of_def w4(2))
    with b have "\<not> in_scope r b" by simp
    with scope [OF a] show "pk a \<noteq> pk b" by (auto simp: in_scope_def pk_def)
  qed
  from insert_windows_all [OF w4(1) dist this, of ts] obtain w5 where
    i: "insert_windows ts (map snd ws) w4 = (True, w5)" "no_faults w5"
      "w_db w5 = db_telemetry_event_windows_update (\<lambda>rs. rs @ map (\<lambda>a. a\<lparr>ew_updated_at := ts\<rparr>) (map snd ws)) (w_db w4)" by blast
  have c: "tx_commit w5 = (True, w5\<lparr>w_stmts := Suc (w_stmts w5)\<rparr>)"
    using i(2) by (simp add: tx_commit_def exec_total_no_faults)
  have "rebuild_event_windows run w = (Inr (length ws), w5\<lparr>w_stmts := Suc (w_stmts w5)\<rparr>)"
    unfolding rebuild_event_windows_def Let_def r_def [symmetric]
    using q(1) b(1) d(1) n i(1) c by (simp add: ws_def)
  moreover have "windows_of (w5\<lparr>w_stmts := Suc (w_stmts w5)\<rparr>) = windows_of w3 @ map (\<lambda>a. a\<lparr>ew_updated_at := ts\<rparr>) (map snd ws)"
    by (simp add: windows_of_def i(3) w4(2))
  ultimately show ?thesis using rows3 by auto
qed

text \<open>C31: A rebuild leaves exact counts. When the store works, the windows of the run are afterwards the
non-empty ones, each once, and each holds the number of its events, split into resolved and unresolved
ones, and of the risky ones among them; windows of other runs are kept.\<close>

theorem rebuild_exact:
  assumes "no_faults w"
  shows "case rebuild_event_windows run w of
      (Inl err, w') \<Rightarrow> False
    | (Inr n, w') \<Rightarrow>
        let r = trim_space run; mine = filter (in_scope r) (windows_of w'); cs = contributions (run_events r (w_db w)) in
        n = length mine \<and> distinct (map row_key mine) \<and> set (map row_key mine) = set (map key_of cs) \<and>
        list_all (counts_exactly cs) mine \<and>
        filter (\<lambda>a. \<not> in_scope r a) (windows_of w') = filter (\<lambda>a. \<not> in_scope r a) (windows_of w)"
proof -
  let ?r = "trim_space run"
  let ?cs = "contributions (run_events ?r (w_db w))" and ?ws = "accumulate (run_events ?r (w_db w))"
  obtain ts w' where w': "rebuild_event_windows run w = (Inr (length ?ws), w')"
    "windows_of w' = filter (\<lambda>a. \<not> in_scope ?r a) (windows_of w) @ map (\<lambda>a. a\<lparr>ew_updated_at := ts\<rparr>) (map snd ?ws)"
    using rebuild_rows [OF assms, of run] by blast
  have x: "exact ?cs ?ws" by (rule exact_accumulate)
  have upd [simp]: "row_key (a\<lparr>ew_updated_at := ts\<rparr>) = row_key a" "counts_exactly cs (a\<lparr>ew_updated_at := ts\<rparr>) = counts_exactly cs a"
    "in_scope r (a\<lparr>ew_updated_at := ts\<rparr>) = in_scope r a" for a cs r
    by (simp_all add: row_key_def counts_exactly_def in_scope_def)
  have keys: "map row_key (map snd ?ws) = map fst ?ws" using x by (auto simp: exact_def)
  have scope: "in_scope ?r a" if "(k, a) \<in> set ?ws" for k a
  proof -
    from that x obtain c where c: "c \<in> set ?cs" "ew_run_id a = coalesce (ev_run_id (fst c))" unfolding exact_def by blast
    then show ?thesis
      by (auto simp: contributions_def in_scope_def run_events_def coalesce_def split: if_splits option.splits)
  qed
  have mine: "filter (in_scope ?r) (windows_of w') = map (\<lambda>a. a\<lparr>ew_updated_at := ts\<rparr>) (map snd ?ws)"
    using scope unfolding w'(2) by (auto simp: filter_empty_conv intro!: filter_True)
  have others: "filter (\<lambda>a. \<not> in_scope ?r a) (windows_of w') = filter (\<lambda>a. \<not> in_scope ?r a) (windows_of w)"
    using scope unfolding w'(2) by (auto simp: filter_empty_conv)
  have mk: "map row_key (map (\<lambda>a. a\<lparr>ew_updated_at := ts\<rparr>) (map snd ?ws)) = map fst ?ws"
    using keys by (simp add: comp_def)
  have "list_all (counts_exactly ?cs) (map (\<lambda>a. a\<lparr>ew_updated_at := ts\<rparr>) (map snd ?ws))"
    using x by (auto simp: exact_def list_all_iff)
  then show ?thesis
    unfolding w'(1) Let_def prod.case sum.case mine others mk using x by (simp add: exact_def)
qed

definition window_db :: db where
  "window_db = empty_db\<lparr>db_events := [toy_event ''e1'' (format_time 3000000000), toy_event ''e2'' (format_time 15000000000)]\<rparr>"

lemma rebuild_exact_witness:
  "case rebuild_event_windows ''run-1'' (quiet_world window_db) of
      (Inl err, w') \<Rightarrow> False
    | (Inr n, w') \<Rightarrow>
        let r = trim_space ''run-1''; mine = filter (in_scope r) (windows_of w'); cs = contributions (run_events r window_db) in
        n = length mine \<and> distinct (map row_key mine) \<and> set (map row_key mine) = set (map key_of cs) \<and>
        list_all (counts_exactly cs) mine \<and>
        filter (\<lambda>a. \<not> in_scope r a) (windows_of w') = filter (\<lambda>a. \<not> in_scope r a) (windows_of (quiet_world window_db))"
  using rebuild_exact [of "quiet_world window_db" "''run-1''"] by (simp only: quiet_world_simps simp_thms)

end
