(* ===== verification/Jsonl.thy ===== *)
theory Jsonl
  imports JsonlMap Windows
begin

text \<open>
  The ingesting half of \<open>internal/telemetry/jsonl.go\<close>: \<open>IngestJSONLReader\<close> and \<open>IngestFalco\<close> over a text,
  the per-line results, the batch record and the rebuilding of windows. The texts of error messages are
  not modelled; where the code keeps a list of them, the model keeps how many there are.
\<close>

section \<open>Results\<close>

record row_result =
  rr_line :: nat
  rr_status :: string
  rr_detected_format :: string
  rr_event_id :: string
  rr_event_type :: string
  rr_source :: string
  rr_raw_event_id :: string
  rr_identity_keys :: "string list"
  rr_correlation_method :: string

record receiver_summary =
  su_detected_formats :: "string \<Rightarrow> nat"
  su_event_types :: "string \<Rightarrow> nat"
  su_identity_keys :: "string \<Rightarrow> nat"
  su_resolved :: nat
  su_unresolved :: nat
  su_skipped :: nat
  su_failed :: nat

record jsonl_result =
  jr_batch_id :: string
  jr_format :: string
  jr_path :: string
  jr_file_sha256 :: string
  jr_read :: nat
  jr_ingested :: nat
  jr_skipped :: nat
  jr_failed :: nat
  jr_event_ids :: "string list"
  jr_event_ids_sha256 :: string
  jr_excluded :: nat
  jr_dropped :: nat
  jr_policy_decisions :: nat
  jr_policy_decision_ids :: "string list"
  jr_summary :: receiver_summary
  jr_rows :: "row_result list"
  jr_rows_truncated :: bool
  jr_errors :: nat

definition blank_result :: "string \<Rightarrow> string \<Rightarrow> jsonl_result" where
  "blank_result format path =
     \<lparr>jr_batch_id = [], jr_format = format, jr_path = path, jr_file_sha256 = [], jr_read = 0, jr_ingested = 0,
      jr_skipped = 0, jr_failed = 0, jr_event_ids = [], jr_event_ids_sha256 = [], jr_excluded = 0, jr_dropped = 0,
      jr_policy_decisions = 0, jr_policy_decision_ids = [],
      jr_summary = \<lparr>su_detected_formats = (\<lambda>_. 0), su_event_types = (\<lambda>_. 0), su_identity_keys = (\<lambda>_. 0),
        su_resolved = 0, su_unresolved = 0, su_skipped = 0, su_failed = 0\<rparr>,
      jr_rows = [], jr_rows_truncated = False, jr_errors = 0\<rparr>"

definition plain_row :: "nat \<Rightarrow> string \<Rightarrow> string \<Rightarrow> row_result" where
  "plain_row n status detected =
     \<lparr>rr_line = n, rr_status = status, rr_detected_format = detected, rr_event_id = [], rr_event_type = [],
      rr_source = [], rr_raw_event_id = [], rr_identity_keys = [], rr_correlation_method = []\<rparr>"

definition tally :: "string \<Rightarrow> (string \<Rightarrow> nat) \<Rightarrow> string \<Rightarrow> nat" where
  "tally k f = (if k = [] then f else f(k := f k + 1))"

definition count_row :: "row_result \<Rightarrow> receiver_summary \<Rightarrow> receiver_summary" where
  "count_row row s =
     (let s = s\<lparr>su_detected_formats := tally (rr_detected_format row) (su_detected_formats s),
                su_event_types := tally (rr_event_type row) (su_event_types s),
                su_identity_keys := fold (\<lambda>k f. f(k := f k + 1)) (rr_identity_keys row) (su_identity_keys s)\<rparr>
      in if rr_status row = ''ingested'' then
           (if unresolved_method (rr_correlation_method row) then s\<lparr>su_unresolved := Suc (su_unresolved s)\<rparr>
            else s\<lparr>su_resolved := Suc (su_resolved s)\<rparr>)
         else if rr_status row = ''skipped'' then s\<lparr>su_skipped := Suc (su_skipped s)\<rparr>
         else if rr_status row = ''failed'' then s\<lparr>su_failed := Suc (su_failed s)\<rparr>
         else s)"

definition append_row_result :: "row_result \<Rightarrow> jsonl_result \<Rightarrow> jsonl_result" where
  "append_row_result row res =
     (let res = res\<lparr>jr_summary := count_row row (jr_summary res)\<rparr> in
      if length (jr_rows res) < 1000 then res\<lparr>jr_rows := jr_rows res @ [row]\<rparr> else res\<lparr>jr_rows_truncated := True\<rparr>)"

definition ingest_event_identity_keys :: "ingest_event \<Rightarrow> string list" where
  "ingest_event_identity_keys e = sort
     ((if ig_process_id e \<noteq> [] then [''process_id''] else []) @
      (if ig_container_id e \<noteq> [] then [''container_id''] else []) @
      (if ig_cgroup_id e \<noteq> [] then [''cgroup_id''] else []) @
      (if ig_pid e \<noteq> 0 then [''pid''] else []) @
      (if ig_tgid e \<noteq> 0 then [''tgid''] else []) @
      (if ig_ppid e \<noteq> 0 then [''ppid''] else []))"

definition row_result_for_event :: "nat \<Rightarrow> string \<Rightarrow> string \<Rightarrow> ingest_event \<Rightarrow> string \<Rightarrow> string \<Rightarrow> row_result" where
  "row_result_for_event n status detected e i meth =
     \<lparr>rr_line = n, rr_status = status, rr_detected_format = detected, rr_event_id = i,
      rr_event_type = ig_event_type e, rr_source = ig_source e, rr_raw_event_id = ig_raw_event_id e,
      rr_identity_keys = ingest_event_identity_keys e, rr_correlation_method = meth\<rparr>"

definition row_result_for_record :: "nat \<Rightarrow> string \<Rightarrow> string \<Rightarrow> event \<Rightarrow> row_result" where
  "row_result_for_record n status detected e =
     \<lparr>rr_line = n, rr_status = status, rr_detected_format = detected, rr_event_id = ev_id e,
      rr_event_type = ev_event_type e, rr_source = ev_source e, rr_raw_event_id = ev_raw_event_id e,
      rr_identity_keys = event_identity_keys e, rr_correlation_method = ev_correlation_method e\<rparr>"

definition fail_row :: "row_result \<Rightarrow> jsonl_result \<Rightarrow> jsonl_result" where
  "fail_row row res = append_row_result row (res\<lparr>jr_failed := Suc (jr_failed res), jr_errors := Suc (jr_errors res)\<rparr>)"

section \<open>Lines\<close>

text \<open>\<open>bufio.Scanner\<close> with \<open>ScanLines\<close> and a buffer of one MiB: the lines before the first one that does
not fit, without their line ends, and whether none was too long.\<close>

definition drop_cr :: "string \<Rightarrow> string" where
  "drop_cr s = (if s \<noteq> [] \<and> last s = CHR 0x0D then butlast s else s)"

definition raw_lines :: "bytes \<Rightarrow> bytes list" where
  "raw_lines s = (let ls = split_char CHR 0x0A s in if last ls = [] then butlast ls else ls)"

definition max_line :: nat where "max_line = 1024 * 1024"

definition reader_lines :: "bytes \<Rightarrow> string list \<times> bool" where
  "reader_lines s =
     (let ls = raw_lines s; fits = (\<lambda>l. length l < max_line) in (map drop_cr (takeWhile fits ls), list_all fits ls))"

definition event_record_by_id :: "string \<Rightarrow> world \<Rightarrow> (go_error + event) \<times> world" where
  "event_record_by_id i w =
     (case query (\<lambda>d. find (\<lambda>e. ev_id e = i) (db_events d)) w of
        (None, w) \<Rightarrow> (Inl SqlError, w)
      | (Some None, w) \<Rightarrow> (Inl NoRows, w)
      | (Some (Some e), w) \<Rightarrow> (Inr e, w))"

definition is_uncorrelated_record :: "event \<Rightarrow> bool" where
  "is_uncorrelated_record e \<longleftrightarrow>
     (let m = trim_space (ev_correlation_method e) in m = [] \<or> m = ''unresolved'' \<or> ev_correlation_confidence e = 0)"

definition parse_object :: "string \<Rightarrow> raw_object option" where
  "parse_object line = (case decode line of Some (JObj kvs) \<Rightarrow> Some kvs | Some JNull \<Rightarrow> Some [] | _ \<Rightarrow> None)"

text \<open>The common part of both loops: a line that is not blank becomes an event to ingest or is counted.\<close>

definition line_event ::
  "mapper_env \<Rightarrow> jsonl_options \<Rightarrow> nat \<Rightarrow> string \<Rightarrow> jsonl_result \<Rightarrow> jsonl_result + ((raw_object \<times> string \<times> ingest_event) \<times> jsonl_result)" where
  "line_event env opts n line res =
     (let res = res\<lparr>jr_read := Suc (jr_read res)\<rparr> in
      case parse_object line of
        None \<Rightarrow> Inl (fail_row (plain_row n ''failed'' []) res)
      | Some raw \<Rightarrow>
          let detected = detected_jsonl_format opts raw in
          (case map_jsonl_event env opts raw n of
            Inl err \<Rightarrow> Inl (fail_row (plain_row n ''failed'' detected) res)
          | Inr None \<Rightarrow>
              Inl (append_row_result (plain_row n ''skipped'' detected) (res\<lparr>jr_skipped := Suc (jr_skipped res)\<rparr>))
          | Inr (Some e) \<Rightarrow> Inr ((raw, detected, e), res)))"

text \<open>Ingestion and reading back, with a result that failed or the stored event.\<close>

definition ingest_mapped ::
  "db option \<Rightarrow> nat \<Rightarrow> string \<Rightarrow> ingest_event \<Rightarrow> jsonl_result \<Rightarrow> world \<Rightarrow> (jsonl_result + event) \<times> world" where
  "ingest_mapped committed n detected e res w =
     (case ingest_with_store committed e w of
        (Inl err, w) \<Rightarrow> (Inl (fail_row (row_result_for_event n ''failed'' detected e [] []) res), w)
      | (Inr i, w) \<Rightarrow>
          (case event_record_by_id i w of
             (Inl err, w) \<Rightarrow> (Inl (fail_row (row_result_for_event n ''failed'' detected e i []) res), w)
           | (Inr x, w) \<Rightarrow> (Inr x, w)))"

definition count_ingested :: "nat \<Rightarrow> string \<Rightarrow> event \<Rightarrow> jsonl_result \<Rightarrow> jsonl_result" where
  "count_ingested n detected x res =
     append_row_result (row_result_for_record n ''ingested'' detected x)
       (res\<lparr>jr_ingested := Suc (jr_ingested res), jr_event_ids := jr_event_ids res @ [ev_id x]\<rparr>)"

definition reader_line ::
  "mapper_env \<Rightarrow> jsonl_options \<Rightarrow> nat \<Rightarrow> string \<Rightarrow> jsonl_result \<times> world \<Rightarrow> jsonl_result \<times> world" where
  "reader_line env opts n text s =
     (let line = trim_space text; (res, w) = s in
      if line = [] then (res, w)
      else case line_event env opts n line res of
        Inl res \<Rightarrow> (res, w)
      | Inr ((raw, detected, e), res) \<Rightarrow>
          if exclude_event opts raw e then
            (append_row_result (plain_row n ''excluded'' detected) (res\<lparr>jr_excluded := Suc (jr_excluded res)\<rparr>), w)
          else
            (case ingest_mapped None n detected e res w of
               (Inl res, w) \<Rightarrow> (res, w)
             | (Inr x, w) \<Rightarrow>
                 if jo_drop_uncorrelated opts \<and> is_uncorrelated_record x then
                   (append_row_result (plain_row n ''dropped_uncorrelated'' detected)
                      (res\<lparr>jr_dropped := Suc (jr_dropped res)\<rparr>),
                    exec_total_ignore (tbl_delete db_events_update (\<lambda>y. ev_id y = ev_id x)) w)
                 else (count_ingested n detected x res, w)))"

definition falco_line ::
  "mapper_env \<Rightarrow> db \<Rightarrow> jsonl_options \<Rightarrow> nat \<Rightarrow> string \<Rightarrow> jsonl_result \<times> world \<Rightarrow> jsonl_result \<times> world" where
  "falco_line env committed opts n text s =
     (let line = trim_space text; (res, w) = s in
      if line = [] then (res, w)
      else case line_event env opts n line res of
        Inl res \<Rightarrow> (res, w)
      | Inr ((raw, detected, e), res) \<Rightarrow>
          (case ingest_mapped (Some committed) n detected e res w of
             (Inl res, w) \<Rightarrow> (res, w)
           | (Inr x, w) \<Rightarrow> (count_ingested n detected x res, w)))"

fun each_line :: "(nat \<Rightarrow> string \<Rightarrow> 's \<Rightarrow> 's) \<Rightarrow> nat \<Rightarrow> string list \<Rightarrow> 's \<Rightarrow> 's" where
  "each_line f n [] s = s"
| "each_line f n (l # ls) s = each_line f (Suc n) ls (f n l s)"

section \<open>Batches\<close>

definition hash_strings :: "(bytes \<Rightarrow> string) \<Rightarrow> string list \<Rightarrow> string" where
  "hash_strings sha vs = sha (concat (map (\<lambda>v. v @ [CHR 0x00]) vs))"

fun runs_of :: "string list \<Rightarrow> string list \<Rightarrow> world \<Rightarrow> (go_error + string list) \<times> world" where
  "runs_of [] acc w = (Inr acc, w)"
| "runs_of (i # is) acc w =
     (case event_record_by_id i w of
        (Inl err, w) \<Rightarrow> (Inl err, w)
      | (Inr x, w) \<Rightarrow>
          let run = coalesce (ev_run_id x) in
          runs_of is (if trim_space run \<noteq> [] then List.insert run acc else acc) w)"

definition infer_single_run_id :: "string list \<Rightarrow> world \<Rightarrow> (go_error + string) \<times> world" where
  "infer_single_run_id is w =
     (case runs_of is [] w of
        (Inl err, w) \<Rightarrow> (Inl err, w)
      | (Inr [run], w) \<Rightarrow> (Inr run, w)
      | (Inr _, w) \<Rightarrow> (Inr [], w))"

text \<open>A nil slice is written as \<open>null\<close>.\<close>

definition event_ids_json :: "string list \<Rightarrow> string" where
  "event_ids_json is = (if is = [] then ''null'' else marshal (JArr (map JStr is)))"

definition persist_jsonl_batch :: "jsonl_options \<Rightarrow> jsonl_result \<Rightarrow> world \<Rightarrow> (go_error option \<times> jsonl_result) \<times> world" where
  "persist_jsonl_batch opts res w =
     (let (i, w) = new_id ''telbatch'' w in
      case (if trim_space (jo_run_id opts) = [] then infer_single_run_id (jr_event_ids res) w
            else (Inr (trim_space (jo_run_id opts)), w)) of
        (Inl err, w) \<Rightarrow> ((Some err, res), w)
      | (Inr run, w) \<Rightarrow>
          let (ts, w) = now w;
              (ok, w) = exec (tbl_insert db_telemetry_batches db_telemetry_batches_update tb_id
                \<lparr>tb_id = i, tb_run_id = run, tb_format = jr_format res, tb_path = jr_path res,
                 tb_file_sha256 = jr_file_sha256 res, tb_read_count = int (jr_read res),
                 tb_ingested_count = int (jr_ingested res), tb_skipped_count = int (jr_skipped res),
                 tb_failed_count = int (jr_failed res), tb_event_ids_json = event_ids_json (jr_event_ids res),
                 tb_event_ids_sha256 = jr_event_ids_sha256 res, tb_created_at = ts\<rparr>) w
          in if ok then ((None, res\<lparr>jr_batch_id := i\<rparr>), w) else ((Some SqlError, res), w))"

definition result_run_id :: "string \<Rightarrow> string list \<Rightarrow> world \<Rightarrow> string \<times> world" where
  "result_run_id configured is w =
     (if trim_space configured \<noteq> [] then (trim_space configured, w)
      else case infer_single_run_id is w of (Inl err, w) \<Rightarrow> ([], w) | (Inr run, w) \<Rightarrow> (run, w))"

definition rebuild_for :: "string \<Rightarrow> jsonl_result \<Rightarrow> world \<Rightarrow> (go_error option \<times> jsonl_result) \<times> world" where
  "rebuild_for configured res w =
     (let (run, w) = result_run_id configured (jr_event_ids res) w in
      case rebuild_event_windows run w of
        (Inl err, w) \<Rightarrow> ((Some err, res), w)
      | (Inr n, w) \<Rightarrow> ((None, res), w))"

section \<open>Ingestion of a text\<close>

definition with_hashes :: "mapper_env \<Rightarrow> bytes \<Rightarrow> jsonl_result \<Rightarrow> jsonl_result" where
  "with_hashes env hashed res =
     res\<lparr>jr_file_sha256 := me_sha env hashed, jr_event_ids_sha256 := hash_strings (me_sha env) (jr_event_ids res)\<rparr>"

definition normal_options :: "jsonl_options \<Rightarrow> jsonl_options" where
  "normal_options opts =
     opts\<lparr>jo_format := (if trim_space (jo_format opts) = [] then ''auto'' else trim_space (jo_format opts))\<rparr>"

definition ingest_jsonl_reader ::
  "mapper_env \<Rightarrow> jsonl_options \<Rightarrow> bytes \<Rightarrow> world \<Rightarrow> (go_error option \<times> jsonl_result) \<times> world" where
  "ingest_jsonl_reader env opts input w =
     (let opts = normal_options opts; (lines, complete) = reader_lines input;
          (res, w) = each_line (reader_line env opts) 1 lines (blank_result (jo_format opts) (jo_path opts), w) in
      if \<not> complete then ((Some (Errorf ''token too long''), res), w)
      else
        (case persist_jsonl_batch opts (with_hashes env input res) w of
           ((Some err, res), w) \<Rightarrow> ((Some err, res), w)
         | ((None, res), w) \<Rightarrow> rebuild_for (jo_run_id opts) res w))"

text \<open>\<open>IngestJSONL\<close>; \<open>stdin\<close> and \<open>files\<close> are what can be read.\<close>

definition ingest_jsonl ::
  "mapper_env \<Rightarrow> bytes \<Rightarrow> (string \<Rightarrow> bytes option) \<Rightarrow> jsonl_options \<Rightarrow> world \<Rightarrow> (go_error option \<times> jsonl_result) \<times> world" where
  "ingest_jsonl env stdin files opts w =
     (if trim_space (jo_path opts) = [] then ((Some (Errorf ''jsonl path is required''), blank_result [] []), w)
      else if jo_path opts = ''-'' then ingest_jsonl_reader env opts stdin w
      else case files (jo_path opts) of
        None \<Rightarrow> ((Some (Errorf ''open''), blank_result [] []), w)
      | Some input \<Rightarrow> ingest_jsonl_reader env opts input w)"

definition falco_options :: "jsonl_options \<Rightarrow> jsonl_options" where
  "falco_options opts =
     opts\<lparr>jo_format := ''falco'',
          jo_path := (if trim_space (jo_path opts) = [] then ''stdin'' else trim_space (jo_path opts)),
          jo_exclude_path_prefixes := [], jo_exclude_cgroup_ids := [], jo_drop_uncorrelated := False\<rparr>"

definition ingest_falco ::
  "mapper_env \<Rightarrow> jsonl_options \<Rightarrow> bytes \<Rightarrow> world \<Rightarrow> (go_error option \<times> jsonl_result) \<times> world" where
  "ingest_falco env opts input w =
     (let opts = falco_options opts; blank = blank_result ''falco'' (jo_path opts); d0 = w_db w;
          (ok, w) = tx_begin w in
      if \<not> ok then ((Some SqlError, blank), w)
      else
        let (lines, complete) = reader_lines input;
            (res, w) = each_line (falco_line env d0 opts) 1 lines (blank, w) in
        if \<not> complete then ((Some (Errorf ''token too long''), res), rollback d0 w)
        else
          (case persist_jsonl_batch opts (with_hashes env (concat (map (\<lambda>l. l @ [CHR 0x0A]) lines)) res) w of
             ((Some err, res), w) \<Rightarrow> ((Some err, res), rollback d0 w)
           | ((None, res), w) \<Rightarrow>
               let (ok, w) = tx_commit w in
               if \<not> ok then ((Some SqlError, res), rollback d0 w)
               else rebuild_for (jo_run_id opts) res w))"

end
