(* ===== verification/JsonlVerify.thy ===== *)
theory JsonlVerify
  imports Jsonl IngestVerify
begin

text \<open>
  Ingestion of a text against \<open>verifyTelemetryBatches\<close> of \<open>internal/provenance/verify.go\<close>: the record a
  receiver of \<open>internal/telemetry/jsonl.go\<close> leaves of a batch passes its checks, and so do the records that
  passed before. Nothing is assumed of the store: every statement may fail.
\<close>

declare jstring.simps [simp del] jvalue.simps [simp del] jelems.simps [simp del] jmembers.simps [simp del]

section \<open>One event\<close>

definition stored_for :: "string \<Rightarrow> world \<Rightarrow> string \<Rightarrow> bool" where
  "stored_for run w i \<longleftrightarrow> (\<exists>e \<in> set (db_events (w_db w)). ev_id e = i \<and> ev_run_id e = Some run)"

text \<open>Steps that add events and nothing else that batches are checked against.\<close>

definition adds :: "world \<Rightarrow> world \<Rightarrow> bool" where
  "adds w w' \<longleftrightarrow> db_telemetry_batches (w_db w') = db_telemetry_batches (w_db w) \<and>
     (\<forall>run i. stored_for run w i \<longrightarrow> stored_for run w' i)"

lemma adds_refl [simp]: "adds w w"
  by (simp add: adds_def)

lemma adds_trans [trans]: "adds w w' \<Longrightarrow> adds w' w'' \<Longrightarrow> adds w w''"
  by (simp add: adds_def)

lemma adds_stored: "adds w w' \<Longrightarrow> stored_for run w i \<Longrightarrow> stored_for run w' i"
  by (simp add: adds_def)

lemma adds_db: "db_telemetry_batches (w_db w') = db_telemetry_batches (w_db w) \<Longrightarrow>
    set (db_events (w_db w)) \<subseteq> set (db_events (w_db w')) \<Longrightarrow> adds w w'"
  by (auto simp: adds_def stored_for_def)

lemma adds_same_db: "w_db w' = w_db w \<Longrightarrow> adds w w'"
  by (simp add: adds_db)

lemma keeps_stored: "keeps i w w' \<Longrightarrow> stored_for run w i \<Longrightarrow> stored_for run w' i"
proof -
  assume k: "keeps i w w'" and s: "stored_for run w i"
  then obtain e where e: "e \<in> set (filter (\<lambda>x. ev_id x = i) (db_events (w_db w)))" "ev_run_id e = Some run"
    by (auto simp: stored_for_def)
  then have "filter (\<lambda>x. ev_id x = i) (db_events (w_db w)) \<noteq> []" by (auto simp: filter_empty_conv)
  with k e have "e \<in> set (filter (\<lambda>x. ev_id x = i) (db_events (w_db w')))" by (simp add: keeps_def)
  with e(2) show ?thesis by (auto simp: stored_for_def)
qed

lemma keeps_adds: "(\<And>i. keeps i w w') \<Longrightarrow> adds w w'"
proof -
  assume k: "\<And>i. keeps i w w'"
  have "db_telemetry_batches (w_db w') = db_telemetry_batches (w_db w)" using k by (simp add: keeps_def)
  with keeps_stored [OF k] show ?thesis by (simp add: adds_def)
qed

text \<open>Correlation leaves a given run alone.\<close>

lemma correlate_run:
  "correlate committed e w = (Inr r, w') \<Longrightarrow> ig_run_id e \<noteq> [] \<Longrightarrow> ig_run_id (rs_event r) = ig_run_id e"
proof -
  assume c: "correlate committed e w = (Inr r, w')" and run: "ig_run_id e \<noteq> []"
  have fill: "ig_run_id (fst (fill_from_attempt x v)) = ig_run_id x" for x v
    by (auto simp: fill_from_attempt_def split: prod.splits option.splits)
  have fb: "ig_run_id (fill_from_binding b e) = ig_run_id e" "ig_run_id (fill_origin b x) = ig_run_id x" for b x
    using run by (simp_all add: fill_from_binding_def or_else_def fill_origin_def)
  obtain m w1 where m: "on_committed committed (resolve (identity_of e)) w = (m, w1)" by force
  have "fill_from_attempt (fill_from_binding b e) w1 = (x, v) \<Longrightarrow> ig_run_id x = ig_run_id e" for b x v
    using fill [of "fill_from_binding b e" w1] fb by simp
  with c m show ?thesis
    by (auto simp: correlate_def Let_def fb split: if_splits sum.splits option.splits prod.splits)
qed

text \<open>What ingestion of one event leaves.\<close>

lemma ingest_leaves:
  assumes "ingest_with_store committed e w = (r, w')" "ig_run_id e \<noteq> []"
  shows "adds w w' \<and> (case r of Inl err \<Rightarrow> True
    | Inr i \<Rightarrow> stored_for (ig_run_id e) w' i \<and> i \<notin> ev_id ` set (db_events (w_db w)))"
proof -
  have p: "(normalized_event e)\<lparr>ig_payload := redact_string (ig_payload (normalized_event e))\<rparr> = prepared e"
    by (simp add: prepared_def)
  have run: "ig_run_id (prepared e) = ig_run_id e" by (simp add: prepared_def normalized_event_def)
  obtain c w1 where c: "correlate committed (prepared e) w = (c, w1)" by force
  have o: "only_reads w w1" by (rule only_reads_correlate [OF c])
  then have a1: "adds w w1" by (simp add: only_reads_def adds_same_db)
  show ?thesis
  proof (cases c)
    case (Inl err)
    with assms(1) c a1 p show ?thesis by (auto simp: ingest_with_store_def Let_def split: if_splits)
  next
    case (Inr x)
    obtain i w2 where i: "new_id ''evt'' w1 = (i, w2)" by force
    obtain ts w3 where ts: "now w2 = (ts, w3)" by force
    obtain ok w4 where ok: "exec (tbl_insert db_events db_events_update ev_id (stored_event i ts (sampled x))) w3 = (ok, w4)" by force
    have "w_db w3 = w_db w1" using new_id_db [of "''evt''" w1] now_db [of w2] i ts by simp
    then have db3: "w_db w3 = w_db w" using o by (simp add: only_reads_def)
    have ev: "rs_event (sampled x) = rs_event x" by (simp add: sampled_def)
    have r: "ig_run_id (rs_event x) = ig_run_id e" using correlate_run [of committed "prepared e" w x w1] c Inr run assms(2) by simp
    show ?thesis
    proof (cases ok)
      case False
      with exec_db [OF ok] db3 have "adds w w4" by (simp add: adds_same_db)
      with False Inr assms(1) c p i ts ok show ?thesis
        by (auto simp: ingest_with_store_def Let_def split: if_splits)
    next
      case True
      with exec_db [OF ok] db3 have ins: "tbl_insert db_events db_events_update ev_id (stored_event i ts (sampled x)) (w_db w) = Some (w_db w4)"
        by simp
      then have db4: "w_db w4 = db_events_update (\<lambda>rs. rs @ [stored_event i ts (sampled x)]) (w_db w)"
        and fresh: "i \<notin> ev_id ` set (db_events (w_db w))"
        by (auto simp: tbl_insert_def stored_event_def Let_def split: if_splits)
      have "stored_for (ig_run_id e) w4 i" by (simp add: stored_for_def db4 stored_event_def Let_def ev r)
      moreover have "adds w w4" by (rule adds_db) (auto simp: db4)
      moreover have "adds w4 (after_insert (rs_event x) i ts w4)" by (rule keeps_adds) (rule keeps_after_insert)
      ultimately have "adds w (after_insert (rs_event x) i ts w4)" "stored_for (ig_run_id e) (after_insert (rs_event x) i ts w4) i"
        by (blast intro: adds_trans adds_stored)+
      with True Inr assms(1) c p i ts ok ev fresh show ?thesis
        by (auto simp: ingest_with_store_def Let_def split: if_splits)
    qed
  qed
qed

section \<open>A text\<close>

text \<open>What holds after every line of an ingestion that began in \<open>w0\<close>.\<close>

definition progressed :: "string \<Rightarrow> string \<Rightarrow> world \<Rightarrow> jsonl_result \<times> world \<Rightarrow> bool" where
  "progressed run format w0 s \<longleftrightarrow> (case s of (res, w) \<Rightarrow>
     adds w0 w \<and> jr_format res = format \<and> jr_ingested res = length (jr_event_ids res) \<and>
     (\<forall>i \<in> set (jr_event_ids res). stored_for run w i))"

definition same_ids :: "jsonl_result \<Rightarrow> jsonl_result \<Rightarrow> bool" where
  "same_ids a b \<longleftrightarrow> jr_format a = jr_format b \<and> jr_ingested a = jr_ingested b \<and> jr_event_ids a = jr_event_ids b"

lemma progressed_adds: "progressed run format w0 (res, w) \<Longrightarrow> adds w w' \<Longrightarrow> same_ids res' res \<Longrightarrow>
    progressed run format w0 (res', w')"
  unfolding progressed_def same_ids_def by (auto intro: adds_trans adds_stored)

lemma append_row_fields [simp]: "same_ids (append_row_result row res) r = same_ids res r"
  "jr_ingested (append_row_result row res) = jr_ingested res" "jr_event_ids (append_row_result row res) = jr_event_ids res"
  "jr_format (append_row_result row res) = jr_format res"
  by (simp_all add: append_row_result_def same_ids_def Let_def)

lemma same_ids_update [simp]: "same_ids (res\<lparr>jr_read := n\<rparr>) r = same_ids res r"
  "same_ids (res\<lparr>jr_skipped := n\<rparr>) r = same_ids res r" "same_ids (res\<lparr>jr_excluded := n\<rparr>) r = same_ids res r"
  "same_ids (res\<lparr>jr_dropped := n\<rparr>) r = same_ids res r" "same_ids (fail_row row res) r = same_ids res r" "same_ids r r"
  by (simp_all add: same_ids_def fail_row_def append_row_result_def Let_def)

lemma line_event_ids:
  "line_event env opts n line res = Inl res' \<Longrightarrow> same_ids res' res"
  "line_event env opts n line res = Inr (x, res') \<Longrightarrow> same_ids res' res"
  by (auto simp: line_event_def Let_def split: option.splits sum.splits)

text \<open>Lines become events of the run the options give.\<close>

lemma line_event_run:
  assumes "line_event env opts n line res = Inr ((raw, detected, e), res')"
  shows "ig_run_id e = trim_space (jo_run_id opts)"
proof -
  have "map_jsonl_event env opts raw n = Inr (Some e)"
    using assms by (auto simp: line_event_def Let_def split: option.splits sum.splits)
  then show ?thesis by (rule mapped_run)
qed

lemma event_record_only_reads: "event_record_by_id i w = (r, w') \<Longrightarrow> only_reads w w' \<and> (\<forall>x. r = Inr x \<longrightarrow> ev_id x = i)"
proof -
  assume e: "event_record_by_id i w = (r, w')"
  obtain q v where q: "query (\<lambda>d. find (\<lambda>e. ev_id e = i) (db_events d)) w = (q, v)" by force
  have "q = Some (Some x) \<Longrightarrow> ev_id x = i" for x using query_db [OF q] by (auto simp: find_Some_iff find_Some_iff2)
  with e q only_reads_query [OF q] show ?thesis by (auto simp: event_record_by_id_def split: option.splits)
qed

lemma ingest_mapped_leaves:
  assumes "ingest_mapped committed n detected e res w = (r, w')" "ig_run_id e \<noteq> []"
  shows "adds w w' \<and> (case r of Inl res' \<Rightarrow> same_ids res' res
    | Inr x \<Rightarrow> stored_for (ig_run_id e) w' (ev_id x) \<and> ev_id x \<notin> ev_id ` set (db_events (w_db w)))"
proof -
  obtain i w1 where i: "ingest_with_store committed e w = (i, w1)" by force
  note l = ingest_leaves [OF i assms(2)]
  show ?thesis
  proof (cases i)
    case (Inl err)
    with l assms(1) i show ?thesis by (auto simp: ingest_mapped_def)
  next
    case (Inr j)
    obtain x w2 where x: "event_record_by_id j w1 = (x, w2)" by force
    from event_record_only_reads [OF x] have o: "w_db w2 = w_db w1" "\<And>e. x = Inr e \<Longrightarrow> ev_id e = j"
      by (auto simp: only_reads_def)
    from o(1) have a: "adds w1 w2" by (rule adds_same_db)
    from l Inr have "adds w w2" "stored_for (ig_run_id e) w2 j" "j \<notin> ev_id ` set (db_events (w_db w))"
      using adds_trans [OF _ a] adds_stored [OF a] by auto
    with assms(1) i Inr x o(2) show ?thesis by (cases x) (auto simp: ingest_mapped_def)
  qed
qed

text \<open>Deleting a row that was not there before.\<close>

lemma adds_delete:
  assumes "adds w w1" "i \<notin> ev_id ` set (db_events (w_db w))"
  shows "adds w (exec_total_ignore (tbl_delete db_events_update (\<lambda>y. ev_id y = i)) w1)"
proof -
  let ?w = "exec_total_ignore (tbl_delete db_events_update (\<lambda>y. ev_id y = i)) w1"
  have "stored_for run ?w j" if "stored_for run w j" for run j
  proof -
    have "j \<noteq> i" using that assms(2) by (auto simp: stored_for_def)
    with adds_stored [OF assms(1) that] exec_total_ignore_db [of "tbl_delete db_events_update (\<lambda>y. ev_id y = i)" w1]
    show ?thesis by (auto simp: stored_for_def tbl_delete_def)
  qed
  moreover have "db_telemetry_batches (w_db ?w) = db_telemetry_batches (w_db w1)"
    using exec_total_ignore_db [of "tbl_delete db_events_update (\<lambda>y. ev_id y = i)" w1] by (auto simp: tbl_delete_def)
  ultimately show ?thesis using assms(1) by (simp add: adds_def)
qed

lemma progressed_count:
  assumes "progressed run format w0 (res, w)" "adds w w'" "stored_for run w' (ev_id x)" "same_ids res' res"
  shows "progressed run format w0 (count_ingested n detected x res', w')"
  using progressed_adds [OF assms(1,2,4)] assms(3) by (simp add: progressed_def count_ingested_def)

lemma reader_line_progressed:
  assumes "progressed run format w0 s" "run = trim_space (jo_run_id opts)" "run \<noteq> []"
  shows "progressed run format w0 (reader_line env opts n text s)"
proof -
  obtain res w where s: "s = (res, w)" by force
  have same: "same_ids res' res \<Longrightarrow> progressed run format w0 (res', w)" for res'
    using assms(1) progressed_adds [of run format w0 res w w res'] s by simp
  show ?thesis
  proof (cases "line_event env opts n (trim_space text) res")
    case (Inl res')
    with s assms(1) line_event_ids(1) [OF Inl] same show ?thesis by (simp add: reader_line_def Let_def)
  next
    case (Inr y)
    obtain raw detected e res' where y: "y = ((raw, detected, e), res')" by (cases y) auto
    have l: "line_event env opts n (trim_space text) res = Inr ((raw, detected, e), res')" using Inr y by simp
    have run: "ig_run_id e = run" using line_event_run [OF l] assms(2) by simp
    note ids = line_event_ids(2) [OF l]
    obtain r w' where m: "ingest_mapped None n detected e res' w = (r, w')" by force
    note lm = ingest_mapped_leaves [OF m, unfolded run, OF assms(3)]
    show ?thesis
    proof (cases r)
      case (Inl res'')
      with lm ids have "same_ids res'' res" by (simp add: same_ids_def)
      with lm s assms(1) have "progressed run format w0 (res'', w')" by (auto intro: progressed_adds)
      with s assms(1) l m Inl ids same show ?thesis by (simp add: reader_line_def Let_def)
    next
      case (Inr x)
      with lm have x: "adds w w'" "stored_for run w' (ev_id x)" "ev_id x \<notin> ev_id ` set (db_events (w_db w))" by auto
      have "progressed run format w0 (res, w)" using assms(1) s by simp
      from progressed_count [OF this x(1,2) ids] progressed_adds [OF this adds_delete [OF x(1,3)]]
      show ?thesis using s assms(1) l m Inr ids same by (simp add: reader_line_def Let_def)
    qed
  qed
qed

lemma falco_line_progressed:
  assumes "progressed run format w0 s" "run = trim_space (jo_run_id opts)" "run \<noteq> []"
  shows "progressed run format w0 (falco_line env committed opts n text s)"
proof -
  obtain res w where s: "s = (res, w)" by force
  show ?thesis
  proof (cases "line_event env opts n (trim_space text) res")
    case (Inl res')
    with s assms(1) line_event_ids(1) [OF Inl] progressed_adds [of run format w0 res w w res'] show ?thesis
      by (simp add: falco_line_def Let_def)
  next
    case (Inr y)
    obtain raw detected e res' where y: "y = ((raw, detected, e), res')" by (cases y) auto
    have l: "line_event env opts n (trim_space text) res = Inr ((raw, detected, e), res')" using Inr y by simp
    have run: "ig_run_id e = run" using line_event_run [OF l] assms(2) by simp
    note ids = line_event_ids(2) [OF l]
    obtain r w' where m: "ingest_mapped (Some committed) n detected e res' w = (r, w')" by force
    note lm = ingest_mapped_leaves [OF m, unfolded run, OF assms(3)]
    have p: "progressed run format w0 (res, w)" using assms(1) s by simp
    show ?thesis
    proof (cases r)
      case (Inl res'')
      with lm ids have "same_ids res'' res" by (simp add: same_ids_def)
      with lm progressed_adds [OF p] have "progressed run format w0 (res'', w')" by auto
      with s assms(1) l m Inl show ?thesis by (simp add: falco_line_def Let_def)
    next
      case (Inr x)
      with lm progressed_count [OF p _ _ ids] s l m p show ?thesis by (simp add: falco_line_def Let_def)
    qed
  qed
qed

lemma each_line_progressed:
  "(\<And>n text s. progressed run format w0 s \<Longrightarrow> progressed run format w0 (f n text s)) \<Longrightarrow>
   progressed run format w0 s \<Longrightarrow> progressed run format w0 (each_line f n ls s)"
  by (induction ls arbitrary: n s) simp_all

section \<open>Batches\<close>

lemma jelems_strings: "2 * length (join '','' (map quote (i # is))) \<le> n \<Longrightarrow>
    jelems (Suc n) (join '','' (map quote (i # is)) @ CHR '']'' # r) = Some (map JStr (i # is), r)"
proof (induction "is" arbitrary: i n)
  case Nil
  then obtain m where "n = Suc m" by (cases n) (simp_all add: quote_def)
  then show ?case by (simp add: jelems.simps jvalue_string skip_def is_jspace_def)
next
  case (Cons j js)
  let ?t = "join '','' (map quote (j # js))"
  have "join '','' (map quote (i # j # js)) = quote i @ '','' @ ?t" by simp
  moreover have "2 \<le> length (quote i)" by (simp add: quote_def)
  ultimately have len: "Suc (Suc (2 * length ?t)) \<le> n" using Cons.prems by (simp del: join.simps)
  then obtain m where m: "n = Suc m" "2 * length ?t \<le> m" by (cases n) auto
  from Cons.IH [OF m(2)] show ?case
    by (simp add: jelems.simps(2) [of "Suc m"] m(1) jvalue_string skip_def is_jspace_def)
qed

lemma those_map_Some [simp]: "those (map Some xs) = Some xs"
  by (induction xs) simp_all

lemma decode_event_ids: "decode_strings (event_ids_json is) = Some is"
proof (cases "is")
  case Nil
  then show ?thesis by (simp add: decode_strings_def event_ids_json_def) code_simp
next
  case (Cons i js)
  let ?t = "join '','' (map quote (i # js))"
  have m: "marshal (JArr (map JStr is)) = CHR ''['' # ?t @ [CHR '']'']"
    by (simp add: Cons comp_def del: join.simps)
  obtain u where h: "?t = CHR 0x22 # u" by (cases js) (simp_all add: quote_def)
  then have sk: "skip (?t @ [CHR '']'']) = ?t @ [CHR '']'']" "hd (?t @ [CHR '']'']) = CHR 0x22"
    unfolding h by (simp_all add: skip_def is_jspace_def)
  have "jelems (Suc (2 * length ?t + 4)) (?t @ [CHR '']'']) = Some (map JStr is, [])"
    using jelems_strings [of i js "2 * length ?t + 4" "[]"] Cons by (simp del: join.simps)
  then have "jvalue (Suc (Suc (2 * length ?t + 4))) (CHR ''['' # ?t @ [CHR '']'']) = Some (JArr (map JStr is), [])"
    using sk by (simp only: jvalue.simps(2)) (simp add: skip_def is_jspace_def del: join.simps)
  moreover have "2 * length (CHR ''['' # ?t @ [CHR '']'']) + 2 = Suc (Suc (2 * length ?t + 4))" by simp
  ultimately have "decode (marshal (JArr (map JStr is))) = Some (JArr (map JStr is))"
    unfolding m decode_def by (simp only:) (simp add: skip_def)
  then show ?thesis
    by (simp add: decode_strings_def event_ids_json_def Cons string_items_def comp_def del: marshal.simps)
qed

lemma trim_space_idem [simp]: "trim_space (trim_space s) = trim_space s"
proof -
  define t where "t = dropWhile is_space s"
  define u where "u = rev (dropWhile is_space (rev t))"
  have u: "trim_space s = u" by (simp add: trim_space_def trim_left_def trim_right_def u_def t_def)
  have "u = [] \<or> \<not> is_space (last u)"
    unfolding u_def by (metis hd_dropWhile last_rev rev_is_Nil_conv)
  then have r: "trim_right is_space u = u" by (rule trim_right_id)
  obtain v where v: "t = u @ v" unfolding u_def by (metis rev_append rev_rev_ident takeWhile_dropWhile_id)
  have "dropWhile is_space u = u"
  proof (cases u)
    case (Cons c w)
    then have "\<not> is_space c" using v hd_dropWhile [of is_space s] by (simp add: t_def)
    with Cons show ?thesis by simp
  qed simp
  with r show ?thesis by (simp add: u) (simp add: trim_space_def trim_left_def)
qed

definition batch_ok :: "(bytes \<Rightarrow> string) \<Rightarrow> world \<Rightarrow> telemetry_batch \<Rightarrow> bool" where
  "batch_ok sha w b \<longleftrightarrow> trim_space (tb_format b) \<noteq> [] \<and> trim_space (tb_file_sha256 b) \<noteq> [] \<and>
     (\<exists>is. decode_strings (tb_event_ids_json b) = Some is \<and> int (length is) = tb_ingested_count b \<and>
        hash_verify_strings sha is = tb_event_ids_sha256 b \<and> (\<forall>i \<in> set is. stored_for (tb_run_id b) w i))"

lemma batches_verify_iff: "verify_telemetry_batches sha (w_db w) run = [] \<longleftrightarrow>
    (\<forall>b \<in> set (db_telemetry_batches (w_db w)). tb_run_id b = run \<longrightarrow> batch_ok sha w b)"
proof -
  define f where "f = (\<lambda>b :: telemetry_batch. let i = tb_id b in
     err_if (trim_space (tb_format b) = []) ''telemetry_batch_missing_format'' i @
     err_if (trim_space (tb_file_sha256 b) = []) ''telemetry_batch_missing_file_hash'' i @
     (case decode_strings (tb_event_ids_json b) of
        None \<Rightarrow> [issue ''error'' ''telemetry_batch_invalid_event_ids'' i]
      | Some ids \<Rightarrow>
          err_if (int (length ids) \<noteq> tb_ingested_count b) ''telemetry_batch_ingested_count_mismatch'' i @
          err_if (hash_verify_strings sha ids \<noteq> tb_event_ids_sha256 b) ''telemetry_batch_event_hash_mismatch'' i @
          concat (map (\<lambda>x. err_if (\<not> list_ex (\<lambda>e. ev_id e = x \<and> ev_run_id e = Some run) (db_events (w_db w)))
            ''telemetry_batch_missing_event'' i) ids)))"
  have "tb_run_id b = run \<Longrightarrow> f b = [] \<longleftrightarrow> batch_ok sha w b" for b
    unfolding f_def Let_def
    by (cases "decode_strings (tb_event_ids_json b)") (auto simp: batch_ok_def stored_for_def list_ex_iff)
  moreover have "verify_telemetry_batches sha (w_db w) run =
      concat (map f (filter (\<lambda>b. tb_run_id b = run) (db_telemetry_batches (w_db w))))"
    unfolding verify_telemetry_batches_def f_def ..
  ultimately show ?thesis by auto
qed

lemma batch_ok_adds: "adds w w' \<Longrightarrow> batch_ok sha w b \<Longrightarrow> batch_ok sha w' b"
  unfolding batch_ok_def by (blast intro: adds_stored)

lemma verify_adds: "adds w w' \<Longrightarrow> verify_telemetry_batches sha (w_db w) run = [] \<Longrightarrow>
    verify_telemetry_batches sha (w_db w') run = []"
  unfolding batches_verify_iff using batch_ok_adds [of w w'] by (simp add: adds_def)

text \<open>The record of a batch.\<close>

lemma persist_leaves:
  assumes "persist_jsonl_batch opts res w = (r, w')" "run = trim_space (jo_run_id opts)" "run \<noteq> []"
    and "progressed run format w0 (res0, w)" "trim_space format \<noteq> []" "trim_space (sha hashed) \<noteq> []"
    and "res = res0\<lparr>jr_file_sha256 := sha hashed, jr_event_ids_sha256 := hash_strings sha (jr_event_ids res0)\<rparr>"
    and "verify_telemetry_batches sha (w_db w0) run' = []"
  shows "verify_telemetry_batches sha (w_db w') run' = []"
proof -
  obtain i w1 where i: "new_id ''telbatch'' w = (i, w1)" by force
  obtain ts w2 where ts: "now w1 = (ts, w2)" by force
  define b where "b = \<lparr>tb_id = i, tb_run_id = run, tb_format = jr_format res, tb_path = jr_path res,
                 tb_file_sha256 = jr_file_sha256 res, tb_read_count = int (jr_read res),
                 tb_ingested_count = int (jr_ingested res), tb_skipped_count = int (jr_skipped res),
                 tb_failed_count = int (jr_failed res), tb_event_ids_json = event_ids_json (jr_event_ids res),
                 tb_event_ids_sha256 = jr_event_ids_sha256 res, tb_created_at = ts\<rparr>"
  obtain ok w3 where ok: "exec (tbl_insert db_telemetry_batches db_telemetry_batches_update tb_id b) w2 = (ok, w3)" by force
  have w': "w' = w3" using assms(1-3) i ts ok by (auto simp: persist_jsonl_batch_def Let_def b_def split: if_splits)
  have db2: "w_db w2 = w_db w" using new_id_db [of "''telbatch''" w] now_db [of w1] i ts by simp
  have p: "adds w0 w" "jr_format res = format" "jr_ingested res = length (jr_event_ids res)"
    "\<forall>i \<in> set (jr_event_ids res). stored_for run w i"
    using assms(4,7) by (simp_all add: progressed_def)
  have v: "verify_telemetry_batches sha (w_db w) run' = []" by (rule verify_adds [OF p(1) assms(8)])
  show ?thesis
  proof (cases ok)
    case False
    with exec_db [OF ok] db2 v w' show ?thesis by simp
  next
    case True
    with exec_db [OF ok] db2 have "tbl_insert db_telemetry_batches db_telemetry_batches_update tb_id b (w_db w) = Some (w_db w3)"
      by simp
    then have db3: "w_db w3 = db_telemetry_batches_update (\<lambda>rs. rs @ [b]) (w_db w)" by (rule tbl_insert_Some)
    then have st: "stored_for run'' w3 j = stored_for run'' w j" for run'' j by (simp add: stored_for_def)
    have "hash_verify_strings = hash_strings" by (simp add: fun_eq_iff hash_verify_strings_def hash_strings_def)
    then have "batch_ok sha w3 b"
      using p(2-4) assms(5-7) by (simp add: batch_ok_def st b_def decode_event_ids)
    moreover have "batch_ok sha w3 c = batch_ok sha w c" for c by (simp add: batch_ok_def st)
    ultimately show ?thesis using v unfolding w' batches_verify_iff by (auto simp: db3)
  qed
qed

definition record_of :: "string \<Rightarrow> jsonl_result \<Rightarrow> world \<Rightarrow> bool" where
  "record_of run res w \<longleftrightarrow> list_ex (\<lambda>b. tb_id b = jr_batch_id res \<and> tb_run_id b = run \<and>
     tb_event_ids_json b = event_ids_json (jr_event_ids res) \<and> tb_ingested_count b = int (jr_ingested res))
     (db_telemetry_batches (w_db w))"

lemma record_adds: "adds w w' \<Longrightarrow> record_of run res w \<Longrightarrow> record_of run res w'"
  by (simp add: adds_def record_of_def)

lemma persist_record:
  assumes "persist_jsonl_batch opts res w = ((None, res'), w')" "trim_space (jo_run_id opts) \<noteq> []"
  shows "record_of (trim_space (jo_run_id opts)) res' w'"
  using assms by (auto simp: persist_jsonl_batch_def Let_def record_of_def split: if_splits prod.splits
      dest!: exec_db tbl_insert_Some)

lemma rebuild_for_result: "rebuild_for configured res w = ((e, res'), w') \<Longrightarrow> res' = res"
  by (auto simp: rebuild_for_def split: prod.splits sum.splits)

text \<open>Windows are rebuilt from events and change nothing else.\<close>

definition same_rows :: "db \<Rightarrow> db \<Rightarrow> bool" where
  "same_rows d d' \<longleftrightarrow> db_events d' = db_events d \<and> db_telemetry_batches d' = db_telemetry_batches d"

lemma same_rows_trans: "same_rows d d' \<Longrightarrow> same_rows d' d'' \<Longrightarrow> same_rows d d''"
  by (simp add: same_rows_def)

lemma same_rows_adds: "same_rows (w_db w) (w_db w') \<Longrightarrow> adds w w'"
  by (simp add: same_rows_def adds_db)

lemma same_rows_refl [simp]: "same_rows d d"
  by (simp add: same_rows_def)

lemma same_rows_exec: "exec f w = (ok, w') \<Longrightarrow> (\<And>d d'. f d = Some d' \<Longrightarrow> same_rows d d') \<Longrightarrow> same_rows (w_db w) (w_db w')"
  by (cases ok) (auto dest!: exec_db)

lemma adds_tx: "tx_begin w = (ok, w') \<Longrightarrow> adds w w'" "tx_commit w = (ok, w') \<Longrightarrow> adds w w'"
  unfolding tx_begin_def tx_commit_def by (auto intro!: adds_same_db dest!: exec_total_db split: if_splits)

lemma same_rows_windows: "insert_windows ts as w = (ok, w') \<Longrightarrow> same_rows (w_db w) (w_db w')"
proof (induction as arbitrary: w)
  case (Cons a as)
  let ?f = "tbl_insert db_telemetry_event_windows db_telemetry_event_windows_update pk (a\<lparr>ew_updated_at := ts\<rparr>)"
  obtain ok1 w1 where e: "exec ?f w = (ok1, w1)" by force
  have "same_rows (w_db w) (w_db w1)" by (rule same_rows_exec [OF e]) (auto simp: same_rows_def dest!: tbl_insert_Some)
  with Cons e show ?case by (auto simp: pk_def [abs_def] split: if_splits intro: same_rows_trans)
qed simp

lemma rebuild_adds: "rebuild_event_windows run w = (r, w') \<Longrightarrow> adds w w'"
proof (rule same_rows_adds)
  assume r: "rebuild_event_windows run w = (r, w')"
  obtain es w1 where q: "query (run_events (trim_space run)) w = (es, w1)" by force
  obtain ok2 w2 where b: "tx_begin w1 = (ok2, w2)" by force
  obtain ok3 w3 where d: "exec_total (tbl_delete db_telemetry_event_windows_update (in_scope (trim_space run))) w2 = (ok3, w3)" by force
  obtain ts w4 where n: "now w3 = (ts, w4)" by force
  obtain ok5 w5 where i: "insert_windows ts (map snd (accumulate (the es))) w4 = (ok5, w5)" by force
  obtain ok6 w6 where c: "tx_commit w5 = (ok6, w6)" by force
  have 1: "w_db w1 = w_db w" using query_db [OF q] by simp
  have 2: "w_db w2 = w_db w1" "w_db w6 = w_db w5" using b c by (auto simp: tx_begin_def tx_commit_def dest!: exec_total_db split: if_splits)
  have 3: "same_rows (w_db w2) (w_db w3)" using exec_total_db [OF d] by (simp add: same_rows_def tbl_delete_def)
  have 4: "w_db w4 = w_db w3" using n now_db [of w3] by simp
  have 5: "same_rows (w_db w4) (w_db w5)" by (rule same_rows_windows [OF i])
  show "same_rows (w_db w) (w_db w')"
    using r q b d n i c 1 2 4 same_rows_trans [OF 3 5 [unfolded 4]]
    by (cases es) (auto simp: rebuild_event_windows_def Let_def rollback_def split: if_splits)
qed

lemma result_run_db: "result_run_id configured is w = (run, w') \<Longrightarrow> trim_space configured \<noteq> [] \<Longrightarrow> w' = w"
  by (simp add: result_run_id_def)

lemma rebuild_for_adds: "rebuild_for configured res w = (r, w') \<Longrightarrow> trim_space configured \<noteq> [] \<Longrightarrow> adds w w'"
  by (auto simp: rebuild_for_def result_run_id_def dest: rebuild_adds split: prod.splits sum.splits)

section \<open>The property\<close>

lemma progressed_blank: "progressed run format w (blank_result format path, w)"
  by (simp add: progressed_def blank_result_def)

lemma format_given: "trim_space ''auto'' \<noteq> []" "trim_space ''falco'' \<noteq> []"
  by (subst trim_space_no_space; simp add: is_space_def)+

lemma reader_verifies:
  assumes "trim_space (jo_run_id opts) \<noteq> []" "trim_space (me_sha env input) \<noteq> []"
    and "verify_telemetry_batches (me_sha env) (w_db w) run = []"
    and "ingest_jsonl_reader env opts input w = ((error, result), w')"
  shows "verify_telemetry_batches (me_sha env) (w_db w') run = [] \<and>
    (error = None \<longrightarrow> record_of (trim_space (jo_run_id opts)) result w')"
proof -
  let ?o = "normal_options opts"
  let ?run = "trim_space (jo_run_id opts)"
  have o: "jo_run_id ?o = jo_run_id opts" "trim_space (jo_format ?o) \<noteq> []"
    using format_given by (auto simp: normal_options_def)
  obtain lines complete where l: "reader_lines input = (lines, complete)" by force
  obtain res w1 where e: "each_line (reader_line env ?o) 1 lines (blank_result (jo_format ?o) (jo_path ?o), w) = (res, w1)" by force
  have "progressed ?run (jo_format ?o) w (each_line (reader_line env ?o) 1 lines (blank_result (jo_format ?o) (jo_path ?o), w))"
    by (rule each_line_progressed [OF reader_line_progressed progressed_blank]) (simp_all add: o assms(1))
  then have p: "progressed ?run (jo_format ?o) w (res, w1)" by (simp only: e)
  then have "adds w w1" by (simp add: progressed_def)
  then have v1: "verify_telemetry_batches (me_sha env) (w_db w1) run = []" using assms(3) by (rule verify_adds)
  obtain err res2 w2 where b: "persist_jsonl_batch ?o (with_hashes env input res) w1 = ((err, res2), w2)" by (metis surj_pair)
  have v2: "verify_telemetry_batches (me_sha env) (w_db w2) run = []"
    by (rule persist_leaves [OF b _ assms(1) p o(2) assms(2) _ assms(3)]) (simp_all add: o with_hashes_def)
  have r2: "err = None \<Longrightarrow> record_of ?run res2 w2" using persist_record [of ?o "with_hashes env input res" w1 res2 w2] b assms(1) o by simp
  obtain x res3 w3 where f: "rebuild_for (jo_run_id ?o) res2 w2 = ((x, res3), w3)" by (metis surj_pair)
  have r3: "err = None \<Longrightarrow> record_of ?run res3 w3"
    using record_adds [OF rebuild_for_adds [OF f]] r2 rebuild_for_result [OF f] o assms(1) by simp
  have v3: "verify_telemetry_batches (me_sha env) (w_db w3) run = []"
    using verify_adds [OF rebuild_for_adds [OF f] v2] o assms(1) by simp
  show ?thesis using assms(4) l e b f v1 v2 v3 r3
    by (auto simp: ingest_jsonl_reader_def Let_def split: if_splits option.splits)
qed

lemma falco_verifies:
  assumes "trim_space (jo_run_id opts) \<noteq> []" "\<And>bs. trim_space (me_sha env bs) \<noteq> []"
    and "verify_telemetry_batches (me_sha env) (w_db w) run = []"
    and "ingest_falco env opts input w = ((error, result), w')"
  shows "verify_telemetry_batches (me_sha env) (w_db w') run = [] \<and>
    (error = None \<longrightarrow> record_of (trim_space (jo_run_id opts)) result w')"
proof -
  let ?o = "falco_options opts"
  let ?run = "trim_space (jo_run_id opts)"
  have o: "jo_run_id ?o = jo_run_id opts" by (simp add: falco_options_def)
  obtain lines complete where l: "reader_lines input = (lines, complete)" by force
  obtain ok w0 where t: "tx_begin w = (ok, w0)" by force
  have v0: "verify_telemetry_batches (me_sha env) (w_db w0) run = []" by (rule verify_adds [OF adds_tx(1) [OF t] assms(3)])
  let ?f = "falco_line env (w_db w) ?o"
  obtain res w1 where e: "each_line ?f 1 lines (blank_result ''falco'' (jo_path ?o), w0) = (res, w1)" by force
  have "progressed ?run ''falco'' w0 (each_line ?f 1 lines (blank_result ''falco'' (jo_path ?o), w0))"
    by (rule each_line_progressed [OF falco_line_progressed progressed_blank]) (simp_all add: o assms(1))
  then have p: "progressed ?run ''falco'' w0 (res, w1)" by (simp only: e)
  let ?hashed = "concat (map (\<lambda>l. l @ [CHR 0x0A]) lines)"
  obtain err res2 w2 where b: "persist_jsonl_batch ?o (with_hashes env ?hashed res) w1 = ((err, res2), w2)" by (metis surj_pair)
  have v2: "verify_telemetry_batches (me_sha env) (w_db w2) run = []"
    by (rule persist_leaves [OF b _ assms(1) p format_given(2) assms(2) _ v0]) (simp_all add: o with_hashes_def)
  obtain fin w3 where c: "tx_commit w2 = (fin, w3)" by force
  have v3: "verify_telemetry_batches (me_sha env) (w_db w3) run = []" by (rule verify_adds [OF adds_tx(2) [OF c] v2])
  have r2: "err = None \<Longrightarrow> record_of ?run res2 w2"
    using persist_record [of ?o "with_hashes env ?hashed res" w1 res2 w2] b assms(1) o by simp
  obtain x res3 w4 where f: "rebuild_for (jo_run_id ?o) res2 w3 = ((x, res3), w4)" by (metis surj_pair)
  have r4: "err = None \<Longrightarrow> record_of ?run res3 w4"
    using record_adds [OF rebuild_for_adds [OF f]] record_adds [OF adds_tx(2) [OF c]] r2 rebuild_for_result [OF f] o assms(1) by simp
  have v4: "verify_telemetry_batches (me_sha env) (w_db w4) run = []"
    using verify_adds [OF rebuild_for_adds [OF f] v3] o assms(1) by simp
  show ?thesis using assms(3,4) l t e b c f v0 v4 r4
    by (auto simp: ingest_falco_def Let_def rollback_def split: if_splits option.splits)
qed

text \<open>C3: What the receivers leave verifies. Whatever is read, and whichever statements, identifiers or
transactions fail on the way, a database whose batch records pass \<open>graph verify\<close> for a run still passes
after either receiver has worked on a text for a named run: the new record lists events that are stored for
that run, with the right count and hash, and no row an older record lists is gone, although the streaming
receiver deletes uncorrelated rows. When no error is returned, the record is there. SHA-256 is a parameter
that does not return blanks.\<close>

theorem received_batches_verify:
  assumes "trim_space (jo_run_id opts) \<noteq> []" "\<And>bs. trim_space (me_sha env bs) \<noteq> []"
    and "verify_telemetry_batches (me_sha env) (w_db w) run = []"
    and "r \<in> {ingest_jsonl_reader env opts input w, ingest_falco env opts input w}"
  shows "case r of ((error, result), w') \<Rightarrow>
    verify_telemetry_batches (me_sha env) (w_db w') run = [] \<and>
    (error \<noteq> None \<or> record_of (trim_space (jo_run_id opts)) result w')"
proof -
  obtain error result w' where r: "r = ((error, result), w')" by (metis surj_pair)
  with assms(4) consider "ingest_jsonl_reader env opts input w = ((error, result), w')"
    | "ingest_falco env opts input w = ((error, result), w')" by auto
  then have "verify_telemetry_batches (me_sha env) (w_db w') run = [] \<and>
      (error = None \<longrightarrow> record_of (trim_space (jo_run_id opts)) result w')"
    using reader_verifies [OF assms(1,2,3)] falco_verifies [OF assms(1-3)] by cases
  then show ?thesis using r by auto
qed

definition hash_env :: mapper_env where
  "hash_env = \<lparr>me_sha = (\<lambda>b. ''00''), me_capture_body = False\<rparr>"

lemma received_batches_verify_witness:
  "case ingest_jsonl_reader hash_env plain_options (marshal (JObj forged_line)) fresh_world of ((error, result), w') \<Rightarrow>
    verify_telemetry_batches (me_sha hash_env) (w_db w') ''run-1'' = [] \<and>
    (error \<noteq> None \<or> record_of (trim_space (jo_run_id plain_options)) result w')"
proof (rule received_batches_verify [where input = "marshal (JObj forged_line)"])
  show "trim_space (jo_run_id plain_options) \<noteq> []"
    by (simp add: plain_options_def trim_space_no_space is_space_def)
  show "trim_space (me_sha hash_env bs) \<noteq> []" for bs
    by (simp add: hash_env_def trim_space_no_space is_space_def)
  show "verify_telemetry_batches (me_sha hash_env) (w_db fresh_world) ''run-1'' = []"
    by (simp add: verify_telemetry_batches_def fresh_world_def quiet_world_def empty_db_def)
qed (rule insertI1)

end
