(* ===== verification/Spool.thy ===== *)
theory Spool
  imports JsonlVerify PolicyStore GoInt
begin

text \<open>
  \<open>internal/telemetry/spool.go\<close>: the spool of telemetry files in front of ingestion, with its limits,
  its two ways of pushing back, and its worker. The files are a map from paths to contents beside the
  database. The lemmas show that an accepted file leaves the queue within its limits and that dropping
  removes the shortest prefix of the queue that makes room.
\<close>

section \<open>State\<close>

record spool_state =
  ss_files :: "string \<rightharpoonup> bytes"
  ss_world :: world

text \<open>What the environment contributes to one request: the source file, with the size \<open>Stat\<close> reports and
the bytes that are then read, and which file operations succeed.\<close>

record source_file =
  so_size :: int
  so_regular :: bool
  so_content :: bytes

record spool_io =
  io_open :: "string \<Rightarrow> source_file option"
  io_stat :: bool
  io_mkdir :: bool
  io_create :: bool
  io_copy :: bool
  io_close :: bool
  io_remove :: bool

record spool_service =
  sv_dir :: string
  sv_mapper :: mapper_env
  sv_engine :: engine
  sv_error_text :: "go_error \<Rightarrow> string"

record enqueue_request =
  er_format :: string
  er_run_id :: string
  er_source_path :: string
  er_policy_enabled :: bool
  er_max_queued :: int
  er_max_queued_bytes :: int
  er_max_batch_bytes :: int
  er_drop_policy :: string

record backpressure =
  bp_queued :: int
  bp_queued_bytes :: int
  bp_incoming_bytes :: int
  bp_max_queued :: int
  bp_max_queued_bytes :: int
  bp_max_batch_bytes :: int
  bp_reason :: string

datatype spool_error = Backpressure backpressure | Failed go_error

definition on_world :: "(world \<Rightarrow> 'a \<times> world) \<Rightarrow> spool_state \<Rightarrow> 'a \<times> spool_state" where
  "on_world f s = (case f (ss_world s) of (a, w) \<Rightarrow> (a, s\<lparr>ss_world := w\<rparr>))"

definition remove_file :: "bool \<Rightarrow> string \<Rightarrow> spool_state \<Rightarrow> spool_state" where
  "remove_file works path s = (if works then s\<lparr>ss_files := (ss_files s)(path := None)\<rparr> else s)"

section \<open>The queue\<close>

definition waiting :: "spool_batch \<Rightarrow> bool" where
  "waiting b \<longleftrightarrow> sp_status b = ''queued'' \<or> sp_status b = ''processing''"

definition queued :: "spool_batch \<Rightarrow> bool" where
  "queued b \<longleftrightarrow> sp_status b = ''queued''"

text \<open>\<open>QueueStats\<close>; SQLite's \<open>SUM\<close> fails when it overflows.\<close>

definition stats_of :: "db \<Rightarrow> (int \<times> int) option" where
  "stats_of d =
     (let bs = filter waiting (db_telemetry_spool_batches d); bytes = sum_list (map sp_size_bytes bs)
      in if min_int \<le> bytes \<and> bytes \<le> max_int then Some (int (length bs), bytes) else None)"

definition queue_stats :: "world \<Rightarrow> (go_error + int \<times> int) \<times> world" where
  "queue_stats w =
     (case query stats_of w of
        (Some (Some st), w) \<Rightarrow> (Inr st, w)
      | (_, w) \<Rightarrow> (Inl SqlError, w))"

definition count_queued :: "world \<Rightarrow> (go_error + int) \<times> world" where
  "count_queued w = (case queue_stats w of (r, w) \<Rightarrow> (map_sum id fst r, w))"

text \<open>\<open>ORDER BY priority ASC, created_at ASC\<close>; the row dropped is the first.\<close>

definition drop_queue :: "db \<Rightarrow> spool_batch list" where
  "drop_queue d = sort_key sp_priority (sort_key sp_created_at (filter queued (db_telemetry_spool_batches d)))"

definition mark_dropped :: "string \<Rightarrow> string \<Rightarrow> string \<Rightarrow> db \<Rightarrow> db" where
  "mark_dropped i reason t =
     tbl_update db_telemetry_spool_batches_update (\<lambda>b. sp_id b = i \<and> queued b)
       (\<lambda>b. b\<lparr>sp_status := ''dropped'', sp_drop_reason := reason, sp_dropped_at := t, sp_updated_at := t\<rparr>)"

definition drop_oldest_queued :: "bool \<Rightarrow> string \<Rightarrow> spool_state \<Rightarrow> (go_error + bool) \<times> spool_state" where
  "drop_oldest_queued works reason s =
     (case on_world (query drop_queue) s of
        (None, s) \<Rightarrow> (Inl SqlError, s)
      | (Some [], s) \<Rightarrow> (Inr False, s)
      | (Some (b # _), s) \<Rightarrow>
          let (t, s) = on_world now s;
              (ok, s) = on_world (exec_total (mark_dropped (sp_id b) reason t)) s
          in if \<not> ok then (Inl SqlError, s)
             else (Inr True, if sp_spool_path b \<noteq> [] then remove_file works (sp_spool_path b) s else s))"

section \<open>Backpressure\<close>

record limits =
  lm_queued :: int
  lm_queued_bytes :: int
  lm_batch_bytes :: int
  lm_incoming :: int

definition within_limits :: "limits \<Rightarrow> int \<times> int \<Rightarrow> bool" where
  "within_limits l st \<longleftrightarrow>
     (lm_queued l \<le> 0 \<or> fst st < lm_queued l) \<and>
     (lm_queued_bytes l \<le> 0 \<or> wrap (snd st + lm_incoming l) \<le> lm_queued_bytes l)"

definition backpressure_error :: "limits \<Rightarrow> int \<times> int \<Rightarrow> string \<Rightarrow> spool_error" where
  "backpressure_error l st reason =
     Backpressure \<lparr>bp_queued = fst st, bp_queued_bytes = snd st, bp_incoming_bytes = lm_incoming l,
       bp_max_queued = lm_queued l, bp_max_queued_bytes = lm_queued_bytes l,
       bp_max_batch_bytes = lm_batch_bytes l, bp_reason = reason\<rparr>"

text \<open>The loop of \<open>drop_oldest\<close>: every round that goes on has one queued batch less.\<close>

definition rows_of :: "spool_state \<Rightarrow> spool_batch list" where
  "rows_of s = db_telemetry_spool_batches (w_db (ss_world s))"

lemma on_world_db: "on_world f s = (r, s') \<Longrightarrow> (\<And>w a w'. f w = (a, w') \<Longrightarrow> w_db w' = w_db w) \<Longrightarrow>
    w_db (ss_world s') = w_db (ss_world s) \<and> ss_files s' = ss_files s"
  by (auto simp: on_world_def split: prod.splits)

lemma remove_file_world [simp]: "ss_world (remove_file works p s) = ss_world s"
  by (simp add: remove_file_def)

lemma set_drop_queue: "set (drop_queue d) = set (filter queued (db_telemetry_spool_batches d))"
  by (simp add: drop_queue_def)

lemma drop_oldest_cases:
  assumes "drop_oldest_queued works reason s = (r, s')"
  shows "case r of
      Inl e \<Rightarrow> w_db (ss_world s') = w_db (ss_world s)
    | Inr False \<Rightarrow> w_db (ss_world s') = w_db (ss_world s) \<and> drop_queue (w_db (ss_world s)) = []
    | Inr True \<Rightarrow> (\<exists>b bs t. drop_queue (w_db (ss_world s)) = b # bs \<and>
        w_db (ss_world s') = mark_dropped (sp_id b) reason t (w_db (ss_world s)))"
proof -
  obtain q s1 where q: "on_world (query drop_queue) s = (q, s1)" by force
  then have db: "w_db (ss_world s1) = w_db (ss_world s)" "\<And>x. q = Some x \<Longrightarrow> x = drop_queue (w_db (ss_world s))"
    by (auto simp: on_world_def split: prod.splits dest!: query_db)
  show ?thesis
  proof (cases q)
    case None
    with assms q db(1) show ?thesis by (auto simp: drop_oldest_queued_def)
  next
    case (Some bs)
    show ?thesis
    proof (cases bs)
      case Nil
      with assms q db Some show ?thesis by (auto simp: drop_oldest_queued_def)
    next
      case (Cons b bs')
      obtain t s2 where t: "on_world now s1 = (t, s2)" by force
      obtain ok s3 where ok: "on_world (exec_total (mark_dropped (sp_id b) reason t)) s2 = (ok, s3)" by force
      have "w_db (ss_world s2) = w_db (ss_world s)" using t db(1) by (auto simp: on_world_def now_def)
      with ok have "w_db (ss_world s3) = (if ok then mark_dropped (sp_id b) reason t (w_db (ss_world s)) else w_db (ss_world s))"
        by (auto simp: on_world_def split: prod.splits dest!: exec_total_db)
      moreover have dq: "drop_queue (w_db (ss_world s)) = b # bs'" using db(2) Some Cons by simp
      ultimately show ?thesis using assms q t ok Some Cons
        by (cases ok) (simp_all add: drop_oldest_queued_def, auto)
    qed
  qed
qed

lemma dropped_fewer:
  assumes "drop_oldest_queued works reason s = (Inr True, s')"
  shows "length (filter queued (rows_of s')) < length (filter queued (rows_of s))"
proof -
  obtain b bs t where b: "drop_queue (w_db (ss_world s)) = b # bs"
    "w_db (ss_world s') = mark_dropped (sp_id b) reason t (w_db (ss_world s))"
    using drop_oldest_cases [OF assms] by auto
  let ?f = "\<lambda>x. if sp_id x = sp_id b \<and> queued x then x\<lparr>sp_status := ''dropped'', sp_drop_reason := reason,
       sp_dropped_at := t, sp_updated_at := t\<rparr> else x"
  have rows: "rows_of s' = map ?f (rows_of s)" by (simp add: rows_of_def b(2) mark_dropped_def tbl_update_def)
  have "b \<in> set (rows_of s)" "queued b" using b(1) set_drop_queue [of "w_db (ss_world s)"] by (auto simp: rows_of_def)
  moreover have "queued (?f x) \<longleftrightarrow> queued x \<and> sp_id x \<noteq> sp_id b" for x by (auto simp: queued_def)
  then have "length (filter queued (map ?f xs)) = length (filter (\<lambda>x. queued x \<and> sp_id x \<noteq> sp_id b) xs)" for xs
    by (induction xs) simp_all
  moreover have "length (filter (\<lambda>x. queued x \<and> sp_id x \<noteq> sp_id b) (rows_of s)) < length (filter queued (rows_of s))"
    if "b \<in> set (rows_of s)" "queued b"
    using that length_filter_less [of b "filter queued (rows_of s)" "\<lambda>x. sp_id x \<noteq> sp_id b"]
    by (simp add: conj_commute)
  ultimately show ?thesis unfolding rows by presburger
qed

lemma queue_stats_db: "queue_stats w = (r, w') \<Longrightarrow>
    w_db w' = w_db w \<and> (\<forall>st. r = Inr st \<longrightarrow> stats_of (w_db w) = Some st)"
proof -
  assume r: "queue_stats w = (r, w')"
  obtain q v where q: "query stats_of w = (q, v)" by force
  from query_db [OF q] r q show ?thesis by (auto simp: queue_stats_def split: option.splits)
qed

lemma on_queue_stats: "on_world queue_stats s = (r, s') \<Longrightarrow>
    w_db (ss_world s') = w_db (ss_world s) \<and> rows_of s' = rows_of s \<and> ss_files s' = ss_files s \<and>
    (\<forall>st. r = Inr st \<longrightarrow> stats_of (w_db (ss_world s)) = Some st)"
  by (auto simp: on_world_def rows_of_def split: prod.splits dest!: queue_stats_db)

function drop_until :: "bool \<Rightarrow> limits \<Rightarrow> int \<times> int \<Rightarrow> spool_state \<Rightarrow> spool_error option \<times> spool_state" where
  "drop_until works l st s =
     (if within_limits l st then (None, s)
      else (case drop_oldest_queued works ''queue_limit'' s of
          (Inl e, s) \<Rightarrow> (Some (Failed e), s)
        | (Inr False, s) \<Rightarrow> (Some (backpressure_error l st ''telemetry_spool_capacity_unavailable''), s)
        | (Inr True, s) \<Rightarrow>
            (case on_world queue_stats s of
               (Inl e, s) \<Rightarrow> (Some (Failed e), s)
             | (Inr st, s) \<Rightarrow> drop_until works l st s)))"
  by pat_completeness auto
termination
  by (relation "measure (\<lambda>(works, l, st, s). length (filter queued (rows_of s)))")
    (auto dest!: dropped_fewer sym [of _ "drop_oldest_queued _ _ _"] sym [of _ "on_world queue_stats _"] on_queue_stats)

declare drop_until.simps [simp del]

definition apply_backpressure :: "bool \<Rightarrow> limits \<Rightarrow> string \<Rightarrow> spool_state \<Rightarrow> spool_error option \<times> spool_state" where
  "apply_backpressure works l policy s =
     (if lm_batch_bytes l > 0 \<and> lm_incoming l > lm_batch_bytes l
      then (Some (Backpressure \<lparr>bp_queued = 0, bp_queued_bytes = 0, bp_incoming_bytes = lm_incoming l,
        bp_max_queued = lm_queued l, bp_max_queued_bytes = lm_queued_bytes l,
        bp_max_batch_bytes = lm_batch_bytes l, bp_reason = ''telemetry_spool_batch_too_large''\<rparr>), s)
      else if lm_queued l \<le> 0 \<and> lm_queued_bytes l \<le> 0 then (None, s)
      else (case on_world queue_stats s of
          (Inl e, s) \<Rightarrow> (Some (Failed e), s)
        | (Inr st, s) \<Rightarrow>
            let policy = (if policy = [] then ''reject'' else policy) in
            if within_limits l st then (None, s)
            else if policy = ''reject'' then
              (Some (backpressure_error l st
                 (if lm_queued_bytes l \<le> 0 \<or> wrap (snd st + lm_incoming l) \<le> lm_queued_bytes l
                  then ''telemetry_spool_queue_full'' else ''telemetry_spool_bytes_full'')), s)
            else if policy = ''drop_oldest'' then drop_until works l st s
            else (Some (Failed (Errorf ''unsupported telemetry spool drop_policy'')), s)))"

section \<open>\<open>Enqueue\<close>\<close>

definition min_limit :: "int \<Rightarrow> int \<Rightarrow> int" where
  "min_limit value limit = (if value > 0 \<and> (limit = 0 \<or> value < limit) then value else limit)"

definition positive_byte_limit :: "int list \<Rightarrow> int" where
  "positive_byte_limit values = fold min_limit values 0"

text \<open>What \<open>io.Copy\<close> gets to see: one byte more than the limit, unless adding one overflows.\<close>

definition copied :: "enqueue_request \<Rightarrow> bytes \<Rightarrow> bytes" where
  "copied req content =
     (let n = positive_byte_limit [er_max_batch_bytes req, er_max_queued_bytes req]
      in if n > 0 then take (nat (wrap (n + 1))) content else content)"

definition request_limits :: "enqueue_request \<Rightarrow> int \<Rightarrow> limits" where
  "request_limits req incoming =
     \<lparr>lm_queued = er_max_queued req, lm_queued_bytes = er_max_queued_bytes req,
      lm_batch_bytes = er_max_batch_bytes req, lm_incoming = incoming\<rparr>"

definition queued_row :: "enqueue_request \<Rightarrow> string \<Rightarrow> string \<Rightarrow> string \<Rightarrow> int \<Rightarrow> string \<Rightarrow> spool_batch" where
  "queued_row req i path hash sz t =
     \<lparr>sp_id = i, sp_run_id = er_run_id req, sp_format = er_format req, sp_source_path = er_source_path req,
      sp_spool_path = path, sp_file_sha256 = hash, sp_size_bytes = sz, sp_status = ''queued'', sp_priority = 0,
      sp_attempts = 0, sp_policy_enabled = (if er_policy_enabled req then 1 else 0), sp_ingest_batch_id = [],
      sp_ingested_count = 0, sp_failed_count = 0, sp_error = [], sp_created_at = t, sp_updated_at = t,
      sp_processed_at = [], sp_dropped_at = [], sp_drop_reason = []\<rparr>"

definition spool_file :: "spool_service \<Rightarrow> string \<Rightarrow> string" where
  "spool_file sv i = sv_dir sv @ ''/'' @ i @ ''.jsonl''"

text \<open>The part behind the copy: the second check when the file changed its size, and the row.\<close>

definition admit ::
  "spool_service \<Rightarrow> spool_io \<Rightarrow> enqueue_request \<Rightarrow> string \<Rightarrow> int \<Rightarrow> bytes \<Rightarrow> spool_state \<Rightarrow> (spool_error + spool_batch) \<times> spool_state" where
  "admit sv io req i announced data s =
     (let path = spool_file sv i; written = int (length data);
          (err, s) = (if written \<noteq> announced
                      then apply_backpressure (io_remove io) (request_limits req written) (er_drop_policy req) s
                      else (None, s))
      in case err of
           Some e \<Rightarrow> (Inl e, remove_file (io_remove io) path s)
         | None \<Rightarrow>
             let (t, s) = on_world now s;
                 row = queued_row req i path (me_sha (sv_mapper sv) data) written t;
                 (ok, s) = on_world (exec (tbl_insert db_telemetry_spool_batches
                             db_telemetry_spool_batches_update sp_id row)) s
             in if \<not> ok then (Inl (Failed SqlError), remove_file (io_remove io) path s) else (Inr row, s))"

definition enqueue ::
  "spool_service \<Rightarrow> spool_io \<Rightarrow> enqueue_request \<Rightarrow> spool_state \<Rightarrow> (spool_error + spool_batch) \<times> spool_state" where
  "enqueue sv io req s =
     (let req = (if er_format req = [] then req\<lparr>er_format := ''falco''\<rparr> else req) in
      if er_format req \<noteq> ''falco'' then (Inl (Failed (Errorf ''unsupported spool format'')), s)
      else if er_source_path req = [] then (Inl (Failed (Errorf ''source_path is required'')), s)
      else case io_open io (er_source_path req) of
        None \<Rightarrow> (Inl (Failed (Errorf ''open'')), s)
      | Some source \<Rightarrow>
          if \<not> io_stat io then (Inl (Failed (Errorf ''stat'')), s)
          else if \<not> so_regular source then (Inl (Failed (Errorf ''source_path must be a regular file'')), s)
          else
            (case apply_backpressure (io_remove io) (request_limits req (so_size source)) (er_drop_policy req) s of
               (Some e, s) \<Rightarrow> (Inl e, s)
             | (None, s) \<Rightarrow>
                 if \<not> io_mkdir io then (Inl (Failed (Errorf ''mkdir'')), s)
                 else
                   let (i, s) = on_world (new_id ''spool'') s; path = spool_file sv i;
                       data = copied req (so_content source)
                   in if \<not> io_create io \<or> ss_files s path \<noteq> None then (Inl (Failed (Errorf ''create'')), s)
                      else
                        let s = s\<lparr>ss_files := (ss_files s)(path \<mapsto> data)\<rparr> in
                        if \<not> io_copy io \<or> \<not> io_close io
                        then (Inl (Failed (Errorf ''write'')), remove_file (io_remove io) path s)
                        else admit sv io req i (so_size source) data s))"

section \<open>\<open>Process\<close>\<close>

definition fail_spool :: "spool_service \<Rightarrow> string \<Rightarrow> go_error \<Rightarrow> world \<Rightarrow> world" where
  "fail_spool sv i cause w =
     (let (t, w) = now w in
      exec_total_ignore (tbl_update db_telemetry_spool_batches_update (\<lambda>b. sp_id b = i)
        (\<lambda>b. b\<lparr>sp_status := ''failed'', sp_failed_count := sp_failed_count b + 1,
              sp_error := sv_error_text sv cause, sp_updated_at := t\<rparr>)) w)"

text \<open>\<open>evaluateSpoolPolicy\<close>, event by event.\<close>

definition evaluate_one :: "engine \<Rightarrow> string \<Rightarrow> jsonl_result \<times> world \<Rightarrow> jsonl_result \<times> world" where
  "evaluate_one en i s =
     (let (res, w) = s in
      case evaluate_runtime_event en i w of
        (Inl e, w) \<Rightarrow> (res\<lparr>jr_errors := Suc (jr_errors res), jr_failed := Suc (jr_failed res)\<rparr>, w)
      | (Inr None, w) \<Rightarrow> (res, w)
      | (Inr (Some d), w) \<Rightarrow>
          (res\<lparr>jr_policy_decisions := Suc (jr_policy_decisions res),
              jr_policy_decision_ids := jr_policy_decision_ids res @ [pd_id d]\<rparr>, w))"

definition evaluate_spool_policy :: "engine \<Rightarrow> jsonl_result \<Rightarrow> world \<Rightarrow> jsonl_result \<times> world" where
  "evaluate_spool_policy en res w = fold (evaluate_one en) (jr_event_ids res) (res, w)"

definition spool_options :: "string \<Rightarrow> string \<Rightarrow> jsonl_options" where
  "spool_options path run =
     \<lparr>jo_format = ''falco'', jo_path = path, jo_run_id = run, jo_session_id = [], jo_attempt_id = [], jo_tool_call_id = [],
      jo_process_id = [], jo_snapshot_id = [], jo_rollout_id = [], jo_exclude_path_prefixes = [],
      jo_exclude_cgroup_ids = [], jo_drop_uncorrelated = False\<rparr>"

text \<open>One item of the list \<open>Process\<close> has read; the guard of the first update is on the row, but whether
it found one is not looked at.\<close>

definition claim_row :: "string \<Rightarrow> string \<Rightarrow> db \<Rightarrow> db" where
  "claim_row i t = tbl_update db_telemetry_spool_batches_update (\<lambda>b. sp_id b = i \<and> queued b)
     (\<lambda>b. b\<lparr>sp_status := ''processing'', sp_attempts := sp_attempts b + 1, sp_updated_at := t\<rparr>)"

definition finish_row :: "string \<Rightarrow> jsonl_result \<Rightarrow> string \<Rightarrow> db \<Rightarrow> db" where
  "finish_row i res t = tbl_update db_telemetry_spool_batches_update (\<lambda>b. sp_id b = i)
     (\<lambda>b. b\<lparr>sp_status := ''processed'', sp_ingest_batch_id := jr_batch_id res,
           sp_ingested_count := int (jr_ingested res), sp_failed_count := int (jr_failed res), sp_error := [],
           sp_updated_at := t, sp_processed_at := t\<rparr>)"

definition process_one ::
  "spool_service \<Rightarrow> (string \<rightharpoonup> bytes) \<Rightarrow> spool_batch \<Rightarrow> world \<Rightarrow> (go_error option \<times> jsonl_result) \<times> world" where
  "process_one sv files item w =
     (let (t, w) = now w; i = sp_id item; blank = blank_result [] [];
          (ok, w) = exec_total (claim_row i t) w in
      if \<not> ok then ((Some SqlError, blank), w)
      else case files (sp_spool_path item) of
        None \<Rightarrow> ((Some (Errorf ''open''), blank), fail_spool sv i (Errorf ''open'') w)
      | Some data \<Rightarrow>
          let ((err, res), w) =
            (if sp_format item = ''falco''
             then ingest_falco (sv_mapper sv) (spool_options (sp_spool_path item) (sp_run_id item)) data w
             else ((Some (Errorf ''unsupported spool format''), blank), w));
              (res, w) = (if err = None \<and> sp_policy_enabled item \<noteq> 0
                          then evaluate_spool_policy (sv_engine sv) res w else (res, w))
          in (case err of
               Some e \<Rightarrow> ((Some e, res), fail_spool sv i e w)
             | None \<Rightarrow>
                 let (t, w) = now w; (ok, w) = exec_total (finish_row i res t) w
                 in ((if ok then None else Some SqlError, res), w)))"

record spool_processed =
  pb_id :: string
  pb_ingest_batch_id :: string
  pb_ingested_count :: nat
  pb_failed_count :: nat
  pb_rows_truncated :: bool

record process_result =
  pr_processed :: nat
  pr_failed :: nat
  pr_batches :: "spool_processed list"
  pr_errors :: "(string \<times> go_error) list"

definition process_item ::
  "spool_service \<Rightarrow> (string \<rightharpoonup> bytes) \<Rightarrow> spool_batch \<Rightarrow> process_result \<times> world \<Rightarrow> process_result \<times> world" where
  "process_item sv files item s =
     (let (r, w) = s in
      case process_one sv files item w of
        ((Some e, res), w) \<Rightarrow>
          (r\<lparr>pr_failed := Suc (pr_failed r), pr_errors := pr_errors r @ [(sp_id item, e)]\<rparr>, w)
      | ((None, res), w) \<Rightarrow>
          (r\<lparr>pr_processed := Suc (pr_processed r), pr_batches := pr_batches r @
             [\<lparr>pb_id = sp_id item, pb_ingest_batch_id = jr_batch_id res, pb_ingested_count = jr_ingested res,
               pb_failed_count = jr_failed res, pb_rows_truncated = jr_rows_truncated res\<rparr>]\<rparr>, w))"

text \<open>\<open>ORDER BY priority DESC, created_at ASC LIMIT\<close>.\<close>

definition work_queue :: "int \<Rightarrow> db \<Rightarrow> spool_batch list" where
  "work_queue limit d =
     take (nat limit) (sort_key (\<lambda>b. - sp_priority b) (sort_key sp_created_at (filter queued (db_telemetry_spool_batches d))))"

definition process :: "spool_service \<Rightarrow> int \<Rightarrow> spool_state \<Rightarrow> (go_error + process_result) \<times> spool_state" where
  "process sv limit s =
     (let limit = (if limit \<le> 0 then 100 else limit) in
      case on_world (query (work_queue limit)) s of
        (None, s) \<Rightarrow> (Inl SqlError, s)
      | (Some items, s) \<Rightarrow>
          let (r, w) = fold (process_item sv (ss_files s)) items
                (\<lparr>pr_processed = 0, pr_failed = 0, pr_batches = [], pr_errors = []\<rparr>, ss_world s)
          in (Inr r, s\<lparr>ss_world := w\<rparr>))"

definition list_spool :: "string \<Rightarrow> db \<Rightarrow> spool_batch list" where
  "list_spool run d =
     sort_key sp_created_at (filter (\<lambda>b. run = [] \<or> sp_run_id b = run) (db_telemetry_spool_batches d))"

section \<open>Dropping makes room\<close>

definition waiting_of :: "spool_state \<Rightarrow> spool_batch list" where
  "waiting_of s = filter waiting (rows_of s)"

definition without :: "spool_batch list \<Rightarrow> spool_batch list \<Rightarrow> spool_batch list" where
  "without q bs = filter (\<lambda>b. sp_id b \<notin> sp_id ` set q) bs"

definition room :: "limits \<Rightarrow> spool_batch list \<Rightarrow> bool" where
  "room l bs \<longleftrightarrow> within_limits l (int (length bs), sum_list (map sp_size_bytes bs))"

definition queue_of :: "spool_state \<Rightarrow> spool_batch list" where
  "queue_of s = drop_queue (w_db (ss_world s))"

text \<open>Identifiers are a key, sizes are sizes, and \<open>SUM\<close> does not overflow.\<close>

definition sound_spool :: "spool_batch list \<Rightarrow> bool" where
  "sound_spool bs \<longleftrightarrow> distinct (map sp_id bs) \<and> list_all (\<lambda>b. 0 \<le> sp_size_bytes b) bs \<and>
     sum_list (map sp_size_bytes bs) \<le> max_int"

lemma without_simps: "without [] bs = bs" "without (q @ r) bs = without r (without q bs)"
  by (auto simp: without_def intro: filter_cong)

lemma sum_filter_le: "list_all (\<lambda>b. 0 \<le> sp_size_bytes b) bs \<Longrightarrow>
    0 \<le> sum_list (map sp_size_bytes (filter P bs)) \<and> sum_list (map sp_size_bytes (filter P bs)) \<le> sum_list (map sp_size_bytes bs)"
  by (induction bs) auto

lemma stats_sound: "sound_spool (rows_of s) \<Longrightarrow>
    stats_of (w_db (ss_world s)) = Some (int (length (waiting_of s)), sum_list (map sp_size_bytes (waiting_of s)))"
  using sum_filter_le [of "rows_of s" waiting]
  by (auto simp: stats_of_def sound_spool_def waiting_of_def rows_of_def Let_def min_int_def)

lemma queue_stats_works: "no_faults (ss_world s) \<Longrightarrow> sound_spool (rows_of s) \<Longrightarrow>
    \<exists>s'. on_world queue_stats s = (Inr (int (length (waiting_of s)), sum_list (map sp_size_bytes (waiting_of s))), s') \<and>
      no_faults (ss_world s') \<and> rows_of s' = rows_of s \<and> ss_files s' = ss_files s"
  by (simp add: on_world_def queue_stats_def query_no_faults stats_sound rows_of_def)

lemma mark_rows: "db_telemetry_spool_batches (mark_dropped i reason t d) = map (\<lambda>b. if sp_id b = i \<and> queued b
    then b\<lparr>sp_status := ''dropped'', sp_drop_reason := reason, sp_dropped_at := t, sp_updated_at := t\<rparr> else b)
    (db_telemetry_spool_batches d)"
  by (simp add: mark_dropped_def tbl_update_def)

lemma mark_sound: "sound_spool (db_telemetry_spool_batches d) \<Longrightarrow> sound_spool (db_telemetry_spool_batches (mark_dropped i reason t d))"
proof -
  let ?f = "\<lambda>b. if sp_id b = i \<and> queued b
    then b\<lparr>sp_status := ''dropped'', sp_drop_reason := reason, sp_dropped_at := t, sp_updated_at := t\<rparr> else b"
  have "map sp_id (map ?f xs) = map sp_id xs" "map sp_size_bytes (map ?f xs) = map sp_size_bytes xs"
    "list_all (\<lambda>b. 0 \<le> sp_size_bytes b) (map ?f xs) = list_all (\<lambda>b. 0 \<le> sp_size_bytes b) xs" for xs
    by (induction xs) auto
  then show "sound_spool (db_telemetry_spool_batches d) \<Longrightarrow> ?thesis"
    unfolding sound_spool_def mark_rows by (simp only:)
qed

text \<open>Dropping a queued row takes it off the queue and off what waits, and nothing else.\<close>

lemma filter_map_cond: "(\<And>x. x \<in> set xs \<Longrightarrow> P (f x) \<longleftrightarrow> Q x) \<Longrightarrow> (\<And>x. Q x \<Longrightarrow> f x = x) \<Longrightarrow>
    filter P (map f xs) = filter Q xs"
  by (induction xs) auto

lemma mark_filter:
  assumes "distinct (map sp_id bs)" "b \<in> set bs" "queued b" "\<And>x. queued x \<Longrightarrow> P x" "\<And>x. P x \<Longrightarrow> waiting x"
  shows "filter P (map (\<lambda>x. if sp_id x = sp_id b \<and> queued x
    then x\<lparr>sp_status := ''dropped'', sp_drop_reason := reason, sp_dropped_at := t, sp_updated_at := t\<rparr> else x) bs) =
    without [b] (filter P bs)"
proof -
  have same: "x = b" if "sp_id x = sp_id b" "x \<in> set bs" for x
    using that assms(1,2) by (auto simp: distinct_map inj_on_def)
  have off: "\<not> P (x\<lparr>sp_status := ''dropped'', sp_drop_reason := reason, sp_dropped_at := t, sp_updated_at := t\<rparr>)" for x
    using assms(5) [of "x\<lparr>sp_status := ''dropped'', sp_drop_reason := reason, sp_dropped_at := t, sp_updated_at := t\<rparr>"]
    by (auto simp: waiting_def)
  have "filter P (map (\<lambda>x. if sp_id x = sp_id b \<and> queued x
    then x\<lparr>sp_status := ''dropped'', sp_drop_reason := reason, sp_dropped_at := t, sp_updated_at := t\<rparr> else x) bs) =
    filter (\<lambda>x. P x \<and> sp_id x \<noteq> sp_id b) bs"
  proof (rule filter_map_cond)
    fix x assume "x \<in> set bs"
    with same [of x] assms(3) show "P (if sp_id x = sp_id b \<and> queued x
      then x\<lparr>sp_status := ''dropped'', sp_drop_reason := reason, sp_dropped_at := t, sp_updated_at := t\<rparr> else x) \<longleftrightarrow>
      P x \<and> sp_id x \<noteq> sp_id b" by (cases "sp_id x = sp_id b") (simp_all add: off)
  qed simp
  also have "\<dots> = without [b] (filter P bs)" by (simp add: without_def)
  finally show ?thesis .
qed

lemma drop_step:
  assumes "no_faults (ss_world s)" "sound_spool (rows_of s)" "queue_of s = b # bs"
  shows "\<exists>s'. drop_oldest_queued works reason s = (Inr True, s') \<and> no_faults (ss_world s') \<and> sound_spool (rows_of s') \<and>
    queue_of s' = bs \<and> waiting_of s' = without [b] (waiting_of s)"
proof -
  obtain t w where t: "now ((ss_world s)\<lparr>w_stmts := Suc (w_stmts (ss_world s))\<rparr>) = (t, w)" by force
  have w: "no_faults w" "w_db w = w_db (ss_world s)" using t assms(1) by (auto simp: now_def)
  define w' where "w' = w\<lparr>w_stmts := Suc (w_stmts w), w_db := mark_dropped (sp_id b) reason t (w_db w)\<rparr>"
  have d: "drop_oldest_queued works reason s = (Inr True,
      if sp_spool_path b \<noteq> [] then remove_file works (sp_spool_path b) (s\<lparr>ss_world := w'\<rparr>) else s\<lparr>ss_world := w'\<rparr>)"
    using assms(1,3) t w
    by (simp add: drop_oldest_queued_def on_world_def query_no_faults exec_total_no_faults queue_of_def w'_def)
  have b: "b \<in> set (rows_of s)" "queued b"
    using assms(3) set_drop_queue [of "w_db (ss_world s)"] by (auto simp: queue_of_def rows_of_def)
  have dist: "distinct (map sp_id (rows_of s))" using assms(2) by (simp add: sound_spool_def)
  have q: "filter queued (db_telemetry_spool_batches (w_db w')) = without [b] (filter queued (rows_of s))"
    unfolding w'_def by (simp add: mark_rows w(2) rows_of_def [symmetric])
      (rule mark_filter [OF dist b], simp_all add: queued_def waiting_def)
  have wt: "filter waiting (db_telemetry_spool_batches (w_db w')) = without [b] (filter waiting (rows_of s))"
    unfolding w'_def by (simp add: mark_rows w(2) rows_of_def [symmetric])
      (rule mark_filter [OF dist b], simp_all add: queued_def waiting_def)
  have "drop_queue (w_db w') = without [b] (queue_of s)"
    by (simp add: drop_queue_def q queue_of_def without_def filter_sort rows_of_def)
  moreover have "distinct (map sp_id (queue_of s))"
  proof -
    have "distinct (map sp_id (filter queued (rows_of s)))" using dist by (simp add: distinct_map_filter)
    then show ?thesis by (simp add: queue_of_def drop_queue_def rows_of_def distinct_map)
  qed
  then have "without [b] (queue_of s) = bs" unfolding assms(3) by (auto simp: without_def filter_id_conv) (metis image_eqI)
  ultimately have "drop_queue (w_db w') = bs" by simp
  moreover have "sound_spool (db_telemetry_spool_batches (w_db w'))"
    using mark_sound assms(2) by (simp add: w'_def w(2) rows_of_def)
  moreover have "no_faults w'" using w(1) by (simp add: w'_def)
  ultimately show ?thesis using d wt by (auto simp: rows_of_def queue_of_def waiting_of_def)
qed

lemma drop_none:
  assumes "no_faults (ss_world s)" "queue_of s = []"
  shows "\<exists>s'. drop_oldest_queued works reason s = (Inr False, s') \<and> rows_of s' = rows_of s"
  using assms by (simp add: drop_oldest_queued_def on_world_def query_no_faults queue_of_def rows_of_def)

text \<open>What remains, what is returned, and how many were dropped: as few as make room.\<close>

definition shortest_drop ::
  "limits \<Rightarrow> spool_batch list \<Rightarrow> spool_batch list \<Rightarrow> nat \<Rightarrow> spool_error option \<Rightarrow> spool_batch list \<Rightarrow> bool" where
  "shortest_drop l q bs n err rest \<longleftrightarrow>
     n \<le> length q \<and> rest = without (take n q) bs \<and> (\<forall>m < n. \<not> room l (without (take m q) bs)) \<and>
     (if room l rest then err = None
      else n = length q \<and> (\<exists>b. err = Some (Backpressure b) \<and> bp_reason b = ''telemetry_spool_capacity_unavailable''))"

lemma shortest_drop_Cons:
  assumes "\<not> room l bs" "shortest_drop l q (without [b] bs) n err rest"
  shows "shortest_drop l (b # q) bs (Suc n) err rest"
proof -
  have w: "without (take m q) (without [b] bs) = without (take (Suc m) (b # q)) bs" for m
    using without_simps(2) [of "[b]" "take m q" bs] by simp
  have a1: "\<not> room l (without (take m (b # q)) bs)" if "m < Suc n" for m
  proof (cases m)
    case 0
    then show ?thesis using assms(1) by (simp add: without_simps)
  next
    case (Suc k)
    then have "k < n" using that by simp
    then have "\<not> room l (without (take k q) (without [b] bs))" using assms(2) unfolding shortest_drop_def by blast
    then show ?thesis unfolding Suc w .
  qed
  have a2: "rest = without (take (Suc n) (b # q)) bs" using assms(2) unfolding shortest_drop_def w by blast
  have a3: "n \<le> length q" using assms(2) unfolding shortest_drop_def by blast
  have a4: "if room l rest then err = None
      else n = length q \<and> (\<exists>b. err = Some (Backpressure b) \<and> bp_reason b = ''telemetry_spool_capacity_unavailable'')"
    using assms(2) unfolding shortest_drop_def by blast
  show ?thesis unfolding shortest_drop_def
  proof (intro conjI)
    show "rest = without (take (Suc n) (b # q)) bs" by (rule a2)
    show "Suc n \<le> length (b # q)" using a3 by simp
    show "\<forall>m < Suc n. \<not> room l (without (take m (b # q)) bs)" using a1 by blast
    show "if room l rest then err = None
      else Suc n = length (b # q) \<and> (\<exists>b. err = Some (Backpressure b) \<and> bp_reason b = ''telemetry_spool_capacity_unavailable'')"
      using a4 by (cases "room l rest") simp_all
  qed
qed

lemma drop_until_prefix:
  assumes "no_faults (ss_world s)" "sound_spool (rows_of s)"
    and "st = (int (length (waiting_of s)), sum_list (map sp_size_bytes (waiting_of s)))"
  shows "\<exists>n err s'. drop_until works l st s = (err, s') \<and>
    shortest_drop l (queue_of s) (waiting_of s) n err (waiting_of s')"
  using assms
proof (induction "queue_of s" arbitrary: s st)
  case Nil
  obtain s' where s': "drop_oldest_queued works ''queue_limit'' s = (Inr False, s')" "rows_of s' = rows_of s"
    using drop_none [OF Nil(2) Nil(1) [symmetric]] by blast
  show ?case
    using Nil s' by (subst drop_until.simps)
      (auto simp: room_def without_simps waiting_of_def backpressure_error_def shortest_drop_def)
next
  case (Cons b bs)
  show ?case
  proof (cases "room l (waiting_of s)")
    case True
    then have "drop_until works l st s = (None, s)" using Cons.prems(3) by (subst drop_until.simps) (simp add: room_def)
    moreover have "shortest_drop l (queue_of s) (waiting_of s) 0 None (waiting_of s)"
      using True by (simp add: shortest_drop_def without_simps)
    ultimately show ?thesis by blast
  next
    case False
    obtain s1 where s1: "drop_oldest_queued works ''queue_limit'' s = (Inr True, s1)" "no_faults (ss_world s1)"
      "sound_spool (rows_of s1)" "queue_of s1 = bs" "waiting_of s1 = without [b] (waiting_of s)"
      using drop_step [OF Cons.prems(1,2) Cons.hyps(2) [symmetric], of works "''queue_limit''"] by blast
    let ?st = "(int (length (waiting_of s1)), sum_list (map sp_size_bytes (waiting_of s1)))"
    obtain s2 where s2: "on_world queue_stats s1 = (Inr ?st, s2)" "no_faults (ss_world s2)" "rows_of s2 = rows_of s1"
      using queue_stats_works [OF s1(2,3)] by blast
    have eq: "queue_of s2 = bs" "waiting_of s2 = waiting_of s1" "sound_spool (rows_of s2)"
      using s1(3,4) s2(3) by (simp_all add: queue_of_def drop_queue_def rows_of_def waiting_of_def)
    have run: "drop_until works l st s = drop_until works l ?st s2"
      using False Cons.prems(3) s1(1) s2(1) by (subst drop_until.simps) (simp add: room_def)
    have "?st = (int (length (waiting_of s2)), sum_list (map sp_size_bytes (waiting_of s2)))" by (simp only: eq)
    from Cons.hyps(1) [OF eq(1) [symmetric] s2(2) eq(3) this] obtain n err s' where
      ih: "drop_until works l ?st s2 = (err, s')" "shortest_drop l bs (waiting_of s1) n err (waiting_of s')"
      unfolding eq by blast
    from shortest_drop_Cons [OF False ih(2) [unfolded s1(5)]] show ?thesis
      unfolding run Cons.hyps(2) [symmetric] using ih(1) by blast
  qed
qed

section \<open>What backpressure leaves, on any store\<close>

text \<open>Rows keep their identifiers, sizes and paths; files of other paths are kept.\<close>

definition only_drops :: "spool_state \<Rightarrow> spool_state \<Rightarrow> bool" where
  "only_drops s s' \<longleftrightarrow> map sp_id (rows_of s') = map sp_id (rows_of s) \<and>
     map sp_size_bytes (rows_of s') = map sp_size_bytes (rows_of s) \<and>
     map sp_spool_path (rows_of s') = map sp_spool_path (rows_of s) \<and>
     (\<forall>p. p \<notin> sp_spool_path ` set (rows_of s) \<longrightarrow> ss_files s' p = ss_files s p)"

lemma only_drops_refl: "rows_of s' = rows_of s \<Longrightarrow> ss_files s' = ss_files s \<Longrightarrow> only_drops s s'"
  by (simp add: only_drops_def)

lemma only_drops_trans: "only_drops s s' \<Longrightarrow> only_drops s' s'' \<Longrightarrow> only_drops s s''"
proof -
  assume a: "only_drops s s'" "only_drops s' s''"
  then have "sp_spool_path ` set (rows_of s') = sp_spool_path ` set (rows_of s)"
    by (metis only_drops_def list.set_map)
  with a show ?thesis by (simp add: only_drops_def)
qed

lemma drop_oldest_only_drops:
  assumes "drop_oldest_queued works reason s = (r, s')"
  shows "only_drops s s'"
proof -
  obtain q s1 where q: "on_world (query drop_queue) s = (q, s1)" by force
  then have s1: "rows_of s1 = rows_of s" "ss_files s1 = ss_files s" "\<And>x. q = Some x \<Longrightarrow> x = drop_queue (w_db (ss_world s))"
    by (auto simp: on_world_def rows_of_def split: prod.splits dest!: query_db)
  show ?thesis
  proof (cases "\<exists>b bs. q = Some (b # bs)")
    case False
    then have "s' = s1" using assms q by (auto simp: drop_oldest_queued_def split: option.splits list.splits)
    then show ?thesis using s1 by (auto intro: only_drops_refl)
  next
    case True
    then obtain b bs where b: "q = Some (b # bs)" by blast
    have "b \<in> set (drop_queue (w_db (ss_world s)))" unfolding s1(3) [OF b, symmetric] by simp
    then have mem: "b \<in> set (rows_of s)" unfolding set_drop_queue by (simp add: rows_of_def)
    obtain t s2 where t: "on_world now s1 = (t, s2)" by force
    obtain ok s3 where ok: "on_world (exec_total (mark_dropped (sp_id b) reason t)) s2 = (ok, s3)" by force
    have s2: "rows_of s2 = rows_of s" "ss_files s2 = ss_files s" using t s1 by (auto simp: on_world_def now_def rows_of_def)
    have "only_drops s2 s3"
      using ok by (auto simp: on_world_def only_drops_def rows_of_def mark_rows split: prod.splits dest!: exec_total_db)
    then have d: "only_drops s s3" using only_drops_trans [OF only_drops_refl [OF s2]] by blast
    have "s' = (if ok \<and> sp_spool_path b \<noteq> [] then remove_file works (sp_spool_path b) s3 else s3)"
      using assms q b t ok by (cases ok) (auto simp: drop_oldest_queued_def split: if_splits)
    with d mem show ?thesis by (auto simp: only_drops_def remove_file_def rows_of_def)
  qed
qed

lemma drop_until_leaves: "drop_until works l st s = (err, s') \<Longrightarrow> stats_of (w_db (ss_world s)) = Some st \<Longrightarrow>
    only_drops s s' \<and> (err = None \<longrightarrow> (\<exists>st. stats_of (w_db (ss_world s')) = Some st \<and> within_limits l st))"
proof (induction works l st s rule: drop_until.induct)
  case (1 works l st s)
  show ?case
  proof (cases "within_limits l st")
    case True
    with 1(2) have "err = None" "s' = s" by (simp_all add: drop_until.simps)
    with True 1(3) show ?thesis by (auto simp: only_drops_refl)
  next
    case False
    obtain r s1 where d: "drop_oldest_queued works ''queue_limit'' s = (r, s1)" by force
    note o1 = drop_oldest_only_drops [OF d]
    obtain q s2 where q: "on_world queue_stats s1 = (q, s2)" by force
    have o2: "only_drops s s2" using only_drops_trans [OF o1 only_drops_refl] on_queue_stats [OF q] by auto
    show ?thesis
    proof (cases "\<exists>st'. r = Inr True \<and> q = Inr st'")
      case True
      then obtain st' where r: "r = Inr True" "q = Inr st'" by blast
      have run: "drop_until works l st' s2 = (err, s')"
        using 1(2) False d q r by (subst (asm) drop_until.simps) simp
      have "stats_of (w_db (ss_world s2)) = Some st'" using on_queue_stats [OF q] r by simp
      from 1(1) [OF False d [symmetric] r(1) _ q [symmetric] r(2) run this] show ?thesis
        using only_drops_trans [OF o2] by simp
    next
      case f: False
      have "err \<noteq> None \<and> (s' = s1 \<or> s' = s2)"
        using 1(2) False d q f by (subst (asm) drop_until.simps) (auto split: sum.splits bool.splits)
      with o1 o2 show ?thesis by auto
    qed
  qed
qed

lemma backpressure_leaves:
  assumes "apply_backpressure works l policy s = (err, s')"
  shows "only_drops s s' \<and> (err = None \<longrightarrow> room l (waiting_of s') \<and> (lm_batch_bytes l \<le> 0 \<or> lm_incoming l \<le> lm_batch_bytes l) \<and>
    (lm_queued_bytes l > 0 \<longrightarrow> min_int \<le> sum_list (map sp_size_bytes (waiting_of s'))))"
proof -
  have stats: "stats_of (w_db (ss_world x)) = Some st \<Longrightarrow> room l (waiting_of x) = within_limits l st \<and>
      min_int \<le> sum_list (map sp_size_bytes (waiting_of x))" for x st
    by (auto simp: stats_of_def Let_def room_def waiting_of_def rows_of_def split: if_splits)
  obtain q s1 where q: "on_world queue_stats s = (q, s1)" by force
  note s1 = on_queue_stats [OF q]
  have o1: "only_drops s s1" using s1 by (intro only_drops_refl) simp_all
  consider (big) "lm_batch_bytes l > 0" "lm_incoming l > lm_batch_bytes l"
    | (free) "\<not> (lm_batch_bytes l > 0 \<and> lm_incoming l > lm_batch_bytes l)" "lm_queued l \<le> 0" "lm_queued_bytes l \<le> 0"
    | (limited) "\<not> (lm_batch_bytes l > 0 \<and> lm_incoming l > lm_batch_bytes l)" "\<not> (lm_queued l \<le> 0 \<and> lm_queued_bytes l \<le> 0)"
    by blast
  then show ?thesis
  proof cases
    case big
    with assms show ?thesis by (auto simp: apply_backpressure_def only_drops_refl)
  next
    case free
    with assms show ?thesis by (auto simp: apply_backpressure_def only_drops_refl room_def within_limits_def)
  next
    case limited
    show ?thesis
    proof (cases q)
      case (Inl e)
      with assms q limited o1 show ?thesis by (auto simp: apply_backpressure_def)
    next
      case (Inr st)
      then have st: "stats_of (w_db (ss_world s1)) = Some st" using s1 by simp
      have "(err, s') = (None, s1) \<and> within_limits l st \<or> err \<noteq> None \<and> s' = s1 \<or> drop_until works l st s1 = (err, s')"
        using assms q limited Inr by (auto simp: apply_backpressure_def Let_def split: if_splits)
      then show ?thesis
      proof (elim disjE)
        assume "drop_until works l st s1 = (err, s')"
        from drop_until_leaves [OF this st] only_drops_trans [OF o1] limited(1) stats [of s'] show ?thesis by auto
      qed (use o1 limited(1) stats [OF st] in auto)
    qed
  qed
qed

section \<open>The properties of backpressure\<close>

lemma room_unlimited: "lm_queued l \<le> 0 \<Longrightarrow> lm_queued_bytes l \<le> 0 \<Longrightarrow> room l bs"
  by (simp add: room_def within_limits_def)

lemma shortest_drop_none: "room l bs \<Longrightarrow> shortest_drop l q bs 0 None bs"
  by (simp add: shortest_drop_def without_simps)

lemma apply_drop_oldest:
  assumes "no_faults (ss_world s)" "sound_spool (rows_of s)" "lm_batch_bytes l \<le> 0 \<or> lm_incoming l \<le> lm_batch_bytes l"
  shows "\<exists>n err s'. apply_backpressure works l ''drop_oldest'' s = (err, s') \<and>
    shortest_drop l (queue_of s) (waiting_of s) n err (waiting_of s')"
proof (cases "lm_queued l \<le> 0 \<and> lm_queued_bytes l \<le> 0")
  case True
  then have "apply_backpressure works l ''drop_oldest'' s = (None, s)" using assms(3) by (auto simp: apply_backpressure_def)
  with True shortest_drop_none [OF room_unlimited] show ?thesis by blast
next
  case False
  let ?st = "(int (length (waiting_of s)), sum_list (map sp_size_bytes (waiting_of s)))"
  obtain s1 where s1: "on_world queue_stats s = (Inr ?st, s1)" "no_faults (ss_world s1)" "rows_of s1 = rows_of s"
    using queue_stats_works [OF assms(1,2)] by blast
  have eq: "waiting_of s1 = waiting_of s" "queue_of s1 = queue_of s"
    using s1(3) by (simp_all add: waiting_of_def queue_of_def drop_queue_def rows_of_def)
  have a: "apply_backpressure works l ''drop_oldest'' s = (if room l (waiting_of s) then (None, s1) else drop_until works l ?st s1)"
    using False assms(3) s1(1) by (auto simp: apply_backpressure_def room_def)
  show ?thesis
  proof (cases "room l (waiting_of s)")
    case True
    with a eq shortest_drop_none [OF True] show ?thesis by auto
  next
    case f: False
    have "sound_spool (rows_of s1)" "?st = (int (length (waiting_of s1)), sum_list (map sp_size_bytes (waiting_of s1)))"
      using assms(2) by (simp_all only: s1(3) eq)
    from drop_until_prefix [OF s1(2) this, of works l] show ?thesis unfolding a using f by (simp only: if_False eq)
  qed
qed

text \<open>C33: Backpressure drops as little as it can. On a store that works, with the policy \<open>drop_oldest\<close>, the
loop ends; it has taken the shortest prefix of the queue, in the order of priority and age, whose removal
makes room for the incoming file, and only fails when the queue is used up without that; batches that are
being processed are never dropped.\<close>

theorem backpressure_drops_shortest_prefix:
  assumes "no_faults (ss_world s)" "sound_spool (rows_of s)" "lm_batch_bytes l \<le> 0 \<or> lm_incoming l \<le> lm_batch_bytes l"
  shows "case apply_backpressure works l ''drop_oldest'' s of (err, s') \<Rightarrow>
    (\<exists>n. shortest_drop l (queue_of s) (waiting_of s) n err (waiting_of s'))"
  using apply_drop_oldest [OF assms, of works] by auto

lemma drop_queue_waiting: "set (queue_of s) = set (filter queued (waiting_of s))"
  by (auto simp: queue_of_def set_drop_queue waiting_of_def rows_of_def queued_def waiting_def)

text \<open>A file that can never fit empties the queue. With a limit on bytes and none on a single file, a file
larger than the limit is rejected, but only after \<open>drop_oldest\<close> has dropped every queued batch for it.\<close>

theorem oversized_file_empties_queue:
  assumes "no_faults (ss_world s)" "sound_spool (rows_of s)" "lm_batch_bytes l \<le> 0"
    and "0 < lm_queued_bytes l" "lm_queued_bytes l < lm_incoming l"
    and "sum_list (map sp_size_bytes (rows_of s)) + lm_incoming l \<le> max_int"
  shows "case apply_backpressure works l ''drop_oldest'' s of (err, s') \<Rightarrow> err \<noteq> None \<and> queue_of s' = []"
proof -
  obtain n err s' where r: "apply_backpressure works l ''drop_oldest'' s = (err, s')"
    "shortest_drop l (queue_of s) (waiting_of s) n err (waiting_of s')"
    using apply_drop_oldest [OF assms(1,2), of l works] assms(3) by blast
  have rest: "waiting_of s' = without (take n (queue_of s)) (waiting_of s)" using r(2) unfolding shortest_drop_def by blast
  have nn: "list_all (\<lambda>b. 0 \<le> sp_size_bytes b) (rows_of s)" using assms(2) by (simp add: sound_spool_def)
  have "waiting_of s' = filter (\<lambda>b. waiting b \<and> sp_id b \<notin> sp_id ` set (take n (queue_of s))) (rows_of s)"
    unfolding rest without_def by (simp add: waiting_of_def conj_commute)
  then have sum: "0 \<le> sum_list (map sp_size_bytes (waiting_of s'))"
    "sum_list (map sp_size_bytes (waiting_of s')) \<le> sum_list (map sp_size_bytes (rows_of s))"
    using sum_filter_le [OF nn] by simp_all
  then have "wrap (sum_list (map sp_size_bytes (waiting_of s')) + lm_incoming l) =
      sum_list (map sp_size_bytes (waiting_of s')) + lm_incoming l"
    using assms(4-6) by (intro wrap_id) (simp_all add: max_int_def)
  then have "\<not> room l (waiting_of s')" using sum(1) assms(4,5) by (simp add: room_def within_limits_def)
  moreover have "if room l (waiting_of s') then err = None
      else n = length (queue_of s) \<and> (\<exists>b. err = Some (Backpressure b) \<and> bp_reason b = ''telemetry_spool_capacity_unavailable'')"
    using r(2) unfolding shortest_drop_def by blast
  ultimately have e: "err \<noteq> None" "n = length (queue_of s)" by auto
  have "x \<notin> set (queue_of s')" for x
    using drop_queue_waiting [of s'] drop_queue_waiting [of s] unfolding rest e(2) by (auto simp: without_def)
  then have "queue_of s' = []" by (cases "queue_of s'") auto
  with e(1) r(1) show ?thesis by simp
qed

definition toy_spool_row :: "string \<Rightarrow> int \<Rightarrow> spool_batch" where
  "toy_spool_row i sz = queued_row \<lparr>er_format = ''falco'', er_run_id = ''run-1'', er_source_path = ''in'',
     er_policy_enabled = False, er_max_queued = 0, er_max_queued_bytes = 100, er_max_batch_bytes = 0,
     er_drop_policy = ''drop_oldest''\<rparr> i (''spool/'' @ i) ''00'' sz ''t''"

definition toy_spool :: spool_state where
  "toy_spool = \<lparr>ss_files = (\<lambda>_. None),
     ss_world = quiet_world (empty_db\<lparr>db_telemetry_spool_batches := [toy_spool_row ''a'' 40, toy_spool_row ''b'' 50]\<rparr>)\<rparr>"

definition toy_limits :: "int \<Rightarrow> limits" where
  "toy_limits incoming = \<lparr>lm_queued = 0, lm_queued_bytes = 100, lm_batch_bytes = 0, lm_incoming = incoming\<rparr>"

lemma toy_spool_facts:
  "no_faults (ss_world toy_spool)" "rows_of toy_spool = [toy_spool_row ''a'' 40, toy_spool_row ''b'' 50]"
  "sound_spool [toy_spool_row ''a'' 40, toy_spool_row ''b'' 50]"
proof -
  show "no_faults (ss_world toy_spool)" "rows_of toy_spool = [toy_spool_row ''a'' 40, toy_spool_row ''b'' 50]"
    by (simp_all add: toy_spool_def no_faults_def quiet_world_def rows_of_def)
  have "sp_id (toy_spool_row i sz) = i" "sp_size_bytes (toy_spool_row i sz) = sz" for i sz
    by (simp_all add: toy_spool_row_def queued_row_def)
  then show "sound_spool [toy_spool_row ''a'' 40, toy_spool_row ''b'' 50]"
    unfolding sound_spool_def by (simp add: max_int_def)
qed

lemma backpressure_drops_shortest_prefix_witness:
  "case apply_backpressure True (toy_limits 30) ''drop_oldest'' toy_spool of (err, s') \<Rightarrow>
    (\<exists>n. shortest_drop (toy_limits 30) (queue_of toy_spool) (waiting_of toy_spool) n err (waiting_of s'))"
  by (rule backpressure_drops_shortest_prefix) (simp_all add: toy_spool_facts toy_limits_def)

lemma oversized_file_empties_queue_witness:
  "case apply_backpressure True (toy_limits 200) ''drop_oldest'' toy_spool of (err, s') \<Rightarrow> err \<noteq> None \<and> queue_of s' = []"
  by (rule oversized_file_empties_queue, simp_all only: toy_spool_facts)
    (simp_all add: toy_limits_def toy_spool_row_def queued_row_def max_int_def)

section \<open>The property of \<open>Enqueue\<close>\<close>

lemma only_drops_sizes: "only_drops s s' \<Longrightarrow> list_all (\<lambda>b. 0 \<le> sp_size_bytes b) (rows_of s) \<Longrightarrow>
    list_all (\<lambda>b. 0 \<le> sp_size_bytes b) (rows_of s')"
proof -
  assume a: "only_drops s s'" "list_all (\<lambda>b. 0 \<le> sp_size_bytes b) (rows_of s)"
  have "list_all (\<lambda>n. 0 \<le> n) (map sp_size_bytes (rows_of s))" using a(2) by (simp add: list_all_length)
  then have "list_all (\<lambda>n. 0 \<le> n) (map sp_size_bytes (rows_of s'))" using a(1) by (simp only: only_drops_def)
  then show ?thesis by (simp add: list_all_length)
qed

lemma positive_limit_cases: "positive_byte_limit [a, b] =
    (if a > 0 \<and> b > 0 then min a b else if a > 0 then a else if b > 0 then b else 0)"
  by (auto simp: positive_byte_limit_def min_limit_def)

text \<open>A file that respects the limits is copied completely.\<close>

lemma copied_all:
  assumes "er_max_batch_bytes req < max_int" "er_max_queued_bytes req < max_int"
    and "er_max_batch_bytes req \<le> 0 \<or> int (length (copied req content)) \<le> er_max_batch_bytes req"
    and "er_max_queued_bytes req \<le> 0 \<or> int (length (copied req content)) \<le> er_max_queued_bytes req"
  shows "copied req content = content"
proof -
  let ?n = "positive_byte_limit [er_max_batch_bytes req, er_max_queued_bytes req]"
  show ?thesis
  proof (cases "?n > 0")
    case True
    then have n: "?n < max_int" "int (length (copied req content)) \<le> ?n"
      using assms by (auto simp: positive_limit_cases split: if_splits)
    have "wrap (?n + 1) = ?n + 1" using True n(1) by (intro wrap_id) (simp_all add: max_int_def)
    then have c: "copied req content = take (nat (?n + 1)) content" using True by (simp add: copied_def Let_def)
    have "int (length (take (nat (?n + 1)) content)) \<le> ?n" using n(2) unfolding c .
    then have "length (take (nat (?n + 1)) content) < nat (?n + 1)" using True by linarith
    then have "length content < nat (?n + 1)" by simp
    with c show ?thesis by simp
  qed (simp add: copied_def)
qed

lemma room_bounds: "room l bs \<Longrightarrow> lm_queued l \<le> 0 \<or> int (length bs) < lm_queued l"
  "room l bs \<Longrightarrow> lm_queued_bytes l \<le> 0 \<or> wrap (sum_list (map sp_size_bytes bs) + lm_incoming l) \<le> lm_queued_bytes l"
  by (auto simp: room_def within_limits_def)

text \<open>C34: \<open>Enqueue\<close> keeps the spool within its limits. When a request succeeds, the new row is in the table, the
batches that wait for ingestion number at most \<open>MaxQueued\<close>, their sizes add up to at most
\<open>MaxQueuedBytes\<close>, the file is no larger than \<open>MaxBatchBytes\<close>, and the spool holds the whole of its content
under the path, size and hash of the row, even when the file grew or shrank after its size was looked
up. The limits are below the largest 64-bit integer.\<close>

theorem enqueue_within_limits:
  assumes "enqueue sv io req s = (Inr row, s')" "io_open io (er_source_path req) = Some src"
    and "list_all (\<lambda>b. 0 \<le> sp_size_bytes b) (rows_of s)" "sum_list (map sp_size_bytes (rows_of s')) \<le> max_int"
    and "er_max_batch_bytes req < max_int" "er_max_queued_bytes req < max_int"
    and "sp_spool_path row \<notin> sp_spool_path ` set (rows_of s)"
  shows "row \<in> set (rows_of s') \<and>
    (er_max_queued req \<le> 0 \<or> int (length (waiting_of s')) \<le> er_max_queued req) \<and>
    (er_max_queued_bytes req \<le> 0 \<or> sum_list (map sp_size_bytes (waiting_of s')) \<le> er_max_queued_bytes req) \<and>
    (er_max_batch_bytes req \<le> 0 \<or> sp_size_bytes row \<le> er_max_batch_bytes req) \<and>
    ss_files s' (sp_spool_path row) = Some (so_content src) \<and> sp_size_bytes row = int (length (so_content src)) \<and>
    sp_file_sha256 row = me_sha (sv_mapper sv) (so_content src)"
proof -
  define q where "q = (if er_format req = [] then req\<lparr>er_format := ''falco''\<rparr> else req)"
  have q: "er_source_path q = er_source_path req" "er_max_queued q = er_max_queued req"
    "er_max_queued_bytes q = er_max_queued_bytes req" "er_max_batch_bytes q = er_max_batch_bytes req"
    by (simp_all add: q_def)
  obtain e1 s1 where b1: "apply_backpressure (io_remove io) (request_limits q (so_size src)) (er_drop_policy q) s = (e1, s1)" by force
  obtain i s2 where i: "on_world (new_id ''spool'') s1 = (i, s2)" by force
  define path where "path = spool_file sv i"
  define data where "data = copied q (so_content src)"
  define s3 where "s3 = s2\<lparr>ss_files := (ss_files s2)(path \<mapsto> data)\<rparr>"
  have e1: "e1 = None" and ad: "admit sv io q i (so_size src) data s3 = (Inr row, s')"
    using assms(1,2) q(1) b1 i unfolding enqueue_def Let_def q_def [symmetric] path_def data_def s3_def
    by (auto split: if_splits option.splits)
  have l1: "only_drops s s1" "room (request_limits q (so_size src)) (waiting_of s1)"
    "er_max_batch_bytes req \<le> 0 \<or> so_size src \<le> er_max_batch_bytes req"
    "er_max_queued_bytes req > 0 \<longrightarrow> min_int \<le> sum_list (map sp_size_bytes (waiting_of s1))"
    using backpressure_leaves [OF b1] e1 by (simp_all add: request_limits_def q)
  have s3: "rows_of s3 = rows_of s1" "ss_files s3 path = Some data"
    using i new_id_db [of "''spool''" "ss_world s1"]
    by (auto simp: on_world_def s3_def rows_of_def simp del: new_id_db split: prod.splits)
  have "waiting_of s3 = waiting_of s1" by (simp add: waiting_of_def s3)
  let ?l = "request_limits q (int (length data))"
  obtain e4 s4 where b4: "(if int (length data) \<noteq> so_size src
      then apply_backpressure (io_remove io) ?l (er_drop_policy q) s3 else (None, s3)) = (e4, s4)" by force
  obtain t s5 where t: "on_world now s4 = (t, s5)" by force
  define r where "r = queued_row q i path (me_sha (sv_mapper sv) data) (int (length data)) t"
  obtain ok s6 where ok: "on_world (exec (tbl_insert db_telemetry_spool_batches db_telemetry_spool_batches_update sp_id r)) s5 = (ok, s6)" by force
  have f: "e4 = None" "ok" "row = r" "s' = s6"
    using ad b4 t ok unfolding admit_def Let_def path_def [symmetric] by (auto simp: r_def split: if_splits option.splits)
  have l4: "only_drops s3 s4" "room ?l (waiting_of s4)" "er_max_batch_bytes req \<le> 0 \<or> int (length data) \<le> er_max_batch_bytes req"
  proof -
    have "only_drops s3 s4 \<and> room ?l (waiting_of s4) \<and> (er_max_batch_bytes req \<le> 0 \<or> int (length data) \<le> er_max_batch_bytes req)"
    proof (cases "int (length data) = so_size src")
      case True
      then show ?thesis using b4 l1 \<open>waiting_of s3 = waiting_of s1\<close> by (auto simp: only_drops_refl)
    next
      case False
      then have "apply_backpressure (io_remove io) ?l (er_drop_policy q) s3 = (None, s4)" using b4 f(1) by simp
      from backpressure_leaves [OF this] show ?thesis by (simp add: request_limits_def q)
    qed
    then show "only_drops s3 s4" "room ?l (waiting_of s4)" "er_max_batch_bytes req \<le> 0 \<or> int (length data) \<le> er_max_batch_bytes req" by blast+
  qed
  have s5: "rows_of s5 = rows_of s4" "ss_files s5 = ss_files s4" using t by (auto simp: on_world_def rows_of_def now_def)
  have ex: "exec (tbl_insert db_telemetry_spool_batches db_telemetry_spool_batches_update sp_id r) (ss_world s5) = (True, ss_world s6)"
    "ss_files s6 = ss_files s5"
    using ok f(2) by (auto simp: on_world_def split: prod.splits)
  have "w_db (ss_world s6) = db_telemetry_spool_batches_update (\<lambda>rs. rs @ [r]) (w_db (ss_world s5))"
    by (rule tbl_insert_Some [OF exec_db [OF ex(1), unfolded if_True]])
  then have rows: "rows_of s' = rows_of s4 @ [r]" "ss_files s' = ss_files s4"
    using ex(2) f(4) s5 by (simp_all add: rows_of_def)
  have wr: "waiting_of s' = waiting_of s4 @ [r]" by (simp add: waiting_of_def rows waiting_def r_def queued_row_def)
  have rf: "sp_size_bytes r = int (length data)" "sp_spool_path r = path" "sp_file_sha256 r = me_sha (sv_mapper sv) data"
    by (simp_all add: r_def queued_row_def)
  have sizes: "map sp_size_bytes (rows_of s4) = map sp_size_bytes (rows_of s)"
    "map sp_spool_path (rows_of s3) = map sp_spool_path (rows_of s)"
    using l1(1) l4(1) s3(1) by (simp_all add: only_drops_def)
  have "path \<notin> set (map sp_spool_path (rows_of s3))" unfolding sizes(2) using assms(7) f(3) rf(2) by simp
  then have stored_file: "ss_files s' path = Some data" using l4(1) s3(2) rows(2) by (simp add: only_drops_def)
  have "list_all (\<lambda>n. 0 \<le> n) (map sp_size_bytes (rows_of s4))"
    unfolding sizes(1) using assms(3) by (simp add: list_all_length)
  then have nn: "list_all (\<lambda>b. 0 \<le> sp_size_bytes b) (rows_of s4)" by (simp add: list_all_length)
  let ?sum = "sum_list (map sp_size_bytes (waiting_of s4))"
  have sum: "0 \<le> ?sum" "?sum \<le> sum_list (map sp_size_bytes (rows_of s4))"
    using sum_filter_le [OF nn, of waiting] by (simp_all add: waiting_of_def)
  have "?sum + int (length data) \<le> max_int" using sum(2) assms(4) by (simp add: rows rf)
  then have w: "wrap (?sum + int (length data)) = ?sum + int (length data)"
    using sum(1) by (intro wrap_id) (simp_all add: max_int_def)
  have lim: "er_max_queued req \<le> 0 \<or> int (length (waiting_of s4)) < er_max_queued req"
    "er_max_queued_bytes req \<le> 0 \<or> ?sum + int (length data) \<le> er_max_queued_bytes req"
    using room_bounds [OF l4(2)] w by (simp_all add: request_limits_def q)
  have "copied q (so_content src) = so_content src"
    using assms(5,6) l4(3) lim(2) sum(1) by (intro copied_all) (auto simp: q data_def)
  then have data: "data = so_content src" by (simp add: data_def)
  have sz: "sp_size_bytes r = int (length (so_content src))" "sp_file_sha256 r = me_sha (sv_mapper sv) (so_content src)"
    using rf data by simp_all
  show ?thesis
    using lim l4(3) stored_file unfolding f(3) wr rf(2) rows(1) data by (auto simp: sz)
qed

definition toy_service :: spool_service where
  "toy_service = \<lparr>sv_dir = ''spool'', sv_mapper = hash_env, sv_engine = default_engine, sv_error_text = (\<lambda>_. ''failed'')\<rparr>"

definition toy_request :: enqueue_request where
  "toy_request = \<lparr>er_format = [], er_run_id = ''run-1'', er_source_path = ''in'', er_policy_enabled = False,
     er_max_queued = 2, er_max_queued_bytes = 100, er_max_batch_bytes = 50, er_drop_policy = []\<rparr>"

definition toy_io :: spool_io where
  "toy_io = \<lparr>io_open = (\<lambda>p. Some \<lparr>so_size = 2, so_regular = True, so_content = ''abc''\<rparr>), io_stat = True, io_mkdir = True,
     io_create = True, io_copy = True, io_close = True, io_remove = True\<rparr>"

definition empty_spool :: spool_state where
  "empty_spool = \<lparr>ss_files = (\<lambda>_. None), ss_world = quiet_world empty_db\<rparr>"

text \<open>On a store that works, a limit that leaves room lets a file pass.\<close>

lemma backpressure_passes:
  assumes "no_faults (ss_world s)" "sound_spool (rows_of s)" "room l (waiting_of s)"
    "lm_batch_bytes l \<le> 0 \<or> lm_incoming l \<le> lm_batch_bytes l"
  shows "\<exists>s'. apply_backpressure works l policy s = (None, s') \<and> no_faults (ss_world s') \<and> rows_of s' = rows_of s \<and>
    ss_files s' = ss_files s"
proof -
  obtain s1 where s1: "on_world queue_stats s = (Inr (int (length (waiting_of s)), sum_list (map sp_size_bytes (waiting_of s))), s1)"
    "no_faults (ss_world s1)" "rows_of s1 = rows_of s" "ss_files s1 = ss_files s"
    using queue_stats_works [OF assms(1,2)] by blast
  then show ?thesis using assms by (auto simp: apply_backpressure_def room_def)
qed

lemma toy_enqueued: "\<exists>row s'. enqueue toy_service toy_io toy_request empty_spool = (Inr row, s') \<and> rows_of s' = [row] \<and> sp_size_bytes row = 3"
proof -
  let ?q = "toy_request\<lparr>er_format := ''falco''\<rparr>"
  have w0: "no_faults (ss_world empty_spool)" "rows_of empty_spool = []" "waiting_of empty_spool = []"
    by (simp_all add: empty_spool_def quiet_world_def no_faults_def rows_of_def waiting_of_def empty_db_def)
  have ok: "sound_spool []" "n \<le> 50 \<Longrightarrow> 0 \<le> n \<Longrightarrow> room (request_limits ?q n) []" for n
    by (simp_all add: sound_spool_def max_int_def room_def within_limits_def request_limits_def toy_request_def wrap_id)
  obtain s1 where s1: "apply_backpressure True (request_limits ?q 2) [] empty_spool = (None, s1)" "no_faults (ss_world s1)"
    "rows_of s1 = []" "ss_files s1 = (\<lambda>_. None)"
    using backpressure_passes [of empty_spool "request_limits ?q 2" True "[]"] w0 ok
    by (auto simp: request_limits_def toy_request_def empty_spool_def)
  obtain i s2 where i: "on_world (new_id ''spool'') s1 = (i, s2)" by force
  have s2: "no_faults (ss_world s2)" "rows_of s2 = []" "ss_files s2 = (\<lambda>_. None)"
    using i s1 by (auto simp: on_world_def new_id_def rows_of_def no_faults_def split: option.splits)
  define s3 where "s3 = s2\<lparr>ss_files := (ss_files s2)(spool_file toy_service i \<mapsto> ''abc'')\<rparr>"
  have s3: "no_faults (ss_world s3)" "rows_of s3 = []" "waiting_of s3 = []" using s2 by (simp_all add: s3_def rows_of_def waiting_of_def)
  obtain s4 where s4: "apply_backpressure True (request_limits ?q 3) [] s3 = (None, s4)" "no_faults (ss_world s4)" "rows_of s4 = []"
    using backpressure_passes [of s3 "request_limits ?q 3" True "[]"] s3 ok by (auto simp: request_limits_def toy_request_def)
  obtain t s5 where t: "on_world now s4 = (t, s5)" by force
  have s5: "no_faults (ss_world s5)" "rows_of s5 = []"
    using t s4 by (auto simp: on_world_def now_def rows_of_def no_faults_def)
  define row where "row = queued_row ?q i (spool_file toy_service i) (me_sha (sv_mapper toy_service) ''abc'') 3 t"
  obtain s6 where s6: "on_world (exec (tbl_insert db_telemetry_spool_batches db_telemetry_spool_batches_update sp_id row)) s5 = (True, s6)"
    "rows_of s6 = [row]"
    using s5 by (auto simp: on_world_def exec_no_faults tbl_insert_def rows_of_def)
  have c: "copied ?q ''abc'' = ''abc''"
    by (rule copied_all) (simp_all add: toy_request_def max_int_def copied_def positive_limit_cases)
  have "admit toy_service toy_io ?q i 2 ''abc'' s3 = (Inr row, s6)"
    using s4(1) t s6(1) by (simp add: admit_def toy_io_def row_def) (simp add: toy_request_def)
  then have "enqueue toy_service toy_io toy_request empty_spool = (Inr row, s6)"
    using s1(1) i s2(3) c by (simp add: enqueue_def toy_io_def s3_def) (simp add: toy_request_def)
  moreover have "sp_size_bytes row = 3" by (simp add: row_def queued_row_def)
  ultimately show ?thesis using s6(2) by blast
qed

lemma enqueue_within_limits_witness:
  "case enqueue toy_service toy_io toy_request empty_spool of
     (Inl err, s') \<Rightarrow> False
   | (Inr row, s') \<Rightarrow> length (waiting_of s') \<le> 2 \<and> ss_files s' (sp_spool_path row) = Some ''abc'' \<and> sp_file_sha256 row = ''00''"
proof -
  obtain row s' where e: "enqueue toy_service toy_io toy_request empty_spool = (Inr row, s')" "rows_of s' = [row]"
    "sp_size_bytes row = 3"
    using toy_enqueued by blast
  have "rows_of empty_spool = []" by (simp add: empty_spool_def rows_of_def quiet_world_def empty_db_def)
  with enqueue_within_limits [OF e(1), of "\<lparr>so_size = 2, so_regular = True, so_content = ''abc''\<rparr>"] e(2,3)
  show ?thesis unfolding e(1)
    by (simp add: toy_io_def) (simp add: toy_request_def max_int_def toy_service_def hash_env_def)
qed

text \<open>With the largest limit, adding one overflows and nothing is copied; the empty file is accepted.\<close>

lemma largest_limit_copies_nothing:
  "er_max_batch_bytes req = max_int \<Longrightarrow> er_max_queued_bytes req \<le> 0 \<Longrightarrow> copied req content = []"
  by (simp add: copied_def positive_limit_cases max_int_def wrap_def)

section \<open>Two workers\<close>

text \<open>What an ingestion without error appends to the batch records.\<close>

definition appends_batch :: "world \<Rightarrow> string \<Rightarrow> world \<Rightarrow> bool" where
  "appends_batch w i w' \<longleftrightarrow> (\<exists>b. db_telemetry_batches (w_db w') = db_telemetry_batches (w_db w) @ [b] \<and> tb_id b = i \<and>
     i \<notin> tb_id ` set (db_telemetry_batches (w_db w)))"

lemma persist_appends:
  assumes "persist_jsonl_batch opts res w = ((None, res'), w')" "trim_space (jo_run_id opts) \<noteq> []"
  shows "appends_batch w (jr_batch_id res') w'"
proof -
  obtain i w1 where i: "new_id ''telbatch'' w = (i, w1)" by force
  obtain ts w2 where ts: "now w1 = (ts, w2)" by force
  have db2: "w_db w2 = w_db w" using new_id_db [of "''telbatch''" w] now_db [of w1] i ts by simp
  obtain b where b: "exec (tbl_insert db_telemetry_batches db_telemetry_batches_update tb_id b) w2 = (True, w')" "tb_id b = i"
    "jr_batch_id res' = i"
    using assms i ts by (auto simp: persist_jsonl_batch_def Let_def split: if_splits prod.splits)
  from exec_db [OF b(1)] have ins: "tbl_insert db_telemetry_batches db_telemetry_batches_update tb_id b (w_db w) = Some (w_db w')"
    using db2 by simp
  have "w_db w' = db_telemetry_batches_update (\<lambda>rs. rs @ [b]) (w_db w)" by (rule tbl_insert_Some [OF ins])
  moreover have "tb_id b \<notin> tb_id ` set (db_telemetry_batches (w_db w))"
    using ins by (simp add: tbl_insert_def split: if_splits)
  ultimately show ?thesis using b(2,3) by (simp add: appends_batch_def)
qed

lemma falco_appends:
  assumes "ingest_falco env opts input w = ((None, res), w')" "trim_space (jo_run_id opts) \<noteq> []"
  shows "appends_batch w (jr_batch_id res) w'"
proof -
  let ?o = "falco_options opts"
  have o: "jo_run_id ?o = jo_run_id opts" by (simp add: falco_options_def)
  obtain lines complete where l: "reader_lines input = (lines, complete)" by force
  obtain ok w0 where t: "tx_begin w = (ok, w0)" by force
  let ?f = "falco_line env (w_db w) ?o"
  obtain r w1 where e: "each_line ?f 1 lines (blank_result ''falco'' (jo_path ?o), w0) = (r, w1)" by force
  have "progressed (trim_space (jo_run_id opts)) ''falco'' w0 (each_line ?f 1 lines (blank_result ''falco'' (jo_path ?o), w0))"
    by (rule each_line_progressed [OF falco_line_progressed progressed_blank]) (simp_all add: o assms(2))
  then have b1: "db_telemetry_batches (w_db w1) = db_telemetry_batches (w_db w)"
    using adds_tx(1) [OF t] unfolding e by (simp add: progressed_def adds_def)
  let ?hashed = "concat (map (\<lambda>l. l @ [CHR 0x0A]) lines)"
  obtain err res2 w2 where b: "persist_jsonl_batch ?o (with_hashes env ?hashed r) w1 = ((err, res2), w2)" by (metis surj_pair)
  obtain fin w3 where c: "tx_commit w2 = (fin, w3)" by force
  obtain x res3 w4 where f: "rebuild_for (jo_run_id ?o) res2 w3 = ((x, res3), w4)" by (metis surj_pair)
  have s: "err = None" "w' = w4" "res = res3"
    using assms(1) l t e b c f by (auto simp: ingest_falco_def Let_def split: if_splits option.splits)
  have "appends_batch w1 (jr_batch_id res2) w2" using persist_appends [of ?o] b s(1) o assms(2) by simp
  moreover have "db_telemetry_batches (w_db w4) = db_telemetry_batches (w_db w2)"
    using adds_tx(2) [OF c] rebuild_for_adds [OF f] o assms(2) by (simp add: adds_def)
  ultimately show ?thesis using b1 s rebuild_for_result [OF f] by (simp add: appends_batch_def)
qed

lemma process_one_appends:
  assumes "process_one sv files item w = ((None, res), w')" "sp_format item = ''falco''" "sp_policy_enabled item = 0"
    and "trim_space (sp_run_id item) \<noteq> []"
  shows "appends_batch w (jr_batch_id res) w' \<and>
    list_all (\<lambda>b. sp_id b = sp_id item \<longrightarrow> sp_status b = ''processed'') (db_telemetry_spool_batches (w_db w'))"
proof -
  let ?i = "sp_id item"
  obtain t w1 where t: "now w = (t, w1)" by force
  obtain ok w2 where c: "exec_total (claim_row ?i t) w1 = (ok, w2)" by force
  have ok: "ok" using assms(1) t c by (cases ok) (simp_all add: process_one_def Let_def)
  obtain data where d: "files (sp_spool_path item) = Some data"
    using assms(1) t c ok by (cases "files (sp_spool_path item)") (simp_all add: process_one_def Let_def)
  obtain err r w3 where f: "ingest_falco (sv_mapper sv) (spool_options (sp_spool_path item) (sp_run_id item)) data w2 = ((err, r), w3)"
    by (metis surj_pair)
  obtain t2 w4 where t2: "now w3 = (t2, w4)" by force
  obtain ok2 w5 where fin: "exec_total (finish_row ?i r t2) w4 = (ok2, w5)" by force
  have s: "err = None" "ok2" "w' = w5" "res = r"
    using assms(1-3) t c ok d f t2 fin by (auto simp: process_one_def Let_def split: if_splits option.splits)
  have "db_telemetry_batches (w_db w2) = db_telemetry_batches (w_db w)"
    using exec_total_db [OF c] t by (auto simp: now_def claim_row_def tbl_update_def)
  moreover have "appends_batch w2 (jr_batch_id r) w3"
    using falco_appends [of "sv_mapper sv"] f s(1) assms(4) by (simp add: spool_options_def)
  moreover have db5: "w_db w5 = finish_row ?i r t2 (w_db w3)" using exec_total_db [OF fin] s(2) t2 by (auto simp: now_def)
  then have "db_telemetry_batches (w_db w5) = db_telemetry_batches (w_db w3)" by (simp add: finish_row_def tbl_update_def)
  ultimately have "appends_batch w (jr_batch_id r) w5" by (simp add: appends_batch_def)
  moreover have "list_all (\<lambda>b. sp_id b = ?i \<longrightarrow> sp_status b = ''processed'') (db_telemetry_spool_batches (w_db w5))"
    by (auto simp: db5 finish_row_def tbl_update_def list_all_iff)
  ultimately show ?thesis using s by simp
qed

text \<open>C35: Nothing stops two workers from ingesting the same batch. When both have read the queue before either
starts, the second one goes through although no row of the batch is queued any more: the guard of its first
update finds no row, which is not looked at, and the file is ingested again under a second batch record.\<close>

theorem claimed_batch_ingested_twice:
  assumes "process_one sv files item w = ((None, first), w1)" "process_one sv files item w1 = ((None, second), w2)"
    and "sp_format item = ''falco''" "sp_policy_enabled item = 0" "trim_space (sp_run_id item) \<noteq> []"
  shows "list_all (\<lambda>b. sp_id b = sp_id item \<longrightarrow> \<not> queued b) (db_telemetry_spool_batches (w_db w1)) \<and>
    (\<exists>a b. db_telemetry_batches (w_db w2) = db_telemetry_batches (w_db w) @ [a, b] \<and> tb_id a \<noteq> tb_id b)"
proof -
  note p = process_one_appends [OF assms(1,3-5)] process_one_appends [OF assms(2,3-5)]
  have "list_all (\<lambda>b. sp_id b = sp_id item \<longrightarrow> \<not> queued b) (db_telemetry_spool_batches (w_db w1))"
    using p(1) by (auto simp: list_all_iff queued_def)
  moreover obtain a b where "db_telemetry_batches (w_db w1) = db_telemetry_batches (w_db w) @ [a]"
    "db_telemetry_batches (w_db w2) = db_telemetry_batches (w_db w1) @ [b]" "tb_id b \<notin> tb_id ` set (db_telemetry_batches (w_db w1))"
    using p unfolding appends_batch_def by (metis (no_types))
  ultimately show ?thesis by auto
qed

text \<open>A world in which an empty file is ingested without error, again and again.\<close>

definition idle :: "world \<Rightarrow> bool" where
  "idle w \<longleftrightarrow> no_faults w \<and> good_entropy w \<and> db_events (w_db w) = [] \<and>
     (\<forall>i \<ge> w_ids w. \<forall>p. drawn p w i \<notin> tb_id ` set (db_telemetry_batches (w_db w)))"

lemma idle_step:
  assumes "idle w" "no_faults w'" "w_entropy w' = w_entropy w" "w_ids w' = w_ids w" "db_events (w_db w') = []"
    "db_telemetry_batches (w_db w') = db_telemetry_batches (w_db w)"
  shows "idle w'"
  using assms by (simp add: idle_def good_entropy_def drawn_def)

lemma idle_exec:
  assumes "idle w" "db_events (f (w_db w)) = []" "db_telemetry_batches (f (w_db w)) = db_telemetry_batches (w_db w)"
  shows "\<exists>w'. exec_total f w = (True, w') \<and> idle w'"
proof -
  have n: "no_faults w" using assms(1) by (simp add: idle_def)
  have "idle (w\<lparr>w_stmts := Suc (w_stmts w), w_db := f (w_db w)\<rparr>)"
    by (rule idle_step [OF assms(1)]) (simp_all add: n assms(2,3))
  then show ?thesis by (simp add: exec_total_no_faults n)
qed

lemma idle_now: "idle w \<Longrightarrow> \<exists>t w'. now w = (t, w') \<and> idle w'"
  by (simp add: now_def) (rule idle_step, simp_all add: idle_def)

lemma idle_rebuild:
  assumes "idle w"
  shows "\<exists>n w'. rebuild_event_windows run w = (Inr n, w') \<and> idle w'"
proof -
  have n: "no_faults w" "db_events (w_db w) = []" using assms by (simp_all add: idle_def)
  define w1 where "w1 = w\<lparr>w_stmts := Suc (w_stmts w)\<rparr>"
  have q: "query (run_events (trim_space run)) w = (Some [], w1)" using n by (simp add: query_no_faults run_events_def w1_def)
  have i1: "idle w1" by (rule idle_step [OF assms]) (simp_all add: w1_def n)
  obtain w2 where w2: "tx_begin w1 = (True, w2)" "idle w2"
    using idle_exec [OF i1, of "\<lambda>d. d"] i1 by (auto simp: tx_begin_def idle_def)
  obtain w3 where w3: "exec_total (tbl_delete db_telemetry_event_windows_update (in_scope (trim_space run))) w2 = (True, w3)" "idle w3"
    using idle_exec [OF w2(2), of "tbl_delete db_telemetry_event_windows_update (in_scope (trim_space run))"] w2(2)
    by (auto simp: tbl_delete_def idle_def)
  obtain t w4 where w4: "now w3 = (t, w4)" "idle w4" using idle_now [OF w3(2)] by blast
  obtain w5 where w5: "tx_commit w4 = (True, w5)" "idle w5"
    using idle_exec [OF w4(2), of "\<lambda>d. d"] w4(2) by (auto simp: tx_commit_def idle_def)
  have "accumulate [] = []" by (simp add: accumulate_def)
  then show ?thesis using q w2 w3 w4 w5 by (simp add: rebuild_event_windows_def Let_def)
qed

lemma idle_falco:
  assumes "idle w" "trim_space (jo_run_id opts) \<noteq> []"
  shows "\<exists>res w'. ingest_falco env opts [] w = ((None, res), w') \<and> idle w'"
proof -
  let ?o = "falco_options opts"
  have o: "jo_run_id ?o = jo_run_id opts" by (simp add: falco_options_def)
  have l: "reader_lines [] = ([], True)" by (simp add: reader_lines_def raw_lines_def Let_def)
  obtain w1 where w1: "tx_begin w = (True, w1)" "idle w1"
    using idle_exec [OF assms(1), of "\<lambda>d. d"] assms(1) by (auto simp: tx_begin_def idle_def)
  let ?res = "with_hashes env [] (blank_result ''falco'' (jo_path ?o))"
  have g: "good_entropy w1" "no_faults w1" using w1(2) by (simp_all add: idle_def)
  define i where "i = drawn ''telbatch'' w1 (w_ids w1)"
  define w2 where "w2 = w1\<lparr>w_ids := Suc (w_ids w1)\<rparr>"
  have i: "new_id ''telbatch'' w1 = (i, w2)" using new_id_good [OF g(1)] by (simp add: i_def w2_def)
  obtain t w3 where t: "now w2 = (t, w3)" by force
  have w3: "no_faults w3" "w_db w3 = w_db w1" "w_ids w3 = Suc (w_ids w1)" "w_entropy w3 = w_entropy w1"
    using t g by (auto simp: now_def w2_def no_faults_def)
  have fresh: "i \<notin> tb_id ` set (db_telemetry_batches (w_db w3))" using w1(2) w3(2) by (simp add: idle_def i_def)
  have "\<exists>b w4. persist_jsonl_batch ?o ?res w1 = ((None, ?res\<lparr>jr_batch_id := i\<rparr>), w4) \<and> tb_id b = i \<and>
      w4 = w3\<lparr>w_stmts := Suc (w_stmts w3), w_db := db_telemetry_batches_update (\<lambda>rs. rs @ [b]) (w_db w3)\<rparr>"
    using i t w3(1) fresh assms(2)
    by (simp add: persist_jsonl_batch_def Let_def o exec_no_faults tbl_insert_def) (metis telemetry_batch.select_convs(1))
  then obtain b w4 where p: "persist_jsonl_batch ?o ?res w1 = ((None, ?res\<lparr>jr_batch_id := i\<rparr>), w4)" "tb_id b = i"
    and w4: "w4 = w3\<lparr>w_stmts := Suc (w_stmts w3), w_db := db_telemetry_batches_update (\<lambda>rs. rs @ [b]) (w_db w3)\<rparr>" by blast
  have dr: "drawn q w4 j = drawn q w1 j" for q j by (simp add: w4 drawn_def w3)
  have "drawn q w4 j \<notin> tb_id ` set (db_telemetry_batches (w_db w4))" if "w_ids w4 \<le> j" for q j
  proof -
    have "w_ids w1 \<le> j" "j \<noteq> w_ids w1" using that by (simp_all add: w4 w3)
    moreover have "drawn q w1 j \<noteq> i" using drawn_inj [OF g(1), of j "w_ids w1" q "''telbatch''"] calculation by (auto simp: i_def)
    moreover have "tb_id ` set (db_telemetry_batches (w_db w4)) = insert i (tb_id ` set (db_telemetry_batches (w_db w1)))"
      by (simp add: w4 w3 p(2))
    moreover have "drawn q w1 j \<notin> tb_id ` set (db_telemetry_batches (w_db w1))" using w1(2) calculation(1) by (simp add: idle_def)
    ultimately show ?thesis unfolding dr by blast
  qed
  moreover have "good_entropy w4"
    using good_entropy_later [OF g(1), of "Suc (w_ids w1)"] by (simp add: good_entropy_def w4 w3)
  ultimately have i4: "idle w4" using w1(2) w3 by (simp add: idle_def w4)
  obtain w5 where w5: "tx_commit w4 = (True, w5)" "idle w5"
    using idle_exec [OF i4, of "\<lambda>d. d"] i4 by (auto simp: tx_commit_def idle_def)
  obtain n w6 where w6: "rebuild_event_windows (trim_space (jo_run_id opts)) w5 = (Inr n, w6)" "idle w6"
    using idle_rebuild [OF w5(2)] by blast
  have "rebuild_for (jo_run_id opts) r w5 = ((None, r), w6)" for r
    using w6(1) assms(2) by (simp add: rebuild_for_def result_run_id_def)
  then show ?thesis using l w1(1) p(1) w5(1) w6(2) by (simp add: ingest_falco_def Let_def o)
qed

lemma idle_process:
  assumes "idle w" "files (sp_spool_path item) = Some []" "sp_format item = ''falco''" "sp_policy_enabled item = 0"
    "trim_space (sp_run_id item) \<noteq> []"
  shows "\<exists>res w'. process_one sv files item w = ((None, res), w') \<and> idle w'"
proof -
  obtain t w1 where t: "now w = (t, w1)" "idle w1" using idle_now [OF assms(1)] by blast
  obtain w2 where c: "exec_total (claim_row (sp_id item) t) w1 = (True, w2)" "idle w2"
    using idle_exec [OF t(2), of "claim_row (sp_id item) t"] t(2) by (auto simp: claim_row_def tbl_update_def idle_def)
  have run: "trim_space (jo_run_id (spool_options (sp_spool_path item) (sp_run_id item))) \<noteq> []"
    using assms(5) by (simp add: spool_options_def)
  obtain res w3 where f: "ingest_falco (sv_mapper sv) (spool_options (sp_spool_path item) (sp_run_id item)) [] w2 = ((None, res), w3)" "idle w3"
    using idle_falco [OF c(2) run, of "sv_mapper sv"] by blast
  obtain t2 w4 where t2: "now w3 = (t2, w4)" "idle w4" using idle_now [OF f(2)] by blast
  obtain w5 where d: "exec_total (finish_row (sp_id item) res t2) w4 = (True, w5)" "idle w5"
    using idle_exec [OF t2(2), of "finish_row (sp_id item) res t2"] t2(2) by (auto simp: finish_row_def tbl_update_def idle_def)
  show ?thesis using t(1) c(1) f(1) t2(1) d assms(2-4) by (simp add: process_one_def Let_def)
qed

definition spooled_world :: world where
  "spooled_world = fresh_world\<lparr>w_db := empty_db\<lparr>db_telemetry_spool_batches := [toy_spool_row ''a'' 0]\<rparr>\<rparr>"

lemma claimed_batch_ingested_twice_witness:
  "case process_one toy_service (\<lambda>_. Some []) (toy_spool_row ''a'' 0) spooled_world of ((e1, _), w1) \<Rightarrow>
    case process_one toy_service (\<lambda>_. Some []) (toy_spool_row ''a'' 0) w1 of ((e2, _), w2) \<Rightarrow>
      e1 = None \<and> e2 = None \<and> list_all (\<lambda>b. sp_id b \<noteq> ''a'' \<or> \<not> queued b) (db_telemetry_spool_batches (w_db w1)) \<and>
      length (db_telemetry_batches (w_db w2)) = 2"
proof -
  let ?f = "\<lambda>_ :: string. Some []" and ?b = "toy_spool_row ''a'' 0"
  have b: "sp_format ?b = ''falco''" "sp_policy_enabled ?b = 0" "trim_space (sp_run_id ?b) \<noteq> []" "sp_id ?b = ''a''"
    by (simp_all add: toy_spool_row_def queued_row_def trim_space_no_space is_space_def)
  have "idle spooled_world"
    using fresh_world_ready by (simp add: idle_def spooled_world_def ready_def empty_db_def)
  then obtain r1 w1 where p1: "process_one toy_service ?f ?b spooled_world = ((None, r1), w1)" "idle w1"
    using idle_process [of spooled_world ?f ?b toy_service] b by auto
  then obtain r2 w2 where p2: "process_one toy_service ?f ?b w1 = ((None, r2), w2)"
    using idle_process [of w1 ?f ?b toy_service] b by auto
  have "db_telemetry_batches (w_db spooled_world) = []" by (simp add: spooled_world_def empty_db_def)
  with claimed_batch_ingested_twice [OF p1(1) p2 b(1-3)] p1 p2 b(4) show ?thesis by (auto simp: list_all_iff)
qed

end
