(* ===== verification/Retention.thy ===== *)
theory Retention
  imports JsonlVerify
begin

text \<open>
  \<open>internal/telemetry/retention.go\<close>: pruning of raw events. What other tables refer to is protected; the
  lemmas show that pruning adds nothing to what \<open>graph verify\<close> reports.
\<close>

section \<open>Pruning\<close>

record retention_options =
  rt_run_id :: string
  rt_older_than :: int
  rt_cutoff :: string
  rt_max_delete :: int

record retention_result =
  rs_cutoff :: string
  rs_max_delete :: int
  rs_scanned :: nat
  rs_deleted :: nat
  rs_protected :: nat
  rs_deleted_ids :: "string list"

text \<open>A negative \<open>LIMIT\<close>, from a product that overflows, is none.\<close>

definition limit_rows :: "int \<Rightarrow> 'a list \<Rightarrow> 'a list" where
  "limit_rows n rows = (if n < 0 then rows else take (nat n) rows)"

definition retention_candidates :: "string \<Rightarrow> string \<Rightarrow> int \<Rightarrow> db \<Rightarrow> string list" where
  "retention_candidates cutoff run max_delete d =
     map ev_id (limit_rows (wrap (max_delete * 10)) (sort_key event_key
       (filter (\<lambda>e. ev_created_at e < cutoff \<and> (trim_space run = [] \<or> ev_run_id e = Some run)) (db_events d))))"

text \<open>The four checks of \<open>eventProtected\<close>, in order.\<close>

definition protection_checks :: "string \<Rightarrow> (db \<Rightarrow> bool) list" where
  "protection_checks i =
     [\<lambda>d. list_ex (\<lambda>p. pd_event_id p = Some i) (db_policy_decisions d),
      \<lambda>d. list_ex (\<lambda>r. rk_event_id r = i) (db_risk_signals d),
      \<lambda>d. list_ex (\<lambda>g. ge_source_event_id g = i \<or> ge_from_id g = ''runtime_event/'' @ i \<or> ge_to_id g = ''runtime_event/'' @ i)
        (db_graph_edges d),
      \<lambda>d. list_ex (\<lambda>b. like (''%'' @ i @ ''%'') (tb_event_ids_json b)) (db_telemetry_batches d)]"

fun run_checks :: "(db \<Rightarrow> bool) list \<Rightarrow> world \<Rightarrow> (go_error + bool) \<times> world" where
  "run_checks [] w = (Inr False, w)"
| "run_checks (c # cs) w =
     (case query c w of
        (None, w) \<Rightarrow> (Inl SqlError, w)
      | (Some found, w) \<Rightarrow> if found then (Inr True, w) else run_checks cs w)"

definition event_protected :: "string \<Rightarrow> world \<Rightarrow> (go_error + bool) \<times> world" where
  "event_protected i w = run_checks (protection_checks i) w"

definition delete_event :: "string \<Rightarrow> db \<Rightarrow> (db \<times> nat) option" where
  "delete_event i d = Some (tbl_delete db_events_update (\<lambda>e. ev_id e = i) d, length (filter (\<lambda>e. ev_id e = i) (db_events d)))"

fun prune_candidates :: "string list \<Rightarrow> retention_result \<Rightarrow> world \<Rightarrow> (go_error + retention_result) \<times> world" where
  "prune_candidates [] r w = (Inr r, w)"
| "prune_candidates (i # is) r w =
     (if int (rs_deleted r) \<ge> rs_max_delete r then (Inr r, w)
      else
        let r = r\<lparr>rs_scanned := Suc (rs_scanned r)\<rparr> in
        (case event_protected i w of
           (Inl e, w) \<Rightarrow> (Inl e, w)
         | (Inr True, w) \<Rightarrow> prune_candidates is (r\<lparr>rs_protected := Suc (rs_protected r)\<rparr>) w
         | (Inr False, w) \<Rightarrow>
             (case exec_with (delete_event i) w of
                (None, w) \<Rightarrow> (Inl SqlError, w)
              | (Some affected, w) \<Rightarrow>
                  prune_candidates is (if affected > 0 then
                    r\<lparr>rs_deleted := Suc (rs_deleted r), rs_deleted_ids := rs_deleted_ids r @ [i]\<rparr> else r) w)))"

definition cutoff_before :: "int \<Rightarrow> world \<Rightarrow> string \<times> world" where
  "cutoff_before older w = (format_time (int (w_clock w (w_ticks w)) - older), w\<lparr>w_ticks := Suc (w_ticks w)\<rparr>)"

definition prune_raw_events :: "retention_options \<Rightarrow> world \<Rightarrow> (go_error + retention_result) \<times> world" where
  "prune_raw_events opts w =
     (let limit = (if rt_max_delete opts \<le> 0 then 1000 else rt_max_delete opts) in
      if rt_cutoff opts = [] \<and> rt_older_than opts \<le> 0 then (Inl (Errorf ''older_than or cutoff is required''), w)
      else
        let (cutoff, w) = (if rt_cutoff opts = [] then cutoff_before (rt_older_than opts) w else (rt_cutoff opts, w)) in
        (case query (retention_candidates cutoff (rt_run_id opts) limit) w of
           (None, w) \<Rightarrow> (Inl SqlError, w)
         | (Some is, w) \<Rightarrow>
             prune_candidates is \<lparr>rs_cutoff = cutoff, rs_max_delete = limit, rs_scanned = 0, rs_deleted = 0,
               rs_protected = 0, rs_deleted_ids = []\<rparr> w))"

section \<open>What pruning keeps\<close>

text \<open>Only events go, and only those nothing refers to.\<close>

definition protected_in :: "db \<Rightarrow> string \<Rightarrow> bool" where
  "protected_in d i \<longleftrightarrow> list_ex (\<lambda>c. c d) (protection_checks i)"

definition pruned :: "db \<Rightarrow> db \<Rightarrow> bool" where
  "pruned d d' \<longleftrightarrow> (\<exists>P. d' = tbl_delete db_events_update P d \<and> (\<forall>e \<in> set (db_events d). P e \<longrightarrow> \<not> protected_in d (ev_id e)))"

lemma run_checks_db: "run_checks cs w = (r, w') \<Longrightarrow> w_db w' = w_db w \<and> (r = Inr False \<longrightarrow> \<not> list_ex (\<lambda>c. c (w_db w)) cs)"
proof (induction cs arbitrary: w)
  case (Cons c cs)
  obtain q v where q: "query c w = (q, v)" by force
  with query_db [OF q] Cons.prems Cons.IH [of v] show ?case by (cases q) (auto split: if_splits)
qed simp

lemma pruned_refl: "pruned d d"
  unfolding pruned_def by (rule exI [of _ "\<lambda>e. False"]) (simp add: tbl_delete_def)

lemma protected_delete [simp]: "protected_in (tbl_delete db_events_update P d) i = protected_in d i"
  by (simp add: protected_in_def protection_checks_def tbl_delete_def)

lemma pruned_trans: "pruned d d' \<Longrightarrow> pruned d' d'' \<Longrightarrow> pruned d d''"
proof -
  assume "pruned d d'" "pruned d' d''"
  then obtain P Q where P: "d' = tbl_delete db_events_update P d" "\<forall>e \<in> set (db_events d). P e \<longrightarrow> \<not> protected_in d (ev_id e)"
    and Q: "d'' = tbl_delete db_events_update Q d'" "\<forall>e \<in> set (db_events d'). Q e \<longrightarrow> \<not> protected_in d' (ev_id e)"
    unfolding pruned_def by blast
  have "d'' = tbl_delete db_events_update (\<lambda>e. P e \<or> Q e) d"
    unfolding P(1) Q(1) by (simp add: tbl_delete_def comp_def conj_commute)
  moreover have "P e \<or> Q e \<Longrightarrow> e \<in> set (db_events d) \<Longrightarrow> \<not> protected_in d (ev_id e)" for e
    using P(2) Q(2) unfolding P(1) protected_delete by (cases "P e") (auto simp: tbl_delete_def)
  ultimately show ?thesis unfolding pruned_def by blast
qed

lemma delete_unprotected: "\<not> protected_in d i \<Longrightarrow> pruned d (tbl_delete db_events_update (\<lambda>e. ev_id e = i) d)"
  unfolding pruned_def by (rule exI [of _ "\<lambda>e. ev_id e = i"]) simp

lemma prune_candidates_pruned: "prune_candidates is r w = (x, w') \<Longrightarrow> pruned (w_db w) (w_db w')"
proof (induction "is" arbitrary: r w)
  case Nil
  then show ?case by (simp add: pruned_refl)
next
  case (Cons i "is")
  obtain q w1 where q: "event_protected i w = (q, w1)" by force
  from run_checks_db [OF q [unfolded event_protected_def]]
  have db1: "w_db w1 = w_db w" "q = Inr False \<longrightarrow> \<not> protected_in (w_db w) i" by (simp_all add: protected_in_def)
  show ?case
  proof (cases "rs_max_delete r \<le> int (rs_deleted r)")
    case True
    with Cons.prems show ?thesis by (simp add: pruned_refl)
  next
    case small: False
    show ?thesis
    proof (cases "q = Inr False")
      case True
      obtain n w2 where n: "exec_with (delete_event i) w1 = (n, w2)" by force
      have "pruned (w_db w) (w_db w2)"
        using exec_with_db [OF n] db1 True delete_unprotected [of "w_db w" i]
        by (auto simp: delete_event_def pruned_refl split: option.splits)
      with Cons.prems small q True n Cons.IH [of _ w2] show ?thesis
        by (auto simp: Let_def split: option.splits intro: pruned_trans)
    next
      case False
      with Cons.prems small q db1(1) Cons.IH [of _ w1] show ?thesis
        by (auto simp: Let_def pruned_refl split: sum.splits bool.splits)
    qed
  qed
qed

lemma prune_pruned: "prune_raw_events opts w = (x, w') \<Longrightarrow> pruned (w_db w) (w_db w')"
proof -
  assume p: "prune_raw_events opts w = (x, w')"
  let ?limit = "if rt_max_delete opts \<le> 0 then 1000 else rt_max_delete opts"
  obtain cutoff w1 where c: "(if rt_cutoff opts = [] then cutoff_before (rt_older_than opts) w else (rt_cutoff opts, w)) = (cutoff, w1)" by force
  have db1: "w_db w1 = w_db w" using c by (auto simp: cutoff_before_def split: if_splits)
  obtain q w2 where q: "query (retention_candidates cutoff (rt_run_id opts) ?limit) w1 = (q, w2)" by force
  have db2: "w_db w2 = w_db w" using query_db [OF q] db1 by simp
  show ?thesis
    using p c q db2 prune_candidates_pruned
    by (auto simp: prune_raw_events_def Let_def pruned_refl split: if_splits option.splits) (metis prune_candidates_pruned)+
qed

section \<open>Pruning and verification\<close>

lemma pruned_events: "pruned d d' \<Longrightarrow> \<exists>P. d' = db_events_update (filter P) d \<and>
    (\<forall>e \<in> set (db_events d). protected_in d (ev_id e) \<longrightarrow> P e)"
  unfolding pruned_def tbl_delete_def by blast

text \<open>What refers to an event protects it.\<close>

lemma protected_refs:
  "p \<in> set (db_policy_decisions d) \<Longrightarrow> pd_event_id p = Some i \<Longrightarrow> protected_in d i"
  "r \<in> set (db_risk_signals d) \<Longrightarrow> rk_event_id r = i \<Longrightarrow> protected_in d i"
  "b \<in> set (db_telemetry_batches d) \<Longrightarrow> like (''%'' @ i @ ''%'') (tb_event_ids_json b) \<Longrightarrow> protected_in d i"
  by (auto simp: protected_in_def protection_checks_def list_ex_iff)

lemma list_ex_kept: "(\<forall>e \<in> set es. Q e \<longrightarrow> P e) \<Longrightarrow> list_ex Q (filter P es) = list_ex Q es"
  by (auto simp: list_ex_iff)

lemma map_concat_cong: "(\<And>x. x \<in> set xs \<Longrightarrow> f x = g x) \<Longrightarrow> concat (map f xs) = concat (map g xs)"
  by (metis map_cong)

lemma concat_map_mono: "set xs \<subseteq> set ys \<Longrightarrow> (\<And>x. x \<in> set xs \<Longrightarrow> f x = g x) \<Longrightarrow>
    set (concat (map f xs)) \<subseteq> set (concat (map g ys))"
  by auto

lemma other_tables [simp]:
  "edge_exists (db_events_update f d) run src dst ty = edge_exists d run src dst ty"
  "external_context_binding_exists (db_events_update f d) run s a t p = external_context_binding_exists d run s a t p"
  "policy_in_run (db_events_update f d) run i = policy_in_run d run i"
  "load_run_edge_set (db_events_update f d) run = load_run_edge_set d run"
  "load_attempt_ids (db_events_update f d) ids = load_attempt_ids d ids"
  by (simp_all add: edge_exists_def external_context_binding_exists_def policy_in_run_def load_run_edge_set_def
      load_attempt_ids_def)

lemma pruned_policy: "pruned d d' \<Longrightarrow> verify_policy_decisions d' run = verify_policy_decisions d run"
proof -
  assume "pruned d d'"
  then obtain P where P: "d' = db_events_update (filter P) d" "\<forall>e \<in> set (db_events d). protected_in d (ev_id e) \<longrightarrow> P e"
    using pruned_events by blast
  have "policy_issues d' run p = policy_issues d run p" if "p \<in> set (db_policy_decisions d)" for p
  proof -
    have "pd_event_id p = Some i \<Longrightarrow> list_ex (\<lambda>e. ev_id e = i) (filter P (db_events d)) = list_ex (\<lambda>e. ev_id e = i) (db_events d)" for i
      using P(2) protected_refs(1) [OF that] by (intro list_ex_kept) auto
    then show ?thesis unfolding P(1) by (cases "pd_event_id p") (simp_all add: policy_issues_def coalesce_def Let_def)
  qed
  then have "concat (map (policy_issues d' run) (filter R (db_policy_decisions d))) =
      concat (map (policy_issues d run) (filter R (db_policy_decisions d)))" for R
    by (intro map_concat_cong) simp
  then show ?thesis by (simp add: verify_policy_decisions_def P(1))
qed

lemma pruned_risk: "pruned d d' \<Longrightarrow> verify_risk_and_responses d' run = verify_risk_and_responses d run"
proof -
  assume "pruned d d'"
  then obtain P where P: "d' = db_events_update (filter P) d" "\<forall>e \<in> set (db_events d). protected_in d (ev_id e) \<longrightarrow> P e"
    using pruned_events by blast
  have "risk_issues d' run r = risk_issues d run r" if "r \<in> set (db_risk_signals d)" for r
  proof -
    have "list_ex (\<lambda>e. ev_id e = rk_event_id r \<and> ev_run_id e = Some run) (filter P (db_events d)) =
        list_ex (\<lambda>e. ev_id e = rk_event_id r \<and> ev_run_id e = Some run) (db_events d)"
      using P(2) protected_refs(2) [OF that] by (intro list_ex_kept) auto
    then show ?thesis unfolding P(1) by (simp add: risk_issues_def Let_def)
  qed
  then have r: "concat (map (risk_issues d' run) (filter R (db_risk_signals d))) =
      concat (map (risk_issues d run) (filter R (db_risk_signals d)))" for R
    by (intro map_concat_cong) simp
  have c: "policy_chain_issues d' run = policy_chain_issues d run" "response_issues d' run = response_issues d run"
    unfolding P(1) by (simp_all add: fun_eq_iff policy_chain_issues_def response_issues_def Let_def)
  have t: "db_policy_decisions d' = db_policy_decisions d" "db_response_actions d' = db_response_actions d"
    "db_risk_signals d' = db_risk_signals d" by (simp_all add: P(1))
  show ?thesis unfolding verify_risk_and_responses_def c t r ..
qed

lemma pruned_verify_events: "pruned d d' \<Longrightarrow> set (verify_events d' run) \<subseteq> set (verify_events d run)"
proof -
  assume "pruned d d'"
  then obtain P where "d' = db_events_update (filter P) d" using pruned_events by blast
  then show ?thesis by (auto simp: verify_events_def Let_def)
qed

text \<open>A remaining event finds the attempt of its tool call as before.\<close>

lemma pruned_causality:
  assumes "pruned d d'" "distinct (map tc_id (db_tool_calls d))"
  shows "set (verify_runtime_causality d' run) \<subseteq> set (verify_runtime_causality d run)"
proof -
  obtain P where P: "d' = db_events_update (filter P) d" using pruned_events [OF assms(1)] by blast
  let ?es = "filter (\<lambda>e. ev_run_id e = Some run) (db_events d)"
  let ?es' = "filter (\<lambda>e. ev_run_id e = Some run) (db_events d')"
  let ?ids = "\<lambda>es. remdups (filter (\<lambda>t. t \<noteq> []) (map ev_tool_call_id es))"
  have sub: "set ?es' \<subseteq> set ?es" by (auto simp: P)
  have key: "[] \<notin> fst ` set (load_attempt_ids d (?ids es))" for es :: "event list"
    unfolding load_attempt_ids_set by auto
  have look: "lookup_attempt (load_attempt_ids d (?ids ?es')) (ev_tool_call_id e) = lookup_attempt (load_attempt_ids d (?ids ?es)) (ev_tool_call_id e)"
    if "e \<in> set ?es'" for e
  proof (cases "ev_tool_call_id e = []")
    case True
    have "map_of (load_attempt_ids d (?ids es)) [] = None" for es :: "event list"
      using key [of es] by (simp add: map_of_eq_None_iff)
    then show ?thesis by (simp only: True lookup_attempt_def)
  next
    case False
    have "e \<in> set ?es" using that sub by blast
    with False that have "ev_tool_call_id e \<in> set (?ids ?es')" "ev_tool_call_id e \<in> set (?ids ?es)" by auto
    then show ?thesis by (simp only: lookup_attempt_query [OF assms(2)])
  qed
  have same: "causality_issues edges (load_attempt_ids d (?ids ?es')) e = causality_issues edges (load_attempt_ids d (?ids ?es)) e"
    if "e \<in> set ?es'" for edges e
    unfolding causality_issues_def Let_def look [OF that] ..
  have "set (concat (map (causality_issues (load_run_edge_set d run) (load_attempt_ids d (?ids ?es'))) ?es')) \<subseteq>
      set (concat (map (causality_issues (load_run_edge_set d run) (load_attempt_ids d (?ids ?es))) ?es))"
    by (rule concat_map_mono [OF sub same])
  then show ?thesis unfolding verify_runtime_causality_def Let_def by (simp only: P other_tables)
qed

text \<open>An identifier on the list of a batch is a part of the stored text, so \<open>LIKE\<close> finds it.\<close>

lemma like_any: "like ps s \<Longrightarrow> like (CHR ''%'' # ps) s"
  by (cases s) simp_all

lemma like_skip: "like ps s \<Longrightarrow> like (CHR ''%'' # ps) (u @ s)"
  by (induction u) (simp_all add: like_any)

lemma like_rest: "like ''%'' s"
  by (induction s) simp_all

lemma like_prefix: "like (i @ ''%'') (i @ s)"
proof (induction i)
  case Nil
  then show ?case using like_rest by simp
next
  case (Cons c i)
  then show ?case by (cases "c = CHR ''%''") (simp_all add: like_any)
qed

lemma like_inside: "like (''%'' @ i @ ''%'') (u @ i @ s)"
  using like_skip [OF like_prefix [of i s], of u] by simp

lemma listed_inside: "x \<in> set xs \<Longrightarrow> \<exists>u v. join '','' (map quote xs) = u @ quote x @ v"
proof (induction xs rule: induct_list012)
  case (3 y z zs)
  show ?case
  proof (cases "x = y")
    case True
    then have "join '','' (map quote (y # z # zs)) = [] @ quote x @ '','' @ join '','' (map quote (z # zs))" by simp
    then show ?thesis by blast
  next
    case False
    then obtain u v where "join '','' (map quote (z # zs)) = u @ quote x @ v" using 3 by auto
    then have "join '','' (map quote (y # z # zs)) = (quote y @ '','' @ u) @ quote x @ v" by simp
    then show ?thesis by blast
  qed
qed (auto intro: exI [of _ "[]"])

lemma listed_like:
  assumes "x \<in> set xs" "escape x = x"
  shows "like (''%'' @ x @ ''%'') (event_ids_json xs)"
proof -
  obtain u v where "join '','' (map quote xs) = u @ quote x @ v" using listed_inside [OF assms(1)] by blast
  moreover have "event_ids_json xs = CHR ''['' # join '','' (map quote xs) @ [CHR '']'']"
    using assms(1) by (auto simp: event_ids_json_def comp_def)
  ultimately have "event_ids_json xs = (CHR ''['' # u @ [CHR 0x22]) @ x @ (CHR 0x22 # v @ [CHR '']''])"
    using assms(2) by (simp add: quote_def)
  then show ?thesis using like_inside by metis
qed

text \<open>Batch records as the receivers write them, of identifiers that need no escapes.\<close>

definition plain_batches :: "db \<Rightarrow> bool" where
  "plain_batches d \<longleftrightarrow> list_all (\<lambda>b. \<exists>xs. tb_event_ids_json b = event_ids_json xs \<and> list_all (\<lambda>x. escape x = x) xs)
     (db_telemetry_batches d)"

lemma pruned_batches:
  assumes "pruned d d'" "plain_batches d"
  shows "verify_telemetry_batches sha d' run = verify_telemetry_batches sha d run"
proof -
  obtain P where P: "d' = db_events_update (filter P) d" "\<forall>e \<in> set (db_events d). protected_in d (ev_id e) \<longrightarrow> P e"
    using pruned_events [OF assms(1)] by blast
  have kept: "list_ex (\<lambda>e. ev_id e = x \<and> ev_run_id e = Some run) (filter P (db_events d)) =
      list_ex (\<lambda>e. ev_id e = x \<and> ev_run_id e = Some run) (db_events d)"
    if "b \<in> set (db_telemetry_batches d)" "decode_strings (tb_event_ids_json b) = Some ids" "x \<in> set ids" for b ids x
  proof -
    have "\<forall>b \<in> set (db_telemetry_batches d). \<exists>xs. tb_event_ids_json b = event_ids_json xs \<and> (\<forall>x \<in> set xs. escape x = x)"
      using assms(2) by (simp only: plain_batches_def list_all_iff)
    from bspec [OF this that(1)] obtain xs where
      xs: "tb_event_ids_json b = event_ids_json xs" "\<forall>x \<in> set xs. escape x = x" by blast
    then have "ids = xs" using that(2) decode_event_ids [of xs] by simp
    then have "like (''%'' @ x @ ''%'') (tb_event_ids_json b)" using xs that(3) listed_like by simp
    from protected_refs(3) [OF that(1) this] P(2) show ?thesis by (intro list_ex_kept) auto
  qed
  let ?issue = "\<lambda>es b. let i = tb_id b in
     err_if (trim_space (tb_format b) = []) ''telemetry_batch_missing_format'' i @
     err_if (trim_space (tb_file_sha256 b) = []) ''telemetry_batch_missing_file_hash'' i @
     (case decode_strings (tb_event_ids_json b) of
        None \<Rightarrow> [issue ''error'' ''telemetry_batch_invalid_event_ids'' i]
      | Some ids \<Rightarrow>
          err_if (int (length ids) \<noteq> tb_ingested_count b) ''telemetry_batch_ingested_count_mismatch'' i @
          err_if (hash_verify_strings sha ids \<noteq> tb_event_ids_sha256 b) ''telemetry_batch_event_hash_mismatch'' i @
          concat (map (\<lambda>x. err_if (\<not> list_ex (\<lambda>e. ev_id e = x \<and> ev_run_id e = Some run) es)
            ''telemetry_batch_missing_event'' i) ids))"
  have "?issue (filter P (db_events d)) b = ?issue (db_events d) b" if "b \<in> set (db_telemetry_batches d)" for b
  proof (cases "decode_strings (tb_event_ids_json b)")
    case (Some ids)
    have "concat (map (\<lambda>x. err_if (\<not> list_ex (\<lambda>e. ev_id e = x \<and> ev_run_id e = Some run) (filter P (db_events d))) k i) ids) =
        concat (map (\<lambda>x. err_if (\<not> list_ex (\<lambda>e. ev_id e = x \<and> ev_run_id e = Some run) (db_events d)) k i) ids)" for k i
      by (rule map_concat_cong) (simp only: kept [OF that Some])
    then show ?thesis by (simp only: Some option.case Let_def)
  qed simp
  then have c: "concat (map (?issue (filter P (db_events d))) (filter (\<lambda>b. tb_run_id b = run) (db_telemetry_batches d))) =
      concat (map (?issue (db_events d)) (filter (\<lambda>b. tb_run_id b = run) (db_telemetry_batches d)))"
    by (intro map_concat_cong) (simp only: set_filter mem_Collect_eq)
  have t: "db_telemetry_batches d' = db_telemetry_batches d" "db_events d' = filter P (db_events d)" by (simp_all add: P(1))
  show ?thesis unfolding verify_telemetry_batches_def t by (rule c)
qed

text \<open>C36: Pruning leaves no dangling reference. Whatever the options, and wherever the store fails, pruning adds
nothing to what \<open>graph verify\<close> reports on policy decisions, risk signals and responses, telemetry batches,
events and causality: every event one of these checks looks up is protected. The records of batches are
those the receivers write, of identifiers without characters to escape.\<close>

theorem pruning_adds_no_issue:
  assumes "plain_batches (w_db w)" "distinct (map tc_id (db_tool_calls (w_db w)))"
  shows "case prune_raw_events opts w of (r, w') \<Rightarrow>
    verify_policy_decisions (w_db w') run = verify_policy_decisions (w_db w) run \<and>
    verify_risk_and_responses (w_db w') run = verify_risk_and_responses (w_db w) run \<and>
    verify_telemetry_batches sha (w_db w') run = verify_telemetry_batches sha (w_db w) run \<and>
    set (verify_events (w_db w') run) \<subseteq> set (verify_events (w_db w) run) \<and>
    set (verify_runtime_causality (w_db w') run) \<subseteq> set (verify_runtime_causality (w_db w) run)"
proof -
  obtain r w' where p: "prune_raw_events opts w = (r, w')" by force
  note d = prune_pruned [OF p]
  show ?thesis unfolding p prod.case
    by (intro conjI pruned_policy [OF d] pruned_risk [OF d] pruned_batches [OF d assms(1)] pruned_verify_events [OF d]
        pruned_causality [OF d assms(2)])
qed

text \<open>One listed event and one that nothing refers to; the second goes.\<close>

definition prunable_db :: db where
  "prunable_db = empty_db\<lparr>db_events := [EventPages.toy_event ''e1'' ''2024'', EventPages.toy_event ''e2'' ''2024''],
     db_telemetry_batches := [\<lparr>tb_id = ''b1'', tb_run_id = ''run-1'', tb_format = ''falco'', tb_path = [],
       tb_file_sha256 = ''00'', tb_read_count = 1, tb_ingested_count = 1, tb_skipped_count = 0, tb_failed_count = 0,
       tb_event_ids_json = event_ids_json [''e1''], tb_event_ids_sha256 = ''00'', tb_created_at = []\<rparr>]\<rparr>"

definition prune_all :: retention_options where
  "prune_all = \<lparr>rt_run_id = [], rt_older_than = 0, rt_cutoff = ''2025'', rt_max_delete = 0\<rparr>"

lemma pruning_adds_no_issue_witness:
  "case prune_raw_events prune_all (quiet_world prunable_db) of (r, w') \<Rightarrow>
    map ev_id (db_events (w_db w')) = [''e1''] \<and>
    verify_telemetry_batches (\<lambda>_. ''00'') (w_db w') ''run-1'' = verify_telemetry_batches (\<lambda>_. ''00'') prunable_db ''run-1''"
proof -
  have "plain_batches prunable_db" "distinct (map tc_id (db_tool_calls prunable_db))"
    by (auto simp: prunable_db_def plain_batches_def empty_db_def escape_def escape_char_def intro!: exI [of _ "[''e1'']"])
  moreover have "map ev_id (db_events (w_db (snd (prune_raw_events prune_all (quiet_world prunable_db))))) = [''e1'']"
    by code_simp
  ultimately show ?thesis
    using pruning_adds_no_issue [where w = "quiet_world prunable_db" and opts = prune_all and run = "''run-1''" and sha = "\<lambda>_. ''00''"]
    by (auto split: prod.splits)
qed

text \<open>Protection can starve pruning: only the oldest ten times \<open>MaxDelete\<close> candidates are looked at, so when they
are all protected nothing is deleted, however many younger events could be.\<close>

lemma run_checks_found: "no_faults w \<Longrightarrow> list_ex (\<lambda>c. c (w_db w)) cs \<Longrightarrow>
    \<exists>w'. run_checks cs w = (Inr True, w') \<and> no_faults w' \<and> w_db w' = w_db w"
proof (induction cs arbitrary: w)
  case (Cons c cs)
  let ?w = "w\<lparr>w_stmts := Suc (w_stmts w)\<rparr>"
  show ?case
  proof (cases "c (w_db w)")
    case False
    then have "list_ex (\<lambda>c. c (w_db ?w)) cs" "no_faults ?w" using Cons.prems by simp_all
    from Cons.IH [OF this(2,1)] Cons.prems(1) False show ?thesis by (simp add: query_no_faults)
  qed (use Cons.prems in \<open>simp add: query_no_faults\<close>)
qed simp

lemma protected_front_starves:
  assumes "no_faults w" "\<forall>i \<in> set is. protected_in (w_db w) i"
  shows "\<exists>r' w'. prune_candidates is r w = (Inr r', w') \<and> w_db w' = w_db w \<and> rs_deleted r' = rs_deleted r"
  using assms
proof (induction "is" arbitrary: r w)
  case (Cons i "is")
  have "list_ex (\<lambda>c. c (w_db w)) (protection_checks i)" using Cons.prems(2) by (simp add: protected_in_def)
  from run_checks_found [OF Cons.prems(1) this] obtain w1 where w1: "event_protected i w = (Inr True, w1)" "no_faults w1" "w_db w1 = w_db w"
    unfolding event_protected_def by blast
  obtain r' w' where "prune_candidates is (r\<lparr>rs_scanned := Suc (rs_scanned r), rs_protected := Suc (rs_protected r)\<rparr>) w1 = (Inr r', w')"
    "w_db w' = w_db w1" "rs_deleted r' = rs_deleted r"
    using Cons.IH [OF w1(2), of "r\<lparr>rs_scanned := Suc (rs_scanned r), rs_protected := Suc (rs_protected r)\<rparr>"] Cons.prems(2) w1(3)
    by auto
  then show ?case using w1 by (auto simp: Let_def)
qed simp

end
