(* ===== verification/Health.thy ===== *)
theory Health
  imports Spool IngestVerify
begin

text \<open>
  Two reports over stored telemetry: the producer health of \<open>internal/telemetry/producer_health.go\<close> and the
  correlation report of \<open>internal/telemetry/correlation_report.go\<close>. The lemmas show what the health report
  makes of unresolved events, and where the correlation report does not find the binding of an event.
\<close>

section \<open>Producer health\<close>

record spool_health =
  sh_received :: int
  sh_queued :: int
  sh_queued_bytes :: int
  sh_processing :: int
  sh_processed :: int
  sh_dropped :: int
  sh_dropped_bytes :: int
  sh_failed :: int
  sh_ingested_events :: int
  sh_failed_events :: int
  sh_by_status :: "string \<rightharpoonup> int"

record event_health =
  eh_runtime :: int
  eh_correlated :: int
  eh_uncorrelated :: int
  eh_sensor_dropped :: int
  eh_by_source :: "string \<rightharpoonup> int"

record coverage_health =
  ch_ratio :: rat
  ch_sensor_drops :: bool
  ch_complete :: bool

record health_report =
  hr_run_id :: string
  hr_generated_at :: string
  hr_spool :: spool_health
  hr_events :: event_health
  hr_coverage :: coverage_health

text \<open>One row of \<open>GROUP BY status\<close>.\<close>

definition status_row :: "spool_batch list \<Rightarrow> string \<Rightarrow> spool_health \<Rightarrow> spool_health" where
  "status_row bs status h =
     (let rows = filter (\<lambda>b. sp_status b = status) bs; n = int (length rows);
          bytes = sum_list (map sp_size_bytes rows);
          h = h\<lparr>sh_received := sh_received h + n,
                sh_ingested_events := sh_ingested_events h + sum_list (map sp_ingested_count rows),
                sh_failed_events := sh_failed_events h + sum_list (map sp_failed_count rows),
                sh_by_status := (sh_by_status h)(status \<mapsto> n)\<rparr>
      in if status = ''queued'' then
           h\<lparr>sh_queued := sh_queued h + n, sh_queued_bytes := sh_queued_bytes h + bytes\<rparr>
         else if status = ''processing'' then
           h\<lparr>sh_processing := sh_processing h + n, sh_queued_bytes := sh_queued_bytes h + bytes\<rparr>
         else if status = ''processed'' then h\<lparr>sh_processed := sh_processed h + n\<rparr>
         else if status = ''dropped'' then
           h\<lparr>sh_dropped := sh_dropped h + n, sh_dropped_bytes := sh_dropped_bytes h + bytes\<rparr>
         else if status = ''failed'' then h\<lparr>sh_failed := sh_failed h + n\<rparr>
         else h)"

definition blank_spool_health :: spool_health where
  "blank_spool_health = \<lparr>sh_received = 0, sh_queued = 0, sh_queued_bytes = 0, sh_processing = 0, sh_processed = 0,
     sh_dropped = 0, sh_dropped_bytes = 0, sh_failed = 0, sh_ingested_events = 0, sh_failed_events = 0,
     sh_by_status = (\<lambda>_. None)\<rparr>"

definition populate_spool_health :: "db \<Rightarrow> string \<Rightarrow> spool_health" where
  "populate_spool_health d run =
     (let bs = filter (\<lambda>b. run = [] \<or> sp_run_id b = run) (db_telemetry_spool_batches d)
      in fold (status_row bs) (remdups (map sp_status bs)) blank_spool_health)"

definition producer_runtime_sources :: "string list" where
  "producer_runtime_sources =
     [''agentprov_ebpf'', ''external_telemetry'', ''falco_jsonl'', ''filtered_telemetry'', ''kernel'',
      ''loongcollector'', ''loongcollector_jsonl'', ''native_runtime'', ''record_file_diff'',
      ''record_process_sample'', ''runtime'', ''tetragon_jsonl'', ''wrapper_runtime'', ''zero_sdk_record'',
      ''zero_sdk_record_descendant'']"

definition producer_events :: "db \<Rightarrow> string \<Rightarrow> event list" where
  "producer_events d run =
     filter (\<lambda>e. ev_source e \<in> set producer_runtime_sources \<and> (run = [] \<or> ev_run_id e = Some run)) (db_events d)"

definition source_row :: "event list \<Rightarrow> string \<Rightarrow> event_health \<Rightarrow> event_health" where
  "source_row es source h =
     (let rows = filter (\<lambda>e. ev_source e = source) es; n = int (length rows) in
      h\<lparr>eh_runtime := eh_runtime h + n,
        eh_correlated := eh_correlated h + int (length (filter (\<lambda>e. ev_correlation_method e \<noteq> []) rows)),
        eh_by_source := (eh_by_source h)(source \<mapsto> n)\<rparr>)"

text \<open>The drops a pressure event reports; a payload that does not decode reports none.\<close>

definition reported_drops :: "string \<Rightarrow> int" where
  "reported_drops payload =
     (case decode payload of
        Some (JObj kvs) \<Rightarrow>
          (case (string_field ''signal'' kvs, int64_field ''dropped'' kvs) of
             (Some signal, Some n) \<Rightarrow> if signal = ''event_drop'' then n else 0
           | _ \<Rightarrow> 0)
      | _ \<Rightarrow> 0)"

definition populate_event_health :: "db \<Rightarrow> string \<Rightarrow> event_health" where
  "populate_event_health d run =
     (let es = producer_events d run;
          h = fold (source_row es) (remdups (map ev_source es))
            \<lparr>eh_runtime = 0, eh_correlated = 0, eh_uncorrelated = 0, eh_sensor_dropped = 0, eh_by_source = (\<lambda>_. None)\<rparr>;
          h = h\<lparr>eh_uncorrelated := eh_runtime h - eh_correlated h\<rparr>;
          drops = map (\<lambda>e. reported_drops (ev_payload e)) (filter (\<lambda>e. ev_event_type e = ''resource_pressure'') es)
      in h\<lparr>eh_sensor_dropped := fold max drops 0\<rparr>)"

definition coverage_of :: "event_health \<Rightarrow> coverage_health" where
  "coverage_of h =
     \<lparr>ch_ratio = (if eh_runtime h > 0 then of_int (eh_correlated h) / of_int (eh_runtime h) else 0),
      ch_sensor_drops = (eh_sensor_dropped h > 0),
      ch_complete = (eh_runtime h > 0 \<and> eh_uncorrelated h = 0 \<and> \<not> eh_sensor_dropped h > 0)\<rparr>"

definition build_producer_health :: "string \<Rightarrow> world \<Rightarrow> (go_error + health_report) \<times> world" where
  "build_producer_health run w =
     (let (t, w) = now w in
      case query (\<lambda>d. populate_spool_health d run) w of
        (None, w) \<Rightarrow> (Inl SqlError, w)
      | (Some sh, w) \<Rightarrow>
          (case query (\<lambda>d. populate_event_health d run) w of
             (None, w) \<Rightarrow> (Inl SqlError, w)
           | (Some eh, w) \<Rightarrow>
               (Inr \<lparr>hr_run_id = run, hr_generated_at = t, hr_spool = sh, hr_events = eh, hr_coverage = coverage_of eh\<rparr>, w)))"

section \<open>The correlation report\<close>

record correlation_match =
  cm_status :: string
  cm_method :: string
  cm_confidence :: rat
  cm_binding_id :: string
  cm_matched_keys :: "string list"
  cm_reason :: string
  cm_time_window :: string

record correlation_evidence =
  cv_event :: event
  cv_identity_keys :: "string list"
  cv_binding :: "binding option"
  cv_match :: correlation_match
  cv_drilldowns :: "string list"

definition correlation_binding_id :: "string \<Rightarrow> string" where
  "correlation_binding_id payload =
     (case decode payload of
        Some (JObj kvs) \<Rightarrow>
          (case jfield ''correlation'' kvs of
             Some (JObj c) \<Rightarrow> (case string_field ''binding_id'' c of None \<Rightarrow> [] | Some i \<Rightarrow> trim_space i)
           | _ \<Rightarrow> [])
      | _ \<Rightarrow> [])"

definition correlation_status :: "event \<Rightarrow> string" where
  "correlation_status e =
     (if ev_correlation_method e = [] \<or> ev_correlation_method e = ''unresolved'' \<or> ev_correlation_confidence e = 0
      then ''unresolved''
      else if ev_correlation_method e = ''provided_context'' then ''provided'' else ''resolved'')"

definition matched_correlation_keys :: "string \<Rightarrow> string list" where
  "matched_correlation_keys meth =
     (if meth = [] then []
      else case split_char CHR '':'' meth of
        [_, keys] \<Rightarrow> sort (split_char CHR ''+'' keys)
      | _ \<Rightarrow> [meth])"

definition correlation_reason :: "event \<Rightarrow> string" where
  "correlation_reason e =
     (if correlation_status e = ''resolved'' then ''runtime identity matched ToolCallScope binding''
      else if correlation_status e = ''provided'' then ''application context was provided with the telemetry event''
      else ''no ToolCallScope binding matched the raw runtime identity'')"

definition correlation_drilldowns :: "event \<Rightarrow> string list" where
  "correlation_drilldowns e =
     (let run = coalesce (ev_run_id e) in
      [''graph explain --event '' @ ev_id e] @
      (if run \<noteq> [] then [''observe event --run '' @ run @ '' --event '' @ ev_id e] else []) @
      (if ev_process_id e \<noteq> [] \<and> run \<noteq> [] then [''observe process --run '' @ run @ '' --process '' @ ev_process_id e] else []) @
      (if ev_tool_call_id e \<noteq> [] \<and> run \<noteq> []
       then [''timeline --run '' @ run @ '' --tool-call '' @ ev_tool_call_id e @ '' --view causality''] else []))"

definition event_identity :: "event \<Rightarrow> raw_identity" where
  "event_identity e =
     \<lparr>ri_run_id = coalesce (ev_run_id e), ri_process_id = ev_process_id e, ri_container_id = ev_container_id e,
      ri_cgroup_id = ev_cgroup_id e, ri_pid = ev_pid e, ri_tgid = ev_tgid e, ri_ppid = ev_ppid e,
      ri_timestamp = ev_created_at e\<rparr>"

text \<open>The identifier in the payload, or the one a second resolution at the time of storage finds.\<close>

definition reported_binding_id :: "event \<Rightarrow> world \<Rightarrow> (go_error + string) \<times> world" where
  "reported_binding_id e w =
     (let i = correlation_binding_id (ev_payload e) in
      if i = [] \<and> correlation_status e = ''resolved'' then
        (case resolve (event_identity e) w of
           (Inl err, w) \<Rightarrow> (Inl err, w)
         | (Inr None, w) \<Rightarrow> (Inr [], w)
         | (Inr (Some m), w) \<Rightarrow> (Inr (bi_id (ma_binding m)), w))
      else (Inr i, w))"

definition build_correlation_evidence :: "event \<Rightarrow> world \<Rightarrow> (go_error + correlation_evidence) \<times> world" where
  "build_correlation_evidence e w =
     (case reported_binding_id e w of
        (Inl err, w) \<Rightarrow> (Inl err, w)
      | (Inr i, w) \<Rightarrow>
          (case (if i \<noteq> [] then query (get_binding i) w else (Some None, w)) of
             (None, w) \<Rightarrow> (Inl SqlError, w)
           | (Some b, w) \<Rightarrow>
               (Inr \<lparr>cv_event = e, cv_identity_keys = event_identity_keys e, cv_binding = b,
                  cv_match = \<lparr>cm_status = correlation_status e, cm_method = ev_correlation_method e,
                    cm_confidence = ev_correlation_confidence e, cm_binding_id = i,
                    cm_matched_keys = matched_correlation_keys (ev_correlation_method e),
                    cm_reason = correlation_reason e,
                    cm_time_window = (case b of None \<Rightarrow> [] | Some b \<Rightarrow> bi_started_at b @ ''..'' @ bi_ended_at b)\<rparr>,
                  cv_drilldowns = correlation_drilldowns e\<rparr>, w)))"

fun build_evidence_list :: "event list \<Rightarrow> world \<Rightarrow> (go_error + correlation_evidence list) \<times> world" where
  "build_evidence_list [] w = (Inr [], w)"
| "build_evidence_list (e # es) w =
     (case build_correlation_evidence e w of
        (Inl err, w) \<Rightarrow> (Inl err, w)
      | (Inr x, w) \<Rightarrow>
          (case build_evidence_list es w of (Inl err, w) \<Rightarrow> (Inl err, w) | (Inr xs, w) \<Rightarrow> (Inr (x # xs), w)))"

definition correlation_report_events :: "(bytes \<Rightarrow> string) \<Rightarrow> string \<Rightarrow> string \<Rightarrow> world \<Rightarrow> (go_error + event list) \<times> world" where
  "correlation_report_events sha run event w =
     (if event = [] then
        (case query (list_events_filtered sha \<lparr>el_run_id = run, el_session_id = [], el_type = [], el_tool_call_id = []\<rparr>) w of
           (None, w) \<Rightarrow> (Inl SqlError, w) | (Some r, w) \<Rightarrow> (r, w))
      else
        (case event_record_by_id event w of
           (Inl err, w) \<Rightarrow> (Inl err, w)
         | (Inr e, w) \<Rightarrow>
             if run \<noteq> [] \<and> coalesce (ev_run_id e) \<noteq> run then (Inl (Errorf ''event is not in run''), w) else (Inr [e], w)))"

definition build_correlation_report ::
  "(bytes \<Rightarrow> string) \<Rightarrow> string \<Rightarrow> string \<Rightarrow> world \<Rightarrow> (go_error + correlation_evidence list) \<times> world" where
  "build_correlation_report sha run event w =
     (case correlation_report_events sha run event w of
        (Inl err, w) \<Rightarrow> (Inl err, w) | (Inr es, w) \<Rightarrow> build_evidence_list es w)"

section \<open>What the health report counts\<close>

lemma grouped_length:
  "set (map f es) \<subseteq> set ks \<Longrightarrow> distinct ks \<Longrightarrow>
     (\<Sum>k\<leftarrow>ks. length (filter P (filter (\<lambda>e. f e = k) es))) = length (filter P es)"
proof (induction ks arbitrary: es)
  case (Cons k ks)
  have "set (map f (filter (\<lambda>e. f e \<noteq> k) es)) \<subseteq> set ks" using Cons.prems(1) by auto
  then have "(\<Sum>l\<leftarrow>ks. length (filter P (filter (\<lambda>e. f e = l) (filter (\<lambda>e. f e \<noteq> k) es)))) =
      length (filter P (filter (\<lambda>e. f e \<noteq> k) es))"
    by (rule Cons.IH) (use Cons.prems(2) in simp)
  moreover have "filter P (filter (\<lambda>e. f e = l) (filter (\<lambda>e. f e \<noteq> k) es)) = filter P (filter (\<lambda>e. f e = l) es)" if "l \<in> set ks" for l
    using that Cons.prems(2) by (auto intro!: filter_cong)
  ultimately have "(\<Sum>l\<leftarrow>ks. length (filter P (filter (\<lambda>e. f e = l) es))) = length (filter P (filter (\<lambda>e. f e \<noteq> k) es))"
    by (simp del: filter_filter cong: map_cong)
  moreover have "length (filter P (filter (\<lambda>e. f e = k) es)) + length (filter P (filter (\<lambda>e. f e \<noteq> k) es)) =
      length (filter P es)"
    by (induction es) auto
  ultimately show ?case by simp
qed simp

lemma source_rows:
  "eh_runtime (fold (source_row es) ks h) = eh_runtime h + int (\<Sum>k\<leftarrow>ks. length (filter (\<lambda>e. ev_source e = k) es))"
  "eh_correlated (fold (source_row es) ks h) = eh_correlated h +
     int (\<Sum>k\<leftarrow>ks. length (filter (\<lambda>e. ev_correlation_method e \<noteq> []) (filter (\<lambda>e. ev_source e = k) es)))"
  by (induction ks arbitrary: h) (simp_all add: source_row_def Let_def)

lemma event_health_counts:
  "eh_runtime (populate_event_health d run) = int (length (producer_events d run))"
  "eh_correlated (populate_event_health d run) =
     int (length (filter (\<lambda>e. ev_correlation_method e \<noteq> []) (producer_events d run)))"
  "eh_uncorrelated (populate_event_health d run) =
     eh_runtime (populate_event_health d run) - eh_correlated (populate_event_health d run)"
proof -
  have sub: "set (map ev_source (producer_events d run)) \<subseteq> set (remdups (map ev_source (producer_events d run)))" by simp
  from grouped_length [OF sub, of "\<lambda>_. True"] grouped_length [OF sub, of "\<lambda>e. ev_correlation_method e \<noteq> []"]
  show "eh_runtime (populate_event_health d run) = int (length (producer_events d run))"
    "eh_correlated (populate_event_health d run) =
       int (length (filter (\<lambda>e. ev_correlation_method e \<noteq> []) (producer_events d run)))"
    by (simp_all add: populate_event_health_def Let_def source_rows)
  show "eh_uncorrelated (populate_event_health d run) =
     eh_runtime (populate_event_health d run) - eh_correlated (populate_event_health d run)"
    by (simp add: populate_event_health_def Let_def)
qed

text \<open>A resolution that finds a binding names its method.\<close>

lemma scan_one_method: "scan_one meth src conf sel w = (Inr (Some m), w') \<Longrightarrow> ma_method m \<noteq> []"
  by (auto simp: scan_one_def Let_def split: prod.splits option.splits)

lemma try_tier_method:
  assumes "try_tier on tier rest w = (Inr (Some m), w')"
    and "\<And>w w'. tier w = (Inr (Some m), w') \<Longrightarrow> ma_method m \<noteq> []"
    and "\<And>w w'. rest w = (Inr (Some m), w') \<Longrightarrow> ma_method m \<noteq> []"
  shows "ma_method m \<noteq> []"
  using assms by (auto simp: try_tier_def split: if_splits prod.splits sum.splits option.splits)

lemmas resolution_steps = resolve_by_process_def resolve_by_cgroup_def resolve_by_container_def
  resolve_by_pid_def resolve_window_def

lemma resolved_method:
  assumes "resolve r w = (Inr (Some m), w')"
  shows "ma_method m \<noteq> []"
proof -
  obtain ts v where v: "(if ri_timestamp r = [] then now w else (ri_timestamp r, w)) = (ts, v)" by force
  show ?thesis
    using assms unfolding resolve_def Let_def v prod.case
    by (elim try_tier_method) (auto simp: resolution_steps dest: scan_one_method)
qed

lemma correlate_method:
  assumes "correlate c e w = (Inr r, w')"
  shows "rs_method r \<noteq> []"
proof -
  have "ma_method m \<noteq> []" if "on_committed c (resolve i) v = (Inr (Some m), v')" for i v v' m
    using that resolved_method by (auto simp: on_committed_def split: option.splits prod.splits)
  with assms show ?thesis
    by (auto simp: correlate_def Let_def split: if_splits prod.splits sum.splits option.splits)
qed

text \<open>An event that ingestion stored, with the identifier and the time it was given.\<close>

definition ingested_event :: "event \<Rightarrow> bool" where
  "ingested_event e \<longleftrightarrow> (\<exists>c x w r w' i ts. correlate c x w = (Inr r, w') \<and> e = stored_event i ts (sampled r))"

text \<open>The health report cannot see an event without a context. Ingestion marks an event it could not
correlate with the method \<open>unresolved\<close>, and the report counts as correlated every event whose method is
not empty: over ingested events the number of uncorrelated ones is always zero and the ratio one, so that a
run without sensor drops is reported complete even if no event of it was resolved.\<close>

theorem unresolved_counts_as_correlated:
  assumes "\<forall>e \<in> set (producer_events d run). ingested_event e" "producer_events d run \<noteq> []"
  shows "eh_uncorrelated (populate_event_health d run) = 0 \<and>
    ch_ratio (coverage_of (populate_event_health d run)) = 1 \<and>
    (ch_complete (coverage_of (populate_event_health d run)) \<longleftrightarrow>
       eh_sensor_dropped (populate_event_health d run) \<le> 0)"
proof -
  have "ev_correlation_method e \<noteq> []" if "ingested_event e" for e
  proof -
    from that obtain c x w r w' i ts where r: "correlate c x w = (Inr r, w')" and e: "e = stored_event i ts (sampled r)"
      unfolding ingested_event_def by blast
    show ?thesis using correlate_method [OF r] by (simp add: e stored_event_def sampled_def Let_def)
  qed
  with assms(1) have all: "filter (\<lambda>e. ev_correlation_method e \<noteq> []) (producer_events d run) = producer_events d run"
    by simp
  from assms(2) have "0 < length (producer_events d run)" by simp
  with all show ?thesis
    by (simp_all add: coverage_of_def event_health_counts not_less)
qed

definition stray_event :: ingest_event where
  "stray_event = \<lparr>ig_run_id = ''run-1'', ig_rollout_id = [], ig_attempt_id = [], ig_session_id = [],
     ig_tool_call_id = [], ig_process_id = [], ig_snapshot_id = [], ig_raw_event_id = [], ig_container_id = [],
     ig_cgroup_id = [], ig_pid = 0, ig_tgid = 0, ig_ppid = 0, ig_timestamp = format_time 0,
     ig_source = ''falco_jsonl'', ig_event_type = ''execve'', ig_payload = ''{}'', ig_binding_source = []\<rparr>"

definition stray_stored :: event where
  "stray_stored = stored_event ''evt-1'' (format_time 0)
     (sampled \<lparr>rs_event = stray_event\<lparr>ig_payload := event_payload_with_correlation ''{}'' None\<rparr>,
        rs_method = ''unresolved'', rs_confidence = 0, rs_binding_source = []\<rparr>)"

lemma stray_ingested: "ingested_event stray_stored"
proof -
  have "resolve (identity_of stray_event) (quiet_world empty_db) = (Inr None, quiet_world empty_db)"
    by (simp add: resolve_def identity_of_def stray_event_def toy_times try_tier_def)
  then have "correlate None stray_event (quiet_world empty_db) =
      (Inr \<lparr>rs_event = stray_event\<lparr>ig_payload := event_payload_with_correlation ''{}'' None\<rparr>,
        rs_method = ''unresolved'', rs_confidence = 0, rs_binding_source = []\<rparr>, quiet_world empty_db)"
    unfolding correlate_def on_committed_def Let_def by (simp add: stray_event_def)
  then show ?thesis unfolding ingested_event_def stray_stored_def by blast
qed

lemma stray_listed: "producer_events (empty_db\<lparr>db_events := [stray_stored]\<rparr>) ''run-1'' = [stray_stored]"
  by (simp add: producer_events_def stray_stored_def stored_event_def sampled_def stray_event_def
      producer_runtime_sources_def)

lemma unresolved_counts_as_correlated_witness:
  "ev_correlation_method stray_stored = ''unresolved'' \<and>
   ch_ratio (coverage_of (populate_event_health (empty_db\<lparr>db_events := [stray_stored]\<rparr>) ''run-1'')) = 1"
  using unresolved_counts_as_correlated [of "empty_db\<lparr>db_events := [stray_stored]\<rparr>" "''run-1''"]
  by (simp add: stray_listed stray_ingested) (simp add: stray_stored_def stored_event_def sampled_def stray_event_def)

section \<open>Where the correlation report loses the binding\<close>

text \<open>
  The identifier of the binding stands in the payload that ingestion builds. For an event of a rollout the
  payload is stored inside an envelope; the report reads the key only at the top and does not find it.
\<close>

lemma wrapped_binding_unseen:
  assumes "list_all plain_char (ig_rollout_id e)" "list_all plain_char (ig_attempt_id e)"
    and "decode (ig_payload e) = Some v" "ig_rollout_id e \<noteq> [] \<or> ig_attempt_id e \<noteq> []"
  shows "correlation_binding_id (stored_payload e) = []"
proof -
  from assms(4) have e: "stored_payload e = CHR 0x7B # key_text ''rollout_id'' @ go_quote (ig_rollout_id e) @ CHR '','' #
      key_text ''attempt_id'' @ go_quote (ig_attempt_id e) @ CHR '','' # key_text ''payload'' @ ig_payload e @ [CHR 0x7D]"
    by (simp add: stored_payload_def)
  show ?thesis
    unfolding e correlation_binding_id_def decode_wrapped [OF assms(1-3)] by (simp add: wrapped_def jfield_def equal_fold_def to_lower_def)
qed

end
