(* ===== verification/Trajectory.thy ===== *)
theory Trajectory
  imports Replay FileDiff Json
begin

text \<open>
  The trajectories of a run (\<open>internal/provenance/trajectory.go\<close>): every attempt of a replay manifest with the
  files it changed against the base snapshot, and the JSON of the replay, trajectory, diff and blame manifests
  as their struct tags lay it out. The walk over a directory is an operation of the environment. The lemmas say
  that the comparison of two directories reports every path once, with the right kind of change.
\<close>

section \<open>File states\<close>

text \<open>What \<open>filepath.WalkDir\<close> finds: the regular files below a root by their slash paths, with their contents.\<close>

datatype walk = Walked "(string \<times> bytes) list" | NoSuchRoot | WalkFailed

datatype trajectory_error = FromReplay replay_error | RootMissing | WalkError

definition collect_file_states :: "(string \<Rightarrow> walk) \<Rightarrow> string \<Rightarrow> trajectory_error + (string \<times> bytes) list" where
  "collect_file_states walk dir =
     (if dir = [] then Inr []
      else (case walk dir of Walked fs \<Rightarrow> Inr fs | NoSuchRoot \<Rightarrow> Inl RootMissing | WalkFailed \<Rightarrow> Inl WalkError))"

record file_change =
  fc_path :: string
  fc_type :: string
  fc_base :: "bytes option"
  fc_next :: "bytes option"
  fc_base_sha256 :: string
  fc_next_sha256 :: string
  fc_unified_diff :: "string list"

record change_summary =
  su_created :: nat
  su_modified :: nat
  su_deleted :: nat
  su_unchanged :: nat

definition change_type :: "(bytes \<Rightarrow> string) \<Rightarrow> bytes option \<Rightarrow> bytes option \<Rightarrow> string" where
  "change_type sha base nxt =
     (case (base, nxt) of
        (None, Some _) \<Rightarrow> ''created''
      | (Some _, None) \<Rightarrow> ''deleted''
      | (Some b, Some n) \<Rightarrow> if sha b \<noteq> sha n then ''modified'' else ''unchanged''
      | (None, None) \<Rightarrow> ''unchanged'')"

definition count_change :: "string \<Rightarrow> change_summary \<Rightarrow> change_summary" where
  "count_change ty s =
     (if ty = ''created'' then s\<lparr>su_created := Suc (su_created s)\<rparr>
      else if ty = ''deleted'' then s\<lparr>su_deleted := Suc (su_deleted s)\<rparr>
      else if ty = ''modified'' then s\<lparr>su_modified := Suc (su_modified s)\<rparr>
      else s\<lparr>su_unchanged := Suc (su_unchanged s)\<rparr>)"

definition file_change_at ::
  "(bytes \<Rightarrow> string) \<Rightarrow> (string \<rightharpoonup> bytes) \<Rightarrow> (string \<rightharpoonup> bytes) \<Rightarrow> string \<Rightarrow> file_change" where
  "file_change_at sha base nxt p =
     \<lparr>fc_path = p, fc_type = change_type sha (base p) (nxt p), fc_base = base p, fc_next = nxt p,
      fc_base_sha256 = hash_or_missing sha (base p), fc_next_sha256 = hash_or_missing sha (nxt p),
      fc_unified_diff = unified_lines (base p) (nxt p)\<rparr>"

definition ordered_paths :: "(string \<times> bytes) list \<Rightarrow> (string \<times> bytes) list \<Rightarrow> string list" where
  "ordered_paths base nxt = sort (remdups (map fst base @ map fst nxt))"

definition compare_file_states ::
  "(bytes \<Rightarrow> string) \<Rightarrow> (string \<times> bytes) list \<Rightarrow> (string \<times> bytes) list \<Rightarrow> file_change list \<times> change_summary" where
  "compare_file_states sha base nxt =
     (let all = map (file_change_at sha (map_of base) (map_of nxt)) (ordered_paths base nxt) in
      (filter (\<lambda>c. fc_type c \<noteq> ''unchanged'') all,
       fold (\<lambda>c. count_change (fc_type c)) all
         \<lparr>su_created = 0, su_modified = 0, su_deleted = 0, su_unchanged = 0\<rparr>))"

section \<open>The manifest\<close>

record trajectory =
  tj_rollout :: replay_rollout
  tj_attempt :: replay_attempt
  tj_changes :: "file_change list"
  tj_summary :: change_summary

record trajectory_manifest =
  tm_run :: string
  tm_rollouts :: "replay_rollout list"
  tm_trajectories :: "trajectory list"

definition trajectory_of ::
  "(bytes \<Rightarrow> string) \<Rightarrow> (string \<Rightarrow> walk) \<Rightarrow> replay_rollout \<Rightarrow> (string \<times> bytes) list \<Rightarrow> replay_attempt \<Rightarrow>
     trajectory_error + trajectory" where
  "trajectory_of sha walk r base a =
     res_bind (collect_file_states walk (rat_workspace a)) (\<lambda>nxt.
       let (changes, summary) = compare_file_states sha base nxt in
       Inr \<lparr>tj_rollout = r, tj_attempt = a, tj_changes = changes, tj_summary = summary\<rparr>)"

definition rollout_trajectories ::
  "(bytes \<Rightarrow> string) \<Rightarrow> (string \<Rightarrow> walk) \<Rightarrow> replay_rollout \<Rightarrow> trajectory_error + trajectory list" where
  "rollout_trajectories sha walk r =
     res_bind (case rro_base_snapshot r of None \<Rightarrow> Inr [] | Some sn \<Rightarrow> collect_file_states walk (rsn_path sn))
       (\<lambda>base. res_map (trajectory_of sha walk r base) (rro_attempts r))"

definition build_trajectories_run ::
  "(bytes \<Rightarrow> string) \<Rightarrow> (string \<Rightarrow> bytes option) \<Rightarrow> (string \<Rightarrow> walk) \<Rightarrow> db \<Rightarrow> string \<Rightarrow>
     trajectory_error + trajectory_manifest" where
  "build_trajectories_run sha fs walk d run =
     (case build_replay_run sha fs d run of
        Inl e \<Rightarrow> Inl (FromReplay e)
      | Inr m \<Rightarrow>
          res_bind (res_map (rollout_trajectories sha walk) (rma_rollouts m)) (\<lambda>tss.
            Inr \<lparr>tm_run = run, tm_rollouts = rma_rollouts m, tm_trajectories = concat tss\<rparr>))"

section \<open>JSON of the manifests\<close>

definition omit_empty :: "string \<Rightarrow> string \<Rightarrow> (string \<times> json) list" where
  "omit_empty k s = (if s = [] then [] else [(k, JStr s)])"

definition omit_none :: "string \<Rightarrow> ('a \<Rightarrow> json) \<Rightarrow> 'a option \<Rightarrow> (string \<times> json) list" where
  "omit_none k f x = (case x of None \<Rightarrow> [] | Some v \<Rightarrow> [(k, f v)])"

definition omit_nil :: "string \<Rightarrow> ('a \<Rightarrow> json) \<Rightarrow> 'a list \<Rightarrow> (string \<times> json) list" where
  "omit_nil k f xs = (if xs = [] then [] else [(k, JArr (map f xs))])"

text \<open>A slice that is nil when nothing was appended.\<close>

definition nil_slice :: "('a \<Rightarrow> json) \<Rightarrow> 'a list \<Rightarrow> json" where
  "nil_slice f xs = (if xs = [] then JNull else JArr (map f xs))"

definition int_json :: "int \<Rightarrow> json" where
  "int_json i = JNum (of_int i)"

definition snapshot_json :: "replay_snapshot \<Rightarrow> json" where
  "snapshot_json s = JObj
     [(''id'', JStr (rsn_id s)), (''name'', JStr (rsn_name s)), (''kind'', JStr (rsn_kind s)),
      (''physical_type'', JStr (rsn_physical s)), (''path'', JStr (rsn_path s)),
      (''manifest_hash'', JStr (rsn_manifest_hash s)), (''file_count'', int_json (rsn_file_count s)),
      (''bytes'', int_json (rsn_bytes s)), (''status'', JStr (rsn_status s)), (''tainted'', JBool (rsn_tainted s))]"

definition digest_json :: "artifact_digest \<Rightarrow> json" where
  "digest_json a = JObj
     [(''path'', JStr (ad_path a)), (''exists'', JBool (ad_exists a)), (''sha256'', JStr (ad_sha256 a)),
      (''bytes'', int_json (int (ad_bytes a)))]"

definition tool_call_json :: "replay_tool_call \<Rightarrow> json" where
  "tool_call_json t = JObj
     ([(''id'', JStr (rtc_id t)), (''session_id'', JStr (rtc_session_id t)), (''command'', JStr (rtc_command t)),
       (''status'', JStr (rtc_status t)), (''exit_code'', int_json (rtc_exit_code t)),
       (''wall_ms'', int_json (rtc_wall_ms t)), (''cost_estimate'', JNum (rtc_cost t))] @
      omit_empty ''result_ref'' (rtc_result_ref t) @
      [(''policy_decision'', JStr (rtc_policy t)), (''started_at'', JStr (rtc_started_at t)),
       (''ended_at'', JStr (rtc_ended_at t))])"

definition process_json :: "replay_process \<Rightarrow> json" where
  "process_json p = JObj
     [(''id'', JStr (rpr_id p)), (''session_id'', JStr (rpr_session_id p)), (''command'', JStr (rpr_command p)),
      (''status'', JStr (rpr_status p)), (''exit_code'', int_json (rpr_exit_code p)),
      (''started_at'', JStr (rpr_started_at p)), (''ended_at'', JStr (rpr_ended_at p))]"

definition effect_json :: "replay_effect \<Rightarrow> json" where
  "effect_json e = JObj
     ([(''id'', JStr (ref_id e)), (''effect_type'', JStr (ref_type e)), (''target'', JStr (ref_target e)),
       (''mode'', JStr (ref_mode e)), (''decision'', JStr (ref_decision e))] @
      omit_empty ''compensation_ref'' (ref_compensation e) @
      [(''status'', JStr (ref_status e)), (''payload'', JStr (ref_payload e))])"

definition event_json :: "replay_event \<Rightarrow> json" where
  "event_json e = JObj
     ([(''id'', JStr (rev_id e)), (''event_type'', JStr (rev_type e)), (''source'', JStr (rev_source e))] @
      omit_empty ''process_id'' (rev_process_id e) @ omit_empty ''snapshot_id'' (rev_snapshot_id e) @
      omit_empty ''correlation_method'' (rev_method e) @
      [(''correlation_confidence'', JNum (rev_confidence e)), (''payload'', JStr (rev_payload e))])"

text \<open>\<open>substrate_scope_id\<close> is never set and always omitted.\<close>

definition attempt_json :: "replay_attempt \<Rightarrow> json" where
  "attempt_json a = JObj
     ([(''id'', JStr (rat_id a)), (''execution_scope_id'', JStr (rat_id a))] @
      omit_empty ''base_state_id'' (rat_snapshot_id a) @ [(''snapshot_id'', JStr (rat_snapshot_id a))] @
      omit_empty ''tool_call_id'' (rat_tool_call_id a) @
      [(''workspace'', JStr (rat_workspace a)), (''strategy'', JStr (rat_strategy a)),
       (''command'', JStr (rat_command a)), (''status'', JStr (rat_status a)),
       (''risk_status'', JStr (rat_risk_status a))] @
      omit_empty ''artifact_result'' (rat_artifact_result a) @
      omit_none ''artifact_digest'' digest_json (rat_artifact_digest a) @
      [(''is_winner'', JBool (rat_is_winner a)), (''budget_exceeded'', JBool (rat_budget_exceeded a)),
       (''replay_blocked'', JBool (rat_replay_blocked a))] @
      omit_nil ''block_reasons'' JStr (rat_block_reasons a) @
      [(''score'', JNum (rat_score a)), (''cost_estimate'', JNum (rat_cost a))] @
      omit_none ''tool_call'' tool_call_json (rat_tool_call a) @
      omit_nil ''processes'' process_json (rat_processes a) @
      omit_nil ''external_effects'' effect_json (rat_effects a) @ omit_nil ''events'' event_json (rat_events a))"

definition rollout_json :: "replay_rollout \<Rightarrow> json" where
  "rollout_json r = JObj
     ([(''id'', JStr (rro_id r)), (''trajectory_id'', JStr (rro_id r)), (''run_id'', JStr (rro_run_id r)),
       (''base_state_id'', JStr (rro_base_snapshot_id r)), (''base_snapshot_id'', JStr (rro_base_snapshot_id r)),
       (''status'', JStr (rro_status r)), (''selected_execution_scope_id'', JStr (rro_winner_attempt_id r)),
       (''winner_attempt_id'', JStr (rro_winner_attempt_id r)), (''promotion_id'', JStr (rro_promotion_id r)),
       (''risk_status'', JStr (rro_risk_status r))] @
      omit_none ''base_state'' snapshot_json (rro_base_snapshot r) @
      [(''execution_scopes'', nil_slice attempt_json (rro_attempts r))] @
      omit_none ''base_snapshot'' snapshot_json (rro_base_snapshot r) @
      [(''attempts'', nil_slice attempt_json (rro_attempts r))])"

definition replay_json :: "replay_manifest \<Rightarrow> json" where
  "replay_json m = JObj
     ([(''schema_version'', JStr (rma_schema_version m)), (''mode'', JStr (rma_mode m)), (''scope'', JStr (rma_scope m))] @
      omit_empty ''run_id'' (rma_run_id m) @ omit_empty ''attempt_id'' (rma_attempt_id m) @
      omit_empty ''execution_scope_id'' (rma_attempt_id m) @
      [(''trajectories'', nil_slice rollout_json (rma_rollouts m)),
       (''rollouts'', nil_slice rollout_json (rma_rollouts m))])"

definition trajectory_rollout_json :: "replay_rollout \<Rightarrow> json" where
  "trajectory_rollout_json r = JObj
     ([(''id'', JStr (rro_id r)), (''base_snapshot_id'', JStr (rro_base_snapshot_id r)),
       (''status'', JStr (rro_status r))] @
      omit_empty ''local_candidate'' (rro_winner_attempt_id r) @ omit_empty ''promotion_id'' (rro_promotion_id r) @
      [(''risk_status'', JStr (rro_risk_status r))] @
      omit_none ''base_snapshot'' snapshot_json (rro_base_snapshot r))"

definition byte_count :: "bytes option \<Rightarrow> int" where
  "byte_count c = (case c of None \<Rightarrow> 0 | Some b \<Rightarrow> int (length b))"

definition change_json :: "file_change \<Rightarrow> json" where
  "change_json c = JObj
     ([(''path'', JStr (fc_path c)), (''change_type'', JStr (fc_type c)),
       (''base_exists'', JBool (fc_base c \<noteq> None)), (''next_exists'', JBool (fc_next c \<noteq> None)),
       (''base_sha256'', JStr (fc_base_sha256 c)), (''next_sha256'', JStr (fc_next_sha256 c)),
       (''base_bytes'', int_json (byte_count (fc_base c))), (''next_bytes'', int_json (byte_count (fc_next c)))] @
      omit_nil ''unified_diff'' JStr (fc_unified_diff c))"

definition summary_json :: "change_summary \<Rightarrow> json" where
  "summary_json s = JObj
     [(''created'', int_json (int (su_created s))), (''modified'', int_json (int (su_modified s))),
      (''deleted'', int_json (int (su_deleted s))), (''unchanged'', int_json (int (su_unchanged s)))]"

definition trajectory_json :: "trajectory \<Rightarrow> json" where
  "trajectory_json t =
     (let r = tj_rollout t; a = tj_attempt t in JObj
     ([(''run_id'', JStr (rro_run_id r)), (''rollout_id'', JStr (rro_id r)), (''attempt_id'', JStr (rat_id a)),
       (''snapshot_id'', JStr (rat_snapshot_id a))] @ omit_empty ''tool_call_id'' (rat_tool_call_id a) @
      [(''workspace'', JStr (rat_workspace a)), (''strategy'', JStr (rat_strategy a)),
       (''command'', JStr (rat_command a)), (''status'', JStr (rat_status a)),
       (''risk_status'', JStr (rat_risk_status a)),
       (''local_candidate_eligible'', JBool (rat_is_winner a \<and> \<not> rat_replay_blocked a)),
       (''replay_blocked'', JBool (rat_replay_blocked a))] @
      omit_nil ''block_reasons'' JStr (rat_block_reasons a) @
      [(''score'', JNum (rat_score a)), (''cost_estimate'', JNum (rat_cost a))] @
      omit_empty ''artifact_result'' (rat_artifact_result a) @
      omit_none ''artifact_digest'' digest_json (rat_artifact_digest a) @
      omit_none ''tool_call'' tool_call_json (rat_tool_call a) @
      omit_nil ''processes'' process_json (rat_processes a) @ omit_nil ''runtime_events'' event_json (rat_events a) @
      omit_nil ''external_effects'' effect_json (rat_effects a) @ omit_nil ''file_changes'' change_json (tj_changes t) @
      [(''file_change_summary'', summary_json (tj_summary t))]))"

definition trajectories_json :: "trajectory_manifest \<Rightarrow> json" where
  "trajectories_json m = JObj
     [(''schema_version'', JStr ''agentprovenance.trajectories/v1''), (''run_id'', JStr (tm_run m)),
      (''decision_owner'', JStr ''external_evaluator''),
      (''rollouts'', nil_slice trajectory_rollout_json (tm_rollouts m)),
      (''trajectories'', nil_slice trajectory_json (tm_trajectories m))]"

definition diff_attempt_json :: "file_diff_attempt \<Rightarrow> json" where
  "diff_attempt_json a =
     (let v = fd_view a in JObj
     ([(''attempt_id'', JStr (av_attempt_id v)), (''rollout_id'', JStr (av_rollout_id v)),
       (''tool_call_id'', JStr (av_tool_call_id v)), (''snapshot_id'', JStr (av_snapshot_id v)),
       (''workspace_path'', JStr (av_workspace_path v)), (''strategy'', JStr (av_strategy v)),
       (''command'', JStr (av_command v)), (''status'', JStr (av_status v)), (''is_winner'', JBool (av_is_winner v))] @
      omit_empty ''artifact_ref'' (av_artifact_ref v) @
      [(''changed'', JBool (fd_changed a)), (''file_exists'', JBool (fd_file_exists a)),
       (''file_sha256'', JStr (fd_file_sha256 a))] @ omit_nil ''unified_diff'' JStr (fd_unified_diff a)))"

definition diff_json :: "file_diff_manifest \<Rightarrow> json" where
  "diff_json m = JObj
     [(''schema_version'', JStr (fm_schema_version m)), (''run_id'', JStr (fm_run_id m)), (''file'', JStr (fm_file m)),
      (''base_snapshot_id'', JStr (fm_base_snapshot_id m)), (''base_path'', JStr (fm_base_path m)),
      (''base_exists'', JBool (fm_base_exists m)), (''base_sha256'', JStr (fm_base_sha256 m)),
      (''attempts'', nil_slice diff_attempt_json (fm_attempts m))]"

definition blame_entry_json :: "file_blame_entry \<Rightarrow> json" where
  "blame_entry_json e =
     (let v = fb_view e in JObj
     ([(''file'', JStr (fb_file e)), (''attempt_id'', JStr (av_attempt_id v)), (''rollout_id'', JStr (av_rollout_id v)),
       (''tool_call_id'', JStr (av_tool_call_id v)), (''snapshot_id'', JStr (av_snapshot_id v)),
       (''is_winner'', JBool (av_is_winner v)), (''changed'', JBool (fb_changed e)), (''reason'', JStr (fb_reason e)),
       (''sha256'', JStr (fb_sha256 e)), (''status'', JStr (av_status v)), (''strategy'', JStr (av_strategy v)),
       (''command'', JStr (av_command v))] @ omit_empty ''artifact_ref'' (av_artifact_ref v) @
      [(''workspace_path'', JStr (av_workspace_path v))]))"

definition blame_json :: "file_blame_manifest \<Rightarrow> json" where
  "blame_json m = JObj
     [(''schema_version'', JStr (bm_schema_version m)), (''run_id'', JStr (bm_run_id m)), (''file'', JStr (bm_file m)),
      (''base_snapshot_id'', JStr (bm_base_snapshot_id m)), (''base_sha256'', JStr (bm_base_sha256 m)),
      (''entries'', nil_slice blame_entry_json (bm_entries m))]"

section \<open>The comparison is exact\<close>

definition summary_total :: "change_summary \<Rightarrow> nat" where
  "summary_total s = su_created s + su_modified s + su_deleted s"

lemma fold_count:
  "summary_total (fold (\<lambda>c. count_change (fc_type c)) cs s) =
     summary_total s + length (filter (\<lambda>c. fc_type c \<in> {''created'', ''deleted'', ''modified''}) cs)"
  "su_unchanged (fold (\<lambda>c. count_change (fc_type c)) cs s) =
     su_unchanged s + length (filter (\<lambda>c. fc_type c \<notin> {''created'', ''deleted'', ''modified''}) cs)"
  by (induction cs arbitrary: s) (auto simp: count_change_def summary_total_def)

lemma change_type_kinds: "change_type sha b n \<in> {''created'', ''deleted'', ''modified'', ''unchanged''}"
  by (auto simp: change_type_def split: option.splits)

lemma ordered_paths_set: "set (ordered_paths base nxt) = dom (map_of base) \<union> dom (map_of nxt)"
  by (simp add: ordered_paths_def dom_map_of_conv_image_fst)

text \<open>Two files under one path are told apart by their digests.\<close>

definition told_apart :: "(bytes \<Rightarrow> string) \<Rightarrow> (string \<times> bytes) list \<Rightarrow> (string \<times> bytes) list \<Rightarrow> bool" where
  "told_apart sha base nxt \<longleftrightarrow>
     (\<forall>(p, b) \<in> set base. \<forall>n. map_of nxt p = Some n \<and> sha b = sha n \<longrightarrow> b = n)"

lemma unchanged_iff:
  assumes "told_apart sha base nxt"
  shows "change_type sha (map_of base p) (map_of nxt p) = ''unchanged'' \<longleftrightarrow> map_of base p = map_of nxt p"
  using assms map_of_SomeD [of base p]
  by (fastforce simp: change_type_def told_apart_def split: option.splits)

definition of_kind :: "(string \<rightharpoonup> bytes) \<Rightarrow> (string \<rightharpoonup> bytes) \<Rightarrow> file_change \<Rightarrow> bool" where
  "of_kind base nxt c \<longleftrightarrow>
     fc_type c = (if base (fc_path c) = None then ''created'' else if nxt (fc_path c) = None then ''deleted'' else ''modified'') \<and>
     fc_base c = base (fc_path c) \<and> fc_next c = nxt (fc_path c) \<and>
     fc_unified_diff c = unified_lines (base (fc_path c)) (nxt (fc_path c))"

text \<open>C38: A trajectory lists every path whose content differs between the base snapshot and the attempt's
workspace, once, in order and with the right kind of change, and nothing else; the summary counts the changes
and the paths that kept their content.\<close>
theorem trajectory_changes_exact:
  assumes "told_apart sha base nxt" and "compare_file_states sha base nxt = (changes, summary)"
  shows "sorted (map fc_path changes) \<and> distinct (map fc_path changes) \<and>
    fc_path ` set changes = {p. map_of base p \<noteq> map_of nxt p} \<and>
    list_all (of_kind (map_of base) (map_of nxt)) changes \<and>
    summary_total summary = length changes \<and>
    su_unchanged summary = card {p. map_of base p = map_of nxt p \<and> map_of base p \<noteq> None}"
proof -
  let ?at = "file_change_at sha (map_of base) (map_of nxt)"
  let ?ps = "ordered_paths base nxt"
  define kept where "kept p \<longleftrightarrow> map_of base p = map_of nxt p" for p
  have ty: "fc_type (?at p) = ''unchanged'' \<longleftrightarrow> kept p" for p
    using unchanged_iff [OF assms(1)] by (simp add: file_change_at_def kept_def)
  have tys: "fc_type (?at p) \<in> {''created'', ''deleted'', ''modified''} \<longleftrightarrow> \<not> kept p" for p
    using ty [of p] change_type_kinds [of sha "map_of base p" "map_of nxt p"] by (auto simp: file_change_at_def)
  have cs: "changes = map ?at (filter (\<lambda>p. \<not> kept p) ?ps)"
    using assms(2) by (simp add: compare_file_states_def Let_def filter_map o_def ty)
  have ps: "map fc_path changes = filter (\<lambda>p. \<not> kept p) ?ps"
    by (simp add: cs o_def file_change_at_def)
  have total: "summary_total summary = length (filter (\<lambda>p. \<not> kept p) ?ps)"
    "su_unchanged summary = length (filter kept ?ps)"
    using assms(2) fold_count [of "map ?at ?ps"]
    by (auto simp: compare_file_states_def Let_def filter_map o_def tys summary_total_def simp del: insert_iff)
  have srt: "sorted (map fc_path changes)" "distinct (map fc_path changes)"
    unfolding ps using sorted_filter [of id ?ps] by (simp_all add: ordered_paths_def)
  have paths: "fc_path ` set changes = {p. map_of base p \<noteq> map_of nxt p}"
  proof -
    have "fc_path ` set changes = set (map fc_path changes)" by simp
    also have "\<dots> = {p. map_of base p \<noteq> map_of nxt p}"
      unfolding ps by (auto simp: ordered_paths_set kept_def)
    finally show ?thesis .
  qed
  have same: "b = n" if "map_of base p = Some b" "map_of nxt p = Some n" "sha b = sha n" for p b n
    using assms(1) map_of_SomeD [OF that(1)] that(2,3) by (fastforce simp: told_apart_def)
  have kinds: "list_all (of_kind (map_of base) (map_of nxt)) changes"
    by (auto simp: cs list_all_iff of_kind_def file_change_at_def kept_def change_type_def ordered_paths_set
        split: option.splits dest: same)
  have "card {p. map_of base p = map_of nxt p \<and> map_of base p \<noteq> None} = length (filter kept ?ps)"
  proof -
    have "{p. map_of base p = map_of nxt p \<and> map_of base p \<noteq> None} = set (filter kept ?ps)"
      by (auto simp: ordered_paths_set kept_def)
    moreover have "distinct (filter kept ?ps)" by (simp add: ordered_paths_def)
    ultimately show ?thesis using distinct_card [of "filter kept ?ps"] by simp
  qed
  with srt paths kinds total show ?thesis by (simp add: cs)
qed

lemma trajectory_changes_exact_witness:
  "case compare_file_states (\<lambda>x. x) [(''a'', ''1''), (''b'', ''2''), (''c'', ''3'')] [(''a'', ''1''), (''b'', ''x''), (''d'', ''4'')] of
     (changes, summary) \<Rightarrow> fc_path ` set changes = {''b'', ''c'', ''d''} \<and> summary_total summary = length changes"
proof -
  let ?base = "[(''a'', ''1''), (''b'', ''2''), (''c'', ''3'')]" and ?nxt = "[(''a'', ''1''), (''b'', ''x''), (''d'', ''4'')]"
  have t: "told_apart (\<lambda>x. x) ?base ?nxt" by (simp add: told_apart_def)
  have "{p. map_of ?base p \<noteq> map_of ?nxt p} = {''b'', ''c'', ''d''}" by auto
  then show ?thesis using trajectory_changes_exact [OF t] by (auto split: prod.split)
qed

end
