(* ===== verification/Objects.thy ===== *)
theory Objects
  imports Trajectory Verify Redact World Correlation
begin

text \<open>
  The content-addressed objects of a run (\<open>internal/provenance/objects.go\<close>): \<open>put\<close>, which writes an object under
  its hash and records it, and \<open>MaterializeRun\<close> with its seventeen kinds of objects. The state is the store, the
  files, and the context of one materialisation: the hash of every object put so far by its reference, the
  number of objects and the root hashes. The lemmas show that whatever fails on the way, every recorded object
  has its file, with the hash it is recorded under, and its parents.
\<close>

section \<open>The state\<close>

text \<open>How \<open>os.WriteFile\<close> ends; a torn write leaves what it wrote before it failed.\<close>

datatype write_outcome = Written | NotWritten | Torn bytes

record object_env =
  oe_sha :: "bytes \<Rightarrow> string"
  oe_root :: string
  oe_provenance :: string
  oe_mkdir :: "string \<Rightarrow> bool"
  oe_write :: "string \<Rightarrow> bytes \<Rightarrow> write_outcome"
  oe_denied :: "string \<Rightarrow> bool"
  oe_walk :: "(string \<rightharpoonup> bytes) \<Rightarrow> string \<Rightarrow> walk"

record object_state =
  os_files :: "string \<rightharpoonup> bytes"
  os_world :: world
  os_refs :: "string \<rightharpoonup> string"
  os_count :: int
  os_roots :: "string list"

definition on_store :: "(world \<Rightarrow> 'a \<times> world) \<Rightarrow> object_state \<Rightarrow> 'a \<times> object_state" where
  "on_store f s = (case f (os_world s) of (a, w) \<Rightarrow> (a, s\<lparr>os_world := w\<rparr>))"

definition readable :: "object_env \<Rightarrow> object_state \<Rightarrow> string \<Rightarrow> bytes option" where
  "readable env s p = (if oe_denied env p then None else os_files s p)"

definition file_view :: "object_env \<Rightarrow> object_state \<Rightarrow> string \<Rightarrow> file_read" where
  "file_view env s p =
     (if oe_denied env p then Unreadable else case os_files s p of None \<Rightarrow> Missing | Some c \<Rightarrow> Content c)"

section \<open>\<open>put\<close>\<close>

text \<open>\<open>emit\<close> prints the members of an object in the order they have, \<open>jmap\<close> is a map with its keys sorted.\<close>

fun emit :: "json \<Rightarrow> string" where
  "emit (JArr vs) = ''['' @ join '','' (map emit vs) @ '']''"
| "emit (JObj kvs) = CHR 0x7B # join '','' (map (\<lambda>(k, v). quote k @ '':'' @ emit v) kvs) @ [CHR 0x7D]"
| "emit v = marshal v"

definition jmap :: "(string \<times> json) list \<Rightarrow> json" where
  "jmap kvs = JObj (sort_key fst kvs)"

record prov_object =
  ob_type :: string
  ob_source_id :: string
  ob_run_id :: string
  ob_rollout_id :: string
  ob_parents :: "string list"
  ob_refs :: "(string \<times> json) list"
  ob_payload :: "(string \<times> json) list"

definition object_text :: "prov_object \<Rightarrow> string" where
  "object_text b = emit (JObj
     ([(''schema'', JStr ''agentprov.provenance.object.v1''), (''type'', JStr (ob_type b)),
       (''source_id'', JStr (ob_source_id b))] @
      omit_empty ''run_id'' (ob_run_id b) @ omit_empty ''rollout_id'' (ob_rollout_id b) @
      omit_nil ''parents'' JStr (ob_parents b) @
      (if ob_refs b = [] then [] else [(''refs'', jmap (ob_refs b))]) @
      (if ob_payload b = [] then [] else [(''payload'', jmap (ob_payload b))])))"

definition object_root :: "object_env \<Rightarrow> string" where
  "object_root env =
     join_path [if oe_provenance env = [] then join_path [oe_root env, ''provenance''] else oe_provenance env,
       ''objects'', ''sha256'']"

definition object_path :: "object_env \<Rightarrow> string \<Rightarrow> string" where
  "object_path env h =
     (let clean = trim_prefix h ''sha256:'' in join_path [object_root env, take 2 clean, clean @ ''.json''])"

definition object_row :: "prov_object \<Rightarrow> string \<Rightarrow> string \<Rightarrow> bytes \<Rightarrow> string \<Rightarrow> provenance_object" where
  "object_row b h path raw t =
     \<lparr>po_hash = h, po_object_type = ob_type b, po_source_id = ob_source_id b, po_run_id = ob_run_id b,
      po_rollout_id = ob_rollout_id b, po_parent_hashes = join '','' (ob_parents b), po_path = path,
      po_size_bytes = int (length raw), po_created_at = t\<rparr>"

definition normal_object :: "string \<Rightarrow> prov_object \<Rightarrow> prov_object" where
  "normal_object run b =
     b\<lparr>ob_run_id := (if ob_run_id b = [] then run else ob_run_id b), ob_parents := sort (ob_parents b)\<rparr>"

definition hash_of :: "object_env \<Rightarrow> bytes \<Rightarrow> string" where
  "hash_of env raw = ''sha256:'' @ oe_sha env raw"

definition put :: "object_env \<Rightarrow> string \<Rightarrow> prov_object \<Rightarrow> object_state \<Rightarrow> (go_error + string) \<times> object_state" where
  "put env run b s =
     (let b = normal_object run b; raw = redact_string (object_text b); h = hash_of env raw;
          path = object_path env h in
      if \<not> oe_mkdir env path then (Inl (Errorf ''mkdir''), s)
      else (case oe_write env path raw of
        NotWritten \<Rightarrow> (Inl (Errorf ''write''), s)
      | Torn left \<Rightarrow> (Inl (Errorf ''write''), s\<lparr>os_files := (os_files s)(path \<mapsto> left)\<rparr>)
      | Written \<Rightarrow>
          let s = s\<lparr>os_files := (os_files s)(path \<mapsto> raw)\<rparr>; (t, s) = on_store now s;
              (ok, s) = on_store (exec_total (tbl_replace db_provenance_objects_update po_hash (object_row b h path raw t))) s
          in if \<not> ok then (Inl SqlError, s)
             else (Inr h, s\<lparr>os_refs := (os_refs s)(ob_type b @ ''/'' @ ob_source_id b \<mapsto> h),
                             os_count := os_count s + 1\<rparr>)))"

definition parent :: "object_state \<Rightarrow> string list \<Rightarrow> string list" where
  "parent s keys =
     sort (remdups (filter (\<lambda>h. h \<noteq> [])
       (map (\<lambda>k. case os_refs s k of None \<Rightarrow> [] | Some h \<Rightarrow> h) (filter (\<lambda>k. k \<noteq> []) keys))))"

text \<open>\<open>PutExternalObject\<close>: a context of its own.\<close>

definition put_external_object ::
  "object_env \<Rightarrow> prov_object \<Rightarrow> object_state \<Rightarrow> (go_error + string \<times> string) \<times> object_state" where
  "put_external_object env b s =
     (if trim_space (ob_type b) = [] then (Inl (Errorf ''object type is required''), s)
      else if trim_space (ob_source_id b) = [] then (Inl (Errorf ''source id is required''), s)
      else if trim_space (ob_run_id b) = [] then (Inl (Errorf ''run_id is required''), s)
      else
        (case put env (ob_run_id b) b (s\<lparr>os_refs := Map.empty, os_count := 0, os_roots := []\<rparr>) of
           (r, s') \<Rightarrow>
             ((case r of Inl e \<Rightarrow> Inl e | Inr h \<Rightarrow> Inr (h, object_path env h)),
              s'\<lparr>os_refs := os_refs s, os_count := os_count s, os_roots := os_roots s\<rparr>)))"

section \<open>The objects of rows\<close>

text \<open>An object before its parents are looked up, and whether its hash becomes a root.\<close>

record draft =
  dr_type :: string
  dr_source_id :: string
  dr_rollout_id :: string
  dr_parents :: "string list"
  dr_hashes :: "string list"
  dr_refs :: "(string \<times> json) list"
  dr_payload :: "(string \<times> json) list"
  dr_root :: bool

definition add_root :: "string \<Rightarrow> object_state \<Rightarrow> object_state" where
  "add_root h s = s\<lparr>os_roots := os_roots s @ [h]\<rparr>"

definition put_object :: "object_env \<Rightarrow> string \<Rightarrow> draft \<Rightarrow> object_state \<Rightarrow> (go_error + string) \<times> object_state" where
  "put_object env run d s =
     put env run \<lparr>ob_type = dr_type d, ob_source_id = dr_source_id d, ob_run_id = [], ob_rollout_id = dr_rollout_id d,
       ob_parents = parent s (dr_parents d) @ dr_hashes d, ob_refs = dr_refs d, ob_payload = dr_payload d\<rparr> s"

definition put_draft :: "object_env \<Rightarrow> string \<Rightarrow> draft \<Rightarrow> object_state \<Rightarrow> go_error option \<times> object_state" where
  "put_draft env run d s =
     (case put_object env run d s of
        (Inl e, s) \<Rightarrow> (Some e, s)
      | (Inr h, s) \<Rightarrow> (None, if dr_root d then add_root h s else s))"

fun put_drafts :: "object_env \<Rightarrow> string \<Rightarrow> (object_state \<Rightarrow> draft) list \<Rightarrow> object_state \<Rightarrow> go_error option \<times> object_state" where
  "put_drafts env run [] s = (None, s)"
| "put_drafts env run (d # ds) s =
     (case put_draft env run (d s) s of (Some e, s) \<Rightarrow> (Some e, s) | (None, s) \<Rightarrow> put_drafts env run ds s)"

definition materialize_rows ::
  "object_env \<Rightarrow> string \<Rightarrow> (db \<Rightarrow> 'r list) \<Rightarrow> ('r \<Rightarrow> object_state \<Rightarrow> draft) \<Rightarrow> object_state \<Rightarrow> go_error option \<times> object_state" where
  "materialize_rows env run sel mk s =
     (case on_store (query sel) s of
        (None, s) \<Rightarrow> (Some SqlError, s)
      | (Some rows, s) \<Rightarrow> put_drafts env run (map mk rows) s)"

definition texts :: "(string \<times> string) list \<Rightarrow> (string \<times> json) list" where
  "texts kvs = map (\<lambda>(k, v). (k, JStr v)) kvs"

definition ints :: "(string \<times> int) list \<Rightarrow> (string \<times> json) list" where
  "ints kvs = map (\<lambda>(k, v). (k, int_json v)) kvs"

definition rats :: "(string \<times> rat) list \<Rightarrow> (string \<times> json) list" where
  "rats kvs = map (\<lambda>(k, v). (k, JNum v)) kvs"

definition run_rollouts :: "string \<Rightarrow> db \<Rightarrow> string list" where
  "run_rollouts run d = map ro_id (filter (\<lambda>r. ro_run_id r = run) (db_rollouts d))"

definition snapshot_rows :: "string \<Rightarrow> db \<Rightarrow> snapshot list" where
  "snapshot_rows run d = order_asc sn_created_at (filter (\<lambda>s.
     sn_id s \<in> set (map ro_base_snapshot_id (filter (\<lambda>r. ro_run_id r = run) (db_rollouts d))) \<or>
     sn_id s \<in> set (map fa_snapshot_id (filter (\<lambda>a. fa_rollout_id a \<in> set (run_rollouts run d)) (db_fork_attempts d))) \<or>
     sn_session_id s \<in> set (map (\<lambda>x. Some (se_id x)) (filter (\<lambda>x. se_run_id x = run) (db_sessions d)))) (db_snapshots d))"

definition snapshot_draft :: "snapshot \<Rightarrow> object_state \<Rightarrow> draft" where
  "snapshot_draft r s =
     \<lparr>dr_type = ''snapshot'', dr_source_id = sn_id r, dr_rollout_id = [],
      dr_parents = [''snapshot/'' @ coalesce (sn_parent_id r)],
      dr_hashes = [], dr_refs = texts [(''parent_id'', coalesce (sn_parent_id r))],
      dr_payload = texts [(''name'', coalesce (sn_name r)), (''kind'', sn_kind r), (''source'', sn_source r),
          (''path'', sn_path r), (''manifest_hash'', sn_manifest_hash r), (''status'', sn_status r),
          (''created_at'', sn_created_at r)] @
        ints [(''file_count'', sn_file_count r), (''bytes'', sn_bytes r)] @ [(''tainted'', JBool (sn_tainted r \<noteq> 0))],
      dr_root = False\<rparr>"

definition materialize_snapshots :: "object_env \<Rightarrow> string \<Rightarrow> object_state \<Rightarrow> go_error option \<times> object_state" where
  "materialize_snapshots env run = materialize_rows env run (snapshot_rows run) snapshot_draft"

definition rollout_draft :: "rollout \<Rightarrow> object_state \<Rightarrow> draft" where
  "rollout_draft r s =
     \<lparr>dr_type = ''rollout'', dr_source_id = ro_id r, dr_rollout_id = ro_id r,
      dr_parents = [''snapshot/'' @ ro_base_snapshot_id r],
      dr_hashes = [], dr_refs = texts [(''base_snapshot_id'', ro_base_snapshot_id r), (''winner_attempt_id'', ro_winner_attempt_id r),
        (''promotion_id'', ro_promotion_id r)],
      dr_payload = texts [(''status'', ro_status r), (''risk_status'', ro_risk_status r),
          (''created_at'', ro_created_at r), (''updated_at'', ro_updated_at r)] @
        ints [(''fanout'', ro_fanout r)] @ rats [(''cost_estimate'', ro_cost_estimate r)],
      dr_root = True\<rparr>"

definition materialize_rollouts :: "object_env \<Rightarrow> string \<Rightarrow> object_state \<Rightarrow> go_error option \<times> object_state" where
  "materialize_rollouts env run =
     materialize_rows env run (\<lambda>d. order_asc ro_created_at (filter (\<lambda>r. ro_run_id r = run) (db_rollouts d))) rollout_draft"

definition attempt_rows :: "string \<Rightarrow> db \<Rightarrow> fork_attempt list" where
  "attempt_rows run d =
     order_asc fa_created_at (filter (\<lambda>a. fa_rollout_id a \<in> set (run_rollouts run d)) (db_fork_attempts d))"

definition attempt_draft :: "fork_attempt \<Rightarrow> object_state \<Rightarrow> draft" where
  "attempt_draft r s =
     \<lparr>dr_type = ''attempt'', dr_source_id = fa_id r, dr_rollout_id = fa_rollout_id r,
      dr_parents = [''rollout/'' @ fa_rollout_id r, ''snapshot/'' @ fa_snapshot_id r],
      dr_hashes = [], dr_refs = texts [(''rollout_id'', fa_rollout_id r), (''tool_call_id'', fa_tool_call_id r),
        (''snapshot_id'', fa_snapshot_id r), (''artifact_result'', fa_artifact_result r)],
      dr_payload = texts [(''strategy'', fa_strategy r), (''command'', fa_command r), (''status'', fa_status r),
          (''output_summary'', fa_output_summary r), (''risk_status'', fa_risk_status r), (''created_at'', fa_created_at r)] @
        ints [(''exit_code'', coalesce_int (fa_exit_code r)), (''wall_ms'', fa_wall_ms r)] @
        rats [(''score'', fa_score r), (''cost_estimate'', fa_cost_estimate r), (''saved_cost'', fa_saved_cost r)] @
        [(''budget_exceeded'', JBool (fa_budget_exceeded r \<noteq> 0)), (''winner'', JBool (fa_is_winner r \<noteq> 0))],
      dr_root = False\<rparr>"

definition materialize_attempts :: "object_env \<Rightarrow> string \<Rightarrow> object_state \<Rightarrow> go_error option \<times> object_state" where
  "materialize_attempts env run = materialize_rows env run (attempt_rows run) attempt_draft"

definition tool_call_draft :: "tool_call \<Rightarrow> object_state \<Rightarrow> draft" where
  "tool_call_draft r s =
     \<lparr>dr_type = ''tool_call'', dr_source_id = tc_id r, dr_rollout_id = tc_rollout_id r,
      dr_parents = [''attempt/'' @ tc_attempt_id r, ''rollout/'' @ tc_rollout_id r],
      dr_hashes = [], dr_refs = texts [(''attempt_id'', tc_attempt_id r), (''session_id'', tc_session_id r), (''result_ref'', tc_result_ref r)],
      dr_payload = texts [(''command'', tc_command r), (''args_hash'', tc_args_hash r), (''status'', tc_status r),
          (''policy_decision'', tc_policy_decision r), (''created_at'', tc_created_at r),
          (''started_at'', tc_started_at r), (''ended_at'', tc_ended_at r)] @
        ints [(''exit_code'', coalesce_int (tc_exit_code r)), (''wall_ms'', tc_wall_ms r)] @
        rats [(''cost_estimate'', tc_cost_estimate r)],
      dr_root = False\<rparr>"

definition materialize_tool_calls :: "object_env \<Rightarrow> string \<Rightarrow> object_state \<Rightarrow> go_error option \<times> object_state" where
  "materialize_tool_calls env run =
     materialize_rows env run (\<lambda>d. order_asc tc_created_at (filter (\<lambda>r. tc_run_id r = run) (db_tool_calls d))) tool_call_draft"

definition run_sessions :: "string \<Rightarrow> db \<Rightarrow> string list" where
  "run_sessions run d = map se_id (filter (\<lambda>x. se_run_id x = run) (db_sessions d))"

definition process_draft :: "process \<Rightarrow> object_state \<Rightarrow> draft" where
  "process_draft r s =
     \<lparr>dr_type = ''process'', dr_source_id = pr_id r, dr_rollout_id = [],
      dr_parents = [''tool_call/'' @ pr_tool_call_id r],
      dr_hashes = [], dr_refs = texts [(''session_id'', pr_session_id r), (''tool_call_id'', pr_tool_call_id r)],
      dr_payload = texts [(''command'', pr_command r), (''status'', pr_status r), (''started_at'', pr_started_at r),
          (''ended_at'', coalesce (pr_ended_at r))] @ ints [(''exit_code'', coalesce_int (pr_exit_code r))],
      dr_root = False\<rparr>"

definition materialize_processes :: "object_env \<Rightarrow> string \<Rightarrow> object_state \<Rightarrow> go_error option \<times> object_state" where
  "materialize_processes env run =
     materialize_rows env run
       (\<lambda>d. order_asc pr_started_at (filter (\<lambda>p. pr_session_id p \<in> set (run_sessions run d)) (db_processes d))) process_draft"

definition artifact_draft :: "object_env \<Rightarrow> fork_attempt \<Rightarrow> object_state \<Rightarrow> draft" where
  "artifact_draft env r s =
     (case file_digest (oe_sha env) (readable env s) (fa_artifact_result r) of (h, n, found) \<Rightarrow>
     \<lparr>dr_type = ''artifact'', dr_source_id = fa_artifact_result r, dr_rollout_id = fa_rollout_id r,
      dr_parents = [''attempt/'' @ fa_id r, ''tool_call/'' @ fa_tool_call_id r],
      dr_hashes = [], dr_refs = texts [(''attempt_id'', fa_id r), (''tool_call_id'', fa_tool_call_id r), (''path'', fa_artifact_result r)],
      dr_payload = texts [(''file_sha256'', h)] @ ints [(''size_bytes'', int n)] @ [(''exists'', JBool found)],
      dr_root = False\<rparr>)"

definition materialize_artifacts :: "object_env \<Rightarrow> string \<Rightarrow> object_state \<Rightarrow> go_error option \<times> object_state" where
  "materialize_artifacts env run =
     materialize_rows env run (\<lambda>d. filter (\<lambda>a. fa_artifact_result a \<noteq> []) (attempt_rows run d)) (artifact_draft env)"

definition promotion_draft :: "promotion \<Rightarrow> object_state \<Rightarrow> draft" where
  "promotion_draft r s =
     \<lparr>dr_type = ''promotion'', dr_source_id = pm_id r, dr_rollout_id = pm_rollout_id r,
      dr_parents = [''rollout/'' @ pm_rollout_id r, ''attempt/'' @ pm_attempt_id r, ''snapshot/'' @ pm_base_snapshot_id r],
      dr_hashes = [], dr_refs = texts [(''attempt_id'', pm_attempt_id r), (''base_snapshot_id'', pm_base_snapshot_id r)],
      dr_payload = texts [(''status'', pm_status r), (''risk_status'', pm_risk_status r), (''reason'', pm_reason r),
          (''telemetry_watermark'', pm_telemetry_watermark r), (''drain_started_at'', pm_drain_started_at r),
          (''drain_completed_at'', pm_drain_completed_at r), (''created_at'', pm_created_at r),
          (''updated_at'', pm_updated_at r)] @
        ints [(''drain_queued_before'', pm_drain_queued_before r), (''drain_processed'', pm_drain_processed r),
          (''drain_pending_after'', pm_drain_pending_after r)],
      dr_root = True\<rparr>"

definition materialize_promotions :: "object_env \<Rightarrow> string \<Rightarrow> object_state \<Rightarrow> go_error option \<times> object_state" where
  "materialize_promotions env run =
     materialize_rows env run
       (\<lambda>d. order_asc pm_created_at (filter (\<lambda>p. pm_rollout_id p \<in> set (run_rollouts run d)) (db_promotions d))) promotion_draft"

definition evidence_draft :: "evidence_event \<Rightarrow> object_state \<Rightarrow> draft" where
  "evidence_draft r s =
     \<lparr>dr_type = ''evidence'', dr_source_id = ee_id r, dr_rollout_id = ee_rollout_id r,
      dr_parents = [''attempt/'' @ ee_attempt_id r, ''tool_call/'' @ ee_tool_call_id r, ''snapshot/'' @ ee_snapshot_id r],
      dr_hashes = [], dr_refs = texts [(''attempt_id'', ee_attempt_id r), (''session_id'', ee_session_id r),
        (''tool_call_id'', ee_tool_call_id r), (''snapshot_id'', ee_snapshot_id r)],
      dr_payload = texts [(''event_type'', ee_event_type r), (''priority'', ee_priority r), (''payload'', ee_payload r),
        (''status'', ee_status r), (''created_at'', ee_created_at r), (''processed_at'', ee_processed_at r)],
      dr_root = False\<rparr>"

definition materialize_evidence :: "object_env \<Rightarrow> string \<Rightarrow> object_state \<Rightarrow> go_error option \<times> object_state" where
  "materialize_evidence env run =
     materialize_rows env run (\<lambda>d. order_asc ee_created_at (filter (\<lambda>r. ee_run_id r = run) (db_evidence_events d))) evidence_draft"

definition event_draft :: "event \<Rightarrow> object_state \<Rightarrow> draft" where
  "event_draft r s =
     \<lparr>dr_type = ''event'', dr_source_id = ev_id r, dr_rollout_id = [],
      dr_parents = [''tool_call/'' @ ev_tool_call_id r, ''process/'' @ ev_process_id r, ''snapshot/'' @ ev_snapshot_id r],
      dr_hashes = [], dr_refs = texts [(''session_id'', coalesce (ev_session_id r)), (''tool_call_id'', ev_tool_call_id r),
        (''process_id'', ev_process_id r), (''snapshot_id'', ev_snapshot_id r)],
      dr_payload = texts [(''source'', ev_source r), (''event_type'', ev_event_type r), (''payload'', ev_payload r),
        (''created_at'', ev_created_at r)],
      dr_root = False\<rparr>"

definition materialize_events :: "object_env \<Rightarrow> string \<Rightarrow> object_state \<Rightarrow> go_error option \<times> object_state" where
  "materialize_events env run =
     materialize_rows env run (\<lambda>d. order_asc ev_created_at (filter (\<lambda>r. ev_run_id r = Some run) (db_events d))) event_draft"

text \<open>The identifiers as they decode into a slice of strings: an element of another type is left empty, and a
text that is no array leaves the slice nil.\<close>

definition decoded_ids :: "string \<Rightarrow> string list \<times> json" where
  "decoded_ids text =
     (case decode text of
        Some (JArr vs) \<Rightarrow> (let ids = map (\<lambda>v. case v of JStr x \<Rightarrow> x | _ \<Rightarrow> []) vs in (ids, JArr (map JStr ids)))
      | _ \<Rightarrow> ([], JNull))"

definition batch_draft :: "string \<Rightarrow> telemetry_batch \<Rightarrow> object_state \<Rightarrow> draft" where
  "batch_draft run r s =
     (case decoded_ids (tb_event_ids_json r) of (ids, v) \<Rightarrow>
     \<lparr>dr_type = ''telemetry_batch'', dr_source_id = tb_id r, dr_rollout_id = [],
      dr_parents = map (\<lambda>i. ''event/'' @ i) ids, dr_hashes = [],
      dr_refs = texts [(''run_id'', run)] @ [(''event_ids'', v)],
      dr_payload = texts [(''format'', tb_format r), (''path'', tb_path r), (''file_sha256'', tb_file_sha256 r),
          (''event_ids_sha256'', tb_event_ids_sha256 r), (''created_at'', tb_created_at r)] @
        ints [(''read'', tb_read_count r), (''ingested'', tb_ingested_count r), (''skipped'', tb_skipped_count r),
          (''failed'', tb_failed_count r)] @ [(''event_ids'', v)],
      dr_root = False\<rparr>)"

definition materialize_telemetry_batches :: "object_env \<Rightarrow> string \<Rightarrow> object_state \<Rightarrow> go_error option \<times> object_state" where
  "materialize_telemetry_batches env run =
     materialize_rows env run (\<lambda>d. order_asc tb_created_at (filter (\<lambda>r. tb_run_id r = run) (db_telemetry_batches d)))
       (batch_draft run)"

definition decision_draft :: "policy_decision \<Rightarrow> object_state \<Rightarrow> draft" where
  "decision_draft r s =
     \<lparr>dr_type = ''policy_decision'', dr_source_id = pd_id r, dr_rollout_id = [],
      dr_parents = [''event/'' @ coalesce (pd_event_id r)], dr_hashes = [],
      dr_refs = texts [(''event_id'', coalesce (pd_event_id r)), (''session_id'', coalesce (pd_session_id r))],
      dr_payload = texts [(''rule_id'', pd_rule_id r), (''decision'', pd_decision r), (''reason'', pd_reason r),
        (''created_at'', pd_created_at r)],
      dr_root = False\<rparr>"

definition materialize_policy_decisions :: "object_env \<Rightarrow> string \<Rightarrow> object_state \<Rightarrow> go_error option \<times> object_state" where
  "materialize_policy_decisions env run =
     materialize_rows env run
       (\<lambda>d. order_asc pd_created_at (filter (\<lambda>r. pd_run_id r = Some run) (db_policy_decisions d))) decision_draft"

definition risk_draft :: "risk_signal \<Rightarrow> object_state \<Rightarrow> draft" where
  "risk_draft r s =
     \<lparr>dr_type = ''risk_signal'', dr_source_id = rk_id r, dr_rollout_id = [],
      dr_parents = [''event/'' @ rk_event_id r, ''policy_decision/'' @ rk_policy_decision_id r,
        ''tool_call/'' @ rk_tool_call_id r, ''process/'' @ rk_process_id r, ''snapshot/'' @ rk_snapshot_id r],
      dr_hashes = [],
      dr_refs = texts [(''event_id'', rk_event_id r), (''policy_decision_id'', rk_policy_decision_id r),
        (''session_id'', rk_session_id r), (''tool_call_id'', rk_tool_call_id r), (''process_id'', rk_process_id r),
        (''snapshot_id'', rk_snapshot_id r)],
      dr_payload = texts [(''signal_type'', rk_signal_type r), (''severity'', rk_severity r), (''reason'', rk_reason r),
        (''recommended_action'', rk_recommended_action r), (''payload'', rk_payload r), (''created_at'', rk_created_at r)],
      dr_root = False\<rparr>"

definition materialize_risk_signals :: "object_env \<Rightarrow> string \<Rightarrow> object_state \<Rightarrow> go_error option \<times> object_state" where
  "materialize_risk_signals env run =
     materialize_rows env run (\<lambda>d. order_asc rk_created_at (filter (\<lambda>r. rk_run_id r = run) (db_risk_signals d))) risk_draft"

definition deviation_draft :: "string \<Rightarrow> baseline_deviation \<Rightarrow> object_state \<Rightarrow> draft" where
  "deviation_draft run r s =
     \<lparr>dr_type = ''baseline_deviation'', dr_source_id = bd_id r, dr_rollout_id = [], dr_parents = [], dr_hashes = [],
      dr_refs = texts [(''run_id'', run), (''template_name'', bd_template_name r), (''profile_id'', bd_profile_id r)],
      dr_payload = texts [(''deviation_type'', bd_deviation_type r), (''status'', bd_status r),
          (''recommended_action'', bd_recommended_action r), (''payload'', bd_payload r), (''created_at'', bd_created_at r)] @
        rats [(''expected_value'', bd_expected_value r), (''observed_value'', bd_observed_value r)],
      dr_root = False\<rparr>"

definition materialize_baseline_deviations :: "object_env \<Rightarrow> string \<Rightarrow> object_state \<Rightarrow> go_error option \<times> object_state" where
  "materialize_baseline_deviations env run =
     materialize_rows env run
       (\<lambda>d. order_asc bd_created_at (filter (\<lambda>r. bd_run_id r = run) (db_baseline_deviations d))) (deviation_draft run)"

definition action_draft :: "response_action \<Rightarrow> object_state \<Rightarrow> draft" where
  "action_draft r s =
     \<lparr>dr_type = ''response_action'', dr_source_id = ra_id r, dr_rollout_id = [],
      dr_parents = [''risk_signal/'' @ ra_risk_signal_id r, ''policy_decision/'' @ ra_policy_decision_id r,
        ''process/'' @ ra_process_id r, ''snapshot/'' @ ra_snapshot_id r], dr_hashes = [],
      dr_refs = texts [(''session_id'', ra_session_id r), (''process_id'', ra_process_id r),
        (''snapshot_id'', ra_snapshot_id r), (''risk_signal_id'', ra_risk_signal_id r),
        (''policy_decision_id'', ra_policy_decision_id r)],
      dr_payload = texts [(''action_type'', ra_action_type r), (''target_type'', ra_target_type r),
        (''target_id'', ra_target_id r), (''status'', ra_status r), (''result_ref'', ra_result_ref r),
        (''payload'', ra_payload r), (''created_at'', ra_created_at r)],
      dr_root = False\<rparr>"

definition materialize_response_actions :: "object_env \<Rightarrow> string \<Rightarrow> object_state \<Rightarrow> go_error option \<times> object_state" where
  "materialize_response_actions env run =
     materialize_rows env run
       (\<lambda>d. order_asc ra_created_at (filter (\<lambda>r. ra_run_id r = run) (db_response_actions d))) action_draft"

definition cost_draft :: "cost_sample \<Rightarrow> object_state \<Rightarrow> draft" where
  "cost_draft r s =
     \<lparr>dr_type = ''cost'', dr_source_id = cs_id r, dr_rollout_id = [], dr_parents = [], dr_hashes = [],
      dr_refs = texts [(''session_id'', coalesce (cs_session_id r))],
      dr_payload = rats [(''active_cpu_seconds'', cs_active_cpu_seconds r), (''idle_seconds'', cs_idle_seconds r),
          (''wall_seconds'', cs_wall_seconds r), (''fanout_cost'', cs_fanout_cost r), (''saved_cost'', cs_saved_cost r)] @
        ints [(''snapshot_bytes'', cs_snapshot_bytes r), (''policy_block_count'', cs_policy_block_count r),
          (''quarantine_count'', cs_quarantine_count r)] @ texts [(''created_at'', cs_created_at r)],
      dr_root = False\<rparr>"

definition materialize_costs :: "object_env \<Rightarrow> string \<Rightarrow> object_state \<Rightarrow> go_error option \<times> object_state" where
  "materialize_costs env run =
     materialize_rows env run (\<lambda>d. order_asc cs_created_at (filter (\<lambda>r. cs_run_id r = run) (db_cost_samples d))) cost_draft"

section \<open>The objects of manifests\<close>

text \<open>\<open>payloadMap\<close>: the struct goes through JSON into a map.\<close>

definition payload_map :: "json \<Rightarrow> (string \<times> json) list" where
  "payload_map v = (case normal_json v of JObj kvs \<Rightarrow> kvs | _ \<Rightarrow> [])"

definition materialize_replay_manifest :: "object_env \<Rightarrow> string \<Rightarrow> object_state \<Rightarrow> go_error option \<times> object_state" where
  "materialize_replay_manifest env run s =
     (case on_store (query (\<lambda>d. build_replay_run (oe_sha env) (readable env s) d run)) s of
        (None, s) \<Rightarrow> (Some SqlError, s)
      | (Some (Inl ReplayNoRows), s) \<Rightarrow> (None, s)
      | (Some (Inl (NoRollouts _)), s) \<Rightarrow> (None, s)
      | (Some (Inl e), s) \<Rightarrow> (Some (Errorf ''replay''), s)
      | (Some (Inr m), s) \<Rightarrow>
          put_draft env run \<lparr>dr_type = ''replay_manifest'', dr_source_id = run, dr_rollout_id = [], dr_parents = [],
            dr_hashes = os_roots s,
            dr_refs = texts [(''run_id'', run), (''schema_version'', rma_schema_version m), (''mode'', rma_mode m),
              (''scope'', rma_scope m)],
            dr_payload = payload_map (replay_json m), dr_root = True\<rparr> s)"

definition run_trajectories ::
  "object_env \<Rightarrow> string \<Rightarrow> object_state \<Rightarrow> (trajectory_error + trajectory_manifest) option \<times> object_state" where
  "run_trajectories env run s =
     on_store (query (\<lambda>d. build_trajectories_run (oe_sha env) (readable env s) (oe_walk env (os_files s)) d run)) s"

definition materialize_trajectory_manifest :: "object_env \<Rightarrow> string \<Rightarrow> object_state \<Rightarrow> go_error option \<times> object_state" where
  "materialize_trajectory_manifest env run s =
     (case run_trajectories env run s of
        (None, s) \<Rightarrow> (Some SqlError, s)
      | (Some (Inl (FromReplay ReplayNoRows)), s) \<Rightarrow> (None, s)
      | (Some (Inl (FromReplay (NoRollouts _))), s) \<Rightarrow> (None, s)
      | (Some (Inl RootMissing), s) \<Rightarrow> (None, s)
      | (Some (Inl e), s) \<Rightarrow> (Some (Errorf ''trajectories''), s)
      | (Some (Inr m), s) \<Rightarrow>
          put_draft env run \<lparr>dr_type = ''trajectory_manifest'', dr_source_id = run, dr_rollout_id = [],
            dr_parents = [''replay_manifest/'' @ run], dr_hashes = [],
            dr_refs = texts [(''run_id'', run), (''schema_version'', ''agentprovenance.trajectories/v1''),
              (''decision_owner'', ''external_evaluator'')],
            dr_payload = payload_map (trajectories_json m), dr_root = True\<rparr> s)"

definition changed_paths :: "trajectory_manifest \<Rightarrow> string list" where
  "changed_paths m = sort (remdups (map fc_path (filter (\<lambda>c. fc_base c \<noteq> None \<or> fc_next c \<noteq> None)
     (concat (map tj_changes (tm_trajectories m))))))"

definition files_changed_in_run ::
  "object_env \<Rightarrow> string \<Rightarrow> object_state \<Rightarrow> (trajectory_error option + string list) \<times> object_state" where
  "files_changed_in_run env run s =
     (case run_trajectories env run s of
        (None, s) \<Rightarrow> (Inl None, s)
      | (Some (Inl (FromReplay ReplayNoRows)), s) \<Rightarrow> (Inr [], s)
      | (Some (Inl RootMissing), s) \<Rightarrow> (Inr [], s)
      | (Some (Inl e), s) \<Rightarrow> (Inl (Some e), s)
      | (Some (Inr m), s) \<Rightarrow> (Inr (changed_paths m), s))"

definition file_manifest_draft ::
  "string \<Rightarrow> string \<Rightarrow> string list \<Rightarrow> string list \<Rightarrow> string \<Rightarrow> string \<Rightarrow> string \<Rightarrow> json \<Rightarrow> draft" where
  "file_manifest_draft ty run keys hashes file schema base v =
     \<lparr>dr_type = ty, dr_source_id = run @ '':'' @ file, dr_rollout_id = [], dr_parents = keys, dr_hashes = hashes,
      dr_refs = texts [(''run_id'', run), (''file'', file), (''schema_version'', schema), (''base_snapshot_id'', base)],
      dr_payload = payload_map v, dr_root = False\<rparr>"

definition diff_draft :: "string \<Rightarrow> string \<Rightarrow> file_diff_manifest \<Rightarrow> draft" where
  "diff_draft run file m =
     file_manifest_draft ''diff_manifest'' run [''trajectory_manifest/'' @ run, ''snapshot/'' @ fm_base_snapshot_id m] []
       file (fm_schema_version m) (fm_base_snapshot_id m) (diff_json m)"

definition blame_draft :: "string \<Rightarrow> string \<Rightarrow> string \<Rightarrow> file_blame_manifest \<Rightarrow> draft" where
  "blame_draft run file h b =
     file_manifest_draft ''blame_manifest'' run [] [h] file (bm_schema_version b) (bm_base_snapshot_id b) (blame_json b)"

definition put_diff_blame :: "object_env \<Rightarrow> string \<Rightarrow> string \<Rightarrow> object_state \<Rightarrow> go_error option \<times> object_state" where
  "put_diff_blame env run file s =
     (case on_store (query (\<lambda>d. build_diff_file (file_view env s) (oe_sha env) d run file)) s of
        (None, s) \<Rightarrow> (Some SqlError, s)
      | (Some (Inl e), s) \<Rightarrow> (Some e, s)
      | (Some (Inr m), s) \<Rightarrow>
          (case put_object env run (diff_draft run file m) s of
             (Inl e, s) \<Rightarrow> (Some e, s)
           | (Inr h, s) \<Rightarrow>
               (case on_store (query (\<lambda>d. build_blame_file (file_view env s) (oe_sha env) d run file)) s of
                  (None, s) \<Rightarrow> (Some SqlError, s)
                | (Some (Inl e), s) \<Rightarrow> (Some e, s)
                | (Some (Inr b), s) \<Rightarrow>
                    put_draft env run (blame_draft run file h b) s)))"

fun put_all :: "('a \<Rightarrow> object_state \<Rightarrow> go_error option \<times> object_state) \<Rightarrow> 'a list \<Rightarrow> object_state \<Rightarrow> go_error option \<times> object_state" where
  "put_all f [] s = (None, s)"
| "put_all f (x # xs) s = (case f x s of (Some e, s) \<Rightarrow> (Some e, s) | (None, s) \<Rightarrow> put_all f xs s)"

definition materialize_diff_blame_manifests :: "object_env \<Rightarrow> string \<Rightarrow> object_state \<Rightarrow> go_error option \<times> object_state" where
  "materialize_diff_blame_manifests env run s =
     (case files_changed_in_run env run s of
        (Inl None, s) \<Rightarrow> (Some SqlError, s)
      | (Inl (Some (FromReplay (NoRollouts _))), s) \<Rightarrow> (None, s)
      | (Inl (Some e), s) \<Rightarrow> (Some (Errorf ''trajectories''), s)
      | (Inr files, s) \<Rightarrow> put_all (put_diff_blame env run) files s)"

definition audit_counts :: "string \<Rightarrow> (string \<times> (db \<Rightarrow> nat)) list" where
  "audit_counts run =
     [(''rollout_count'', \<lambda>d. length (run_rollouts run d)),
      (''attempt_count'', \<lambda>d. length (attempt_rows run d)),
      (''tool_call_count'', \<lambda>d. length (filter (\<lambda>r. tc_run_id r = run) (db_tool_calls d))),
      (''process_count'', \<lambda>d. length (filter (\<lambda>p. pr_session_id p \<in> set (run_sessions run d)) (db_processes d))),
      (''event_count'', \<lambda>d. length (filter (\<lambda>r. ev_run_id r = Some run) (db_events d))),
      (''evidence_count'', \<lambda>d. length (filter (\<lambda>r. ee_run_id r = run) (db_evidence_events d))),
      (''policy_decision_count'', \<lambda>d. length (filter (\<lambda>r. pd_run_id r = Some run) (db_policy_decisions d)))]"

fun read_counts ::
  "(string \<times> (db \<Rightarrow> nat)) list \<Rightarrow> object_state \<Rightarrow> (string \<times> int) list option \<times> object_state" where
  "read_counts [] s = (Some [], s)"
| "read_counts ((k, f) # cs) s =
     (case on_store (query f) s of
        (None, s) \<Rightarrow> (None, s)
      | (Some n, s) \<Rightarrow> (case read_counts cs s of (r, s) \<Rightarrow> (map_option (\<lambda>xs. (k, int n) # xs) r, s)))"

definition materialize_audit_manifest :: "object_env \<Rightarrow> string \<Rightarrow> object_state \<Rightarrow> go_error option \<times> object_state" where
  "materialize_audit_manifest env run s =
     (case read_counts (audit_counts run) s of
        (None, s) \<Rightarrow> (Some SqlError, s)
      | (Some counts, s) \<Rightarrow>
          put_draft env run \<lparr>dr_type = ''audit_manifest'', dr_source_id = run, dr_rollout_id = [], dr_parents = [],
            dr_hashes = os_roots s,
            dr_refs = texts [(''run_id'', run), (''schema_version'', ''agentprovenance.audit/v1'')],
            dr_payload = texts [(''schema_version'', ''agentprovenance.audit/v1''), (''run_id'', run)] @
              ints ((''object_count'', os_count s) # counts),
            dr_root = True\<rparr> s)"

text \<open>The manifest is a struct; the members that are maps are printed with their keys sorted.\<close>

definition record_manifest_value :: "json \<Rightarrow> json" where
  "record_manifest_value v =
     (case v of
        JObj kvs \<Rightarrow> JObj (map (\<lambda>(k, x). (k, if k = ''time_window'' \<or> k = ''scope_inference'' then normal_json x else x)) kvs)
      | _ \<Rightarrow> v)"

definition manifest_text :: "json \<Rightarrow> string \<Rightarrow> string" where
  "manifest_text v k =
     (case v of JObj kvs \<Rightarrow> (case jget k kvs of Some (JStr x) \<Rightarrow> x | _ \<Rightarrow> []) | _ \<Rightarrow> [])"

definition materialize_record_manifest :: "object_env \<Rightarrow> string \<Rightarrow> object_state \<Rightarrow> go_error option \<times> object_state" where
  "materialize_record_manifest env run s =
     (case on_store (query (\<lambda>d. build_record_manifest d run)) s of
        (None, s) \<Rightarrow> (Some SqlError, s)
      | (Some None, s) \<Rightarrow> (None, s)
      | (Some (Some v), s) \<Rightarrow>
          put_draft env run \<lparr>dr_type = ''record_manifest'', dr_source_id = run, dr_rollout_id = [],
            dr_parents = [''rollout/'' @ manifest_text v ''rollout_id'', ''attempt/'' @ manifest_text v ''attempt_id'',
              ''tool_call/'' @ manifest_text v ''tool_call_id'', ''process/'' @ manifest_text v ''process_id'',
              ''snapshot/'' @ manifest_text v ''base_snapshot_id''],
            dr_hashes = [],
            dr_refs = texts [(''run_id'', run), (''schema_version'', manifest_text v ''schema_version''),
              (''attempt_id'', manifest_text v ''attempt_id''), (''tool_call_id'', manifest_text v ''tool_call_id''),
              (''process_id'', manifest_text v ''process_id'')],
            dr_payload = [(''manifest'', record_manifest_value v)], dr_root = True\<rparr> s)"

section \<open>Record batches\<close>

text \<open>A map of counts as it decodes: what is no number counts as zero, what is no object as nil.\<close>

definition decoded_counts :: "string \<Rightarrow> (string \<times> json) list option" where
  "decoded_counts text =
     (case decode text of
        Some (JObj kvs) \<Rightarrow>
          Some (map (\<lambda>(k, v). (k, case v of JNum r \<Rightarrow> if of_int \<lfloor>r\<rfloor> = r then JNum r else int_json 0 | _ \<Rightarrow> int_json 0)) kvs)
      | _ \<Rightarrow> None)"

definition batch_items :: "string \<Rightarrow> db \<Rightarrow> record_batch_item list" where
  "batch_items b d = order_asc rbi_idx (filter (\<lambda>i. rbi_batch_id i = b) (db_record_batch_items d))"

definition item_json :: "record_batch_item \<Rightarrow> json" where
  "item_json i = JObj
     ([(''index'', int_json (rbi_idx i))] @ omit_empty ''job_id'' (rbi_job_id i) @ omit_empty ''shard_id'' (rbi_shard_id i) @
      omit_empty ''run_id'' (rbi_run_id i) @ omit_empty ''attempt_id'' (rbi_attempt_id i) @
      omit_empty ''tool_call_id'' (rbi_tool_call_id i) @ omit_empty ''process_id'' (rbi_process_id i) @
      omit_empty ''workdir'' (rbi_workdir i) @ omit_empty ''command'' (rbi_command i) @
      [(''status'', JStr (rbi_status i)), (''exit_code'', int_json (rbi_exit_code i)),
       (''wall_ms'', int_json (rbi_wall_ms i)), (''changed_file_count'', int_json (rbi_changed_file_count i))] @
      omit_nil ''changed_files'' JStr (fst (decoded_ids (rbi_changed_files_json i))) @
      omit_empty ''error'' (rbi_error i) @ omit_empty ''evidence_manifest_command'' (rbi_evidence_manifest_command i) @
      omit_empty ''eval_context_command'' (rbi_eval_context_command i) @
      omit_empty ''explain_command'' (rbi_explain_command i))"

definition omit_map :: "string \<Rightarrow> (string \<times> json) list \<Rightarrow> (string \<times> json) list" where
  "omit_map k kvs = (if kvs = [] then [] else [(k, jmap kvs)])"

definition batch_json :: "record_batch \<Rightarrow> record_batch_item list \<Rightarrow> json" where
  "batch_json b items = JObj
     ([(''schema_version'', JStr ''agentprovenance.record_batch/v1''), (''batch_id'', JStr (rb_id b)),
       (''input_sha256'', JStr (rb_input_sha256 b)), (''started_at'', JStr (rb_started_at b)),
       (''ended_at'', JStr (rb_ended_at b)), (''job_count'', int_json (rb_job_count b)),
       (''passed'', int_json (rb_passed b)), (''failed'', int_json (rb_failed b)), (''skipped'', int_json (rb_skipped b)),
       (''status_counts'', case decoded_counts (rb_status_counts_json b) of None \<Rightarrow> JNull | Some kvs \<Rightarrow> jmap kvs),
       (''run_ids'', snd (decoded_ids (rb_run_ids_json b)))] @
      omit_map ''shards'' (case decoded_counts (rb_shards_json b) of None \<Rightarrow> [] | Some kvs \<Rightarrow> kvs) @
      [(''items'', nil_slice item_json items), (''result_set_id'', JStr (rb_result_set_id b)),
       (''page_hash'', JStr (rb_page_hash b)), (''created_at'', JStr (rb_created_at b))])"

definition tally :: "string list \<Rightarrow> (string \<times> json) list" where
  "tally ks = map (\<lambda>k. (k, int_json (int (length (filter (\<lambda>x. x = k) ks))))) (remdups ks)"

definition summary_batch_json :: "record_batch \<Rightarrow> string \<Rightarrow> record_batch_item list \<Rightarrow> json" where
  "summary_batch_json b run items = JObj
     ([(''schema_version'', JStr ''agentprovenance.record_batch_summary/v1''), (''batch_id'', JStr (rb_id b)),
       (''run_id'', JStr run), (''item_count'', int_json (int (length items))),
       (''passed'', int_json (int (length (filter (\<lambda>i. rbi_status i = ''passed'') items)))),
       (''failed'', int_json (int (length (filter (\<lambda>i. rbi_status i = ''failed'') items)))),
       (''skipped'', int_json (int (length (filter (\<lambda>i. rbi_status i = ''skipped'') items)))),
       (''status_counts'', jmap (tally (map rbi_status items)))] @
      omit_map ''shards'' (tally (filter (\<lambda>k. k \<noteq> []) (map rbi_shard_id items))) @
      [(''items'', JArr (map item_json items)), (''result_set_id'', JStr (rb_result_set_id b)),
       (''page_hash'', JStr (rb_page_hash b))])"

definition record_batch_draft :: "string \<Rightarrow> record_batch \<Rightarrow> record_batch_item list \<Rightarrow> draft" where
  "record_batch_draft run b items =
     \<lparr>dr_type = ''record_batch'', dr_source_id = rb_id b, dr_rollout_id = [],
      dr_parents = [''record_manifest/'' @ run], dr_hashes = [],
      dr_refs = texts [(''batch_id'', rb_id b), (''run_id'', run)] @ [(''run_ids'', snd (decoded_ids (rb_run_ids_json b)))] @
        texts [(''schema_version'', ''agentprovenance.record_batch/v1''), (''result_set_id'', rb_result_set_id b),
          (''page_hash'', rb_page_hash b)],
      dr_payload = payload_map (batch_json b items), dr_root = False\<rparr>"

definition batch_summary_draft :: "string \<Rightarrow> record_batch \<Rightarrow> record_batch_item list \<Rightarrow> string \<Rightarrow> draft" where
  "batch_summary_draft run b items h =
     \<lparr>dr_type = ''record_batch_summary'', dr_source_id = rb_id b @ '':'' @ run, dr_rollout_id = [],
      dr_parents = [''record_manifest/'' @ run], dr_hashes = [h],
      dr_refs = texts [(''batch_id'', rb_id b), (''run_id'', run),
        (''schema_version'', ''agentprovenance.record_batch_summary/v1''), (''result_set_id'', rb_result_set_id b),
        (''page_hash'', rb_page_hash b)],
      dr_payload = payload_map (summary_batch_json b run (filter (\<lambda>i. rbi_run_id i = run) items)), dr_root = True\<rparr>"

definition put_record_batch :: "object_env \<Rightarrow> string \<Rightarrow> record_batch \<Rightarrow> object_state \<Rightarrow> go_error option \<times> object_state" where
  "put_record_batch env run b s =
     (case on_store (query (batch_items (rb_id b))) s of
        (None, s) \<Rightarrow> (Some SqlError, s)
      | (Some items, s) \<Rightarrow>
          (case put_object env run (record_batch_draft run b items) s of
             (Inl e, s) \<Rightarrow> (Some e, s)
           | (Inr h, s) \<Rightarrow> put_draft env run (batch_summary_draft run b items h) s))"

definition materialize_record_batches :: "object_env \<Rightarrow> string \<Rightarrow> object_state \<Rightarrow> go_error option \<times> object_state" where
  "materialize_record_batches env run s =
     (case on_store (query (\<lambda>d. order_asc rb_created_at (filter (\<lambda>b.
              list_ex (\<lambda>i. rbi_batch_id i = rb_id b \<and> rbi_run_id i = run) (db_record_batch_items d)) (db_record_batches d)))) s of
        (None, s) \<Rightarrow> (Some SqlError, s)
      | (Some bs, s) \<Rightarrow> put_all (put_record_batch env run) bs s)"

section \<open>\<open>MaterializeRun\<close>\<close>

definition materializers :: "object_env \<Rightarrow> string \<Rightarrow> (object_state \<Rightarrow> go_error option \<times> object_state) list" where
  "materializers env run =
     [materialize_snapshots env run, materialize_rollouts env run, materialize_attempts env run,
      materialize_tool_calls env run, materialize_processes env run, materialize_artifacts env run,
      materialize_promotions env run, materialize_evidence env run, materialize_events env run,
      materialize_telemetry_batches env run, materialize_policy_decisions env run, materialize_risk_signals env run,
      materialize_baseline_deviations env run, materialize_response_actions env run, materialize_costs env run,
      materialize_replay_manifest env run, materialize_trajectory_manifest env run,
      materialize_diff_blame_manifests env run, materialize_audit_manifest env run, materialize_record_manifest env run,
      materialize_record_batches env run]"

record materialize_result =
  mr_run_id :: string
  mr_object_root :: string
  mr_object_count :: int
  mr_root_hashes :: "string list"

definition materialize_run :: "object_env \<Rightarrow> string \<Rightarrow> object_state \<Rightarrow> (go_error + materialize_result) \<times> object_state" where
  "materialize_run env run s =
     (if run = [] then (Inl (Errorf ''run_id is required''), s)
      else if \<not> oe_mkdir env (object_root env) then (Inl (Errorf ''mkdir''), s)
      else
        (case put_all (\<lambda>m. m) (materializers env run) (s\<lparr>os_refs := Map.empty, os_count := 0, os_roots := []\<rparr>) of
           (Some e, s) \<Rightarrow> (Inl e, s)
         | (None, s) \<Rightarrow>
             (Inr \<lparr>mr_run_id = run, mr_object_root = object_root env, mr_object_count = os_count s,
                   mr_root_hashes = sort (os_roots s)\<rparr>, s)))"

section \<open>The path determines the hash\<close>

definition ends_in :: "string \<Rightarrow> string \<Rightarrow> bool" where
  "ends_in p c \<longleftrightarrow> p = c \<or> (\<exists>a. p = a @ CHR ''/'' # c)"

lemma ends_in_inj: "ends_in p c \<Longrightarrow> ends_in p c' \<Longrightarrow> CHR ''/'' \<notin> set c \<Longrightarrow> CHR ''/'' \<notin> set c' \<Longrightarrow> c = c'"
  by (auto simp: ends_in_def append_eq_append_conv2 Cons_eq_append_conv append_eq_Cons_conv)

lemma split_char_snoc: "sep \<notin> set b \<Longrightarrow> split_char sep (a @ sep # b) = split_char sep a @ [b]"
  by (induction a) (auto simp: split_char_single split: list.splits)

lemma split_ends_in: "ends_in p c \<Longrightarrow> CHR ''/'' \<notin> set c \<Longrightarrow> \<exists>xs. split_char CHR ''/'' p = xs @ [c]"
  by (auto simp: ends_in_def split_char_single split_char_snoc)

lemma clean_parts_snoc: "plain_part c \<Longrightarrow> clean_parts rooted acc (xs @ [c]) = clean_parts rooted acc xs @ [c]"
  by (induction rooted acc xs rule: clean_parts.induct) (auto simp: plain_part_def split: list.splits)

lemma join_ends_in: "ends_in (join ''/'' (xs @ [c])) c"
proof (cases "xs = []")
  case False
  then have "join ''/'' (xs @ [c]) = join ''/'' xs @ CHR ''/'' # c" by (simp add: join_append)
  then show ?thesis unfolding ends_in_def by blast
qed (simp add: ends_in_def)

lemma clean_ends_in:
  assumes "ends_in p c" "plain_part c"
  shows "ends_in (clean_path p) c"
proof -
  from assms obtain xs where xs: "split_char CHR ''/'' p = xs @ [c]"
    using split_ends_in plain_part_def by blast
  let ?ps = "clean_parts (has_prefix p ''/'') [] xs"
  have "ends_in (CHR ''/'' # join ''/'' (?ps @ [c])) c"
    using join_ends_in [of ?ps c] unfolding ends_in_def by (metis append_Cons append_Nil)
  then show ?thesis
    using join_ends_in [of ?ps c]
    by (cases "has_prefix p ''/''") (simp_all add: clean_path_def xs Let_def clean_parts_snoc [OF assms(2)])
qed

lemma join_path_ends_in: "plain_part c \<Longrightarrow> ends_in (join_path (xs @ [c])) c"
proof -
  assume c: "plain_part c"
  then have "filter (\<lambda>e. e \<noteq> []) (xs @ [c]) = filter (\<lambda>e. e \<noteq> []) xs @ [c]" by (simp add: plain_part_def)
  with clean_ends_in [OF join_ends_in c] show ?thesis by (simp add: join_path_def)
qed

text \<open>What is documented of the hash function: sixty-four hexadecimal digits.\<close>

definition hex_digest :: "(bytes \<Rightarrow> string) \<Rightarrow> bool" where
  "hex_digest sha \<longleftrightarrow> (\<forall>x. length (sha x) = 64 \<and> set (sha x) \<subseteq> set ''0123456789abcdef'')"

lemma trim_hash: "trim_prefix (hash_of env x) ''sha256:'' = oe_sha env x"
  by (simp only: hash_of_def trim_prefix_append)

lemma digest_chars:
  assumes "hex_digest (oe_sha env)"
  shows "CHR ''/'' \<notin> set (oe_sha env raw)" "CHR '','' \<notin> set (hash_of env raw)"
    "\<forall>c \<in> set (hash_of env raw). \<not> is_space c" "oe_sha env raw \<noteq> []"
proof -
  from assms have d: "length (oe_sha env raw) = 64" "set (oe_sha env raw) \<subseteq> set ''0123456789abcdef''"
    by (auto simp: hex_digest_def)
  then show "CHR ''/'' \<notin> set (oe_sha env raw)" "CHR '','' \<notin> set (hash_of env raw)"
    "\<forall>c \<in> set (hash_of env raw). \<not> is_space c" "oe_sha env raw \<noteq> []"
    by (auto simp: hash_of_def is_space_def)
qed

lemma object_path_inj:
  assumes "hex_digest (oe_sha env)" "object_path env (hash_of env a) = object_path env (hash_of env b)"
  shows "hash_of env a = hash_of env b"
proof -
  have p: "plain_part (oe_sha env x @ ''.json'')" for x
    using digest_chars [OF assms(1), of x] by (auto simp: plain_part_def append_eq_Cons_conv)
  have "ends_in (object_path env (hash_of env x)) (oe_sha env x @ ''.json'')" for x
    using join_path_ends_in [OF p [of x], of "[object_root env, take 2 (oe_sha env x)]"]
    by (simp only: object_path_def trim_hash Let_def append.simps)
  from ends_in_inj [OF this [of a] this [of b, folded assms(2)]] p [of a] p [of b] show ?thesis
    by (simp add: plain_part_def hash_of_def)
qed

section \<open>What every step keeps\<close>

definition objects :: "object_state \<Rightarrow> provenance_object list" where
  "objects s = db_provenance_objects (w_db (os_world s))"

definition hashes :: "object_state \<Rightarrow> string set" where
  "hashes s = po_hash ` set (objects s)"

definition sound_object :: "object_env \<Rightarrow> object_state \<Rightarrow> provenance_object \<Rightarrow> bool" where
  "sound_object env s b \<longleftrightarrow>
     po_path b = object_path env (po_hash b) \<and>
     (\<exists>raw. os_files s (po_path b) = Some raw \<and> po_hash b = hash_of env raw) \<and>
     (\<forall>h \<in> set (split_char CHR '','' (po_parent_hashes b)). trim_space h \<noteq> [] \<longrightarrow> trim_space h \<in> hashes s)"

definition sound_objects :: "object_env \<Rightarrow> object_state \<Rightarrow> bool" where
  "sound_objects env s \<longleftrightarrow> list_all (sound_object env s) (objects s)"

text \<open>The context refers to objects that are recorded.\<close>

definition known_refs :: "object_state \<Rightarrow> bool" where
  "known_refs s \<longleftrightarrow> ran (os_refs s) \<subseteq> hashes s \<and> set (os_roots s) \<subseteq> hashes s"

definition leads :: "object_env \<Rightarrow> object_state \<Rightarrow> object_state \<Rightarrow> bool" where
  "leads env s s' \<longleftrightarrow>
     (sound_objects env s \<and> known_refs s \<longrightarrow> sound_objects env s' \<and> known_refs s' \<and> hashes s \<subseteq> hashes s')"

lemma leads_refl: "leads env s s"
  by (simp add: leads_def)

lemma leads_trans: "leads env s t \<Longrightarrow> leads env t u \<Longrightarrow> leads env s u"
  by (auto simp: leads_def)

lemma sound_same:
  assumes "os_files s' = os_files s" "objects s' = objects s"
  shows "sound_objects env s' = sound_objects env s" "hashes s' = hashes s"
proof -
  show h: "hashes s' = hashes s" by (simp add: hashes_def assms)
  have "sound_object env s' = sound_object env s" by (rule ext) (simp add: sound_object_def assms h)
  then show "sound_objects env s' = sound_objects env s" by (simp add: sound_objects_def assms)
qed

lemma leads_same:
  "os_files s' = os_files s \<Longrightarrow> w_db (os_world s') = w_db (os_world s) \<Longrightarrow> os_refs s' = os_refs s \<Longrightarrow>
     os_roots s' = os_roots s \<Longrightarrow> leads env s s'"
  using sound_same(1) [of s' s env] sound_same(2) [of s' s] by (simp add: leads_def known_refs_def objects_def)

lemma on_store_query: "on_store (query f) s = (r, s') \<Longrightarrow> leads env s s' \<and> hashes s' = hashes s \<and> os_roots s' = os_roots s"
  by (auto simp: on_store_def hashes_def objects_def split: prod.splits dest!: query_db intro!: leads_same)

definition never_torn :: "object_env \<Rightarrow> bool" where
  "never_torn env \<longleftrightarrow> (\<forall>p raw left. oe_write env p raw \<noteq> Torn left)"

lemma written_sound:
  assumes d: "hex_digest (oe_sha env)" and s: "sound_object env s b" and raw: "h = hash_of env raw"
    and f: "os_files s' = (os_files s)(object_path env h \<mapsto> raw)" and hs: "hashes s \<subseteq> hashes s'"
  shows "sound_object env s' b"
proof -
  from s obtain old where old: "po_path b = object_path env (po_hash b)" "os_files s (po_path b) = Some old"
    "po_hash b = hash_of env old" by (auto simp: sound_object_def)
  have "\<exists>new. os_files s' (po_path b) = Some new \<and> po_hash b = hash_of env new"
  proof (cases "po_path b = object_path env h")
    case True
    with object_path_inj [OF d, of old raw] old(1,3) raw have "po_hash b = h" by simp
    with True f raw show ?thesis by simp
  qed (use old f in simp)
  with s hs show ?thesis by (auto simp: sound_object_def)
qed

lemma parent_parts:
  assumes "\<forall>h \<in> set ps. CHR '','' \<notin> set h \<and> (\<forall>c \<in> set h. \<not> is_space c)"
  shows "h \<in> set (split_char CHR '','' (join '','' ps)) \<Longrightarrow> trim_space h \<noteq> [] \<Longrightarrow> trim_space h \<in> set ps"
proof (cases "ps = []")
  case False
  with assms have "split_char CHR '','' (join '','' ps) = ps" by (intro split_char_join) auto
  moreover assume "h \<in> set (split_char CHR '','' (join '','' ps))"
  ultimately show ?thesis using assms trim_space_no_space by auto
qed simp

lemma put_leads:
  assumes d: "hex_digest (oe_sha env)" and t: "never_torn env" and p: "put env run b s = (r, s')"
    and good: "sound_objects env s" "known_refs s" and par: "set (ob_parents b) \<subseteq> hashes s"
  shows "leads env s s' \<and> hashes s \<subseteq> hashes s' \<and> (\<forall>h. r = Inr h \<longrightarrow> h \<in> hashes s')"
proof -
  define nb where "nb = normal_object run b"
  define raw where "raw = redact_string (object_text nb)"
  define h where "h = hash_of env raw"
  define path where "path = object_path env h"
  define s1 where "s1 = s\<lparr>os_files := (os_files s)(path \<mapsto> raw)\<rparr>"
  obtain ts s2 where s2: "on_store now s1 = (ts, s2)" by fastforce
  define row where "row = object_row nb h path raw ts"
  obtain ok s3 where s3: "on_store (exec_total (tbl_replace db_provenance_objects_update po_hash row)) s2 = (ok, s3)"
    by fastforce
  from s2 have f2: "os_files s2 = (os_files s)(path \<mapsto> raw)" "objects s2 = objects s" "os_refs s2 = os_refs s"
    "os_roots s2 = os_roots s"
    by (auto simp: on_store_def s1_def objects_def now_def)
  from s3 have f3: "os_files s3 = (os_files s)(path \<mapsto> raw)" "os_refs s3 = os_refs s" "os_roots s3 = os_roots s"
    "objects s3 = (if ok then filter (\<lambda>x. po_hash x \<noteq> h) (objects s) @ [row] else objects s)"
    using f2 by (auto simp: on_store_def objects_def row_def object_row_def tbl_replace_def dest!: exec_total_db
        split: prod.splits)
  have hs: "hashes s3 = (if ok then insert h (hashes s) else hashes s)"
    unfolding hashes_def f3(4) by (auto simp: row_def object_row_def)
  have shaped: "CHR '','' \<notin> set x \<and> (\<forall>c \<in> set x. \<not> is_space c)" if "x \<in> hashes s" for x
  proof -
    from that good(1) obtain y where "x = hash_of env y"
      by (auto simp: hashes_def sound_objects_def sound_object_def list_all_iff)
    with digest_chars [OF d] show ?thesis by simp
  qed
  have old: "sound_object env s3 x" if "x \<in> set (objects s)" for x
    by (rule written_sound [OF d _ h_def]) (use that good(1) f3 hs in \<open>auto simp: sound_objects_def list_all_iff path_def\<close>)
  have new: "sound_object env s3 row" if ok
  proof -
    have "trim_space x \<in> hashes s3"
      if "x \<in> set (split_char CHR '','' (join '','' (sort (ob_parents b))))" "trim_space x \<noteq> []" for x
      using parent_parts [OF _ that] par shaped hs \<open>ok\<close> by auto
    then show ?thesis
      by (simp add: sound_object_def row_def object_row_def path_def f3(1) h_def nb_def normal_object_def)
  qed
  have s3good: "sound_objects env s3" "known_refs s3" "hashes s \<subseteq> hashes s3"
    using old new good(2) hs by (auto simp: sound_objects_def list_all_iff f3 known_refs_def)
  have fin: "leads env s s4 \<and> hashes s \<subseteq> hashes s4"
    if "os_files s4 = os_files s3" "os_world s4 = os_world s3" "os_roots s4 = os_roots s3"
      "ran (os_refs s4) \<subseteq> hashes s3" for s4
    using sound_same(1) [of s4 s3 env] sound_same(2) [of s4 s3] that s3good by (auto simp: leads_def known_refs_def objects_def)
  show ?thesis
  proof (cases "\<not> oe_mkdir env path \<or> oe_write env path raw \<noteq> Written")
    case True
    with t p have "s' = s \<and> (\<exists>e. r = Inl e)"
      unfolding put_def nb_def [symmetric] Let_def raw_def [symmetric] h_def [symmetric] path_def [symmetric]
      by (auto simp: never_torn_def split: if_splits write_outcome.splits)
    then show ?thesis by (auto simp: leads_refl)
  next
    case False
    with p have e: "(r, s') = (if \<not> ok then (Inl SqlError, s3) else (Inr h, s3\<lparr>os_refs := (os_refs s3)(ob_type nb @ ''/'' @ ob_source_id nb \<mapsto> h),
                             os_count := os_count s3 + 1\<rparr>))"
      unfolding put_def nb_def [symmetric] Let_def raw_def [symmetric] h_def [symmetric] path_def [symmetric]
      by (simp add: s1_def [symmetric] s2 row_def [symmetric] s3)
    show ?thesis
    proof (cases ok)
      case True
      have "ran ((os_refs s3)(ob_type nb @ ''/'' @ ob_source_id nb \<mapsto> h)) \<subseteq> hashes s3"
        using good(2) hs True by (auto simp: ran_def known_refs_def f3)
      with e True fin [of s'] hs show ?thesis by (auto simp: hashes_def objects_def)
    next
      case False
      with e fin [of s'] s3good(2) show ?thesis by (auto simp: known_refs_def)
    qed
  qed
qed

text \<open>A state from which a step may start, and the steps that keep it.\<close>

definition ready :: "object_env \<Rightarrow> object_state \<Rightarrow> bool" where
  "ready env s \<longleftrightarrow> sound_objects env s \<and> known_refs s"

definition faithful_env :: "object_env \<Rightarrow> bool" where
  "faithful_env env \<longleftrightarrow> hex_digest (oe_sha env) \<and> never_torn env"

definition keeps :: "object_env \<Rightarrow> (object_state \<Rightarrow> 'a \<times> object_state) \<Rightarrow> bool" where
  "keeps env f \<longleftrightarrow> (\<forall>s r s'. f s = (r, s') \<longrightarrow> leads env s s')"

lemma leads_ready: "leads env s s' \<Longrightarrow> ready env s \<Longrightarrow> ready env s' \<and> hashes s \<subseteq> hashes s'"
  by (simp add: leads_def ready_def)

lemma leadsI: "(ready env s \<Longrightarrow> leads env s s') \<Longrightarrow> leads env s s'"
  by (auto simp: leads_def ready_def)

lemma keepsD: "keeps env f \<Longrightarrow> f s = (r, s') \<Longrightarrow> leads env s s'"
  by (simp add: keeps_def)

lemma keepsI: "(\<And>s r s'. f s = (r, s') \<Longrightarrow> leads env s s') \<Longrightarrow> keeps env f"
  by (auto simp: keeps_def)

lemma parent_known: "known_refs s \<Longrightarrow> set (parent s keys) \<subseteq> hashes s"
proof
  fix h
  assume k: "known_refs s" and "h \<in> set (parent s keys)"
  then obtain key where "os_refs s key = Some h" by (auto simp: parent_def split: option.splits)
  then have "h \<in> ran (os_refs s)" by (rule ranI)
  with k show "h \<in> hashes s" by (auto simp: known_refs_def)
qed

lemma put_object_leads:
  assumes "faithful_env env" "put_object env run d s = (r, s')" "ready env s" "set (dr_hashes d) \<subseteq> hashes s"
  shows "leads env s s' \<and> hashes s \<subseteq> hashes s' \<and> (\<forall>h. r = Inr h \<longrightarrow> h \<in> hashes s')"
  by (rule put_leads [OF _ _ assms(2) [unfolded put_object_def]])
     (use assms parent_known [of s] in \<open>auto simp: faithful_env_def ready_def\<close>)

lemma add_root_leads: "h \<in> hashes s \<Longrightarrow> leads env s (add_root h s)"
  using sound_same(1) [of "add_root h s" s env] sound_same(2) [of "add_root h s" s]
  by (simp add: leads_def known_refs_def add_root_def objects_def)

lemma put_draft_leads:
  assumes f: "faithful_env env" and p: "put_draft env run d s = (r, s')" and h: "ready env s \<Longrightarrow> set (dr_hashes d) \<subseteq> hashes s"
  shows "leads env s s'"
proof (rule leadsI)
  assume g: "ready env s"
  obtain o1 s1 where o1: "put_object env run d s = (o1, s1)" by fastforce
  note l = put_object_leads [OF f o1 g h [OF g]]
  show "leads env s s'"
  proof (cases o1)
    case (Inr x)
    with p o1 have "s' = (if dr_root d then add_root x s1 else s1)" by (simp add: put_draft_def)
    with l Inr show ?thesis by (auto intro: leads_trans add_root_leads)
  qed (use p o1 l in \<open>simp add: put_draft_def\<close>)
qed

lemma put_drafts_leads:
  assumes f: "faithful_env env"
  shows "\<forall>d \<in> set ds. \<forall>s. dr_hashes (d s) = [] \<Longrightarrow> put_drafts env run ds s = (r, s') \<Longrightarrow> leads env s s'"
proof (induction ds arbitrary: s)
  case (Cons d ds)
  obtain e s1 where e: "put_draft env run (d s) s = (e, s1)" by fastforce
  have l: "leads env s s1" by (rule put_draft_leads [OF f e]) (use Cons.prems(1) in simp)
  show ?case
  proof (cases e)
    case None
    with Cons.prems e have "leads env s1 s'" by (intro Cons.IH) simp_all
    with l show ?thesis by (rule leads_trans)
  qed (use Cons.prems(2) e l in simp)
qed (simp add: leads_refl)

lemma materialize_rows_keeps:
  assumes f: "faithful_env env" and h: "\<And>r s. dr_hashes (mk r s) = []"
  shows "keeps env (materialize_rows env run sel mk)"
proof (rule keepsI)
  fix s r s'
  assume m: "materialize_rows env run sel mk s = (r, s')"
  obtain rows s1 where q: "on_store (query sel) s = (rows, s1)" by fastforce
  note l = on_store_query [OF q, of env, THEN conjunct1]
  show "leads env s s'"
  proof (cases rows)
    case (Some xs)
    with m q have "put_drafts env run (map mk xs) s1 = (r, s')" by (simp add: materialize_rows_def)
    then have "leads env s1 s'" by (rule put_drafts_leads [OF f, rotated]) (simp add: h)
    with l show ?thesis by (rule leads_trans)
  qed (use m q l in \<open>simp add: materialize_rows_def\<close>)
qed

lemmas row_drafts = snapshot_draft_def rollout_draft_def attempt_draft_def tool_call_draft_def process_draft_def
  artifact_draft_def promotion_draft_def evidence_draft_def event_draft_def batch_draft_def decision_draft_def
  risk_draft_def deviation_draft_def action_draft_def cost_draft_def

lemmas row_materializers = materialize_snapshots_def materialize_rollouts_def materialize_attempts_def
  materialize_tool_calls_def materialize_processes_def materialize_artifacts_def materialize_promotions_def
  materialize_evidence_def materialize_events_def materialize_telemetry_batches_def
  materialize_policy_decisions_def materialize_risk_signals_def materialize_baseline_deviations_def
  materialize_response_actions_def materialize_costs_def

lemma rows_keep:
  assumes "faithful_env env"
  shows "keeps env (materialize_snapshots env run)" "keeps env (materialize_rollouts env run)"
    "keeps env (materialize_attempts env run)" "keeps env (materialize_tool_calls env run)"
    "keeps env (materialize_processes env run)" "keeps env (materialize_artifacts env run)"
    "keeps env (materialize_promotions env run)" "keeps env (materialize_evidence env run)"
    "keeps env (materialize_events env run)" "keeps env (materialize_telemetry_batches env run)"
    "keeps env (materialize_policy_decisions env run)" "keeps env (materialize_risk_signals env run)"
    "keeps env (materialize_baseline_deviations env run)" "keeps env (materialize_response_actions env run)"
    "keeps env (materialize_costs env run)"
  unfolding row_materializers
  by (rule materialize_rows_keeps [OF assms], simp add: row_drafts split: prod.split)+

lemma put_all_keeps:
  assumes "\<And>x. x \<in> set xs \<Longrightarrow> keeps env (f x)"
  shows "keeps env (put_all f xs)"
proof (rule keepsI)
  show "put_all f xs s = (r, s') \<Longrightarrow> leads env s s'" for s r s'
    using assms
  proof (induction xs arbitrary: s)
    case (Cons x xs)
    obtain e s1 where e: "f x s = (e, s1)" by fastforce
    have l: "leads env s s1" by (rule keepsD [OF Cons.prems(2) e]) simp
    show ?case
    proof (cases e)
      case None
      with Cons.prems e have "leads env s1 s'" by (intro Cons.IH) simp_all
      with l show ?thesis by (rule leads_trans)
    qed (use Cons.prems(1) e l in simp)
  qed (simp add: leads_refl)
qed

text \<open>A read of the store before a step.\<close>

lemma after_query_keeps:
  assumes "\<And>a. keeps env (g a)"
  shows "keeps env (\<lambda>s. case on_store (query sel) s of (None, s) \<Rightarrow> (b, s) | (Some a, s) \<Rightarrow> g a s)"
proof (rule keepsI)
  fix s r s'
  assume m: "(case on_store (query sel) s of (None, s) \<Rightarrow> (b, s) | (Some a, s) \<Rightarrow> g a s) = (r, s')"
  obtain a s1 where q: "on_store (query sel) s = (a, s1)" by fastforce
  note l = on_store_query [OF q, of env, THEN conjunct1]
  show "leads env s s'"
    using m q l keepsD [OF assms] by (cases a) (auto intro: leads_trans)
qed

text \<open>A step that starts from a read of the store goes on from a state with the same objects and roots.\<close>

lemma query_then:
  assumes "on_store (query sel) s = (a, s1)" "ready env s1 \<Longrightarrow> leads env s1 s'"
  shows "leads env s s'"
proof (rule leadsI)
  assume "ready env s"
  note l = on_store_query [OF assms(1), of env, THEN conjunct1]
  from leads_ready [OF l \<open>ready env s\<close>] assms(2) have "leads env s1 s'" by blast
  with l show "leads env s s'" by (rule leads_trans)
qed

lemma roots_known: "ready env s \<Longrightarrow> set (os_roots s) \<subseteq> hashes s"
  by (simp add: ready_def known_refs_def)

lemma replay_keeps:
  assumes "faithful_env env"
  shows "keeps env (materialize_replay_manifest env run)"
proof (rule keepsI)
  fix s r s'
  assume m: "materialize_replay_manifest env run s = (r, s')"
  obtain a s1 where q: "on_store (query (\<lambda>d. build_replay_run (oe_sha env) (readable env s) d run)) s = (a, s1)" by fastforce
  have "ready env s1 \<Longrightarrow> leads env s1 s'"
    using m roots_known [of env s1] unfolding materialize_replay_manifest_def q
    by (auto simp: leads_refl split: option.splits sum.splits replay_error.splits)
       (rule put_draft_leads [OF assms], assumption, simp)
  with q show "leads env s s'" by (rule query_then)
qed

lemma run_trajectories_leads: "run_trajectories env run s = (a, s1) \<Longrightarrow> leads env s s1"
  unfolding run_trajectories_def by (drule on_store_query [of _ _ _ _ env]) simp

lemma trajectory_keeps:
  assumes "faithful_env env"
  shows "keeps env (materialize_trajectory_manifest env run)"
proof (rule keepsI)
  fix s r s'
  assume m: "materialize_trajectory_manifest env run s = (r, s')"
  obtain a s1 where q: "run_trajectories env run s = (a, s1)" by fastforce
  have "leads env s1 s'"
    using m unfolding materialize_trajectory_manifest_def q
    by (auto simp: leads_refl split: option.splits sum.splits trajectory_error.splits replay_error.splits
        intro: put_draft_leads [OF assms])
  with run_trajectories_leads [OF q] show "leads env s s'" by (rule leads_trans)
qed

lemma files_changed_leads: "files_changed_in_run env run s = (a, s1) \<Longrightarrow> leads env s s1"
  by (auto simp: files_changed_in_run_def split: prod.splits option.splits sum.splits trajectory_error.splits
      replay_error.splits dest!: run_trajectories_leads)

lemma put_diff_blame_keeps:
  assumes f: "faithful_env env"
  shows "keeps env (put_diff_blame env run file)"
proof (rule keepsI)
  fix s r s'
  assume m: "put_diff_blame env run file s = (r, s')"
  obtain a s1 where q: "on_store (query (\<lambda>d. build_diff_file (file_view env s) (oe_sha env) d run file)) s = (a, s1)"
    by fastforce
  have "leads env s1 s'" if g: "ready env s1"
  proof (cases "\<exists>x. a = Some (Inr x)")
    case True
    then obtain x where x: "a = Some (Inr x)" by blast
    obtain o1 s2 where o1: "put_object env run (diff_draft run file x) s1 = (o1, s2)" by fastforce
    have l: "leads env s1 s2 \<and> hashes s1 \<subseteq> hashes s2 \<and> (\<forall>h. o1 = Inr h \<longrightarrow> h \<in> hashes s2)"
      by (rule put_object_leads [OF f o1 g]) (simp add: diff_draft_def file_manifest_draft_def)
    show ?thesis
    proof (cases o1)
      case (Inr h)
      obtain b s3 where b: "on_store (query (\<lambda>d. build_blame_file (file_view env s2) (oe_sha env) d run file)) s2 = (b, s3)"
        by fastforce
      note k = on_store_query [OF b, of env]
      have "leads env s3 s'"
        using m l k unfolding put_diff_blame_def q
        by (auto simp: x o1 Inr b leads_refl blame_draft_def file_manifest_draft_def split: option.splits sum.splits
            intro: put_draft_leads [OF f])
      with k l show ?thesis by (blast intro: leads_trans)
    qed (use m l in \<open>simp add: put_diff_blame_def q x o1\<close>)
  qed (use m in \<open>auto simp: put_diff_blame_def q leads_refl split: option.splits sum.splits\<close>)
  with q show "leads env s s'" by (rule query_then)
qed

lemma diff_blame_keeps:
  assumes "faithful_env env"
  shows "keeps env (materialize_diff_blame_manifests env run)"
proof (rule keepsI)
  fix s r s'
  assume m: "materialize_diff_blame_manifests env run s = (r, s')"
  obtain a s1 where q: "files_changed_in_run env run s = (a, s1)" by fastforce
  have "leads env s1 s'"
    using m keepsD [OF put_all_keeps, OF put_diff_blame_keeps [OF assms]]
    by (auto simp: materialize_diff_blame_manifests_def q leads_refl split: sum.splits option.splits
        trajectory_error.splits replay_error.splits)
  with files_changed_leads [OF q] show "leads env s s'" by (rule leads_trans)
qed

lemma read_counts_leads: "read_counts cs s = (r, s') \<Longrightarrow> leads env s s'"
proof (induction cs s arbitrary: r s' rule: read_counts.induct)
  case (2 k f cs s)
  obtain a s1 where q: "on_store (query f) s = (a, s1)" by fastforce
  note l = on_store_query [OF q, of env, THEN conjunct1]
  show ?case
  proof (cases a)
    case (Some n)
    obtain b s2 where b: "read_counts cs s1 = (b, s2)" by fastforce
    from "2.IH" [OF q [symmetric] Some b] "2.prems" l show ?thesis by (auto simp: q Some b intro: leads_trans)
  qed (use 2 q l in simp)
qed (simp add: leads_refl)

lemma audit_keeps:
  assumes "faithful_env env"
  shows "keeps env (materialize_audit_manifest env run)"
proof (rule keepsI)
  fix s r s'
  assume m: "materialize_audit_manifest env run s = (r, s')"
  obtain a s1 where q: "read_counts (audit_counts run) s = (a, s1)" by fastforce
  have "leads env s1 s'"
    using m put_draft_leads [OF assms _ subset_trans [OF _ roots_known]] unfolding materialize_audit_manifest_def q
    by (auto simp: leads_refl split: option.splits)
  with read_counts_leads [OF q] show "leads env s s'" by (rule leads_trans)
qed

lemma record_keeps:
  assumes "faithful_env env"
  shows "keeps env (materialize_record_manifest env run)"
proof (rule keepsI)
  fix s r s'
  assume m: "materialize_record_manifest env run s = (r, s')"
  obtain a s1 where q: "on_store (query (\<lambda>d. build_record_manifest d run)) s = (a, s1)" by fastforce
  have "ready env s1 \<Longrightarrow> leads env s1 s'"
    using m unfolding materialize_record_manifest_def q
    by (auto simp: leads_refl split: option.splits intro: put_draft_leads [OF assms])
  with q show "leads env s s'" by (rule query_then)
qed

lemma record_batch_keeps:
  assumes f: "faithful_env env"
  shows "keeps env (put_record_batch env run b)"
proof (rule keepsI)
  fix s r s'
  assume m: "put_record_batch env run b s = (r, s')"
  obtain a s1 where q: "on_store (query (batch_items (rb_id b))) s = (a, s1)" by fastforce
  have "leads env s1 s'" if g: "ready env s1"
  proof (cases a)
    case (Some items)
    obtain o1 s2 where o1: "put_object env run (record_batch_draft run b items) s1 = (o1, s2)" by fastforce
    have l: "leads env s1 s2 \<and> hashes s1 \<subseteq> hashes s2 \<and> (\<forall>h. o1 = Inr h \<longrightarrow> h \<in> hashes s2)"
      by (rule put_object_leads [OF f o1 g]) (simp add: record_batch_draft_def)
    show ?thesis
    proof (cases o1)
      case (Inr h)
      with m q Some o1 have "put_draft env run (batch_summary_draft run b items h) s2 = (r, s')"
        by (simp add: put_record_batch_def)
      then have "leads env s2 s'"
        by (rule put_draft_leads [OF f]) (use l Inr in \<open>simp add: batch_summary_draft_def\<close>)
      with l show ?thesis by (blast intro: leads_trans)
    qed (use m q Some o1 l in \<open>simp add: put_record_batch_def\<close>)
  qed (use m q in \<open>simp add: put_record_batch_def leads_refl\<close>)
  with q show "leads env s s'" by (rule query_then)
qed

lemma record_batches_keep: "faithful_env env \<Longrightarrow> keeps env (materialize_record_batches env run)"
  unfolding materialize_record_batches_def
  by (rule after_query_keeps, rule put_all_keeps, erule record_batch_keeps)

lemma materializers_keep:
  assumes "faithful_env env"
  shows "m \<in> set (materializers env run) \<Longrightarrow> keeps env m"
  using rows_keep [OF assms] replay_keeps [OF assms] trajectory_keeps [OF assms] diff_blame_keeps [OF assms]
    audit_keeps [OF assms] record_keeps [OF assms] record_batches_keep [OF assms]
  by (auto simp: materializers_def)

lemma materialize_run_sound:
  assumes f: "faithful_env env" and g: "sound_objects env s" and m: "materialize_run env run s = (r, s')"
  shows "sound_objects env s' \<and> hashes s \<subseteq> hashes s'"
proof -
  let ?s = "s\<lparr>os_refs := Map.empty, os_count := 0, os_roots := []\<rparr>"
  have h: "hashes ?s = hashes s" "sound_objects env ?s"
    using g sound_same(1) [of ?s s env] sound_same(2) [of ?s s] by (simp_all add: objects_def)
  then have "ready env ?s" by (simp add: ready_def known_refs_def)
  obtain e s1 where e: "put_all (\<lambda>m. m) (materializers env run) ?s = (e, s1)" by fastforce
  have "leads env ?s s1"
    by (rule keepsD [OF put_all_keeps e]) (rule materializers_keep [OF f])
  with leads_ready [OF this \<open>ready env ?s\<close>] h have "sound_objects env s1 \<and> hashes s \<subseteq> hashes s1"
    by (simp add: ready_def)
  moreover from m e have "s' = s \<or> s' = s1"
    by (auto simp: materialize_run_def split: if_splits option.splits)
  ultimately show ?thesis using g by auto
qed

lemma sound_verifies:
  assumes "sound_objects env s" "i \<in> set (verify_objects (oe_sha env) (os_files s) (w_db (os_world s)) run)"
  shows "vi_kind i \<notin> {''missing_provenance_object'', ''object_hash_mismatch'', ''missing_parent_object''}"
proof -
  from assms(2) obtain b where b: "b \<in> set (objects s)" and i: "i \<in> set
     (let src = po_source_id b in
     (case os_files s (po_path b) of
        None \<Rightarrow> [issue ''error'' ''missing_provenance_object'' src]
      | Some raw \<Rightarrow>
          err_if (''sha256:'' @ oe_sha env raw \<noteq> po_hash b) ''object_hash_mismatch'' src @
          (case decode_provenance_object raw of
             None \<Rightarrow> [issue ''error'' ''invalid_provenance_object_json'' src]
           | Some payload \<Rightarrow>
               (if po_object_type b = ''record_manifest'' then
                  (case build_record_manifest (w_db (os_world s)) run of
                     None \<Rightarrow> [issue ''error'' ''record_manifest_rebuild_failed'' src]
                   | Some expected \<Rightarrow>
                       err_if (\<not> json_equal (case jget ''manifest'' payload of None \<Rightarrow> JNull | Some v \<Rightarrow> v) expected)
                         ''record_manifest_mismatch'' src)
                else []) @
               concat (map (\<lambda>h. err_if (trim_space h \<noteq> [] \<and>
                   \<not> list_ex (\<lambda>q. po_hash q = trim_space h) (objects s)) ''missing_parent_object'' src)
                 (split_char CHR '','' (po_parent_hashes b))))))"
    unfolding verify_objects_def objects_def by auto
  from b assms(1) obtain raw where raw: "os_files s (po_path b) = Some raw" "po_hash b = hash_of env raw"
    and par: "\<forall>h \<in> set (split_char CHR '','' (po_parent_hashes b)). trim_space h \<noteq> [] \<longrightarrow> trim_space h \<in> hashes s"
    by (auto simp: sound_objects_def list_all_iff sound_object_def)
  from par have "concat (map (\<lambda>h. err_if (trim_space h \<noteq> [] \<and>
       \<not> list_ex (\<lambda>q. po_hash q = trim_space h) (objects s)) ''missing_parent_object'' (po_source_id b))
     (split_char CHR '','' (po_parent_hashes b))) = []"
    by (fastforce simp: err_if_def list_ex_iff hashes_def)
  then show ?thesis
    using i raw by (auto simp: Let_def hash_of_def split: option.splits if_splits)
qed


definition bare_env :: object_env where
  "bare_env = \<lparr>oe_sha = (\<lambda>x. replicate 64 (if length x mod 2 = 0 then CHR ''0'' else CHR ''f'')), oe_root = ''/acf'',
     oe_provenance = [], oe_mkdir = (\<lambda>_. True), oe_write = (\<lambda>p x. if length x = 7 then NotWritten else Written),
     oe_denied = (\<lambda>_. False), oe_walk = (\<lambda>_ _. Walked [])\<rparr>"

definition one_object :: provenance_object where
  "one_object = \<lparr>po_hash = hash_of bare_env ''{}'', po_object_type = ''rollout'', po_source_id = ''ro-0'', po_run_id = ''run-0'',
     po_rollout_id = ''ro-0'', po_parent_hashes = [], po_path = object_path bare_env (hash_of bare_env ''{}''),
     po_size_bytes = 2, po_created_at = format_time 0\<rparr>"

definition one_rollout :: rollout where
  "one_rollout = \<lparr>ro_id = ''ro-1'', ro_run_id = ''run-1'', ro_task_path = ''task'', ro_base_snapshot_id = ''snap-1'',
     ro_status = ''open'', ro_fanout = 1, ro_budget_seconds = 0, ro_max_cost = 0, ro_winner_attempt_id = [],
     ro_promotion_id = [], ro_cost_estimate = 0, ro_risk_status = [], ro_created_at = format_time 0,
     ro_updated_at = format_time 0\<rparr>"

definition one_state :: object_state where
  "one_state = \<lparr>os_files = [po_path one_object \<mapsto> ''{}''],
     os_world = quiet_world (empty_db\<lparr>db_provenance_objects := [one_object], db_rollouts := [one_rollout]\<rparr>),
     os_refs = Map.empty, os_count = 0, os_roots = []\<rparr>"

lemma bare_env_ok: "hex_digest (oe_sha bare_env)" "never_torn bare_env"
  by (auto simp: hex_digest_def never_torn_def bare_env_def)

lemma one_state_ok: "sound_objects bare_env one_state"
proof -
  have o1: "objects one_state = [one_object]" by (simp add: objects_def one_state_def)
  have "sound_object bare_env one_state one_object"
    by (simp add: sound_object_def one_object_def one_state_def trim_space_no_space)
  then show ?thesis by (simp add: sound_objects_def o1)
qed


end
