(* ===== verification/Intent.thy ===== *)
theory Intent
  imports JsonlMap Policy Semantics
begin

text \<open>
  The intent-runtime diff of \<open>internal/intent\<close>: normalised effects (\<open>effect.go\<close>), effect profiles of
  operations (\<open>profile.go\<close>) and the reconciliation of contracts with effects (\<open>diff.go\<close>). The lemmas say
  which events the diff reports, what each of its verdicts rests on, and which sensitive effects no verdict
  mentions. A nil slice and an empty one are the same list; \<open>encoding/json\<close> prints it as \<open>null\<close>, since no
  slice here is empty without being nil.
\<close>

section \<open>Effects\<close>

type_synonym effect_kind = string

record runtime_effect =
  re_kind :: effect_kind
  re_target :: string
  re_agent_id :: string
  re_tool_call_id :: string
  re_event_id :: string
  re_confidence :: rat

definition top_fields :: "string \<Rightarrow> raw_object" where
  "top_fields payload = (case decode payload of Some (JObj kvs) \<Rightarrow> kvs | _ \<Rightarrow> [])"

text \<open>The envelope: the member \<open>payload\<close> when it is an object, and in it the member \<open>raw\<close>.\<close>

definition inner_fields :: "string \<Rightarrow> raw_object" where
  "inner_fields payload =
     (let t = top_fields payload in case as_map (jget ''payload'' t) of Some p \<Rightarrow> p | None \<Rightarrow> t)"

definition raw_fields :: "string \<Rightarrow> raw_object" where
  "raw_fields payload =
     (let p = inner_fields payload in case as_map (jget ''raw'' p) of Some r \<Rightarrow> r | None \<Rightarrow> p)"

fun first_string :: "json option list \<Rightarrow> string" where
  "first_string [] = []"
| "first_string (v # vs) =
     (case v of Some (JStr s) \<Rightarrow> if s \<noteq> [] then s else first_string vs | _ \<Rightarrow> first_string vs)"

fun first_any :: "json option list \<Rightarrow> json option" where
  "first_any [] = None"
| "first_any (v # vs) = (if v = None \<or> v = Some JNull then first_any vs else v)"

definition argv_to_command :: "json option \<Rightarrow> string" where
  "argv_to_command v =
     (case v of Some (JArr xs) \<Rightarrow> join '' '' (concat (map (\<lambda>x. case x of JStr s \<Rightarrow> [s] | _ \<Rightarrow> []) xs)) | _ \<Rightarrow> [])"

definition extract_event_fields :: "string \<Rightarrow> string \<times> string \<times> string" where
  "extract_event_fields payload =
     (let i = inner_fields payload; r = raw_fields payload;
          path = first_string [jget ''path'' i, jget ''path'' r];
          dst = first_string [jget ''dst_ip'' i, jget ''dst_ip'' r, jget ''dst_host'' i, jget ''dst_host'' r,
                  jget ''host'' i, jget ''host'' r];
          cmd = first_string [jget ''command'' i, jget ''command'' r];
          cmd = (if cmd = [] then argv_to_command (first_any [jget ''argv'' i, jget ''argv'' r]) else cmd)
      in (path, dst, cmd))"

definition payload_has_canary :: "string \<Rightarrow> bool" where
  "payload_has_canary payload \<longleftrightarrow> as_slice (jget ''canary_hits'' (top_fields payload)) \<noteq> []"

definition extract_comm :: "string \<Rightarrow> string" where
  "extract_comm payload = first_string [jget ''comm'' (inner_fields payload), jget ''comm'' (raw_fields payload)]"

definition or_default :: "string \<Rightarrow> string \<Rightarrow> string" where
  "or_default s d = (if s = [] then d else s)"

definition is_foreign_secret :: "decision \<Rightarrow> bool" where
  "is_foreign_secret d \<longleftrightarrow>
     de_rule_id d \<noteq> ''self_credential_access'' \<and>
     (de_rule_id d = ''secret_path_access'' \<or>
      is_enforcing (de_decision d) \<and> contains (to_lower (de_reason d)) ''secret'')"

definition open_event :: "string \<Rightarrow> policy_event" where
  "open_event path = \<lparr>pe_source = [], pe_event_type = ''file_open'', pe_run_id = [], pe_session_id = [],
     pe_tool_call_id = [], pe_process_id = [], pe_snapshot_id = [], pe_dst_ip = [], pe_path = path, pe_args = None\<rparr>"

definition classify_event :: "engine \<Rightarrow> string \<Rightarrow> string \<Rightarrow> (effect_kind \<times> string) option" where
  "classify_event eng ty payload =
     (case extract_event_fields payload of (path, dst, cmd) \<Rightarrow>
        if ty = ''execve'' then Some (''process_exec'', cmd)
        else if ty = ''metadata_ip'' then Some (''metadata_egress'', or_default dst ''169.254.169.254'')
        else if ty = ''private_cidr'' then Some (''private_cidr_access'', dst)
        else if ty = ''network_connect'' then
          Some (if payload_has_canary payload then ''sensitive_egress'' else ''network_connect'', dst)
        else if ty = ''file_write'' then Some (''file_write'', path)
        else if ty = ''secret_path'' \<or> ty = ''file_open'' \<or> ty = ''openat'' then
          Some (if is_foreign_secret (evaluate eng (open_event path)) then ''secret_read'' else ''file_read'', path)
        else None)"

section \<open>Profiles\<close>

definition baseline_forbidden :: "effect_kind list" where
  "baseline_forbidden = [''secret_read'', ''metadata_egress'', ''private_cidr_access'', ''sensitive_egress'']"

definition is_baseline_forbidden :: "effect_kind \<Rightarrow> bool" where
  "is_baseline_forbidden k \<longleftrightarrow> list_ex (\<lambda>b. b = k) baseline_forbidden"

record profile =
  pr_operation :: string
  pr_declared :: "effect_kind list"
  pr_allowed :: "effect_kind list"
  pr_forbidden :: "effect_kind list"

definition forbidden_set :: "profile \<Rightarrow> effect_kind set" where
  "forbidden_set p =
     (set baseline_forbidden - (set (pr_allowed p) \<union> set (pr_declared p))) \<union> set (pr_forbidden p)"

definition exec_profile :: profile where
  "exec_profile = \<lparr>pr_operation = ''exec'', pr_declared = [''process_exec''],
     pr_allowed = [''file_read'', ''file_write'', ''network_connect''], pr_forbidden = []\<rparr>"

definition default_profiles :: "string \<rightharpoonup> profile" where
  "default_profiles =
     [''file_read'' \<mapsto> \<lparr>pr_operation = ''file_read'', pr_declared = [''file_read''], pr_allowed = [],
        pr_forbidden = [''file_write'', ''network_connect'']\<rparr>,
      ''file_write'' \<mapsto> \<lparr>pr_operation = ''file_write'', pr_declared = [''file_write''], pr_allowed = [''file_read''],
        pr_forbidden = []\<rparr>,
      ''exec'' \<mapsto> exec_profile,
      ''install'' \<mapsto> \<lparr>pr_operation = ''install'', pr_declared = [''process_exec'', ''file_write'', ''network_connect''],
        pr_allowed = [], pr_forbidden = []\<rparr>]"

definition blank_profile :: "string \<Rightarrow> profile" where
  "blank_profile operation = \<lparr>pr_operation = operation, pr_declared = [], pr_allowed = [], pr_forbidden = []\<rparr>"

definition profile_for :: "(string \<rightharpoonup> profile) \<Rightarrow> string \<Rightarrow> profile" where
  "profile_for ps operation =
     (case ps operation of Some p \<Rightarrow> p
      | None \<Rightarrow> (case ps ''exec'' of Some p \<Rightarrow> p | None \<Rightarrow> blank_profile []))"

definition install_markers :: "string list" where
  "install_markers = [''pip install'', ''pip3 install'', ''npm install'', ''npm i '', ''poetry add'',
     ''uv pip install'', ''setup.py install'', ''yarn add'', ''go install'']"

definition is_install_command :: "string \<Rightarrow> bool" where
  "is_install_command l \<longleftrightarrow> list_ex (contains l) install_markers"

definition infer_operation :: "string \<Rightarrow> string" where
  "infer_operation label =
     (let l = to_lower (trim_space label) in
      if has_prefix l ''read '' then ''file_read''
      else if has_prefix l ''write '' then ''file_write''
      else if is_install_command l then ''install''
      else ''exec'')"

section \<open>Contracts and the diff\<close>

record intent_contract =
  ic_id :: string
  ic_kind :: string
  ic_scope_agent :: string
  ic_tool_call_id :: string
  ic_operation :: string
  ic_target :: string
  ic_profile :: profile
  ic_source :: string
  ic_confidence :: rat
  ic_negative :: bool

record runtime_diff =
  df_id :: string
  df_agent_id :: string
  df_tool_call_id :: string
  df_contract_kind :: string
  df_operation :: string
  df_target :: string
  df_status :: string
  df_finding :: string
  df_confidence :: rat
  df_declared :: "effect_kind list"
  df_forbidden :: "effect_kind list"
  df_observed :: "effect_kind list"
  df_mismatch_reason :: string
  df_source :: string
  df_event_ids :: "string list"

definition trim_contract :: "string \<Rightarrow> string" where
  "trim_contract i = trim_prefix i ''contract/''"

definition join_kinds :: "effect_kind list \<Rightarrow> string" where
  "join_kinds ks = join '', '' ks"

definition shorten :: "string \<Rightarrow> nat \<Rightarrow> string" where
  "shorten s n = take n (replace_all [CHR 0x0A] '' '' (trim_space s))"

definition kinds_of :: "runtime_effect list \<Rightarrow> effect_kind list" where
  "kinds_of es = rev (remdups (rev (map re_kind es)))"

definition event_ids_of :: "runtime_effect list \<Rightarrow> string list" where
  "event_ids_of es = filter (\<lambda>i. i \<noteq> []) (map re_event_id es)"

definition sorted_forbidden :: "effect_kind set \<Rightarrow> effect_kind list" where
  "sorted_forbidden ks = sorted_list_of_set ks"

definition declared_observed :: "effect_kind list \<Rightarrow> effect_kind set \<Rightarrow> bool" where
  "declared_observed declared observed \<longleftrightarrow> declared \<noteq> [] \<and> list_all (\<lambda>k. k \<in> observed) declared"

definition violation_confidence :: "runtime_effect list \<Rightarrow> rat" where
  "violation_confidence es = fold (\<lambda>e m. if re_confidence e < m then re_confidence e else m) es 1"

text \<open>The effects a contract answers for: those of its tool call, or those of its agent.\<close>

definition by_tool_call :: "intent_contract \<Rightarrow> bool" where
  "by_tool_call c \<longleftrightarrow> (ic_kind c = ''tool_call'' \<or> ic_kind c = ''model_response'') \<and> ic_tool_call_id c \<noteq> []"

definition answers_for :: "intent_contract \<Rightarrow> runtime_effect \<Rightarrow> bool" where
  "answers_for c e \<longleftrightarrow>
     (if by_tool_call c then re_tool_call_id e = ic_tool_call_id c else re_agent_id e = ic_scope_agent c)"

definition forbidden_of :: "intent_contract \<Rightarrow> effect_kind set" where
  "forbidden_of c = (if ic_negative c then set baseline_forbidden else forbidden_set (ic_profile c))"

definition executed_diff :: "intent_contract \<Rightarrow> runtime_effect list \<Rightarrow> runtime_diff" where
  "executed_diff c scope =
     \<lparr>df_id = ''diff/'' @ trim_contract (ic_id c) @ ''/ok'', df_agent_id = ic_scope_agent c,
      df_tool_call_id = ic_tool_call_id c, df_contract_kind = ic_kind c, df_operation = ic_operation c,
      df_target = ic_target c, df_status = ''decided_and_executed'', df_finding = [],
      df_confidence = ic_confidence c, df_declared = pr_declared (ic_profile c), df_forbidden = [],
      df_observed = kinds_of scope, df_mismatch_reason = [], df_source = ic_source c, df_event_ids = []\<rparr>"

definition violation_reason :: "intent_contract \<Rightarrow> runtime_effect list \<Rightarrow> string" where
  "violation_reason c violating =
     (if ic_negative c then
        ''agent refused this action but its runtime produced: '' @ join_kinds (kinds_of violating)
      else if ic_kind c = ''peer_message'' then
        ''peer instruction '' @ [CHR 0x27] @ shorten (ic_target c) 60 @ [CHR 0x27] @ '' led to forbidden effects: '' @
          join_kinds (kinds_of violating)
      else ic_operation c @ '' produced effects it does not permit: '' @ join_kinds (kinds_of violating))"

definition violation_diff :: "intent_contract \<Rightarrow> runtime_effect list \<Rightarrow> runtime_diff" where
  "violation_diff c violating =
     \<lparr>df_id = ''diff/'' @ trim_contract (ic_id c), df_agent_id = ic_scope_agent c,
      df_tool_call_id = ic_tool_call_id c, df_contract_kind = ic_kind c, df_operation = ic_operation c,
      df_target = ic_target c,
      df_status = (if ic_negative c then ''refused_but_runtime_happened'' else ''declared_vs_effect_mismatch''),
      df_finding = (if \<not> ic_negative c \<and> ic_kind c = ''peer_message'' then ''peer_message_intent_mismatch'' else []),
      df_confidence = violation_confidence violating, df_declared = pr_declared (ic_profile c),
      df_forbidden = sorted_forbidden (forbidden_of c), df_observed = kinds_of violating,
      df_mismatch_reason = violation_reason c violating, df_source = ic_source c,
      df_event_ids = event_ids_of violating\<rparr>"

definition contract_diff :: "runtime_effect list \<Rightarrow> intent_contract \<Rightarrow> runtime_diff list" where
  "contract_diff es c =
     (let scope = filter (answers_for c) es; violating = filter (\<lambda>e. re_kind e \<in> forbidden_of c) scope in
      if violating = [] then
        (if declared_observed (pr_declared (ic_profile c)) (set (map re_kind scope)) \<and> scope \<noteq> []
         then [executed_diff c scope] else [])
      else [violation_diff c violating])"

text \<open>The effects that count as a gap, and the bucket each falls in.\<close>

definition is_gap :: "intent_contract list \<Rightarrow> runtime_effect \<Rightarrow> bool" where
  "is_gap cs e \<longleftrightarrow>
     is_baseline_forbidden (re_kind e) \<and>
     \<not> (re_agent_id e \<noteq> [] \<and> re_agent_id e \<in> set (map ic_scope_agent cs)) \<and>
     \<not> (re_tool_call_id e \<noteq> [] \<and> re_tool_call_id e \<in> set (map ic_tool_call_id cs))"

definition gap_key :: "runtime_effect \<Rightarrow> string" where
  "gap_key e = (if re_agent_id e \<noteq> [] then ''agent:'' @ re_agent_id e else ''scope:'' @ re_tool_call_id e)"

definition gap_diff :: "runtime_effect list \<Rightarrow> string \<Rightarrow> runtime_diff" where
  "gap_diff gaps key =
     (let b = filter (\<lambda>e. gap_key e = key) gaps; agent = list_ex (\<lambda>e. re_agent_id e \<noteq> []) b in
      \<lparr>df_id = ''diff/gap/'' @ shorten key 24, df_agent_id = (if agent then trim_prefix key ''agent:'' else []),
       df_tool_call_id = (if agent then [] else trim_prefix key ''scope:''), df_contract_kind = ''none'',
       df_operation = [], df_target = [], df_status = ''intent_coverage_gap'', df_finding = [], df_confidence = 0,
       df_declared = [], df_forbidden = [], df_observed = kinds_of b,
       df_mismatch_reason = ''sensitive runtime effects observed ('' @ join_kinds (kinds_of b) @
         '') but no intent contract was captured for this scope'',
       df_source = ''coverage'', df_event_ids = event_ids_of b\<rparr>)"

definition status_rank :: "string \<Rightarrow> nat" where
  "status_rank s =
     (if s = ''refused_but_runtime_happened'' then 0 else if s = ''declared_vs_effect_mismatch'' then 1
      else if s = ''intent_coverage_gap'' then 2 else if s = ''decided_and_executed'' then 3 else 4)"

text \<open>\<open>order\<close> is the order in which Go ranges over the keys of the map of gaps.\<close>

definition diff :: "(string list \<Rightarrow> string list) \<Rightarrow> intent_contract list \<Rightarrow> runtime_effect list \<Rightarrow> runtime_diff list" where
  "diff order cs es =
     (let gaps = filter (is_gap cs) es in
      sort_key (\<lambda>d. status_rank (df_status d))
        (concat (map (contract_diff es) cs) @ map (gap_diff gaps) (order (remdups (map gap_key gaps)))))"

section \<open>Which events the diff reports\<close>

lemma set_kinds_of [simp]: "set (kinds_of es) = re_kind ` set es"
  by (simp add: kinds_of_def)

lemma kinds_of_Nil [simp]: "kinds_of es = [] \<longleftrightarrow> es = []"
  by (simp add: kinds_of_def)

lemma set_event_ids [simp]: "set (event_ids_of es) = re_event_id ` set es - {[]}"
  by (auto simp: event_ids_of_def)

lemma is_baseline_forbidden_iff: "is_baseline_forbidden k \<longleftrightarrow> k \<in> set baseline_forbidden"
  by (auto simp: is_baseline_forbidden_def list_ex_iff)

lemma violation_confidence_bounds:
  "violation_confidence es \<le> 1 \<and> (\<forall>e \<in> set es. violation_confidence es \<le> re_confidence e) \<and>
   (violation_confidence es = 1 \<or> violation_confidence es \<in> re_confidence ` set es)"
proof -
  have "let v = fold (\<lambda>e m. if re_confidence e < m then re_confidence e else m) es m in
      v \<le> m \<and> (\<forall>e \<in> set es. v \<le> re_confidence e) \<and> (v = m \<or> v \<in> re_confidence ` set es)" for m
  proof (induction es arbitrary: m)
    case (Cons e es)
    from Cons [of "if re_confidence e < m then re_confidence e else m"] show ?case
      by (auto simp: Let_def split: if_splits)
  qed simp
  from this [of 1] show ?thesis by (simp add: violation_confidence_def Let_def)
qed

text \<open>A map is ranged over in some order of its keys.\<close>

definition some_order :: "('a list \<Rightarrow> 'a list) \<Rightarrow> bool" where
  "some_order order \<longleftrightarrow> (\<forall>ks. mset (order ks) = mset ks)"

lemma some_order_set: "some_order order \<Longrightarrow> set (order ks) = set ks"
  by (metis some_order_def set_mset_mset)

lemma set_diff:
  assumes "some_order order"
  shows "set (diff order cs es) =
     (\<Union>c \<in> set cs. set (contract_diff es c)) \<union>
     gap_diff (filter (is_gap cs) es) ` gap_key ` set (filter (is_gap cs) es)"
  by (simp add: diff_def Let_def some_order_set [OF assms])

lemma gap_bucket: "set (event_ids_of (filter (\<lambda>e. gap_key e = k) gs)) = re_event_id ` {e \<in> set gs. gap_key e = k} - {[]}"
  by auto

lemma is_gap_iff:
  "is_gap cs e \<longleftrightarrow> re_kind e \<in> set baseline_forbidden \<and>
     (re_agent_id e = [] \<or> re_agent_id e \<notin> ic_scope_agent ` set cs) \<and>
     (re_tool_call_id e = [] \<or> re_tool_call_id e \<notin> ic_tool_call_id ` set cs)"
  by (auto simp: is_gap_def is_baseline_forbidden_iff)

definition violates :: "intent_contract \<Rightarrow> runtime_effect \<Rightarrow> bool" where
  "violates c e \<longleftrightarrow> answers_for c e \<and> re_kind e \<in> forbidden_of c"

lemma contract_diff_ids:
  "(\<exists>d \<in> set (contract_diff es c). i \<in> set (df_event_ids d)) \<longleftrightarrow>
     i \<noteq> [] \<and> (\<exists>e \<in> set es. re_event_id e = i \<and> violates c e)"
proof -
  let ?v = "filter (\<lambda>e. re_kind e \<in> forbidden_of c) (filter (answers_for c) es)"
  have "(\<exists>d \<in> set (contract_diff es c). i \<in> set (df_event_ids d)) \<longleftrightarrow> i \<in> set (event_ids_of ?v)"
    by (cases "?v = []") (simp_all add: contract_diff_def Let_def executed_diff_def violation_diff_def event_ids_of_def
        del: set_event_ids)
  then show ?thesis by (auto simp: violates_def)
qed

lemma gap_diff_ids: "set (df_event_ids (gap_diff gs k)) = re_event_id ` {e \<in> set gs. gap_key e = k} - {[]}"
  by (simp add: gap_diff_def Let_def gap_bucket del: set_event_ids)

lemma reported_iff:
  assumes "some_order order"
  shows "(\<exists>d \<in> set (diff order cs es). i \<in> set (df_event_ids d)) \<longleftrightarrow>
     i \<noteq> [] \<and> (\<exists>e \<in> set es. re_event_id e = i \<and> ((\<exists>c \<in> set cs. violates c e) \<or> is_gap cs e))"
proof -
  have "(\<exists>d \<in> set (diff order cs es). i \<in> set (df_event_ids d)) \<longleftrightarrow>
      (\<exists>c \<in> set cs. \<exists>d \<in> set (contract_diff es c). i \<in> set (df_event_ids d)) \<or>
      (\<exists>e \<in> set (filter (is_gap cs) es). i \<in> set (df_event_ids (gap_diff (filter (is_gap cs) es) (gap_key e))))"
    unfolding set_diff [OF assms] by blast
  also have "\<dots> \<longleftrightarrow> i \<noteq> [] \<and> (\<exists>e \<in> set es. re_event_id e = i \<and> ((\<exists>c \<in> set cs. violates c e) \<or> is_gap cs e))"
    by (simp only: contract_diff_ids gap_diff_ids) auto
  finally show ?thesis .
qed

text \<open>C21: The diff reports what it says it reports. A runtime event stands in some diff exactly when an effect
of it violates a contract that answers for it, or is sensitive and belongs to no agent and no tool call with
a contract. The diffs come with refused actions first, then mismatches, gaps and executed contracts.\<close>

theorem diff_reports_exactly:
  assumes "some_order order"
  shows "((\<exists>d \<in> set (diff order cs es). i \<in> set (df_event_ids d)) \<longleftrightarrow>
       i \<noteq> [] \<and> (\<exists>e \<in> set es. re_event_id e = i \<and>
         ((\<exists>c \<in> set cs. answers_for c e \<and> re_kind e \<in> forbidden_of c) \<or>
          (re_kind e \<in> set baseline_forbidden \<and>
            (re_agent_id e = [] \<or> re_agent_id e \<notin> ic_scope_agent ` set cs) \<and>
            (re_tool_call_id e = [] \<or> re_tool_call_id e \<notin> ic_tool_call_id ` set cs))))) \<and>
     sorted (map (\<lambda>d. status_rank (df_status d)) (diff order cs es))"
  unfolding reported_iff [OF assms] violates_def is_gap_iff by (simp add: diff_def Let_def)

text \<open>C37: What a verdict rests on. A mismatch or a refused action that happened names a contract, its observed
kinds are not empty and each is forbidden and was seen among the effects the contract answers for, and its
confidence is at most that of any of these effects. It is a refused action exactly for a negative contract.\<close>

theorem verdicts_rest_on_effects:
  assumes "some_order order" "d \<in> set (diff order cs es)"
    and "df_status d = ''refused_but_runtime_happened'' \<or> df_status d = ''declared_vs_effect_mismatch''"
  shows "\<exists>c \<in> set cs. (df_status d = ''refused_but_runtime_happened'' \<longleftrightarrow> ic_negative c) \<and>
     df_source d = ic_source c \<and> df_observed d \<noteq> [] \<and>
     (\<forall>k \<in> set (df_observed d). k \<in> set (df_forbidden d) \<and> (\<exists>e \<in> set es. answers_for c e \<and> re_kind e = k)) \<and>
     (\<forall>e \<in> set es. answers_for c e \<and> re_kind e \<in> set (df_forbidden d) \<longrightarrow> df_confidence d \<le> re_confidence e)"
proof -
  from assms(2,3) obtain c where c: "c \<in> set cs" "d \<in> set (contract_diff es c)"
    by (auto simp: set_diff [OF assms(1)] gap_diff_def Let_def)
  define v where "v = filter (\<lambda>e. answers_for c e \<and> re_kind e \<in> forbidden_of c) es"
  from c(2) assms(3) have d: "d = violation_diff c v" "v \<noteq> []"
    by (auto simp: contract_diff_def Let_def executed_diff_def v_def [symmetric] split: if_splits)
  have "finite (forbidden_of c)" by (simp add: forbidden_of_def forbidden_set_def)
  then have f: "set (df_forbidden d) = forbidden_of c" by (simp add: d violation_diff_def sorted_forbidden_def)
  from violation_confidence_bounds [of v] have
    "\<forall>e \<in> set es. answers_for c e \<and> re_kind e \<in> set (df_forbidden d) \<longrightarrow> df_confidence d \<le> re_confidence e"
    unfolding f by (simp add: d violation_diff_def v_def)
  moreover have "\<forall>k \<in> set (df_observed d). k \<in> set (df_forbidden d) \<and> (\<exists>e \<in> set es. answers_for c e \<and> re_kind e = k)"
    unfolding f by (auto simp: d violation_diff_def v_def)
  moreover have "df_source d = ic_source c" "df_observed d \<noteq> []"
    "df_status d = ''refused_but_runtime_happened'' \<longleftrightarrow> ic_negative c"
    using d(2) by (simp_all add: d(1) violation_diff_def)
  ultimately show ?thesis using c(1) by blast
qed

text \<open>Sensitive effects that no verdict mentions. An effect counts as a gap only when its agent has no
contract at all, but a contract of a tool call answers for that tool call alone. When all contracts are those
of other tool calls and one of them is of the same agent, a sensitive effect of the agent, here one whose event
is no other effect's, stands in no diff.\<close>

theorem contracted_agent_hides_effect:
  assumes "some_order order" "e \<in> set es" "\<forall>e' \<in> set es. re_event_id e' = re_event_id e \<longrightarrow> e' = e"
    and "re_agent_id e \<noteq> []" "re_agent_id e \<in> ic_scope_agent ` set cs"
    and "\<forall>c \<in> set cs. by_tool_call c \<and> ic_tool_call_id c \<noteq> re_tool_call_id e"
  shows "\<forall>d \<in> set (diff order cs es). re_event_id e \<notin> set (df_event_ids d)"
proof -
  from assms(6) have "\<not> violates c e" if "c \<in> set cs" for c
    using that by (auto simp: violates_def answers_for_def)
  moreover have "\<not> is_gap cs e" using assms(4,5) by (simp add: is_gap_iff)
  ultimately show ?thesis using reported_iff [OF assms(1), of cs es "re_event_id e"] assms(3) by blast
qed

section \<open>Concrete runs\<close>

definition effect_at :: "effect_kind \<Rightarrow> string \<Rightarrow> string \<Rightarrow> string \<Rightarrow> runtime_effect" where
  "effect_at k agent call ev = \<lparr>re_kind = k, re_target = [], re_agent_id = agent, re_tool_call_id = call,
     re_event_id = ev, re_confidence = 9 / 10\<rparr>"

definition read_contract :: intent_contract where
  "read_contract = \<lparr>ic_id = ''contract/t1'', ic_kind = ''tool_call'', ic_scope_agent = ''bob'',
     ic_tool_call_id = ''t1'', ic_operation = ''file_read'', ic_target = ''read notes'',
     ic_profile = profile_for default_profiles ''file_read'', ic_source = ''tool_call t1'', ic_confidence = 1 / 2,
     ic_negative = False\<rparr>"

lemma some_order_id: "some_order (\<lambda>ks. ks)"
  by (simp add: some_order_def)

lemma read_forbidden: "forbidden_of read_contract = set baseline_forbidden \<union> {''file_write'', ''network_connect''}"
  by (simp add: forbidden_of_def read_contract_def forbidden_set_def profile_for_def default_profiles_def
      baseline_forbidden_def)

lemma diff_reports_exactly_witness:
  "\<exists>d \<in> set (diff (\<lambda>ks. ks) [read_contract] [effect_at ''secret_read'' ''bob'' ''t1'' ''ev-1'']).
     ''ev-1'' \<in> set (df_event_ids d)"
  using diff_reports_exactly [OF some_order_id, of "[read_contract]" "[effect_at ''secret_read'' ''bob'' ''t1'' ''ev-1'']" "''ev-1''"]
  by (simp add: effect_at_def read_forbidden baseline_forbidden_def answers_for_def by_tool_call_def)
    (simp add: read_contract_def)

lemma read_violation:
  "violation_diff read_contract [effect_at ''secret_read'' ''bob'' ''t1'' ''ev-1''] \<in>
     set (diff (\<lambda>ks. ks) [read_contract] [effect_at ''secret_read'' ''bob'' ''t1'' ''ev-1''])"
  unfolding set_diff [OF some_order_id]
  by (simp add: contract_diff_def read_forbidden effect_at_def baseline_forbidden_def answers_for_def by_tool_call_def)
    (simp add: read_contract_def)

lemma verdicts_rest_on_effects_witness:
  "df_confidence (violation_diff read_contract [effect_at ''secret_read'' ''bob'' ''t1'' ''ev-1'']) \<le> 9 / 10"
  using verdicts_rest_on_effects [OF some_order_id read_violation]
  by (auto simp: violation_diff_def read_contract_def effect_at_def kinds_of_def answers_for_def by_tool_call_def)

lemma contracted_agent_hides_effect_witness:
  "filter (\<lambda>d. ''ev-1'' \<in> set (df_event_ids d))
     (diff (\<lambda>ks. ks) [read_contract] [effect_at ''secret_read'' ''bob'' ''t2'' ''ev-1'']) = []"
  using contracted_agent_hides_effect [OF some_order_id, of "effect_at ''secret_read'' ''bob'' ''t2'' ''ev-1''"
    "[effect_at ''secret_read'' ''bob'' ''t2'' ''ev-1'']" "[read_contract]"]
  by (simp add: effect_at_def read_contract_def by_tool_call_def filter_empty_conv)

end
