(* ===== verification/Hooks.thy ===== *)
theory Hooks
  imports Objects Policy Semantics Jsonl
begin

text \<open>
  The hooks bridge (\<open>internal/hooksbridge/bridge.go\<close>): it reads the hook log of a harness and writes the graph of
  its agents, with one tool call per proposed action that the policy engine has judged; then it joins the
  events of the kernel to the tool calls by their commands. \<open>strconv.ParseFloat\<close>, the order in which Go ranges
  over a map, and the order of rows in a query that gives none are parameters. Case folding is modelled for
  ASCII. The lemmas show what the bridge may touch, that its verdicts are the engine's, and what the join links.
\<close>

section \<open>Events of the log\<close>

record hook_env =
  hv_objects :: object_env
  hv_engine :: engine
  hv_base :: "int option"
  hv_float_stamp :: "string \<Rightarrow> int option"
  hv_order :: "nat \<Rightarrow> string list \<Rightarrow> string list"
  hv_calls :: "tool_call list \<Rightarrow> tool_call list"
  hv_events :: "event list \<Rightarrow> event list"

record hook_event =
  he_ts :: string
  he_event :: string
  he_agent_id :: string
  he_agent_type :: string
  he_tool_name :: string
  he_tool_use_id :: string
  he_session_id :: string
  he_last_msg :: string
  he_tool_input :: raw_object

definition str_arg :: "raw_object \<Rightarrow> string list \<Rightarrow> string" where
  "str_arg m ks =
     (case first_some (\<lambda>k. let s = trim_space (str (jget k m)) in if s \<noteq> [] then Some s else None) ks of
        Some s \<Rightarrow> s | None \<Rightarrow> [])"

definition parse_event :: "raw_object \<Rightarrow> hook_event" where
  "parse_event raw =
     \<lparr>he_ts = first_str raw [''ts'', ''_ts'', ''timestamp''],
      he_event = first_str raw [''hook_event_name'', ''hookEventName'', ''event''],
      he_agent_id = first_str raw [''agent_id'', ''agentId''],
      he_agent_type = first_str raw [''agent_type'', ''agentType''],
      he_tool_name = first_str raw [''tool_name'', ''toolName''],
      he_tool_use_id = first_str raw [''tool_use_id'', ''toolUseId''],
      he_session_id = first_str raw [''session_id''],
      he_last_msg = first_str raw [''last_assistant_message''],
      he_tool_input = map_or_nil (jget ''tool_input'' raw)\<rparr>"

text \<open>\<open>bufio.Scanner\<close> with a buffer of sixteen MiB; the flag says that no line was too longer.\<close>

definition hook_line_limit :: nat where "hook_line_limit = 16 * 1024 * 1024"

definition read_events :: "bytes \<Rightarrow> hook_event list \<times> bool" where
  "read_events input =
     (let ls = raw_lines input; fits = (\<lambda>l. length l < hook_line_limit);
          texts = filter (\<lambda>l. l \<noteq> []) (map (\<lambda>l. trim_space (drop_cr l)) (takeWhile fits ls)) in
      (map parse_event (concat (map (\<lambda>l. case parse_object l of None \<Rightarrow> [] | Some raw \<Rightarrow> [raw]) texts)),
       list_all fits ls))"

text \<open>The time stamp: the one of the event, or one millisecond per event from the base.\<close>

definition default_base :: int where
  "default_base = day_number 2026 1 1 * 86400 * 1000000000"

definition base_time :: "hook_env \<Rightarrow> int" where
  "base_time env = (case hv_base env of Some t \<Rightarrow> t | None \<Rightarrow> default_base)"

definition parse_stamp :: "hook_env \<Rightarrow> string \<Rightarrow> int option" where
  "parse_stamp env s = (case parse_time s of Some t \<Rightarrow> Some t | None \<Rightarrow> hv_float_stamp env s)"

definition event_time :: "hook_env \<Rightarrow> string \<Rightarrow> nat \<Rightarrow> string" where
  "event_time env stamped idx =
     format_time (case (if stamped = [] then None else parse_stamp env stamped) of
        Some t \<Rightarrow> t | None \<Rightarrow> base_time env + int idx * 1000000)"

section \<open>The regular expressions\<close>

text \<open>\<open>\b\<close>: a word character on one side only. The alternatives of a pattern begin and end with word characters.\<close>

definition word_char :: "char \<Rightarrow> bool" where
  "word_char c \<longleftrightarrow> is_alnum c \<or> c = CHR ''_''"

definition bounded_at :: "string \<Rightarrow> bool \<Rightarrow> string \<Rightarrow> bool" where
  "bounded_at p after_word s \<longleftrightarrow>
     has_prefix (to_lower s) p \<and> \<not> after_word \<and>
     (let rest = drop (length p) s in rest = [] \<or> \<not> word_char (hd rest))"

fun word_match :: "string list \<Rightarrow> bool \<Rightarrow> string \<Rightarrow> bool" where
  "word_match ps after_word [] \<longleftrightarrow> False"
| "word_match ps after_word (c # s) \<longleftrightarrow>
     list_ex (\<lambda>p. bounded_at p after_word (c # s)) ps \<or> word_match ps (word_char c) s"

definition refuse_verbs :: "string list" where
  "refuse_verbs = [''refus'', ''decline'', ''cannot'', ''can'' @ CHR 0x27 # ''t'', ''won'' @ CHR 0x27 # ''t'',
     ''will not'', ''not able'', ''not comfortable'', ''against policy'', ''against my'', ''i can not'',
     ''i will not'', ''not going to'']"

definition refuse_nouns :: "string list" where
  "refuse_nouns = [''credential'', ''secret'', ''exfiltrat'', ''.aws'', ''metadata'', ''169.254'', ''malicious'',
     ''unsafe'', ''harvest'', ''sensitive data'', ''private key'', ''id_rsa'', ''security risk'',
     ''security concern'', ''security reason'']"

definition is_security_refusal :: "string \<Rightarrow> bool" where
  "is_security_refusal msg \<longleftrightarrow>
     word_match refuse_verbs False msg \<and> list_ex (contains (to_lower msg)) refuse_nouns"

text \<open>The name in a dispatch prompt: an introduction, white space, and a name, at the first place where all fit.\<close>

definition letter :: "char \<Rightarrow> bool" where
  "letter c \<longleftrightarrow> is_upper c \<or> is_lower c"

definition name_behind :: "string \<Rightarrow> string \<Rightarrow> string option" where
  "name_behind intro s =
     (if has_prefix (to_lower s) intro then
        (let r = drop (length intro) s; ws = takeWhile is_re_space r; r = drop (length ws) r in
         if ws \<noteq> [] \<and> r \<noteq> [] \<and> letter (hd r) then Some (takeWhile is_word r) else None)
      else None)"

definition name_intros :: "string list" where
  "name_intros = [''your name is'', ''you are the'', ''you are'', ''named'']"

fun name_match :: "string \<Rightarrow> string option" where
  "name_match [] = None"
| "name_match (c # s) =
     (case first_some (\<lambda>i. name_behind i (c # s)) name_intros of Some n \<Rightarrow> Some n | None \<Rightarrow> name_match s)"

definition parse_name :: "raw_object \<Rightarrow> string" where
  "parse_name ti =
     (let n = str_arg ti [''name''] in
      if n \<noteq> [] then to_lower n
      else case name_match (str_arg ti [''prompt'', ''description'']) of Some m \<Rightarrow> to_lower m | None \<Rightarrow> [])"

definition is_hex_id :: "string \<Rightarrow> bool" where
  "is_hex_id s \<longleftrightarrow> 8 \<le> length s \<and> list_all (\<lambda>c. is_num c \<or> c \<in> set ''abcdef'') s"

section \<open>The state\<close>

record agent_state =
  hg_name :: string
  hg_type :: string
  hg_parent :: string
  hg_started_at :: string
  hg_ended_at :: string
  hg_spawned :: bool

record hook_summary =
  hm_agents :: nat
  hm_tool_calls :: nat
  hm_refused :: nat
  hm_spawn_edges :: nat
  hm_message_edges :: nat
  hm_lines :: nat

record hook_state =
  hk_store :: object_state
  hk_agents :: "(string \<times> agent_state) list"
  hk_calls :: "string \<rightharpoonup> string"
  hk_messages :: nat
  hk_summary :: hook_summary

definition main_agent :: string where "main_agent = ''main''"

definition or_main :: "string \<Rightarrow> string" where
  "or_main i = (if i = [] then main_agent else i)"

definition blank_agent :: agent_state where
  "blank_agent = \<lparr>hg_name = [], hg_type = [], hg_parent = [], hg_started_at = [], hg_ended_at = [], hg_spawned = False\<rparr>"

type_synonym roster = "(string \<times> agent_state) list"

definition ensure :: "string \<Rightarrow> roster \<Rightarrow> roster" where
  "ensure i as = (if or_main i \<in> fst ` set as then as else as @ [(or_main i, blank_agent)])"

definition agent_at :: "string \<Rightarrow> roster \<Rightarrow> agent_state" where
  "agent_at i as = (case map_of as (or_main i) of Some a \<Rightarrow> a | None \<Rightarrow> blank_agent)"

definition change_agent :: "string \<Rightarrow> (agent_state \<Rightarrow> agent_state) \<Rightarrow> roster \<Rightarrow> roster" where
  "change_agent i f as = map (\<lambda>(j, a). (j, if j = or_main i then f a else a)) (ensure i as)"

definition start_roster :: roster where
  "start_roster = [(main_agent, blank_agent\<lparr>hg_name := ''orchestrator'', hg_type := ''main'', hg_spawned := True\<rparr>)]"

text \<open>\<open>prefillRoster\<close>: a name is pending from its dispatch to the next start of an agent without one.\<close>

definition prefill_agent :: "hook_event \<Rightarrow> string list \<Rightarrow> agent_state \<Rightarrow> agent_state" where
  "prefill_agent ev waiting a =
     (let a = (if he_agent_type ev \<noteq> [] then a\<lparr>hg_type := he_agent_type ev\<rparr> else a);
          a = (if hg_parent a = [] then a\<lparr>hg_parent := main_agent\<rparr> else a)
      in if hg_name a = [] \<and> waiting \<noteq> [] then a\<lparr>hg_name := hd waiting\<rparr> else a)"

definition prefill_event :: "hook_event \<Rightarrow> string list \<times> roster \<Rightarrow> string list \<times> roster" where
  "prefill_event ev st =
     (case st of (waiting, as) \<Rightarrow>
        if he_event ev = ''PreToolUse'' then
          (let n = parse_name (he_tool_input ev) in
           (if he_tool_name ev = ''Agent'' \<and> n \<noteq> [] then waiting @ [n] else waiting, as))
        else if he_event ev = ''SubagentStart'' then
          (let named = hg_name (agent_at (he_agent_id ev) as) = [] \<and> waiting \<noteq> [] in
           (if named then tl waiting else waiting, change_agent (he_agent_id ev) (prefill_agent ev waiting) as))
        else (waiting, as))"

definition prefill_roster :: "hook_event list \<Rightarrow> roster \<Rightarrow> roster" where
  "prefill_roster evs as = snd (fold prefill_event evs ([], as))"

section \<open>Writes\<close>

definition hook_edge_types :: "string list" where
  "hook_edge_types = [''agent_spawn'', ''agent_message'', ''agent_tool_call'', ''agent_syscall'']"

definition hook_edge :: "string \<Rightarrow> string \<Rightarrow> string \<Rightarrow> string \<Rightarrow> string \<Rightarrow> string \<Rightarrow> graph_edge" where
  "hook_edge i run src dst ty ts =
     \<lparr>ge_id = i, ge_run_id = run, ge_rollout_id = [], ge_from_id = src, ge_to_id = dst, ge_edge_type = ty,
      ge_source_event_id = ''hooks'', ge_created_at = ts\<rparr>"

definition write_edge ::
  "string \<Rightarrow> string \<Rightarrow> string \<Rightarrow> string \<Rightarrow> string \<Rightarrow> world \<Rightarrow> go_error option \<times> world" where
  "write_edge run src dst ty ts w =
     (if src = [] \<or> dst = [] then (None, w)
      else
        (case new_id ''edge'' w of (i, w) \<Rightarrow>
         (case exec (tbl_insert db_graph_edges db_graph_edges_update ge_id (hook_edge i run src dst ty ts)) w of
            (ok, w) \<Rightarrow> (if ok then None else Some SqlError, w))))"

definition clear_statements :: "string \<Rightarrow> (db \<Rightarrow> db) list" where
  "clear_statements run =
     [tbl_delete db_graph_edges_update (\<lambda>e. ge_run_id e = run \<and> ge_edge_type e \<in> set hook_edge_types),
      tbl_delete db_tool_calls_update (\<lambda>t. tc_run_id t = run \<and> tc_agent_id t \<noteq> []),
      tbl_delete db_agents_update (\<lambda>a. ag_run_id a = run)]"

fun run_statements :: "(db \<Rightarrow> db) list \<Rightarrow> world \<Rightarrow> bool \<times> world" where
  "run_statements [] w = (True, w)"
| "run_statements (f # fs) w = (case exec_total f w of (ok, w) \<Rightarrow> if ok then run_statements fs w else (False, w))"

definition clear_prior :: "string \<Rightarrow> world \<Rightarrow> go_error option \<times> world" where
  "clear_prior run w = (case run_statements (clear_statements run) w of (ok, w) \<Rightarrow> (if ok then None else Some SqlError, w))"

definition base_name :: "string \<Rightarrow> string" where
  "base_name p =
     (if p = [] then ''.''
      else let q = trim_right (\<lambda>c. c = CHR ''/'') p in
        if q = [] then ''/'' else last (split_char CHR ''/'' q))"

definition gate_event :: "string \<Rightarrow> string \<Rightarrow> string list option \<Rightarrow> policy_event" where
  "gate_event ty path args = \<lparr>pe_source = ''ai_gate'', pe_event_type = ty, pe_run_id = [], pe_session_id = [],
     pe_tool_call_id = [], pe_process_id = [], pe_snapshot_id = [], pe_dst_ip = [], pe_path = path, pe_args = args\<rparr>"

definition proposed_event :: "string \<Rightarrow> raw_object \<Rightarrow> string \<times> policy_event" where
  "proposed_event tool ti =
     (let p = str_arg ti [''file_path'', ''path''] in
      if tool = ''Bash'' then
        (let cmd = str_arg ti [''command''] in (cmd, gate_event ''execve'' [] (Some (GoPrelude.fields cmd))))
      else if tool = ''Read'' then (''read '' @ base_name p, gate_event ''file_open'' p None)
      else if tool = ''Write'' \<or> tool = ''Edit'' then (''write '' @ base_name p, gate_event ''file_write'' p None)
      else (tool, gate_event (to_lower tool) [] None))"

definition gate_denies :: "decision \<Rightarrow> bool" where
  "gate_denies d \<longleftrightarrow>
     de_mode d = ''enforce'' \<and> (de_decision d = ''deny'' \<or> de_decision d = ''kill'' \<or> de_decision d = ''quarantine'')"

definition call_row ::
  "string \<Rightarrow> string \<Rightarrow> string \<Rightarrow> string \<Rightarrow> string \<Rightarrow> string \<Rightarrow> string \<Rightarrow> tool_call" where
  "call_row i run agent command status policy ts =
     \<lparr>tc_id = i, tc_run_id = run, tc_rollout_id = [], tc_attempt_id = [], tc_session_id = [], tc_command = command,
      tc_args_hash = [], tc_status = status, tc_exit_code = None, tc_wall_ms = 0, tc_cost_estimate = 0,
      tc_result_ref = [], tc_policy_decision = policy, tc_created_at = ts, tc_started_at = ts, tc_ended_at = [],
      tc_agent_id = agent\<rparr>"

definition on_objects :: "(object_state \<Rightarrow> 'a \<times> object_state) \<Rightarrow> hook_state \<Rightarrow> 'a \<times> hook_state" where
  "on_objects f s = (case f (hk_store s) of (a, t) \<Rightarrow> (a, s\<lparr>hk_store := t\<rparr>))"

definition on_tables :: "(world \<Rightarrow> 'a \<times> world) \<Rightarrow> hook_state \<Rightarrow> 'a \<times> hook_state" where
  "on_tables f = on_objects (on_store f)"

definition count_summary :: "(hook_summary \<Rightarrow> hook_summary) \<Rightarrow> hook_state \<Rightarrow> hook_state" where
  "count_summary f s = s\<lparr>hk_summary := f (hk_summary s)\<rparr>"

definition count_refused :: "hook_summary \<Rightarrow> hook_summary" where
  "count_refused m = m\<lparr>hm_refused := Suc (hm_refused m)\<rparr>"

definition count_call :: "hook_summary \<Rightarrow> hook_summary" where
  "count_call m = m\<lparr>hm_tool_calls := Suc (hm_tool_calls m)\<rparr>"

definition call_id :: "hook_event \<Rightarrow> hook_state \<Rightarrow> string \<times> hook_state" where
  "call_id ev s = (if he_tool_use_id ev = [] then on_tables (new_id ''tool'') s else (he_tool_use_id ev, s))"

definition judged_row :: "hook_env \<Rightarrow> string \<Rightarrow> hook_event \<Rightarrow> string \<Rightarrow> string \<Rightarrow> tool_call" where
  "judged_row env run ev i ts =
     (case proposed_event (he_tool_name ev) (he_tool_input ev) of (command, sev) \<Rightarrow>
      let d = evaluate (hv_engine env) sev in
      call_row i run (or_main (he_agent_id ev)) command (if gate_denies d then ''denied'' else ''asserted'') (de_decision d) ts)"

definition write_tool_call ::
  "hook_env \<Rightarrow> string \<Rightarrow> hook_event \<Rightarrow> string \<Rightarrow> hook_state \<Rightarrow> go_error option \<times> hook_state" where
  "write_tool_call env run ev ts s =
     (let s = s\<lparr>hk_agents := ensure (he_agent_id ev) (hk_agents s)\<rparr>;
          s = (if tc_status (judged_row env run ev [] ts) = ''denied'' then count_summary count_refused s else s) in
      (case call_id ev s of (i, s) \<Rightarrow>
       (case on_tables (exec_total (tbl_replace db_tool_calls_update tc_id (judged_row env run ev i ts))) s of
          (ok, s) \<Rightarrow>
            if \<not> ok then (Some SqlError, s)
            else on_tables (write_edge run (''agent/'' @ or_main (he_agent_id ev)) i ''agent_tool_call'' ts)
              (count_summary count_call (s\<lparr>hk_calls := (hk_calls s)(he_tool_use_id ev \<mapsto> i)\<rparr>)))))"

definition normalize_recipient :: "(nat \<Rightarrow> string list \<Rightarrow> string list) \<Rightarrow> nat \<Rightarrow> string \<Rightarrow> roster \<Rightarrow> string" where
  "normalize_recipient order n r as =
     (if r = [] then ''unknown''
      else
        case find (\<lambda>i. hg_name (agent_at i as) \<noteq> [] \<and> equal_fold (hg_name (agent_at i as)) r)
            (order (2 * n) (map fst as)) of
          Some i \<Rightarrow> i
        | None \<Rightarrow>
            (if is_hex_id r then
               (case find (\<lambda>i. has_prefix r i \<or> has_prefix i r) (order (2 * n + 1) (map fst as)) of Some i \<Rightarrow> i | None \<Rightarrow> r)
             else r))"

definition message_object :: "string \<Rightarrow> string \<Rightarrow> string \<Rightarrow> nat \<Rightarrow> string \<Rightarrow> prov_object" where
  "message_object run sender recipient n body =
     \<lparr>ob_type = ''artifact'',
      ob_source_id = ''agent_message/'' @ sender @ ''->'' @ recipient @ ''/'' @ show_nat n, ob_run_id = run,
      ob_rollout_id = [], ob_parents = [], ob_refs = [],
      ob_payload = texts [(''kind'', ''agent_message''), (''from'', sender), (''to'', recipient), (''body'', body),
        (''content'', body)]\<rparr>"

definition write_message_edge ::
  "hook_env \<Rightarrow> string \<Rightarrow> hook_event \<Rightarrow> string \<Rightarrow> hook_state \<Rightarrow> go_error option \<times> hook_state" where
  "write_message_edge env run ev ts s =
     (let sender = or_main (he_agent_id ev); s = s\<lparr>hk_messages := Suc (hk_messages s)\<rparr>; n = hk_messages s;
          recipient = normalize_recipient (hv_order env) n (str_arg (he_tool_input ev) [''recipient'', ''to'']) (hk_agents s);
          body = str_arg (he_tool_input ev) [''message'', ''content''] in
      (case on_objects (put_external_object (hv_objects env) (message_object run sender recipient n body)) s of
         (Inl e, s) \<Rightarrow> (Some e, s)
       | (Inr (h, _), s) \<Rightarrow>
           (case on_tables (write_edge run (''agent/'' @ sender) h ''agent_message'' ts) s of
              (Some e, s) \<Rightarrow> (Some e, s)
            | (None, s) \<Rightarrow>
                (case on_tables (write_edge run h (''agent/'' @ recipient) ''agent_message'' ts) s of
                   (Some e, s) \<Rightarrow> (Some e, s)
                 | (None, s) \<Rightarrow> (None, count_summary (\<lambda>m. m\<lparr>hm_message_edges := Suc (hm_message_edges m)\<rparr>) s)))))"

definition one_line :: "string \<Rightarrow> string" where
  "one_line s = join '' '' (GoPrelude.fields s)"

definition truncate :: "string \<Rightarrow> nat \<Rightarrow> string" where
  "truncate s n = (if length s \<le> n then s else take n s @ ''...'')"

definition refusal_row :: "string \<Rightarrow> string \<Rightarrow> string \<Rightarrow> string \<Rightarrow> string \<Rightarrow> tool_call" where
  "refusal_row i run agent msg ts =
     call_row i run (or_main agent) (''[llm refusal] '' @ truncate (one_line msg) 200) ''refused'' ''refused_by_model'' ts"

definition write_refusal ::
  "string \<Rightarrow> string \<Rightarrow> string \<Rightarrow> string \<Rightarrow> hook_state \<Rightarrow> go_error option \<times> hook_state" where
  "write_refusal run agent msg ts s =
     (case on_tables (new_id ''refusal'') s of (i, s) \<Rightarrow>
      (case on_tables (exec (tbl_insert db_tool_calls db_tool_calls_update tc_id (refusal_row i run agent msg ts))) s of
         (ok, s) \<Rightarrow>
           if \<not> ok then (Some SqlError, s)
           else on_tables (write_edge run (''agent/'' @ or_main agent) i ''agent_tool_call'' ts)
             (count_summary count_call (count_summary count_refused s))))"

section \<open>\<open>Ingest\<close>\<close>

definition coordination_tools :: "string list" where
  "coordination_tools = [''TaskOutput'', ''TaskCreate'', ''TaskUpdate'', ''TaskGet'', ''TaskList'', ''TaskStop'', ''TeammateIdle'']"

definition pre_tool_use ::
  "hook_env \<Rightarrow> string \<Rightarrow> hook_event \<Rightarrow> string \<Rightarrow> hook_state \<Rightarrow> go_error option \<times> hook_state" where
  "pre_tool_use env run ev ts s =
     (if he_tool_name ev = ''Agent'' then (None, s)
      else if he_tool_name ev = ''SendMessage'' then write_message_edge env run ev ts s
      else if he_tool_name ev \<in> set coordination_tools then (None, s)
      else write_tool_call env run ev ts s)"

definition post_tool_use :: "hook_event \<Rightarrow> string \<Rightarrow> hook_state \<Rightarrow> hook_state" where
  "post_tool_use ev ts s =
     (case hk_calls s (he_tool_use_id ev) of
        None \<Rightarrow> s
      | Some i \<Rightarrow>
          if i = [] then s
          else snd (on_tables (exec_total
            (tbl_update db_tool_calls_update (\<lambda>t. tc_id t = i) (\<lambda>t. t\<lparr>tc_ended_at := ts\<rparr>))) s))"

definition subagent_start ::
  "string \<Rightarrow> hook_event \<Rightarrow> string \<Rightarrow> hook_state \<Rightarrow> go_error option \<times> hook_state" where
  "subagent_start run ev ts s =
     (let open_agent = (\<lambda>a. (if hg_started_at a = [] then a\<lparr>hg_started_at := ts\<rparr> else a)\<lparr>hg_ended_at := []\<rparr>);
          s = s\<lparr>hk_agents := change_agent (he_agent_id ev) open_agent (hk_agents s)\<rparr>;
          a = agent_at (he_agent_id ev) (hk_agents s) in
      if hg_spawned a then (None, s)
      else
        (case on_tables (write_edge run (''agent/'' @ hg_parent a) (''agent/'' @ or_main (he_agent_id ev)) ''agent_spawn'' ts) s of
           (Some e, s) \<Rightarrow> (Some e, s)
         | (None, s) \<Rightarrow>
             (None, count_summary (\<lambda>m. m\<lparr>hm_spawn_edges := Suc (hm_spawn_edges m)\<rparr>)
                (s\<lparr>hk_agents := change_agent (he_agent_id ev) (\<lambda>a. a\<lparr>hg_spawned := True\<rparr>) (hk_agents s)\<rparr>))))"

definition refuse_if_said ::
  "string \<Rightarrow> string \<Rightarrow> hook_event \<Rightarrow> string \<Rightarrow> hook_state \<Rightarrow> go_error option \<times> hook_state" where
  "refuse_if_said run agent ev ts s =
     (if he_last_msg ev \<noteq> [] \<and> is_security_refusal (he_last_msg ev)
      then write_refusal run agent (he_last_msg ev) ts s else (None, s))"

definition handle_event ::
  "hook_env \<Rightarrow> string \<Rightarrow> nat \<times> hook_event \<Rightarrow> hook_state \<Rightarrow> go_error option \<times> hook_state" where
  "handle_event env run ie s =
     (case ie of (idx, ev) \<Rightarrow>
        let ts = event_time env (he_ts ev) idx; ty = he_event ev in
        if ty = ''PreToolUse'' then pre_tool_use env run ev ts s
        else if ty = ''PostToolUse'' then (None, post_tool_use ev ts s)
        else if ty = ''SubagentStart'' then subagent_start run ev ts s
        else if ty = ''SubagentStop'' then
          refuse_if_said run (he_agent_id ev) ev ts
            (s\<lparr>hk_agents := change_agent (he_agent_id ev) (\<lambda>a. a\<lparr>hg_ended_at := ts\<rparr>) (hk_agents s)\<rparr>)
        else if ty = ''Stop'' \<or> ty = ''StopFailure'' then
          refuse_if_said run (or_main (he_agent_id ev)) ev ts
            (s\<lparr>hk_agents := ensure (or_main (he_agent_id ev)) (hk_agents s)\<rparr>)
        else (None, s))"

fun do_all :: "('a \<Rightarrow> 's \<Rightarrow> go_error option \<times> 's) \<Rightarrow> 'a list \<Rightarrow> 's \<Rightarrow> go_error option \<times> 's" where
  "do_all f [] s = (None, s)"
| "do_all f (x # xs) s = (case f x s of (Some e, s) \<Rightarrow> (Some e, s) | (None, s) \<Rightarrow> do_all f xs s)"

definition agent_row :: "hook_env \<Rightarrow> string \<Rightarrow> string \<Rightarrow> agent_state \<Rightarrow> agent" where
  "agent_row env run i a =
     \<lparr>ag_id = i, ag_run_id = run, ag_name = hg_name a, ag_agent_type = hg_type a, ag_parent_agent_id = hg_parent a,
      ag_binding_source = ''hooks'', ag_created_at = event_time env [] 0, ag_started_at = hg_started_at a,
      ag_ended_at = hg_ended_at a\<rparr>"

definition persist_agent :: "hook_env \<Rightarrow> string \<Rightarrow> string \<Rightarrow> hook_state \<Rightarrow> go_error option \<times> hook_state" where
  "persist_agent env run i s =
     (case on_tables (exec_total (tbl_replace db_agents_update (\<lambda>r. (ag_run_id r, ag_id r))
          (agent_row env run i (agent_at i (hk_agents s))))) s of
        (ok, s) \<Rightarrow>
          if \<not> ok then (Some SqlError, s)
          else (None, count_summary (\<lambda>m. m\<lparr>hm_agents := Suc (hm_agents m)\<rparr>) s))"

definition start_state :: "object_state \<Rightarrow> hook_state" where
  "start_state t = \<lparr>hk_store = t, hk_agents = start_roster, hk_calls = Map.empty, hk_messages = 0,
     hk_summary = \<lparr>hm_agents = 0, hm_tool_calls = 0, hm_refused = 0, hm_spawn_edges = 0, hm_message_edges = 0, hm_lines = 0\<rparr>\<rparr>"

definition with_engine :: "hook_env \<Rightarrow> hook_env" where
  "with_engine env = (if en_rules (hv_engine env) = [] then env\<lparr>hv_engine := default_engine\<rparr> else env)"

definition enumerated :: "'a list \<Rightarrow> (nat \<times> 'a) list" where
  "enumerated xs = zip [0..<length xs] xs"

definition ingest_events ::
  "hook_env \<Rightarrow> string \<Rightarrow> hook_event list \<Rightarrow> hook_state \<Rightarrow> go_error option \<times> hook_state" where
  "ingest_events env run evs s =
     (case do_all (handle_event env run) (enumerated evs) (s\<lparr>hk_agents := prefill_roster evs (hk_agents s)\<rparr>) of
        (Some e, s) \<Rightarrow> (Some e, s)
      | (None, s) \<Rightarrow> do_all (persist_agent env run) (hv_order env 0 (map fst (hk_agents s))) s)"

definition ingest_hooks ::
  "hook_env \<Rightarrow> string \<Rightarrow> bytes \<Rightarrow> object_state \<Rightarrow> (go_error option \<times> hook_summary) \<times> object_state" where
  "ingest_hooks env run input t =
     (let s = start_state t; env = with_engine env in
      if run = [] then ((Some (Errorf ''RunID is required''), hk_summary s), t)
      else
        (case on_tables (clear_prior run) s of
           (Some e, s) \<Rightarrow> ((Some e, hk_summary s), hk_store s)
         | (None, s) \<Rightarrow>
             (case read_events input of (evs, whole) \<Rightarrow>
                if \<not> whole then ((Some (Errorf ''read''), hk_summary s), hk_store s)
                else
                  (case ingest_events env run evs (count_summary (\<lambda>m. m\<lparr>hm_lines := length evs\<rparr>) s) of
                     (r, s) \<Rightarrow> ((r, hk_summary s), hk_store s)))))"

section \<open>\<open>CorrelateSyscalls\<close>\<close>

definition norm_cmd :: "string \<Rightarrow> string" where
  "norm_cmd s = to_lower (join '' '' (GoPrelude.fields s))"

definition commands_match :: "string \<Rightarrow> string \<Rightarrow> bool" where
  "commands_match a b =
     (let na = norm_cmd a; nb = norm_cmd b;
          (shorter, longer) = (if length nb < length na then (nb, na) else (na, nb)) in
      na \<noteq> [] \<and> nb \<noteq> [] \<and> 2 \<le> length (GoPrelude.fields shorter) \<and> contains longer shorter)"

definition payload_command :: "string \<Rightarrow> string" where
  "payload_command payload =
     (case parse_object payload of
        None \<Rightarrow> []
      | Some m \<Rightarrow>
          (let inner = map_or_nil (jget ''payload'' m); raw = map_or_nil (jget ''raw'' inner); top_raw = map_or_nil (jget ''raw'' m);
               given = (\<lambda>ks layer. let c = str_arg layer ks in if c \<noteq> [] then Some c else None) in
           case first_some (given [''command'', ''cmdline'']) [raw, inner, top_raw, m] of
             Some c \<Rightarrow> c
           | None \<Rightarrow> (case first_some (given [''comm'']) [raw, top_raw] of Some c \<Rightarrow> c | None \<Rightarrow> [])))"

definition attributable_event :: "string \<Rightarrow> bool" where
  "attributable_event ty \<longleftrightarrow> ty \<in> {''execve'', ''secret_path'', ''metadata_ip'', ''private_cidr'', ''network_connect''}"

text \<open>The map of pids as an association list, the last entry first.\<close>

definition own_pid :: "tool_call list \<Rightarrow> event \<Rightarrow> (int \<times> string) list \<Rightarrow> (int \<times> string) list" where
  "own_pid calls e m =
     (if ev_event_type e = ''execve'' \<and> ev_pid e > 0 \<and> payload_command (ev_payload e) \<noteq> [] then
        (case find (\<lambda>c. commands_match (payload_command (ev_payload e)) (tc_command c)) calls of
           Some c \<Rightarrow> (ev_pid e, tc_id c) # m | None \<Rightarrow> m)
      else m)"

definition pid_owners :: "tool_call list \<Rightarrow> event list \<Rightarrow> (int \<times> string) list" where
  "pid_owners calls es = fold (own_pid calls) es []"

fun link_events ::
  "string \<Rightarrow> string \<Rightarrow> (int \<rightharpoonup> string) \<Rightarrow> event list \<Rightarrow> nat \<Rightarrow> world \<Rightarrow> (nat \<times> go_error option) \<times> world" where
  "link_events run ts owners [] n w = ((n, None), w)"
| "link_events run ts owners (e # es) n w =
     (case owners (ev_pid e) of
        None \<Rightarrow> link_events run ts owners es n w
      | Some call \<Rightarrow>
          if \<not> attributable_event (ev_event_type e) then link_events run ts owners es n w
          else
            (case write_edge run call (event_node (ev_id e)) ''agent_syscall'' ts w of
               (Some err, w) \<Rightarrow> ((n, Some err), w)
             | (None, w) \<Rightarrow> link_events run ts owners es (Suc n) w))"

definition agent_calls :: "string \<Rightarrow> db \<Rightarrow> tool_call list" where
  "agent_calls run d = filter (\<lambda>t. tc_run_id t = run \<and> tc_agent_id t \<noteq> [] \<and> tc_command t \<noteq> []) (db_tool_calls d)"

definition events_of_run :: "string \<Rightarrow> db \<Rightarrow> event list" where
  "events_of_run run d = filter (\<lambda>e. ev_run_id e = Some run) (db_events d)"

definition correlate_syscalls :: "hook_env \<Rightarrow> string \<Rightarrow> world \<Rightarrow> (nat \<times> go_error option) \<times> world" where
  "correlate_syscalls env run w =
     (case exec_total (tbl_delete db_graph_edges_update (\<lambda>e. ge_run_id e = run \<and> ge_edge_type e = ''agent_syscall'')) w of
        (ok, w) \<Rightarrow>
          if \<not> ok then ((0, Some SqlError), w)
          else
            (case query (\<lambda>d. hv_calls env (agent_calls run d)) w of
               (None, w) \<Rightarrow> ((0, Some SqlError), w)
             | (Some calls, w) \<Rightarrow>
                 if calls = [] then ((0, None), w)
                 else
                   (case query (\<lambda>d. hv_events env (events_of_run run d)) w of
                      (None, w) \<Rightarrow> ((0, Some SqlError), w)
                    | (Some es, w) \<Rightarrow>
                        (let owners = pid_owners calls es in
                         if owners = [] then ((0, None), w)
                         else (case now w of (ts, w) \<Rightarrow> link_events run ts (map_of owners) es 0 w)))))"

section \<open>What the bridge writes\<close>

text \<open>The statements of an ingest of the events \<open>evs\<close>, one case for each kind of row.\<close>

definition own_id :: "hook_event list \<Rightarrow> string \<Rightarrow> bool" where
  "own_id evs i \<longleftrightarrow> i \<in> he_tool_use_id ` set evs \<or> has_prefix i ''tool-''"

inductive hook_write :: "hook_env \<Rightarrow> string \<Rightarrow> hook_event list \<Rightarrow> db \<Rightarrow> db \<Rightarrow> bool"
  for env :: hook_env and run :: string and evs :: "hook_event list" where
  edge: "ge_run_id e = run \<Longrightarrow> ge_edge_type e \<in> set hook_edge_types \<Longrightarrow>
    hook_write env run evs d (db_graph_edges_update (\<lambda>es. es @ [e]) d)"
| call: "ev \<in> set evs \<Longrightarrow> he_event ev = ''PreToolUse'' \<Longrightarrow> own_id evs i \<Longrightarrow>
    hook_write env run evs d (tbl_replace db_tool_calls_update tc_id (judged_row env run ev i ts) d)"
| refusal: "is_security_refusal msg \<Longrightarrow>
    hook_write env run evs d (db_tool_calls_update (\<lambda>ts. ts @ [refusal_row i run agent msg t]) d)"
| ended: "own_id evs i \<Longrightarrow>
    hook_write env run evs d (tbl_update db_tool_calls_update (\<lambda>t. tc_id t = i) (\<lambda>t. t\<lparr>tc_ended_at := ts\<rparr>) d)"
| agent: "ag_run_id a = run \<Longrightarrow>
    hook_write env run evs d (tbl_replace db_agents_update (\<lambda>r. (ag_run_id r, ag_id r)) a d)"
| object: "hook_write env run evs d (tbl_replace db_provenance_objects_update po_hash b d)"

abbreviation hook_writes where "hook_writes env run evs \<equiv> (hook_write env run evs)\<^sup>*\<^sup>*"

text \<open>Invariants of the statements.\<close>

definition hook_rest :: "db \<Rightarrow> db" where
  "hook_rest d = d\<lparr>db_graph_edges := [], db_tool_calls := [], db_agents := [], db_provenance_objects := []\<rparr>"

definition foreign_edge :: "string \<Rightarrow> graph_edge \<Rightarrow> bool" where
  "foreign_edge run e \<longleftrightarrow> \<not> (ge_run_id e = run \<and> ge_edge_type e \<in> set hook_edge_types)"

definition foreign_call :: "string \<Rightarrow> hook_event list \<Rightarrow> tool_call \<Rightarrow> bool" where
  "foreign_call run evs t \<longleftrightarrow> \<not> (tc_run_id t = run \<and> tc_agent_id t \<noteq> []) \<and> \<not> own_id evs (tc_id t)"

definition untouched :: "string \<Rightarrow> hook_event list \<Rightarrow> db \<Rightarrow> db \<Rightarrow> bool" where
  "untouched run evs d d' \<longleftrightarrow>
     hook_rest d' = hook_rest d \<and>
     filter (foreign_edge run) (db_graph_edges d') = filter (foreign_edge run) (db_graph_edges d) \<and>
     filter (foreign_call run evs) (db_tool_calls d') = filter (foreign_call run evs) (db_tool_calls d) \<and>
     filter (\<lambda>a. ag_run_id a \<noteq> run) (db_agents d') = filter (\<lambda>a. ag_run_id a \<noteq> run) (db_agents d)"

lemma untouched_refl: "untouched run evs d d"
  by (simp add: untouched_def)

lemma untouched_trans: "untouched run evs d e \<Longrightarrow> untouched run evs e f \<Longrightarrow> untouched run evs d f"
  by (simp add: untouched_def)

lemma or_main_neq [simp]: "or_main i \<noteq> []"
  by (simp add: or_main_def main_agent_def)

lemma judged_row_fields [simp]:
  "tc_id (judged_row env run ev i ts) = i" "tc_run_id (judged_row env run ev i ts) = run"
  "tc_agent_id (judged_row env run ev i ts) = or_main (he_agent_id ev)"
  by (simp_all add: judged_row_def call_row_def Let_def split: prod.split)

lemma refusal_row_fields [simp]:
  "tc_id (refusal_row i run agent msg ts) = i" "tc_run_id (refusal_row i run agent msg ts) = run"
  "tc_agent_id (refusal_row i run agent msg ts) = or_main agent"
  by (simp_all add: refusal_row_def call_row_def)

lemma filter_map_same:
  "(\<And>x. P (f x) = P x) \<Longrightarrow> (\<And>x. P x \<Longrightarrow> f x = x) \<Longrightarrow> filter P (map f xs) = filter P xs"
  by (induction xs) auto

lemma write_untouched: "hook_write env run evs d d' \<Longrightarrow> untouched run evs d d'"
proof (induction rule: hook_write.induct)
  case (call ev i d ts)
  then show ?case
    by (simp add: untouched_def hook_rest_def tbl_replace_def foreign_call_def)
      (rule filter_cong [OF refl], auto simp: foreign_call_def)
next
  case (ended i d ts)
  then show ?case
    by (simp add: untouched_def hook_rest_def tbl_update_def)
      (rule filter_map_same, auto simp: foreign_call_def)
next
  case (agent a d)
  then show ?case
    by (simp add: untouched_def hook_rest_def tbl_replace_def) (rule filter_cong [OF refl], auto)
qed (simp_all add: untouched_def hook_rest_def tbl_replace_def foreign_edge_def foreign_call_def)

lemma writes_untouched: "hook_writes env run evs d d' \<Longrightarrow> untouched run evs d d'"
  by (induction rule: rtranclp_induct) (auto intro: untouched_refl untouched_trans dest: write_untouched)

text \<open>Every tool call that an agent of the run made comes from the log.\<close>

inductive from_log :: "hook_env \<Rightarrow> string \<Rightarrow> hook_event list \<Rightarrow> tool_call \<Rightarrow> bool"
  for env :: hook_env and run :: string and evs :: "hook_event list" where
  judged: "ev \<in> set evs \<Longrightarrow> he_event ev = ''PreToolUse'' \<Longrightarrow>
    from_log env run evs (judged_row env run ev i ts\<lparr>tc_ended_at := ended\<rparr>)"
| refused: "is_security_refusal msg \<Longrightarrow> from_log env run evs (refusal_row i run agent msg ts\<lparr>tc_ended_at := ended\<rparr>)"

definition all_from_log :: "hook_env \<Rightarrow> string \<Rightarrow> hook_event list \<Rightarrow> db \<Rightarrow> bool" where
  "all_from_log env run evs d \<longleftrightarrow>
     (\<forall>t \<in> set (db_tool_calls d). tc_run_id t = run \<and> tc_agent_id t \<noteq> [] \<longrightarrow> from_log env run evs t)"

lemma row_not_ended [simp]:
  "judged_row env run ev i ts\<lparr>tc_ended_at := []\<rparr> = judged_row env run ev i ts"
  "refusal_row i run agent msg ts\<lparr>tc_ended_at := []\<rparr> = refusal_row i run agent msg ts"
  by (simp_all add: judged_row_def refusal_row_def call_row_def Let_def split: prod.split)

lemma judged_from_log:
  "ev \<in> set evs \<Longrightarrow> he_event ev = ''PreToolUse'' \<Longrightarrow> from_log env run evs (judged_row env run ev i ts)"
  using from_log.judged [where ended = "[]" and i = i and ts = ts] by simp

lemma refusal_from_log: "is_security_refusal msg \<Longrightarrow> from_log env run evs (refusal_row i run agent msg ts)"
  using from_log.refused [where ended = "[]" and i = i and agent = agent and ts = ts] by simp

lemma ended_from_log: "from_log env run evs t \<Longrightarrow> from_log env run evs (t\<lparr>tc_ended_at := ts\<rparr>)"
  by (cases rule: from_log.cases) (auto intro: from_log.intros)

lemma write_from_log: "hook_write env run evs d d' \<Longrightarrow> all_from_log env run evs d \<Longrightarrow> all_from_log env run evs d'"
  by (induction rule: hook_write.induct)
    (auto simp: all_from_log_def tbl_replace_def tbl_update_def judged_from_log refusal_from_log ended_from_log)

lemma writes_from_log:
  "hook_writes env run evs d d' \<Longrightarrow> all_from_log env run evs d \<Longrightarrow> all_from_log env run evs d'"
  by (induction rule: rtranclp_induct) (auto dest: write_from_log)

text \<open>An identifier that belongs to calls of the run only.\<close>

definition taken_by :: "string \<Rightarrow> string \<Rightarrow> db \<Rightarrow> bool" where
  "taken_by run i d \<longleftrightarrow> list_all (\<lambda>t. tc_id t = i \<longrightarrow> tc_run_id t = run) (db_tool_calls d)"

lemma writes_taken: "hook_writes env run evs d d' \<Longrightarrow> taken_by run i d \<Longrightarrow> taken_by run i d'"
proof (induction rule: rtranclp_induct)
  case (step e f)
  from step(2,3) step.prems show ?case
    by (cases rule: hook_write.cases) (auto simp: taken_by_def list_all_iff tbl_replace_def tbl_update_def)
qed

section \<open>The handlers take these steps\<close>

definition hook_db :: "hook_state \<Rightarrow> db" where
  "hook_db s = w_db (os_world (hk_store s))"

definition own_calls :: "hook_event list \<Rightarrow> hook_state \<Rightarrow> bool" where
  "own_calls evs s \<longleftrightarrow> ran (hk_calls s) \<subseteq> Collect (own_id evs)"

definition progress :: "hook_env \<Rightarrow> string \<Rightarrow> hook_event list \<Rightarrow> hook_state \<Rightarrow> hook_state \<Rightarrow> bool" where
  "progress env run evs s s' \<longleftrightarrow>
     (own_calls evs s \<longrightarrow> hook_writes env run evs (hook_db s) (hook_db s') \<and> own_calls evs s') \<and>
     (faithful_env (hv_objects env) \<longrightarrow> leads (hv_objects env) (hk_store s) (hk_store s'))"

lemma progress_refl: "progress env run evs s s"
  by (simp add: progress_def leads_refl)

lemma progress_trans: "progress env run evs s t \<Longrightarrow> progress env run evs t u \<Longrightarrow> progress env run evs s u"
  by (auto simp: progress_def intro: rtranclp_trans leads_trans)

text \<open>What leaves the store alone.\<close>

lemma progress_same [simp]:
  "progress env run evs s (t\<lparr>hk_agents := as\<rparr>) = progress env run evs s t"
  "progress env run evs s (t\<lparr>hk_messages := n\<rparr>) = progress env run evs s t"
  "progress env run evs s (count_summary f t) = progress env run evs s t"
  "progress env run evs (t\<lparr>hk_agents := as\<rparr>) s = progress env run evs t s"
  "progress env run evs (t\<lparr>hk_messages := n\<rparr>) s = progress env run evs t s"
  "progress env run evs (count_summary f t) s = progress env run evs t s"
  by (simp_all add: progress_def hook_db_def own_calls_def count_summary_def)

definition writing :: "hook_env \<Rightarrow> string \<Rightarrow> hook_event list \<Rightarrow> (world \<Rightarrow> 'a \<times> world) \<Rightarrow> bool" where
  "writing env run evs f \<longleftrightarrow> (\<forall>w r w'. f w = (r, w') \<longrightarrow>
     hook_writes env run evs (w_db w) (w_db w') \<and> db_provenance_objects (w_db w') = db_provenance_objects (w_db w))"

lemma writingD:
  assumes "writing env run evs f" "on_tables f s = (r, s')"
  shows "progress env run evs s s'" "hk_calls s' = hk_calls s" "hk_agents s' = hk_agents s"
proof -
  obtain w where w: "f (os_world (hk_store s)) = (r, w)" "s' = s\<lparr>hk_store := (hk_store s)\<lparr>os_world := w\<rparr>\<rparr>"
    using assms(2) by (auto simp: on_tables_def on_objects_def on_store_def split: prod.splits)
  let ?t = "(hk_store s)\<lparr>os_world := w\<rparr>"
  from assms(1) w(1) have f: "hook_writes env run evs (hook_db s) (w_db w)"
    "db_provenance_objects (w_db w) = db_provenance_objects (hook_db s)"
    unfolding writing_def hook_db_def by blast+
  then have "objects ?t = objects (hk_store s)" by (simp add: objects_def hook_db_def)
  then have "leads (hv_objects env) (hk_store s) ?t"
    using sound_same(1) [of ?t "hk_store s" "hv_objects env"] sound_same(2) [of ?t "hk_store s"]
    by (simp add: leads_def known_refs_def)
  with f(1) w(2) show "progress env run evs s s'" "hk_calls s' = hk_calls s" "hk_agents s' = hk_agents s"
    by (simp_all add: progress_def hook_db_def own_calls_def)
qed

lemma writing_exec:
  assumes "\<And>d d'. f d = Some d' \<Longrightarrow> hook_write env run evs d d' \<and> db_provenance_objects d' = db_provenance_objects d"
  shows "writing env run evs (exec f)"
  unfolding writing_def using assms by (auto 4 4 dest!: exec_db split: if_splits)

lemma writing_exec_total:
  assumes "\<And>d. hook_write env run evs d (f d) \<and> db_provenance_objects (f d) = db_provenance_objects d"
  shows "writing env run evs (exec_total f)"
  unfolding exec_total_def by (rule writing_exec) (use assms in auto)

lemma writing_new_id: "writing env run evs (new_id p)"
  unfolding writing_def by (metis new_id_db snd_conv rtranclp.rtrancl_refl)

lemma writing_edge:
  assumes "ty \<in> set hook_edge_types"
  shows "writing env run evs (write_edge run src dst ty ts)"
  unfolding writing_def
proof (intro allI impI)
  fix w r w'
  assume e: "write_edge run src dst ty ts w = (r, w')"
  obtain i w1 where i: "new_id ''edge'' w = (i, w1)" by fastforce
  have "w_db w1 = w_db w" using new_id_db [of "''edge''" w] i by simp
  moreover have "writing env run evs (exec (tbl_insert db_graph_edges db_graph_edges_update ge_id (hook_edge i run src dst ty ts)))"
    by (rule writing_exec) (use assms in \<open>auto simp: tbl_insert_def hook_edge_def intro: hook_write.edge split: if_splits\<close>)
  ultimately show "hook_writes env run evs (w_db w) (w_db w') \<and> db_provenance_objects (w_db w') = db_provenance_objects (w_db w)"
    using e i unfolding writing_def by (fastforce simp: write_edge_def split: if_splits prod.splits)
qed

lemma edge_types: "''agent_spawn'' \<in> set hook_edge_types" "''agent_message'' \<in> set hook_edge_types"
  "''agent_tool_call'' \<in> set hook_edge_types" "''agent_syscall'' \<in> set hook_edge_types"
  by (simp_all add: hook_edge_types_def)

lemma new_id_prefix: "fst (new_id p w) = p @ ''-'' @ drop (length p + 1) (fst (new_id p w))"
  by (simp add: new_id_def split: option.split)

lemma object_writes: "hook_writes env run evs d (tbl_replace db_provenance_objects_update po_hash b d)"
  by (rule r_into_rtranclp) (rule hook_write.object)

lemma put_external_progress:
  assumes "on_objects (put_external_object (hv_objects env) b) s = (r, s')" "ob_parents b = []"
  shows "progress env run evs s s'"
proof -
  let ?env = "hv_objects env"
  let ?t = "hk_store s"
  let ?u = "?t\<lparr>os_refs := Map.empty, os_count := 0, os_roots := []\<rparr>"
  obtain t where t: "put_external_object ?env b ?t = (r, t)" "s' = s\<lparr>hk_store := t\<rparr>"
    using assms(1) by (auto simp: on_objects_def split: prod.splits)
  obtain q v where v: "put ?env (ob_run_id b) b ?u = (q, v)" by fastforce
  from t(1) v consider "t = ?t" | "t = v\<lparr>os_refs := os_refs ?t, os_count := os_count ?t, os_roots := os_roots ?t\<rparr>"
    by (auto simp: put_external_object_def split: if_splits)
  then show ?thesis
  proof cases
    case 2
    have "hook_writes env run evs (w_db (os_world ?u)) (w_db (os_world v))"
      using v by (auto simp: put_def Let_def on_store_def now_def split: if_splits write_outcome.splits prod.splits
          dest!: exec_total_db intro: object_writes)
    moreover have "leads ?env ?t t" if f: "faithful_env ?env"
    proof (rule leadsI)
      assume g: "ready ?env ?t"
      have u: "sound_objects ?env ?u" "hashes ?u = hashes ?t" "known_refs ?u"
        using g sound_same(1) [of ?u ?t ?env] sound_same(2) [of ?u ?t]
        by (simp_all add: ready_def known_refs_def objects_def)
      have "leads ?env ?u v \<and> hashes ?u \<subseteq> hashes v"
        using put_leads [OF _ _ v u(1,3)] f assms(2) by (simp add: faithful_env_def)
      with u have s: "sound_objects ?env v" "hashes ?t \<subseteq> hashes v" by (simp_all add: leads_def)
      have "sound_objects ?env t" "hashes t = hashes v"
        using s sound_same(1) [of t v ?env] sound_same(2) [of t v] 2 by (simp_all add: objects_def)
      with s g 2 show "leads ?env ?t t" by (auto simp: leads_def known_refs_def ready_def)
    qed
    ultimately show ?thesis using 2 t(2) by (simp add: progress_def hook_db_def own_calls_def)
  qed (use t(2) in \<open>simp add: progress_refl\<close>)
qed

lemma edge_progress:
  "on_tables (write_edge run src dst ty ts) s = (r, s') \<Longrightarrow> ty \<in> set hook_edge_types \<Longrightarrow> progress env run evs s s'"
  by (rule writingD(1) [OF writing_edge])

lemma progress_trans3:
  "progress env run evs s t \<Longrightarrow> progress env run evs t u \<Longrightarrow> progress env run evs u v \<Longrightarrow> progress env run evs s v"
  by (blast intro: progress_trans)

lemma message_progress:
  assumes "write_message_edge env run ev ts s = (r, s')"
  shows "progress env run evs s s'"
  using assms unfolding write_message_edge_def Let_def
  by (auto split: prod.splits sum.splits option.splits dest!: put_external_progress [where run = run and evs = evs]
      edge_progress [where env = env and evs = evs] simp: message_object_def edge_types
      intro: progress_trans progress_trans3)

lemma call_writing:
  assumes "ev \<in> set evs" "he_event ev = ''PreToolUse''" "own_id evs i"
  shows "writing env run evs (exec_total (tbl_replace db_tool_calls_update tc_id (judged_row env run ev i ts)))"
  by (rule writing_exec_total) (use hook_write.call [OF assms] in \<open>simp add: tbl_replace_def\<close>)

lemma call_id_progress:
  assumes "call_id ev s = (i, s')" "ev \<in> set evs"
  shows "progress env run evs s s' \<and> own_id evs i \<and> hk_calls s' = hk_calls s"
proof (cases "he_tool_use_id ev = []")
  case True
  with assms(1) have n: "on_tables (new_id ''tool'') s = (i, s')" by (simp add: call_id_def)
  have "has_prefix (fst (new_id ''tool'' w)) ''tool-''" for w
    by (subst new_id_prefix) (simp add: has_prefix_iff)
  with n have "own_id evs i"
    by (auto simp: on_tables_def on_objects_def on_store_def own_id_def split: prod.splits) (metis fst_conv)
  with writingD [OF writing_new_id n] show ?thesis by simp
qed (use assms in \<open>auto simp: call_id_def own_id_def progress_refl\<close>)

lemma tool_call_progress:
  assumes w: "write_tool_call env run ev ts s = (r, s')" and ev: "ev \<in> set evs" "he_event ev = ''PreToolUse''"
  shows "progress env run evs s s'"
proof -
  define s0 where "s0 = (let s = s\<lparr>hk_agents := ensure (he_agent_id ev) (hk_agents s)\<rparr> in
    if tc_status (judged_row env run ev [] ts) = ''denied'' then count_summary count_refused s else s)"
  obtain i s1 where i: "call_id ev s0 = (i, s1)" by fastforce
  obtain ok s2 where ok: "on_tables (exec_total (tbl_replace db_tool_calls_update tc_id (judged_row env run ev i ts))) s1 = (ok, s2)"
    by fastforce
  let ?s3 = "count_summary count_call (s2\<lparr>hk_calls := (hk_calls s2)(he_tool_use_id ev \<mapsto> i)\<rparr>)"
  note p1 = call_id_progress [OF i ev(1), of env run]
  then have own: "own_id evs i" by simp
  have p2: "progress env run evs s1 s2" "hk_calls s2 = hk_calls s1"
    using writingD [OF call_writing [OF ev own] ok] by simp_all
  have s0: "progress env run evs s s1"
    using p1 by (auto simp: s0_def Let_def split: if_splits)
  from w have e: "(if \<not> ok then (Some SqlError, s2)
      else on_tables (write_edge run (''agent/'' @ or_main (he_agent_id ev)) i ''agent_tool_call'' ts) ?s3) = (r, s')"
    using i ok unfolding write_tool_call_def s0_def Let_def by simp
  have "progress env run evs s2 (s2\<lparr>hk_calls := (hk_calls s2)(he_tool_use_id ev \<mapsto> i)\<rparr>)"
    using own by (auto simp: progress_def own_calls_def hook_db_def leads_refl ran_def)
  then have p3: "progress env run evs s2 ?s3" by simp
  show ?thesis
  proof (cases ok)
    case True
    with e have "on_tables (write_edge run (''agent/'' @ or_main (he_agent_id ev)) i ''agent_tool_call'' ts) ?s3 = (r, s')"
      by (simp only: not_True_eq_False if_False)
    from edge_progress [OF this edge_types(3)] have "progress env run evs ?s3 s'" .
    with s0 p2(1) p3 show ?thesis by (blast intro: progress_trans)
  qed (use e s0 p2(1) in \<open>auto intro: progress_trans\<close>)
qed

lemma refusal_progress:
  assumes w: "write_refusal run agent msg ts s = (r, s')" and m: "is_security_refusal msg"
  shows "progress env run evs s s'"
proof -
  obtain i s1 where i: "on_tables (new_id ''refusal'') s = (i, s1)" by fastforce
  obtain ok s2 where ok: "on_tables (exec (tbl_insert db_tool_calls db_tool_calls_update tc_id (refusal_row i run agent msg ts))) s1 = (ok, s2)"
    by fastforce
  have "writing env run evs (exec (tbl_insert db_tool_calls db_tool_calls_update tc_id (refusal_row i run agent msg ts)))"
    by (rule writing_exec) (use m in \<open>auto simp: tbl_insert_def intro: hook_write.refusal split: if_splits\<close>)
  from writingD(1) [OF this ok] writingD(1) [OF writing_new_id i] have p: "progress env run evs s s2"
    by (blast intro: progress_trans)
  show ?thesis
  proof (cases ok)
    case True
    with w i ok have "progress env run evs s2 s'"
      by (auto simp: write_refusal_def edge_types dest!: edge_progress [where env = env and evs = evs])
    with p show ?thesis by (rule progress_trans)
  qed (use w i ok p in \<open>simp add: write_refusal_def\<close>)
qed

lemma pre_progress:
  "pre_tool_use env run ev ts s = (r, s') \<Longrightarrow> ev \<in> set evs \<Longrightarrow> he_event ev = ''PreToolUse'' \<Longrightarrow>
     progress env run evs s s'"
  by (auto simp: pre_tool_use_def progress_refl intro: message_progress tool_call_progress split: if_splits)

lemma post_progress: "progress env run evs s (post_tool_use ev ts s)"
proof (cases "hk_calls s (he_tool_use_id ev)")
  case (Some i)
  let ?f = "exec_total (tbl_update db_tool_calls_update (\<lambda>t. tc_id t = i) (\<lambda>t. t\<lparr>tc_ended_at := ts\<rparr>))"
  obtain ok s1 where ok: "on_tables ?f s = (ok, s1)" by fastforce
  have "progress env run evs s s1" if "own_id evs i"
  proof -
    have "writing env run evs ?f"
      by (rule writing_exec_total) (use hook_write.ended [OF that] in \<open>simp add: tbl_update_def\<close>)
    from writingD(1) [OF this ok] show ?thesis .
  qed
  moreover have "leads (hv_objects env) (hk_store s) (hk_store s1)"
  proof -
    obtain w where w: "?f (os_world (hk_store s)) = (ok, w)" "s1 = s\<lparr>hk_store := (hk_store s)\<lparr>os_world := w\<rparr>\<rparr>"
      using ok by (auto simp: on_tables_def on_objects_def on_store_def split: prod.splits)
    let ?t = "(hk_store s)\<lparr>os_world := w\<rparr>"
    from w(1) have "objects ?t = objects (hk_store s)"
      by (auto simp: objects_def tbl_update_def dest!: exec_total_db)
    with w(2) show ?thesis
      using sound_same(1) [of ?t "hk_store s" "hv_objects env"] sound_same(2) [of ?t "hk_store s"]
      by (simp add: leads_def known_refs_def)
  qed
  moreover have "own_calls evs s \<Longrightarrow> own_id evs i" using Some by (auto simp: own_calls_def ran_def)
  ultimately have "progress env run evs s s1" by (auto simp: progress_def)
  with Some ok show ?thesis by (simp add: post_tool_use_def progress_refl)
qed (simp add: post_tool_use_def progress_refl)

lemma start_progress:
  assumes "subagent_start run ev ts s = (r, s')"
  shows "progress env run evs s s'"
proof -
  define s0 where "s0 = s\<lparr>hk_agents := change_agent (he_agent_id ev)
    (\<lambda>a. (if hg_started_at a = [] then a\<lparr>hg_started_at := ts\<rparr> else a)\<lparr>hg_ended_at := []\<rparr>) (hk_agents s)\<rparr>"
  have "progress env run evs s0 s'"
    using assms unfolding subagent_start_def Let_def s0_def [symmetric]
    by (auto simp: progress_refl edge_types split: if_splits prod.splits option.splits
        dest!: edge_progress [where env = env and evs = evs])
  then show ?thesis by (simp add: s0_def)
qed

lemma said_progress: "refuse_if_said run agent ev ts s = (r, s') \<Longrightarrow> progress env run evs s s'"
  by (auto simp: refuse_if_said_def progress_refl intro: refusal_progress split: if_splits)

lemma handle_progress:
  assumes "handle_event env run ie s = (r, s')" "snd ie \<in> set evs"
  shows "progress env run evs s s'"
  using assms by (auto simp: handle_event_def Let_def post_progress progress_refl split: prod.splits if_splits
      dest: pre_progress start_progress said_progress [where env = env and evs = evs])

lemma do_all_progress:
  assumes "\<And>x s r s'. x \<in> set xs \<Longrightarrow> f x s = (r, s') \<Longrightarrow> progress env run evs s s'"
  shows "do_all f xs s = (r, s') \<Longrightarrow> progress env run evs s s'"
  using assms
proof (induction xs arbitrary: s)
  case (Cons x xs)
  obtain e s1 where e: "f x s = (e, s1)" by fastforce
  have l: "progress env run evs s s1" by (rule Cons.prems(2) [OF _ e]) simp
  show ?case
  proof (cases e)
    case None
    with Cons.prems(1) e have d: "do_all f xs s1 = (r, s')" by simp
    have "progress env run evs s1 s'" by (rule Cons.IH [OF d]) (auto intro: Cons.prems(2))
    with l show ?thesis by (rule progress_trans)
  qed (use Cons.prems(1) e l in simp)
qed (simp add: progress_refl)

lemma persist_progress:
  assumes "persist_agent env run i s = (r, s')"
  shows "progress env run evs s s'"
proof -
  let ?f = "exec_total (tbl_replace db_agents_update (\<lambda>r. (ag_run_id r, ag_id r)) (agent_row env run i (agent_at i (hk_agents s))))"
  obtain ok s1 where ok: "on_tables ?f s = (ok, s1)" by fastforce
  have "writing env run evs ?f"
    by (rule writing_exec_total)
      (use hook_write.agent [of "agent_row env run i (agent_at i (hk_agents s))" run env evs]
        in \<open>simp add: agent_row_def tbl_replace_def\<close>)
  from writingD(1) [OF this ok] show ?thesis
    using assms ok by (auto simp: persist_agent_def split: if_splits)
qed

lemma events_progress:
  assumes "ingest_events env run evs s = (r, s')"
  shows "progress env run evs s s'"
proof -
  let ?s = "s\<lparr>hk_agents := prefill_roster evs (hk_agents s)\<rparr>"
  obtain e s1 where e: "do_all (handle_event env run) (enumerated evs) ?s = (e, s1)" by fastforce
  have "progress env run evs ?s s1"
    by (rule do_all_progress [OF _ e]) (auto simp: enumerated_def dest!: set_zip_rightD intro: handle_progress)
  then have l: "progress env run evs s s1" by simp
  show ?thesis
  proof (cases e)
    case None
    with assms e have "do_all (persist_agent env run) (hv_order env 0 (map fst (hk_agents s1))) s1 = (r, s')"
      by (simp add: ingest_events_def)
    then have "progress env run evs s1 s'" by (rule do_all_progress [rotated]) (rule persist_progress)
    with l show ?thesis by (rule progress_trans)
  qed (use assms e l in \<open>simp add: ingest_events_def\<close>)
qed

section \<open>What an ingest leaves\<close>

lemma run_statements_inv:
  assumes "\<And>f d. f \<in> set fs \<Longrightarrow> Q d (f d)" "\<And>d. Q d d" "\<And>a b c. Q a b \<Longrightarrow> Q b c \<Longrightarrow> Q a c"
  shows "run_statements fs w = (ok, w') \<Longrightarrow> Q (w_db w) (w_db w')"
  using assms(1)
proof (induction fs arbitrary: w)
  case (Cons f fs)
  obtain o1 w1 where o1: "exec_total f w = (o1, w1)" by fastforce
  have "Q (w_db w) (f (w_db w))" by (rule Cons.prems(2)) simp
  then have q: "Q (w_db w) (w_db w1)" using exec_total_db [OF o1] assms(2) by simp
  show ?case
  proof (cases o1)
    case True
    with Cons.prems(1) o1 have "run_statements fs w1 = (ok, w')" by simp
    then have "Q (w_db w1) (w_db w')" by (rule Cons.IH) (auto intro: Cons.prems(2))
    with q show ?thesis by (rule assms(3))
  qed (use Cons.prems(1) o1 q in simp)
qed (simp add: assms(2))

lemma filter_twice: "(\<And>x. P x \<Longrightarrow> Q x) \<Longrightarrow> filter P (filter Q xs) = filter P xs"
  by (induction xs) auto

lemma clear_untouched:
  "f \<in> set (clear_statements run) \<Longrightarrow>
     untouched run evs d (f d) \<and> db_provenance_objects (f d) = db_provenance_objects d"
  by (auto simp: clear_statements_def untouched_def hook_rest_def tbl_delete_def foreign_edge_def [abs_def]
      foreign_call_def [abs_def] simp del: filter_filter intro!: filter_twice)

lemma clear_prior_db:
  assumes "clear_prior run w = (r, w')"
  shows "untouched run evs (w_db w) (w_db w') \<and> db_provenance_objects (w_db w') = db_provenance_objects (w_db w)"
    and "r = None \<Longrightarrow> db_tool_calls (w_db w') = filter (\<lambda>t. \<not> (tc_run_id t = run \<and> tc_agent_id t \<noteq> [])) (db_tool_calls (w_db w))"
proof -
  obtain ok where ok: "run_statements (clear_statements run) w = (ok, w')"
    using assms by (auto simp: clear_prior_def split: prod.splits)
  show "untouched run evs (w_db w) (w_db w') \<and> db_provenance_objects (w_db w') = db_provenance_objects (w_db w)"
    by (rule run_statements_inv [OF _ _ _ ok, where Q = "\<lambda>d d'. untouched run evs d d' \<and>
        db_provenance_objects d' = db_provenance_objects d"])
      (auto simp: clear_untouched untouched_refl intro: untouched_trans)
  show "r = None \<Longrightarrow> db_tool_calls (w_db w') = filter (\<lambda>t. \<not> (tc_run_id t = run \<and> tc_agent_id t \<noteq> [])) (db_tool_calls (w_db w))"
    using assms ok
    by (auto simp: clear_prior_def clear_statements_def tbl_delete_def split: prod.splits if_splits dest!: exec_total_db)
qed

lemma with_engine_objects [simp]: "hv_objects (with_engine env) = hv_objects env"
  by (simp add: with_engine_def)

text \<open>An ingest clears, reads the log and writes.\<close>

lemma hook_stages:
  assumes "ingest_hooks env run input t = ((r, m), t')"
  obtains "t' = t" "r \<noteq> None"
  | c s where "on_tables (clear_prior run) (start_state t) = (c, s)" "t' = hk_store s" "r \<noteq> None"
  | s s' where "on_tables (clear_prior run) (start_state t) = (None, s)" "t' = hk_store s'"
      "ingest_events (with_engine env) run (fst (read_events input))
         (count_summary (\<lambda>m. m\<lparr>hm_lines := length (fst (read_events input))\<rparr>) s) = (r, s')"
  using assms
  by (auto simp: ingest_hooks_def Let_def split: if_splits prod.splits option.splits)

lemma cleared_store:
  assumes "on_tables (clear_prior run) (start_state t) = (c, s)"
  shows "untouched run evs (w_db (os_world t)) (hook_db s)" "leads env t (hk_store s)" "own_calls evs s"
    "c = None \<Longrightarrow> db_tool_calls (hook_db s) =
       filter (\<lambda>t. \<not> (tc_run_id t = run \<and> tc_agent_id t \<noteq> [])) (db_tool_calls (w_db (os_world t)))"
proof -
  obtain w where w: "clear_prior run (os_world t) = (c, w)" "s = (start_state t)\<lparr>hk_store := t\<lparr>os_world := w\<rparr>\<rparr>"
    using assms by (auto simp: on_tables_def on_objects_def on_store_def start_state_def split: prod.splits)
  note c = clear_prior_db [OF w(1)]
  show "untouched run evs (w_db (os_world t)) (hook_db s)" using c(1) w(2) by (simp add: hook_db_def)
  show "own_calls evs s" using w(2) by (simp add: own_calls_def start_state_def)
  show "leads env t (hk_store s)"
    using c(1) [of evs] w(2) sound_same(1) [of "t\<lparr>os_world := w\<rparr>" t env] sound_same(2) [of "t\<lparr>os_world := w\<rparr>" t]
    by (simp add: leads_def known_refs_def objects_def)
  show "c = None \<Longrightarrow> db_tool_calls (hook_db s) =
       filter (\<lambda>t. \<not> (tc_run_id t = run \<and> tc_agent_id t \<noteq> [])) (db_tool_calls (w_db (os_world t)))"
    using c(2) w(2) by (simp add: hook_db_def)
qed


lemma ingest_ok_stages:
  assumes "ingest_hooks env run input t = ((None, m), t')"
  obtains s s' where "on_tables (clear_prior run) (start_state t) = (None, s)" "t' = hk_store s'"
    "ingest_events (with_engine env) run (fst (read_events input))
       (count_summary (\<lambda>m. m\<lparr>hm_lines := length (fst (read_events input))\<rparr>) s) = (None, s')"
  using assms that by (cases rule: hook_stages) auto

lemma ingested_from_log:
  assumes "ingest_hooks env run input t = ((None, m), t')"
  shows "all_from_log (with_engine env) run (fst (read_events input)) (w_db (os_world t'))"
proof -
  let ?evs = "fst (read_events input)"
  from assms obtain s s' where s: "on_tables (clear_prior run) (start_state t) = (None, s)" "t' = hk_store s'"
    "ingest_events (with_engine env) run ?evs (count_summary (\<lambda>m. m\<lparr>hm_lines := length ?evs\<rparr>) s) = (None, s')"
    by (rule ingest_ok_stages)
  note c = cleared_store(3,4) [OF s(1)]
  have "own_calls ?evs (count_summary (\<lambda>m. m\<lparr>hm_lines := length ?evs\<rparr>) s)"
    using c(1) by (simp add: count_summary_def own_calls_def)
  with events_progress [OF s(3)] have "hook_writes (with_engine env) run ?evs (hook_db s) (hook_db s')"
    by (simp add: progress_def count_summary_def hook_db_def)
  moreover have "all_from_log (with_engine env) run ?evs (hook_db s)"
    using c(2) by (auto simp: all_from_log_def)
  ultimately show ?thesis using writes_from_log s(2) by (simp add: hook_db_def)
qed

definition engine_verdict :: "hook_env \<Rightarrow> hook_event \<Rightarrow> decision" where
  "engine_verdict env ev =
     evaluate (hv_engine (with_engine env)) (snd (proposed_event (he_tool_name ev) (he_tool_input ev)))"

text \<open>C23: The verdicts are the engine's. After an ingest that succeeds, every tool call that an agent made in the run
comes from this log: either from a proposed action, whose command and verdict it carries and which is denied
exactly when the engine enforces a denial of it, or from a refusal the model gave in its own words.\<close>
theorem agent_calls_carry_verdicts:
  assumes "ingest_hooks env run input t = ((None, m), t')"
  shows "\<forall>c \<in> set (db_tool_calls (w_db (os_world t'))). tc_run_id c = run \<and> tc_agent_id c \<noteq> [] \<longrightarrow>
    (\<exists>ev \<in> set (fst (read_events input)). he_event ev = ''PreToolUse'' \<and> tc_agent_id c = or_main (he_agent_id ev) \<and>
       tc_command c = fst (proposed_event (he_tool_name ev) (he_tool_input ev)) \<and>
       tc_policy_decision c = de_decision (engine_verdict env ev) \<and>
       tc_status c = (if gate_denies (engine_verdict env ev) then ''denied'' else ''asserted'')) \<or>
    (tc_status c = ''refused'' \<and> tc_policy_decision c = ''refused_by_model'')"
proof (intro ballI impI)
  fix c
  assume "c \<in> set (db_tool_calls (w_db (os_world t')))" "tc_run_id c = run \<and> tc_agent_id c \<noteq> []"
  with ingested_from_log [OF assms] have "from_log (with_engine env) run (fst (read_events input)) c"
    by (auto simp: all_from_log_def)
  then show "(\<exists>ev \<in> set (fst (read_events input)). he_event ev = ''PreToolUse'' \<and> tc_agent_id c = or_main (he_agent_id ev) \<and>
       tc_command c = fst (proposed_event (he_tool_name ev) (he_tool_input ev)) \<and>
       tc_policy_decision c = de_decision (engine_verdict env ev) \<and>
       tc_status c = (if gate_denies (engine_verdict env ev) then ''denied'' else ''asserted'')) \<or>
    (tc_status c = ''refused'' \<and> tc_policy_decision c = ''refused_by_model'')"
  proof cases
    case (judged ev i ts ended)
    then show ?thesis
      by (intro disjI1 bexI [of _ ev])
        (auto simp: judged_row_def call_row_def engine_verdict_def Let_def split: prod.split)
  qed (simp add: refusal_row_def call_row_def)
qed

section \<open>Calls that change their run\<close>

definition proposes :: "hook_event \<Rightarrow> bool" where
  "proposes ev \<longleftrightarrow> he_event ev = ''PreToolUse'' \<and> he_tool_use_id ev \<noteq> [] \<and>
     he_tool_name ev \<notin> {''Agent'', ''SendMessage''} \<union> set coordination_tools"

lemma progress_taken:
  "progress env run evs s s' \<Longrightarrow> own_calls evs s \<Longrightarrow> taken_by run i (hook_db s) \<Longrightarrow>
     own_calls evs s' \<and> taken_by run i (hook_db s')"
  by (auto simp: progress_def intro: writes_taken)

lemma call_taken:
  assumes "write_tool_call env run ev ts s = (None, s')" "he_tool_use_id ev \<noteq> []"
  shows "taken_by run (he_tool_use_id ev) (hook_db s')"
proof -
  define s0 where "s0 = (let s = s\<lparr>hk_agents := ensure (he_agent_id ev) (hk_agents s)\<rparr> in
    if tc_status (judged_row env run ev [] ts) = ''denied'' then count_summary count_refused s else s)"
  let ?i = "he_tool_use_id ev"
  obtain ok s2 where ok: "on_tables (exec_total (tbl_replace db_tool_calls_update tc_id (judged_row env run ev ?i ts))) s0 = (ok, s2)"
    by fastforce
  let ?s3 = "count_summary count_call (s2\<lparr>hk_calls := (hk_calls s2)(he_tool_use_id ev \<mapsto> ?i)\<rparr>)"
  have i: "call_id ev s0 = (?i, s0)" using assms(2) by (simp add: call_id_def)
  from assms(1) have e: "(if \<not> ok then (Some SqlError, s2)
      else on_tables (write_edge run (''agent/'' @ or_main (he_agent_id ev)) ?i ''agent_tool_call'' ts) ?s3) = (None, s')"
    using i ok unfolding write_tool_call_def s0_def Let_def by simp
  then have ok': ok and w: "on_tables (write_edge run (''agent/'' @ or_main (he_agent_id ev)) ?i ''agent_tool_call'' ts) ?s3 = (None, s')"
    by (auto split: if_splits)
  have "db_tool_calls (hook_db s2) = filter (\<lambda>x. tc_id x \<noteq> ?i) (db_tool_calls (hook_db s0)) @ [judged_row env run ev ?i ts]"
    using ok ok' by (auto simp: hook_db_def on_tables_def on_objects_def on_store_def tbl_replace_def
        dest!: exec_total_db split: prod.splits)
  then have "taken_by run ?i (hook_db ?s3)"
    by (auto simp: taken_by_def list_all_iff count_summary_def hook_db_def)
  moreover have "hook_writes env run [] (hook_db ?s3) (hook_db s')"
    using w writing_edge [OF edge_types(3), of env run "[]"]
    unfolding writing_def by (fastforce simp: hook_db_def on_tables_def on_objects_def on_store_def split: prod.splits)
  ultimately show ?thesis by (rule writes_taken [rotated])
qed

lemma handle_taken:
  "handle_event env run (idx, ev) s = (None, s') \<Longrightarrow> proposes ev \<Longrightarrow> taken_by run (he_tool_use_id ev) (hook_db s')"
  by (auto simp: handle_event_def Let_def proposes_def pre_tool_use_def intro: call_taken)

lemma do_all_taken:
  assumes ev: "ev \<in> snd ` set xs" "proposes ev"
  shows "do_all (handle_event env run) xs s = (None, s') \<Longrightarrow> snd ` set xs \<subseteq> set evs \<Longrightarrow> own_calls evs s \<Longrightarrow>
    taken_by run (he_tool_use_id ev) (hook_db s')"
  using ev(1)
proof (induction xs arbitrary: s)
  case (Cons x xs)
  obtain s1 where s1: "handle_event env run x s = (None, s1)" "do_all (handle_event env run) xs s1 = (None, s')"
    using Cons.prems(1) by (auto split: prod.splits option.splits)
  have "progress env run evs s s1" by (rule handle_progress [OF s1(1)]) (use Cons.prems(2) in auto)
  then have own: "own_calls evs s1" using Cons.prems(3) by (auto simp: progress_def)
  have rest: "progress env run evs s1 s'"
    by (rule do_all_progress [OF _ s1(2)]) (use Cons.prems(2) in \<open>auto intro!: handle_progress\<close>)
  show ?case
  proof (cases "ev = snd x")
    case True
    with s1(1) ev(2) have "taken_by run (he_tool_use_id ev) (hook_db s1)" by (cases x) (auto intro: handle_taken)
    with progress_taken [OF rest own] show ?thesis by blast
  next
    case False
    with Cons.prems(2,4) show ?thesis by (intro Cons.IH [OF s1(2) _ own]) auto
  qed
qed simp

text \<open>C39: Tool calls move between runs. The identifier of a call is the one the harness gave it, and the row replaces
whatever has that identifier: after the log of a session was ingested under one run, no other run has a row for
the calls it proposes, although the edges of the other run still lead to them.\<close>
theorem ingest_takes_calls_of_other_runs:
  assumes "ingest_hooks env run input t = ((None, m), t')"
    and "ev \<in> set (fst (read_events input))" and "proposes ev"
  shows "list_all (\<lambda>c. tc_id c = he_tool_use_id ev \<longrightarrow> tc_run_id c = run) (db_tool_calls (w_db (os_world t')))"
proof -
  let ?evs = "fst (read_events input)" and ?env = "with_engine env"
  let ?start = "\<lambda>s. count_summary (\<lambda>m. m\<lparr>hm_lines := length ?evs\<rparr>) s"
  from assms(1) obtain s s' where s: "on_tables (clear_prior run) (start_state t) = (None, s)" "t' = hk_store s'"
    "ingest_events ?env run ?evs (?start s) = (None, s')"
    by (rule ingest_ok_stages)
  let ?s = "(?start s)\<lparr>hk_agents := prefill_roster ?evs (hk_agents (?start s))\<rparr>"
  have own: "own_calls ?evs ?s"
    using cleared_store(3) [OF s(1)] by (simp add: count_summary_def own_calls_def)
  from s(3) obtain s1 where s1: "do_all (handle_event ?env run) (enumerated ?evs) ?s = (None, s1)"
    "do_all (persist_agent ?env run) (hv_order ?env 0 (map fst (hk_agents s1))) s1 = (None, s')"
    by (auto simp: ingest_events_def split: prod.splits option.splits)
  have evs: "snd ` set (enumerated ?evs) = set ?evs"
    using set_map [of snd "enumerated ?evs"] by (simp add: enumerated_def del: set_map)
  have "taken_by run (he_tool_use_id ev) (hook_db s1)"
    by (rule do_all_taken [OF _ assms(3) s1(1) _ own]) (simp_all only: evs assms(2) subset_refl)
  moreover have "own_calls ?evs s1"
  proof -
    have "snd x \<in> set ?evs" if "x \<in> set (enumerated ?evs)" for x using evs that by blast
    then have "progress ?env run ?evs ?s s1"
      by (intro do_all_progress [OF _ s1(1)]) (rule handle_progress)
    with own show ?thesis unfolding progress_def by blast
  qed
  moreover have "progress ?env run ?evs s1 s'"
    by (rule do_all_progress [OF _ s1(2)]) (rule persist_progress)
  ultimately have "taken_by run (he_tool_use_id ev) (hook_db s')" using progress_taken by blast
  then show ?thesis using s(2) by (simp add: taken_by_def hook_db_def)
qed

text \<open>The stem \<open>refus\<close> stands between word boundaries, so no form of the verb matches it.\<close>
lemma plain_refusal_missed: "\<not> is_security_refusal ''I refuse to read the credential file''"
  by code_simp

section \<open>One proposal, ingested\<close>

definition one_log :: bytes where
  "one_log = (CHR 0x7B # quote ''event'' @ '':'' @ quote ''PreToolUse'' @ '','' @ quote ''tool_name'' @ '':'' @ quote ''Bash'' @ '','' @
     quote ''tool_use_id'' @ '':'' @ quote ''call-1'' @ '','' @ quote ''tool_input'' @ '':'' @ CHR 0x7B # quote ''command'' @ '':'' @ quote ''ls -l'' @
     [CHR 0x7D, CHR 0x7D])"

definition one_raw :: raw_object where
  "one_raw = [(''event'', JStr ''PreToolUse''), (''tool_name'', JStr ''Bash''), (''tool_use_id'', JStr ''call-1''),
     (''tool_input'', JObj [(''command'', JStr ''ls -l'')])]"

definition one_event :: hook_event where
  "one_event = \<lparr>he_ts = [], he_event = ''PreToolUse'', he_agent_id = [], he_agent_type = [], he_tool_name = ''Bash'',
     he_tool_use_id = ''call-1'', he_session_id = [], he_last_msg = [], he_tool_input = [(''command'', JStr ''ls -l'')]\<rparr>"

lemma one_log_texts:
  "raw_lines one_log = [one_log]" "trim_space (drop_cr one_log) = one_log" "length one_log < 200" "one_log \<noteq> []"
  "decode one_log = Some (JObj one_raw)" "parse_event one_raw = one_event"
  by code_simp+

lemma one_log_read: "read_events one_log = ([one_event], True)"
proof -
  have "length one_log < hook_line_limit" using one_log_texts(3) by (simp add: hook_line_limit_def)
  then show ?thesis by (simp add: read_events_def one_log_texts parse_object_def Let_def)
qed

definition plain_env :: hook_env where
  "plain_env = \<lparr>hv_objects = bare_env, hv_engine = default_engine, hv_base = None, hv_float_stamp = (\<lambda>_. None),
     hv_order = (\<lambda>_ ks. ks), hv_calls = (\<lambda>cs. cs), hv_events = (\<lambda>es. es)\<rparr>"

definition other_run_state :: object_state where
  "other_run_state = one_state\<lparr>os_world := quiet_world
     (empty_db\<lparr>db_tool_calls := [call_row ''call-1'' ''run-0'' ''main'' ''ls -l'' ''asserted'' ''allow'' (format_time 0)]\<rparr>)\<rparr>"

lemma with_plain_engine: "with_engine plain_env = plain_env"
  by (simp add: with_engine_def plain_env_def default_engine_def default_rules_def)

lemma one_ingest: "fst (fst (ingest_hooks plain_env ''run-1'' one_log other_run_state)) = None"
  unfolding ingest_hooks_def with_plain_engine Let_def one_log_read
  by (simp add: clear_prior_def clear_statements_def on_tables_def on_objects_def on_store_def other_run_state_def start_state_def
      ingest_events_def enumerated_def handle_event_def one_event_def pre_tool_use_def coordination_tools_def write_tool_call_def
      call_id_def world_simps write_edge_def new_id_def quiet_world_def no_faults_def tbl_insert_def tbl_delete_def count_summary_def
      persist_agent_def prefill_roster_def prefill_event_def ensure_def start_roster_def or_main_def main_agent_def
      plain_env_def empty_db_def Let_def exec_def exec_total_def tbl_replace_def call_row_def)


lemma one_ingest_result:
  obtains m t' where "ingest_hooks plain_env ''run-1'' one_log other_run_state = ((None, m), t')"
  using one_ingest by (cases "ingest_hooks plain_env ''run-1'' one_log other_run_state") auto

lemma agent_calls_carry_verdicts_witness:
  "list_all (\<lambda>c. tc_run_id c \<noteq> ''run-1'' \<or> tc_agent_id c = [] \<or> tc_status c = ''refused'' \<or>
       tc_policy_decision c = de_decision (engine_verdict plain_env one_event))
     (db_tool_calls (w_db (os_world (snd (ingest_hooks plain_env ''run-1'' one_log other_run_state)))))"
  by (rule one_ingest_result) (use agent_calls_carry_verdicts [of plain_env "''run-1''" one_log other_run_state]
    in \<open>fastforce simp: list_all_iff one_log_read\<close>)

lemma ingest_takes_calls_of_other_runs_witness:
  "filter (\<lambda>c. tc_id c = ''call-1'' \<and> tc_run_id c = ''run-0'') (db_tool_calls (w_db (os_world other_run_state))) \<noteq> [] \<and>
   filter (\<lambda>c. tc_id c = ''call-1'' \<and> tc_run_id c = ''run-0'')
     (db_tool_calls (w_db (os_world (snd (ingest_hooks plain_env ''run-1'' one_log other_run_state))))) = []"
proof (rule one_ingest_result, rule conjI)
  show "filter (\<lambda>c. tc_id c = ''call-1'' \<and> tc_run_id c = ''run-0'') (db_tool_calls (w_db (os_world other_run_state))) \<noteq> []"
    by (simp add: other_run_state_def call_row_def)
  fix m t'
  assume i: "ingest_hooks plain_env ''run-1'' one_log other_run_state = ((None, m), t')"
  have "proposes one_event" by (simp add: proposes_def one_event_def coordination_tools_def)
  with ingest_takes_calls_of_other_runs [OF i, of one_event] show
    "filter (\<lambda>c. tc_id c = ''call-1'' \<and> tc_run_id c = ''run-0'')
       (db_tool_calls (w_db (os_world (snd (ingest_hooks plain_env ''run-1'' one_log other_run_state))))) = []"
    by (auto simp: i one_log_read list_all_iff filter_empty_conv one_event_def)
qed

section \<open>What the join links\<close>

lemma own_pid_member: "(p, i) \<in> set (own_pid calls e m) \<longleftrightarrow>
   (p, i) \<in> set m \<or> ev_event_type e = ''execve'' \<and> ev_pid e = p \<and> p > 0 \<and> payload_command (ev_payload e) \<noteq> [] \<and>
     (\<exists>c. find (\<lambda>c. commands_match (payload_command (ev_payload e)) (tc_command c)) calls = Some c \<and> tc_id c = i)"
  by (auto simp: own_pid_def split: option.splits)

text \<open>An execve event that a call answers for.\<close>

definition runs_call :: "tool_call list \<Rightarrow> event \<Rightarrow> string \<Rightarrow> bool" where
  "runs_call calls e i \<longleftrightarrow> ev_event_type e = ''execve'' \<and> ev_pid e > 0 \<and>
     (\<exists>c \<in> set calls. tc_id c = i \<and> commands_match (payload_command (ev_payload e)) (tc_command c))"

lemma owners_justified: "(p, i) \<in> set (pid_owners calls es) \<Longrightarrow> \<exists>e \<in> set es. ev_pid e = p \<and> runs_call calls e i"
proof -
  have "(p, i) \<in> set (fold (own_pid calls) es m) \<Longrightarrow> (p, i) \<in> set m \<or> (\<exists>e \<in> set es. ev_pid e = p \<and> runs_call calls e i)" for m
  proof (induction es arbitrary: m)
    case (Cons e es)
    then show ?case
      by (auto simp: own_pid_member runs_call_def find_Some_iff dest!: Cons.IH) (metis nth_mem)+
  qed simp
  then show "(p, i) \<in> set (pid_owners calls es) \<Longrightarrow> ?thesis" by (fastforce simp: pid_owners_def)
qed

text \<open>The events that get a link, and the links.\<close>

definition links :: "(int \<rightharpoonup> string) \<Rightarrow> event list \<Rightarrow> (string \<times> string) list" where
  "links owners es = concat (map (\<lambda>e. case owners (ev_pid e) of
     None \<Rightarrow> [] | Some i \<Rightarrow> if attributable_event (ev_event_type e) then [(i, event_node (ev_id e))] else []) es)"

definition fresh_edges :: "world \<Rightarrow> bool" where
  "fresh_edges w \<longleftrightarrow> no_faults w \<and> good_entropy w \<and>
     (\<forall>i \<ge> w_ids w. drawn ''edge'' w i \<notin> ge_id ` set (db_graph_edges (w_db w)))"

lemma fresh_insert:
  assumes f: "fresh_edges w" and mk: "\<And>i. ge_id (mk i) = i"
  obtains i w1 w2 where "new_id ''edge'' w = (i, w1)"
    "exec (tbl_insert db_graph_edges db_graph_edges_update ge_id (mk i)) w1 = (True, w2)" "fresh_edges w2"
    "w_db w2 = db_graph_edges_update (\<lambda>es. es @ [mk i]) (w_db w)"
proof -
  from f have nf: "no_faults w" and g: "good_entropy w"
    and fr: "\<And>i. i \<ge> w_ids w \<Longrightarrow> drawn ''edge'' w i \<notin> ge_id ` set (db_graph_edges (w_db w))"
    by (auto simp: fresh_edges_def)
  define i where "i = drawn ''edge'' w (w_ids w)"
  define w1 where "w1 = w\<lparr>w_ids := Suc (w_ids w)\<rparr>"
  define d where "d = db_graph_edges_update (\<lambda>es. es @ [mk i]) (w_db w)"
  define w2 where "w2 = w1\<lparr>w_stmts := Suc (w_stmts w1), w_db := d\<rparr>"
  have i: "new_id ''edge'' w = (i, w1)" using new_id_good [OF g] by (simp add: i_def w1_def)
  have "tbl_insert db_graph_edges db_graph_edges_update ge_id (mk i) (w_db w1) = Some d"
    using fr [of "w_ids w"] by (simp add: tbl_insert_def w1_def d_def mk i_def)
  then have e: "exec (tbl_insert db_graph_edges db_graph_edges_update ge_id (mk i)) w1 = (True, w2)"
    using nf by (simp add: exec_no_faults w1_def w2_def)
  have "drawn ''edge'' w j \<noteq> i" if "j \<ge> Suc (w_ids w)" for j
    using drawn_inj [OF g, of j "w_ids w" "''edge''" "''edge''"] that by (auto simp: i_def)
  then have "fresh_edges w2"
    using nf good_entropy_later [OF g, of "Suc (w_ids w)"] fr
    by (auto simp: fresh_edges_def w2_def w1_def d_def mk)
  with i e that show ?thesis by (simp add: w2_def d_def)
qed

lemma write_edge_fresh:
  assumes "fresh_edges w" and "src \<noteq> []" "dst \<noteq> []"
  obtains i w' where "write_edge run src dst ty ts w = (None, w')" "fresh_edges w'"
    "w_db w' = db_graph_edges_update (\<lambda>es. es @ [hook_edge i run src dst ty ts]) (w_db w)"
proof -
  have "ge_id (hook_edge i run src dst ty ts) = i" for i by (simp add: hook_edge_def)
  from fresh_insert [OF assms(1), of "\<lambda>i. hook_edge i run src dst ty ts", OF this]
  obtain i w1 w2 where "new_id ''edge'' w = (i, w1)"
    "exec (tbl_insert db_graph_edges db_graph_edges_update ge_id (hook_edge i run src dst ty ts)) w1 = (True, w2)"
    "fresh_edges w2" "w_db w2 = db_graph_edges_update (\<lambda>es. es @ [hook_edge i run src dst ty ts]) (w_db w)" .
  with that [of w2 i] show ?thesis by (simp add: write_edge_def assms(2,3))
qed

lemma link_events_links:
  assumes "fresh_edges w" "\<And>p i. owners p = Some i \<Longrightarrow> i \<noteq> []"
  shows "\<exists>rows w'. link_events run ts owners es n w = ((n + length (links owners es), None), w') \<and>
    w_db w' = db_graph_edges_update (\<lambda>old. old @ rows) (w_db w) \<and>
    map (\<lambda>e. (ge_from_id e, ge_to_id e)) rows = links owners es \<and>
    list_all (\<lambda>e. ge_run_id e = run \<and> ge_edge_type e = ''agent_syscall'') rows"
  using assms(1)
proof (induction es arbitrary: n w)
  case Nil
  have "db_graph_edges_update (\<lambda>old. old) (w_db w) = w_db w" by simp
  then show ?case by (intro exI [of _ "[]"]) (simp add: links_def)
next
  case (Cons e es)
  show ?case
  proof (cases "\<exists>i. owners (ev_pid e) = Some i \<and> attributable_event (ev_event_type e)")
    case True
    then obtain c where c: "owners (ev_pid e) = Some c" "attributable_event (ev_event_type e)" by blast
    obtain i w1 where w1: "write_edge run c (event_node (ev_id e)) ''agent_syscall'' ts w = (None, w1)" "fresh_edges w1"
      "w_db w1 = db_graph_edges_update (\<lambda>es. es @ [hook_edge i run c (event_node (ev_id e)) ''agent_syscall'' ts]) (w_db w)"
      by (rule write_edge_fresh [OF Cons.prems assms(2) [OF c(1)], of "event_node (ev_id e)"]) (simp_all add: event_node_def)
    from Cons.IH [OF w1(2), of "Suc n"] obtain rows w' where
      "link_events run ts owners es (Suc n) w1 = ((Suc n + length (links owners es), None), w')"
      "w_db w' = db_graph_edges_update (\<lambda>old. old @ rows) (w_db w1)"
      "map (\<lambda>e. (ge_from_id e, ge_to_id e)) rows = links owners es"
      "list_all (\<lambda>e. ge_run_id e = run \<and> ge_edge_type e = ''agent_syscall'') rows"
      by blast
    with c w1 show ?thesis
      by (intro exI [of _ "hook_edge i run c (event_node (ev_id e)) ''agent_syscall'' ts # rows"] exI [of _ w'])
        (simp add: links_def hook_edge_def o_def)
  next
    case False
    with Cons.IH [OF Cons.prems, of n] show ?thesis by (auto simp: links_def split: option.splits)
  qed
qed

text \<open>A query may return the rows in any order.\<close>

definition reorders :: "('a list \<Rightarrow> 'a list) \<Rightarrow> bool" where
  "reorders f \<longleftrightarrow> (\<forall>xs. mset (f xs) = mset xs)"

lemma reorders_set: "reorders f \<Longrightarrow> set (f xs) = set xs"
  unfolding reorders_def by (metis set_mset_mset)

lemma reorders_Nil: "reorders f \<Longrightarrow> f xs = [] \<longleftrightarrow> xs = []"
  unfolding reorders_def by (metis mset_zero_iff)

definition justified :: "db \<Rightarrow> string \<Rightarrow> string \<times> string \<Rightarrow> bool" where
  "justified d run link \<longleftrightarrow> (\<exists>e \<in> set (events_of_run run d). \<exists>x \<in> set (events_of_run run d).
     snd link = event_node (ev_id e) \<and> attributable_event (ev_event_type e) \<and> ev_pid x = ev_pid e \<and>
     runs_call (agent_calls run d) x (fst link))"

lemma links_justified:
  assumes "set calls = set (agent_calls run d)" "set es = set (events_of_run run d)"
  shows "list_all (justified d run) (links (map_of (pid_owners calls es)) es)"
proof -
  have "justified d run (i, event_node (ev_id e))"
    if e: "e \<in> set es" "attributable_event (ev_event_type e)" "map_of (pid_owners calls es) (ev_pid e) = Some i" for e i
  proof -
    from owners_justified [OF map_of_SomeD [OF e(3)]] obtain x where "x \<in> set es" "ev_pid x = ev_pid e" "runs_call calls x i"
      by blast
    with e assms show ?thesis
      unfolding justified_def by (intro bexI [of _ e] bexI [of _ x]) (auto simp: runs_call_def)
  qed
  then show ?thesis by (auto simp: list_all_iff links_def split: option.splits if_splits)
qed

definition not_syscall :: "string \<Rightarrow> graph_edge \<Rightarrow> bool" where
  "not_syscall run e \<longleftrightarrow> \<not> (ge_run_id e = run \<and> ge_edge_type e = ''agent_syscall'')"

text \<open>C24: The join of kernel events and tool calls. On a store that works, \<open>CorrelateSyscalls\<close> replaces the links of the
run by exactly those of the owners it found, changes nothing else and returns their number; and every link leads
from a tool call of an agent of the run to a security-relevant event of the run, whose pid executed, in an event
of the run, a command that matches the call's.\<close>
theorem correlate_links_exact:
  assumes "fresh_edges w" and "reorders (hv_calls env)" and "reorders (hv_events env)"
    and "list_all (\<lambda>c. tc_id c \<noteq> []) (agent_calls run (w_db w))"
  shows "\<exists>rows w'.
    correlate_syscalls env run w = ((length rows, None), w') \<and>
    w_db w' = db_graph_edges_update (\<lambda>old. filter (not_syscall run) old @ rows) (w_db w) \<and>
    map (\<lambda>e. (ge_from_id e, ge_to_id e)) rows =
      links (map_of (pid_owners (hv_calls env (agent_calls run (w_db w))) (hv_events env (events_of_run run (w_db w)))))
        (hv_events env (events_of_run run (w_db w))) \<and>
    list_all (\<lambda>e. ge_run_id e = run \<and> ge_edge_type e = ''agent_syscall'' \<and>
      justified (w_db w) run (ge_from_id e, ge_to_id e)) rows"
proof -
  define calls where "calls = hv_calls env (agent_calls run (w_db w))"
  define es where "es = hv_events env (events_of_run run (w_db w))"
  define owners where "owners = pid_owners calls es"
  define d where "d = db_graph_edges_update (filter (not_syscall run)) (w_db w)"
  have sets: "set calls = set (agent_calls run (w_db w))" "set es = set (events_of_run run (w_db w))"
    using assms(2,3) by (simp_all add: calls_def es_def reorders_set)
  note just = links_justified [OF sets, folded owners_def]
  have nf: "no_faults w" using assms(1) by (simp add: fresh_edges_def)
  define w1 where "w1 = w\<lparr>w_stmts := Suc (w_stmts w), w_db := d\<rparr>"
  have del: "tbl_delete db_graph_edges_update (\<lambda>e. ge_run_id e = run \<and> ge_edge_type e = ''agent_syscall'') (w_db w) = d"
    by (simp add: d_def tbl_delete_def not_syscall_def [abs_def])
  have same: "agent_calls run d = agent_calls run (w_db w)" "events_of_run run d = events_of_run run (w_db w)"
    by (simp_all add: d_def agent_calls_def events_of_run_def)
  have w1: "fresh_edges w1" using assms(1) by (auto simp: fresh_edges_def w1_def d_def)
  have small: "links (map_of owners) es = []" if "calls = [] \<or> owners = []"
  proof -
    have "calls = [] \<Longrightarrow> owners = []"
    proof (rule ccontr)
      assume e: "calls = []" "owners \<noteq> []"
      then obtain p i where "(p, i) \<in> set owners" by (cases owners) auto
      with owners_justified [of p i calls es] e(1) show False by (simp add: owners_def runs_call_def)
    qed
    with that have "owners = []" by blast
    then show ?thesis by (simp add: links_def)
  qed
  have ids: "i \<noteq> []" if "map_of owners p = Some i" for p i
  proof -
    from owners_justified [of p i calls es] map_of_SomeD [OF that] obtain e where "runs_call calls e i"
      by (auto simp: owners_def)
    with assms(4) sets show ?thesis by (auto simp: runs_call_def list_all_iff)
  qed
  show ?thesis
  proof (cases "calls = [] \<or> owners = []")
    case True
    have "\<exists>w'. correlate_syscalls env run w = ((0, None), w') \<and> w_db w' = d"
      using True nf by (auto simp: correlate_syscalls_def world_simps del same Let_def calls_def [symmetric] es_def [symmetric]
          owners_def [symmetric])
    with small [OF True] show ?thesis
      by (auto simp: calls_def [symmetric] es_def [symmetric] owners_def [symmetric] d_def intro!: exI [of _ "[]"])
  next
    case False
    define w2 where "w2 = w1\<lparr>w_stmts := Suc (Suc (w_stmts w1)), w_ticks := Suc (w_ticks w)\<rparr>"
    have w2: "fresh_edges w2" "w_db w2 = d" using w1 by (simp_all add: fresh_edges_def w2_def w1_def)
    define ts where "ts = rfc3339_nano (w_clock w (w_ticks w))"
    have c: "correlate_syscalls env run w = link_events run ts (map_of owners) es 0 w2"
      using False nf by (simp add: correlate_syscalls_def world_simps del same Let_def calls_def [symmetric] es_def [symmetric]
          owners_def [symmetric] now_def w2_def w1_def ts_def)
    have "\<exists>rows w'. link_events run ts (map_of owners) es 0 w2 = ((0 + length (links (map_of owners) es), None), w') \<and>
      w_db w' = db_graph_edges_update (\<lambda>old. old @ rows) (w_db w2) \<and>
      map (\<lambda>e. (ge_from_id e, ge_to_id e)) rows = links (map_of owners) es \<and>
      list_all (\<lambda>e. ge_run_id e = run \<and> ge_edge_type e = ''agent_syscall'') rows"
      by (rule link_events_links [OF w2(1)]) (rule ids)
    then obtain rows w' where
      r: "correlate_syscalls env run w = ((length (links (map_of owners) es), None), w')"
      "w_db w' = db_graph_edges_update (\<lambda>old. old @ rows) d"
      "map (\<lambda>e. (ge_from_id e, ge_to_id e)) rows = links (map_of owners) es"
      "list_all (\<lambda>e. ge_run_id e = run \<and> ge_edge_type e = ''agent_syscall'') rows"
      unfolding c w2(2) by auto
    have n: "length rows = length (links (map_of owners) es)" using r(3) by (metis length_map)
    have "list_all (\<lambda>e. justified (w_db w) run (ge_from_id e, ge_to_id e)) rows"
      using just unfolding r(3) [symmetric] by (simp add: list_all_iff)
    with r n show ?thesis
      by (intro exI [of _ rows] exI [of _ w'])
        (simp add: calls_def [symmetric] es_def [symmetric] owners_def [symmetric] d_def o_def list_all_iff)
  qed
qed

text \<open>The last matching execve of a pid owns all its events, also those that came before: a pid that the system used
again blames the later call.\<close>
lemma reused_pid_blames_last:
  assumes "runs_call [c] e (tc_id c)" "payload_command (ev_payload e) \<noteq> []"
    and "\<forall>c' \<in> set before. \<not> commands_match (payload_command (ev_payload e)) (tc_command c')"
  shows "map_of (pid_owners (before @ c # cs) (es @ [e])) (ev_pid e) = Some (tc_id c)"
proof -
  have "find (\<lambda>c. commands_match (payload_command (ev_payload e)) (tc_command c)) (before @ c # cs) = Some c"
    using assms by (induction before) (auto simp: runs_call_def)
  with assms show ?thesis by (simp add: pid_owners_def own_pid_def runs_call_def)
qed

definition ls_payload :: string where
  "ls_payload = CHR 0x7B # quote ''command'' @ '':'' @ quote ''ls -l src'' @ [CHR 0x7D]"

definition kernel_row :: "string \<Rightarrow> string \<Rightarrow> string \<Rightarrow> event" where
  "kernel_row i ty payload = \<lparr>ev_id = i, ev_run_id = Some ''run-1'', ev_session_id = None, ev_tool_call_id = [],
     ev_process_id = [], ev_snapshot_id = [], ev_raw_event_id = [], ev_correlation_method = ''pid'',
     ev_correlation_confidence = 1, ev_container_id = [], ev_cgroup_id = [], ev_pid = 7, ev_tgid = 7, ev_ppid = 1,
     ev_binding_source = [], ev_source = ''ebpf'', ev_event_type = ty, ev_payload = payload, ev_created_at = format_time 0\<rparr>"

definition join_world :: world where
  "join_world = \<lparr>w_db = empty_db\<lparr>
       db_tool_calls := [call_row ''call-1'' ''run-1'' ''main'' ''ls -l'' ''asserted'' ''allow'' (format_time 0)],
       db_events := [kernel_row ''ev-1'' ''execve'' ls_payload,
         kernel_row ''ev-2'' ''metadata_ip'' ''{}'']\<rparr>,
     w_entropy = (\<lambda>i. Some (replicate i CHR ''0'')), w_ids = 0, w_clock = (\<lambda>i. i), w_ticks = 0, w_fault = (\<lambda>_. False), w_stmts = 0\<rparr>"

lemma join_fresh: "fresh_edges join_world"
  by (auto simp: fresh_edges_def join_world_def no_faults_def good_entropy_def inj_on_def empty_db_def dest: arg_cong [of _ _ length])

lemma join_payload: "payload_command ls_payload = ''ls -l src''"
  by code_simp

lemma join_match: "commands_match ''ls -l src'' ''ls -l''"
  by code_simp

lemma correlate_links_exact_witness:
  "snd (fst (correlate_syscalls plain_env ''run-1'' join_world)) = None \<and>
   map (\<lambda>e. (ge_from_id e, ge_to_id e)) (db_graph_edges (w_db (snd (correlate_syscalls plain_env ''run-1'' join_world)))) =
     [(''call-1'', event_node ''ev-1''), (''call-1'', event_node ''ev-2'')]"
proof -
  have calls: "agent_calls ''run-1'' (w_db join_world) =
      [call_row ''call-1'' ''run-1'' ''main'' ''ls -l'' ''asserted'' ''allow'' (format_time 0)]"
    by (simp add: agent_calls_def join_world_def call_row_def)
  have env: "hv_calls plain_env = (\<lambda>cs. cs)" "hv_events plain_env = (\<lambda>es. es)" by (simp_all add: plain_env_def)
  have "db_graph_edges (w_db join_world) = []" by (simp add: join_world_def empty_db_def)
  moreover have "links (map_of (pid_owners (agent_calls ''run-1'' (w_db join_world)) (events_of_run ''run-1'' (w_db join_world))))
      (events_of_run ''run-1'' (w_db join_world)) = [(''call-1'', event_node ''ev-1''), (''call-1'', event_node ''ev-2'')]"
    unfolding calls
    by (simp add: events_of_run_def join_world_def kernel_row_def pid_owners_def own_pid_def join_payload join_match
        links_def attributable_event_def call_row_def)
  ultimately show ?thesis
    using correlate_links_exact [OF join_fresh, of plain_env "''run-1''"]
    by (auto simp: env reorders_def calls call_row_def)
qed

end
