(* ===== verification/IntentStore.thy ===== *)
theory IntentStore
  imports Intent Hooks Windows Trajectory
begin

text \<open>
  Contracts and diffs of a run on the store (\<open>internal/intent/contract.go\<close>, \<open>internal/intent/materialize.go\<close>):
  contracts are extracted from tool calls, peer messages and model responses, effects from the events of the
  kernel, each attributed to an agent by a link of the hooks bridge, by its own tool call or by time; the diffs
  are written in one transaction and projected into signals. The order of rows in a query that gives none and
  the order in which Go ranges over a map are parameters. The lemmas show what an attribution rests on and that
  the diffs are written all or not at all, and when they never can be.
\<close>

section \<open>Contracts\<close>

record intent_env =
  iv_hooks :: hook_env
  iv_read :: "string \<Rightarrow> bytes option"
  iv_calls :: "tool_call list \<Rightarrow> tool_call list"
  iv_edges :: "graph_edge list \<Rightarrow> graph_edge list"
  iv_events :: "event list \<Rightarrow> event list"
  iv_objects :: "provenance_object list \<Rightarrow> provenance_object list"
  iv_order :: "string list \<Rightarrow> string list"
  iv_gaps :: "string list \<Rightarrow> string list"

definition blank_contract :: intent_contract where
  "blank_contract = \<lparr>ic_id = [], ic_kind = [], ic_scope_agent = [], ic_tool_call_id = [], ic_operation = [],
     ic_target = [], ic_profile = blank_profile [], ic_source = [], ic_confidence = 1 / 2, ic_negative = False\<rparr>"

definition call_contract :: "(string \<rightharpoonup> profile) \<Rightarrow> tool_call \<Rightarrow> intent_contract" where
  "call_contract ps t =
     (let base = blank_contract\<lparr>ic_id := ''contract/'' @ tc_id t, ic_scope_agent := tc_agent_id t, ic_tool_call_id := tc_id t\<rparr> in
      if tc_status t = ''refused'' \<or> has_prefix (tc_id t) ''refusal-'' then
        base\<lparr>ic_kind := ''refusal'', ic_operation := ''refusal'', ic_target := trim_prefix (tc_command t) ''[llm refusal] '',
          ic_profile := blank_profile ''refusal'', ic_source := ''refusal '' @ tc_id t, ic_negative := True\<rparr>
      else
        (let op = infer_operation (tc_command t) in
         base\<lparr>ic_kind := ''tool_call'', ic_operation := op, ic_target := tc_command t, ic_profile := profile_for ps op,
           ic_source := ''tool_call '' @ tc_id t\<rparr>))"

definition message_pairs :: "graph_edge list \<Rightarrow> (string \<times> string) list \<times> (string \<times> string) list" where
  "message_pairs es =
     (let senders = filter (\<lambda>e. has_prefix (ge_to_id e) ''sha256:'') es;
          rest = filter (\<lambda>e. \<not> has_prefix (ge_to_id e) ''sha256:'' \<and> has_prefix (ge_from_id e) ''sha256:'') es in
      (map (\<lambda>e. (ge_to_id e, ge_from_id e)) senders, map (\<lambda>e. (ge_from_id e, ge_to_id e)) rest))"

text \<open>In a map the last entry of a key counts.\<close>

definition last_of :: "(string \<times> 'a) list \<Rightarrow> string \<Rightarrow> 'a option" where
  "last_of kvs = map_of (rev kvs)"

definition message_text :: "bytes \<Rightarrow> string" where
  "message_text raw =
     (case parse_object raw of
        None \<Rightarrow> []
      | Some kvs \<Rightarrow>
          (case object_field ''payload'' kvs of
             None \<Rightarrow> []
           | Some p \<Rightarrow>
               (case (string_field ''body'' p, string_field ''content'' p) of
                  (Some b, Some c) \<Rightarrow> if b \<noteq> [] then b else c
                | _ \<Rightarrow> [])))"

definition read_message_body :: "intent_env \<Rightarrow> string \<Rightarrow> world \<Rightarrow> string \<times> world" where
  "read_message_body env h w =
     (case query (\<lambda>d. find (\<lambda>b. po_hash b = h) (db_provenance_objects d)) w of
        (Some (Some b), w) \<Rightarrow>
          (case iv_read env (po_path b) of None \<Rightarrow> ([], w) | Some raw \<Rightarrow> (message_text raw, w))
      | (_, w) \<Rightarrow> ([], w))"

definition message_contract ::
  "(string \<rightharpoonup> profile) \<Rightarrow> string \<Rightarrow> string \<Rightarrow> nat \<Rightarrow> string \<Rightarrow> intent_contract" where
  "message_contract ps sender recipient i body =
     (let op = infer_operation body; agent = trim_prefix recipient ''agent/'' in
      blank_contract\<lparr>ic_id := ''contract/msg-'' @ show_nat i, ic_kind := ''peer_message'', ic_scope_agent := agent,
        ic_operation := op, ic_target := body, ic_profile := profile_for ps op,
        ic_source := ''peer_message '' @ trim_prefix sender ''agent/'' @ ''->'' @ agent\<rparr>)"

fun message_contracts ::
  "intent_env \<Rightarrow> (string \<rightharpoonup> profile) \<Rightarrow> (string \<Rightarrow> string option) \<Rightarrow> (string \<Rightarrow> string option) \<Rightarrow> string list \<Rightarrow> nat \<Rightarrow>
     world \<Rightarrow> intent_contract list \<times> world" where
  "message_contracts env ps sender recipient [] i w = ([], w)"
| "message_contracts env ps sender recipient (h # hs) i w =
     (case read_message_body env h w of (body, w) \<Rightarrow>
      if body = [] then message_contracts env ps sender recipient hs i w
      else
        (case message_contracts env ps sender recipient hs (Suc i) w of (cs, w) \<Rightarrow>
           (message_contract ps (coalesce (sender h)) (coalesce (recipient h)) (Suc i) body # cs, w)))"

definition extract_message_contracts ::
  "intent_env \<Rightarrow> string \<Rightarrow> (string \<rightharpoonup> profile) \<Rightarrow> world \<Rightarrow> (go_error + intent_contract list) \<times> world" where
  "extract_message_contracts env run ps w =
     (case query (\<lambda>d. iv_edges env (filter (\<lambda>e. ge_run_id e = run \<and> ge_edge_type e = ''agent_message'') (db_graph_edges d))) w of
        (None, w) \<Rightarrow> (Inl SqlError, w)
      | (Some es, w) \<Rightarrow>
          (case message_pairs es of (senders, recipients) \<Rightarrow>
           (case message_contracts env ps (last_of senders) (last_of recipients)
                (iv_order env (remdups (map fst recipients))) 0 w of
              (cs, w) \<Rightarrow> (Inr cs, w))))"

definition response_declares :: "bytes \<Rightarrow> (bool \<times> string) option" where
  "response_declares raw =
     (case parse_object raw of
        None \<Rightarrow> None
      | Some kvs \<Rightarrow>
          (case object_field ''payload'' kvs of
             None \<Rightarrow> None
           | Some p \<Rightarrow>
               (case object_field ''semantics'' p of
                  None \<Rightarrow> None
                | Some m \<Rightarrow>
                    (case (bool_field ''declared_tool_call'' m, string_field ''intent_role'' m) of
                       (Some b, Some r) \<Rightarrow> Some (b, r) | _ \<Rightarrow> None))))"

definition response_contract :: "string \<Rightarrow> string \<Rightarrow> string \<Rightarrow> intent_contract" where
  "response_contract agent call source =
     blank_contract\<lparr>ic_id := ''contract/endpoint-response-'' @ trim_prefix source ''endpoint/resp-'',
       ic_kind := ''model_response'', ic_scope_agent := agent, ic_tool_call_id := call, ic_operation := ''text_response'',
       ic_target := ''model returned text without declaring a tool call'', ic_profile := blank_profile ''text_response'',
       ic_source := source\<rparr>"

definition response_contracts :: "intent_env \<Rightarrow> string \<Rightarrow> string \<Rightarrow> provenance_object list \<Rightarrow> intent_contract list" where
  "response_contracts env agent call bs =
     concat (map (\<lambda>b. case iv_read env (po_path b) of
        None \<Rightarrow> []
      | Some raw \<Rightarrow>
          if response_declares raw = Some (False, ''primary'')
          then [response_contract agent call (po_source_id b)] else []) bs)"

definition first_text :: "('r \<Rightarrow> string) \<Rightarrow> (db \<Rightarrow> 'r list) \<Rightarrow> world \<Rightarrow> string \<times> world" where
  "first_text f sel w =
     (case query sel w of (Some (r # _), w) \<Rightarrow> (f r, w) | (_, w) \<Rightarrow> ([], w))"

definition extract_model_contracts ::
  "intent_env \<Rightarrow> string \<Rightarrow> world \<Rightarrow> (go_error + intent_contract list) \<times> world" where
  "extract_model_contracts env run w =
     (case first_text ag_id (\<lambda>d. order_asc ag_created_at
          (filter (\<lambda>a. ag_run_id a = run \<and> ag_parent_agent_id a = []) (db_agents d))) w of
        (agent, w) \<Rightarrow>
      (case first_text tc_id (\<lambda>d. order_asc tc_started_at (filter (\<lambda>t. tc_run_id t = run) (db_tool_calls d))) w of
        (call, w) \<Rightarrow>
      (case query (\<lambda>d. iv_objects env (filter (\<lambda>b. po_run_id b = run \<and> po_object_type b = ''llm_message'' \<and>
            like ''endpoint/resp-%'' (po_source_id b)) (db_provenance_objects d))) w of
         (None, w) \<Rightarrow> (Inl SqlError, w)
       | (Some bs, w) \<Rightarrow> (Inr (response_contracts env agent call bs), w))))"

definition extract_contracts ::
  "intent_env \<Rightarrow> string \<Rightarrow> (string \<rightharpoonup> profile) \<Rightarrow> world \<Rightarrow> (go_error + intent_contract list) \<times> world" where
  "extract_contracts env run ps w =
     (case query (\<lambda>d. iv_calls env (agent_calls run d)) w of
        (None, w) \<Rightarrow> (Inl SqlError, w)
      | (Some ts, w) \<Rightarrow>
          (case extract_message_contracts env run ps w of
             (Inl e, w) \<Rightarrow> (Inl e, w)
           | (Inr ms, w) \<Rightarrow>
               (case extract_model_contracts env run w of
                  (Inl e, w) \<Rightarrow> (Inl e, w)
                | (Inr rs, w) \<Rightarrow> (Inr (map (call_contract ps) ts @ ms @ rs), w))))"

section \<open>Effects and their agents\<close>

definition grace :: int where "grace = 10 * 1000000000"

record call_window =
  wn_agent :: string
  wn_call :: string
  wn_program :: string
  wn_start :: int
  wn_end :: int

definition program_name :: "string \<Rightarrow> string" where
  "program_name command =
     (case GoPrelude.fields command of
        [] \<Rightarrow> [] | prog # _ \<Rightarrow> to_lower (last (split_char CHR ''/'' prog)))"

text \<open>\<open>Year\<close> of a parsed time is that of its own zone: the first four digits of the text.\<close>

definition year_text :: "string \<Rightarrow> int" where
  "year_text s = (case fixed_digits 4 0 s of Some (y, _) \<Rightarrow> y | None \<Rightarrow> 0)"

definition window_of_call :: "tool_call \<Rightarrow> call_window option" where
  "window_of_call t =
     (case parse_time (tc_started_at t) of
        None \<Rightarrow> None
      | Some start \<Rightarrow>
          if year_text (tc_started_at t) < 2020 then None
          else
            (let finish = (case parse_time (tc_ended_at t) of Some e \<Rightarrow> e | None \<Rightarrow> start) in
             Some \<lparr>wn_agent = tc_agent_id t, wn_call = tc_id t, wn_program = program_name (tc_command t),
                   wn_start = start - grace, wn_end = finish + grace\<rparr>))"

definition load_windows :: "intent_env \<Rightarrow> string \<Rightarrow> world \<Rightarrow> call_window list \<times> world" where
  "load_windows env run w =
     (case query (\<lambda>d. iv_calls env (filter (\<lambda>t. tc_run_id t = run \<and> tc_agent_id t \<noteq> [] \<and> tc_started_at t \<noteq> []) (db_tool_calls d))) w of
        (None, w) \<Rightarrow> ([], w)
      | (Some ts, w) \<Rightarrow> (concat (map (\<lambda>t. case window_of_call t of None \<Rightarrow> [] | Some x \<Rightarrow> [x]) ts), w))"

definition brackets :: "int \<Rightarrow> string \<Rightarrow> call_window \<Rightarrow> bool" where
  "brackets t comm x \<longleftrightarrow> wn_program x \<noteq> [] \<and> wn_program x = to_lower comm \<and> wn_start x \<le> t \<and> t \<le> wn_end x"

fun latest_window :: "call_window list \<Rightarrow> call_window option" where
  "latest_window [] = None"
| "latest_window (x # xs) =
     (case latest_window xs of None \<Rightarrow> Some x | Some y \<Rightarrow> if wn_start x < wn_start y then Some y else Some x)"

definition containing :: "call_window list \<Rightarrow> string \<Rightarrow> string \<Rightarrow> call_window option" where
  "containing ws created comm =
     (case parse_time created of
        None \<Rightarrow> None
      | Some t \<Rightarrow> if comm = [] then None else latest_window (filter (brackets t comm) ws))"

definition effect_types :: "string list" where
  "effect_types = [''execve'', ''secret_path'', ''metadata_ip'', ''private_cidr'', ''network_connect'', ''file_write'']"

text \<open>What the three tiers know: the agent of a call, the call linked to an event, the windows.\<close>

record attribution =
  at_agents :: "(string \<times> string) list"
  at_links :: "(string \<times> string) list"
  at_windows :: "call_window list"

definition agent_of_call :: "attribution \<Rightarrow> string \<Rightarrow> string" where
  "agent_of_call k c = coalesce (last_of (at_agents k) c)"

definition linked_calls :: "(string \<times> string) list \<Rightarrow> graph_edge list \<Rightarrow> (string \<times> string) list" where
  "linked_calls agents es =
     map (\<lambda>e. (trim_prefix (ge_to_id e) ''runtime_event/'', ge_from_id e))
       (filter (\<lambda>e. coalesce (last_of agents (ge_from_id e)) \<noteq> []) es)"

definition attribute :: "attribution \<Rightarrow> event \<Rightarrow> string \<times> string \<times> rat" where
  "attribute k e =
     (let conf = (if ev_correlation_confidence e = 0 then 1 else ev_correlation_confidence e);
          link = coalesce (last_of (at_links k) (ev_id e));
          tc = (if link \<noteq> [] then link else ev_tool_call_id e);
          agent = (if last_of (at_links k) (ev_id e) \<noteq> None then agent_of_call k link else []);
          agent = (if agent = [] then agent_of_call k (ev_tool_call_id e) else agent) in
      if agent \<noteq> [] then (agent, tc, conf)
      else
        (case containing (at_windows k) (ev_created_at e) (extract_comm (ev_payload e)) of
           None \<Rightarrow> (agent, tc, conf)
         | Some x \<Rightarrow> (wn_agent x, wn_call x, if conf > 7 / 10 then 7 / 10 else conf)))"

definition effect_of :: "engine \<Rightarrow> attribution \<Rightarrow> event \<Rightarrow> runtime_effect list" where
  "effect_of eng k e =
     (case classify_event eng (ev_event_type e) (ev_payload e) of
        None \<Rightarrow> []
      | Some (kind, target) \<Rightarrow>
          (case attribute k e of (agent, tc, conf) \<Rightarrow>
             [\<lparr>re_kind = kind, re_target = target, re_agent_id = agent, re_tool_call_id = tc, re_event_id = ev_id e,
               re_confidence = conf\<rparr>]))"

definition normalize_effects ::
  "intent_env \<Rightarrow> string \<Rightarrow> engine \<Rightarrow> world \<Rightarrow> (go_error + runtime_effect list) \<times> world" where
  "normalize_effects env run eng w =
     (case query (\<lambda>d. iv_calls env (filter (\<lambda>t. tc_run_id t = run \<and> tc_agent_id t \<noteq> []) (db_tool_calls d))) w of
        (None, w) \<Rightarrow> (Inl SqlError, w)
      | (Some ts, w) \<Rightarrow>
          (let agents = map (\<lambda>t. (tc_id t, tc_agent_id t)) ts in
           (case query (\<lambda>d. iv_edges env (filter (\<lambda>e. ge_run_id e = run \<and> ge_edge_type e = ''agent_syscall'') (db_graph_edges d))) w of
              (None, w) \<Rightarrow> (Inl SqlError, w)
            | (Some es, w) \<Rightarrow>
                (case load_windows env run w of (ws, w) \<Rightarrow>
                 (case query (\<lambda>d. iv_events env (filter (\<lambda>e. ev_run_id e = Some run \<and> ev_event_type e \<in> set effect_types) (db_events d))) w of
                    (None, w) \<Rightarrow> (Inl SqlError, w)
                  | (Some evs, w) \<Rightarrow>
                      (Inr (concat (map (effect_of eng \<lparr>at_agents = agents, at_links = linked_calls agents es, at_windows = ws\<rparr>) evs)), w))))))"

section \<open>Writing the diffs\<close>

definition kinds_json :: "effect_kind list \<Rightarrow> string" where
  "kinds_json ks = marshal (nil_slice JStr ks)"

definition diff_row :: "string \<Rightarrow> string \<Rightarrow> runtime_diff \<Rightarrow> intent_diff_row" where
  "diff_row run ts d =
     \<lparr>idr_id = df_id d, idr_run_id = run, idr_agent_id = df_agent_id d, idr_tool_call_id = df_tool_call_id d,
      idr_contract_kind = df_contract_kind d, idr_operation = df_operation d, idr_target = df_target d,
      idr_status = df_status d, idr_finding = df_finding d, idr_confidence = df_confidence d,
      idr_declared_effects = kinds_json (df_declared d), idr_forbidden_effects = kinds_json (df_forbidden d),
      idr_observed_effects = kinds_json (df_observed d), idr_mismatch_reason = df_mismatch_reason d,
      idr_source = df_source d, idr_created_at = ts\<rparr>"

definition diff_scope :: "runtime_diff \<Rightarrow> string" where
  "diff_scope d =
     (if df_contract_kind d = ''model_response'' \<and> has_prefix (df_source d) ''endpoint/resp-''
      then ''llm_call/ep-'' @ trim_prefix (df_source d) ''endpoint/resp-''
      else if df_tool_call_id d \<noteq> [] then df_tool_call_id d else ''agent/'' @ df_agent_id d)"

definition diff_edges :: "runtime_diff \<Rightarrow> (string \<times> string \<times> string) list" where
  "diff_edges d = (diff_scope d, df_id d, ''intent_contract'') #
     map (\<lambda>i. (df_id d, ''runtime_event/'' @ i, ''intent_diff_effect'')) (df_event_ids d)"

definition intent_edge_row :: "string \<Rightarrow> string \<Rightarrow> nat \<Rightarrow> string \<times> string \<times> string \<Rightarrow> graph_edge" where
  "intent_edge_row run ts seq edge =
     (case edge of (src, dst, ty) \<Rightarrow>
        \<lparr>ge_id = ''edge-'' @ ty @ ''-'' @ run @ ''-'' @ show_nat seq, ge_run_id = run, ge_rollout_id = [], ge_from_id = src,
         ge_to_id = dst, ge_edge_type = ty, ge_source_event_id = [], ge_created_at = ts\<rparr>)"

fun insert_intent_edges ::
  "string \<Rightarrow> string \<Rightarrow> (string \<times> string \<times> string) list \<Rightarrow> nat \<Rightarrow> world \<Rightarrow> (bool \<times> nat) \<times> world" where
  "insert_intent_edges run ts [] seq w = ((True, seq), w)"
| "insert_intent_edges run ts (e # es) seq w =
     (case exec (tbl_insert db_graph_edges db_graph_edges_update ge_id (intent_edge_row run ts (Suc seq) e)) w of
        (ok, w) \<Rightarrow> if ok then insert_intent_edges run ts es (Suc seq) w else ((False, Suc seq), w))"

fun insert_diffs :: "string \<Rightarrow> string \<Rightarrow> runtime_diff list \<Rightarrow> nat \<Rightarrow> world \<Rightarrow> bool \<times> world" where
  "insert_diffs run ts [] seq w = (True, w)"
| "insert_diffs run ts (d # ds) seq w =
     (case exec (tbl_insert db_intent_diffs db_intent_diffs_update idr_id (diff_row run ts d)) w of
        (ok, w) \<Rightarrow>
          if \<not> ok then (False, w)
          else
            (case insert_intent_edges run ts (diff_edges d) seq w of
               ((ok, seq), w) \<Rightarrow> if ok then insert_diffs run ts ds seq w else (False, w)))"

definition intent_edge_types :: "string list" where
  "intent_edge_types = [''intent_contract'', ''intent_diff_effect'']"

definition clear_diffs :: "string \<Rightarrow> (db \<Rightarrow> db) list" where
  "clear_diffs run =
     [tbl_delete db_intent_diffs_update (\<lambda>r. idr_run_id r = run),
      tbl_delete db_graph_edges_update (\<lambda>e. ge_run_id e = run \<and> ge_edge_type e \<in> set intent_edge_types)]"

definition persist_diffs :: "string \<Rightarrow> runtime_diff list \<Rightarrow> world \<Rightarrow> go_error option \<times> world" where
  "persist_diffs run ds w =
     (let d0 = w_db w in
      (case tx_begin w of (ok, w) \<Rightarrow>
       if \<not> ok then (Some SqlError, w)
       else
         (case run_statements (clear_diffs run) w of (ok, w) \<Rightarrow>
          if \<not> ok then (Some SqlError, rollback d0 w)
          else
            (case now w of (ts, w) \<Rightarrow>
             (case insert_diffs run ts ds 0 w of (ok, w) \<Rightarrow>
              if \<not> ok then (Some SqlError, rollback d0 w)
              else (case tx_commit w of (ok, w) \<Rightarrow> if ok then (None, w) else (Some SqlError, rollback d0 w)))))))"

section \<open>Signals\<close>

definition severity_for_status :: "string \<Rightarrow> string" where
  "severity_for_status st =
     (if st = ''refused_but_runtime_happened'' then ''critical''
      else if st = ''declared_vs_effect_mismatch'' then ''high''
      else if st = ''intent_coverage_gap'' then ''info'' else [])"

definition diff_signal_type :: "runtime_diff \<Rightarrow> string" where
  "diff_signal_type d = (if df_finding d \<noteq> [] then df_finding d else df_status d)"

definition recommended_for_status :: "string \<Rightarrow> string" where
  "recommended_for_status st =
     (if st = ''refused_but_runtime_happened'' then ''investigate: a refused action'' @ CHR 0x27 # ''s effects occurred anyway''
      else if st = ''declared_vs_effect_mismatch'' then ''review: runtime exceeded declared intent''
      else if st = ''intent_coverage_gap'' then ''improve intent capture for this scope'' else [])"

definition trim_diff :: "string \<Rightarrow> string" where
  "trim_diff i = replace_all ''/'' ''-'' (trim_prefix i ''diff/'')"

definition diff_signal :: "string \<Rightarrow> string \<Rightarrow> runtime_diff \<Rightarrow> signal_row" where
  "diff_signal run ts d =
     \<lparr>si_id = ''sig-'' @ trim_diff (df_id d), si_dimension = ''intent_conformance'', si_signal_type = diff_signal_type d,
      si_graph_ref_kind = ''edge'', si_graph_ref_id = df_id d, si_run_id = run, si_session_id = [],
      si_tool_call_id = df_tool_call_id d, si_process_id = [], si_event_id = [], si_object_ref = [],
      si_severity = severity_for_status (df_status d), si_label = [], si_value = 0, si_reference = [],
      si_confidence = df_confidence d, si_recommended_action = recommended_for_status (df_status d),
      si_produced_by = ''intent.diff'', si_evidence_refs = ''[]'', si_payload = ''{}'', si_source_table = ''intent_diffs'',
      si_source_id = df_id d, si_created_at = ts\<rparr>"

text \<open>A plain insert: the primary key and the index over the source must be free.\<close>

definition insert_signal_strict :: "signal_row \<Rightarrow> db \<Rightarrow> db option" where
  "insert_signal_strict s d =
     (if list_ex (\<lambda>r. si_source_table r = si_source_table s \<and> si_source_id r = si_source_id s) (db_signals d)
      then None else tbl_insert db_signals db_signals_update si_id s d)"

fun emit_each :: "string \<Rightarrow> string \<Rightarrow> runtime_diff list \<Rightarrow> world \<Rightarrow> go_error option \<times> world" where
  "emit_each run ts [] w = (None, w)"
| "emit_each run ts (d # ds) w =
     (if severity_for_status (df_status d) = [] then emit_each run ts ds w
      else (case exec (insert_signal_strict (diff_signal run ts d)) w of
              (ok, w) \<Rightarrow> if ok then emit_each run ts ds w else (Some SqlError, w)))"

definition emit_signals :: "string \<Rightarrow> runtime_diff list \<Rightarrow> world \<Rightarrow> go_error option \<times> world" where
  "emit_signals run ds w =
     (case exec_total (tbl_delete db_signals_update (\<lambda>s. si_run_id s = run \<and> si_dimension s = ''intent_conformance'')) w of
        (ok, w) \<Rightarrow>
          if \<not> ok then (Some SqlError, w)
          else (case now w of (ts, w) \<Rightarrow> emit_each run ts ds w))"

section \<open>\<open>Materialize\<close>\<close>

record intent_result =
  ir_run_id :: string
  ir_effects :: nat
  ir_contracts :: nat
  ir_diffs :: nat
  ir_by_status :: "(string \<times> nat) list"
  ir_mismatches :: nat
  ir_coverage_gaps :: nat

definition count_status :: "(string \<Rightarrow> bool) \<Rightarrow> runtime_diff list \<Rightarrow> nat" where
  "count_status P ds = length (filter (\<lambda>d. P (df_status d)) ds)"

definition status_counts :: "runtime_diff list \<Rightarrow> (string \<times> nat) list" where
  "status_counts ds = map (\<lambda>st. (st, count_status (\<lambda>x. x = st) ds)) (remdups (map df_status ds))"

definition link_if_none :: "intent_env \<Rightarrow> string \<Rightarrow> world \<Rightarrow> go_error option \<times> world" where
  "link_if_none env run w =
     (case query (\<lambda>d. length (filter (\<lambda>e. ge_run_id e = run \<and> ge_edge_type e = ''agent_syscall'') (db_graph_edges d))) w of
        (n, w) \<Rightarrow>
          if n = None \<or> n = Some 0
          then (case correlate_syscalls (iv_hooks env) run w of ((_, e), w) \<Rightarrow> (e, w))
          else (None, w))"

definition computed_diffs ::
  "intent_env \<Rightarrow> string \<Rightarrow> world \<Rightarrow> (go_error + nat \<times> nat \<times> runtime_diff list) \<times> world" where
  "computed_diffs env run w =
     (case link_if_none env run w of
        (Some e, w) \<Rightarrow> (Inl e, w)
      | (None, w) \<Rightarrow>
          (case normalize_effects env run default_engine w of
             (Inl e, w) \<Rightarrow> (Inl e, w)
           | (Inr es, w) \<Rightarrow>
               (case extract_contracts env run default_profiles w of
                  (Inl e, w) \<Rightarrow> (Inl e, w)
                | (Inr cs, w) \<Rightarrow> (Inr (length es, length cs, diff (iv_gaps env) cs es), w))))"

definition materialize :: "intent_env \<Rightarrow> string \<Rightarrow> world \<Rightarrow> (go_error + intent_result) \<times> world" where
  "materialize env run w =
     (if run = [] then (Inl (Errorf ''run id is required''), w)
      else
        (case computed_diffs env run w of
           (Inl e, w) \<Rightarrow> (Inl e, w)
         | (Inr (effects, contracts, ds), w) \<Rightarrow>
             (case persist_diffs run ds w of
                (Some e, w) \<Rightarrow> (Inl e, w)
              | (None, w) \<Rightarrow>
                  (case emit_signals run ds w of
                     (Some e, w) \<Rightarrow> (Inl e, w)
                   | (None, w) \<Rightarrow>
                       (Inr \<lparr>ir_run_id = run, ir_effects = effects, ir_contracts = contracts, ir_diffs = length ds,
                             ir_by_status = status_counts ds,
                             ir_mismatches = count_status (\<lambda>st. st \<in> {''declared_vs_effect_mismatch'', ''refused_but_runtime_happened''}) ds,
                             ir_coverage_gaps = count_status (\<lambda>st. st = ''intent_coverage_gap'') ds\<rparr>, w)))))"

section \<open>Writing all or nothing\<close>

definition edge_rows :: "string \<Rightarrow> string \<Rightarrow> nat \<Rightarrow> (string \<times> string \<times> string) list \<Rightarrow> graph_edge list" where
  "edge_rows run ts seq es = map2 (\<lambda>i. intent_edge_row run ts (Suc i)) [seq..<seq + length es] es"

definition adds_rows :: "intent_diff_row list \<Rightarrow> graph_edge list \<Rightarrow> db \<Rightarrow> db" where
  "adds_rows rs es d = d\<lparr>db_intent_diffs := db_intent_diffs d @ rs, db_graph_edges := db_graph_edges d @ es\<rparr>"

lemma edge_rows_simps [simp]:
  "edge_rows run ts seq [] = []"
  "edge_rows run ts seq (e # es) = intent_edge_row run ts (Suc seq) e # edge_rows run ts (Suc seq) es"
  by (simp_all add: edge_rows_def upt_conv_Cons del: upt_Suc)

lemma edge_rows_append:
  "edge_rows run ts seq (es @ fs) = edge_rows run ts seq es @ edge_rows run ts (seq + length es) fs"
  by (induction es arbitrary: seq) simp_all

lemma adds_rows_simps:
  "adds_rows [] [] d = d" "adds_rows rs es (adds_rows rs' es' d) = adds_rows (rs' @ rs) (es' @ es) d"
  by (simp_all add: adds_rows_def)

lemma adds_rows_updates:
  "db_graph_edges_update (\<lambda>xs. xs @ es) d = adds_rows [] es d"
  "db_intent_diffs_update (\<lambda>xs. xs @ rs) d = adds_rows rs [] d"
  by (rule db.equality, simp_all add: adds_rows_def)+

lemma edge_inserted: "exec (tbl_insert db_graph_edges db_graph_edges_update ge_id e) w = (True, w') \<Longrightarrow>
  w_db w' = adds_rows [] [e] (w_db w)"
  by (auto simp: tbl_insert_def adds_rows_updates dest!: exec_db split: if_splits)

lemma diff_inserted: "exec (tbl_insert db_intent_diffs db_intent_diffs_update idr_id r) w = (True, w') \<Longrightarrow>
  w_db w' = adds_rows [r] [] (w_db w) \<and> (\<forall>x \<in> set (db_intent_diffs (w_db w)). idr_id x \<noteq> idr_id r)"
  by (auto simp: tbl_insert_def adds_rows_updates dest!: exec_db split: if_splits) (metis imageI)

lemma insert_edges_adds:
  "insert_intent_edges run ts es seq w = ((True, n), w') \<Longrightarrow>
     n = seq + length es \<and> w_db w' = adds_rows [] (edge_rows run ts seq es) (w_db w)"
proof (induction es arbitrary: seq w)
  case (Cons e es)
  obtain w1 where w1: "exec (tbl_insert db_graph_edges db_graph_edges_update ge_id (intent_edge_row run ts (Suc seq) e)) w = (True, w1)"
    "insert_intent_edges run ts es (Suc seq) w1 = ((True, n), w')"
    using Cons.prems by (auto split: prod.splits if_splits)
  with edge_inserted [OF w1(1)] Cons.IH [OF w1(2)] show ?case by (simp add: adds_rows_simps)
qed (simp add: adds_rows_simps)

lemma insert_diffs_adds:
  "insert_diffs run ts ds seq w = (True, w') \<Longrightarrow>
     w_db w' = adds_rows (map (diff_row run ts) ds) (edge_rows run ts seq (concat (map diff_edges ds))) (w_db w)"
proof (induction ds arbitrary: seq w)
  case (Cons d ds)
  obtain w1 where w1: "exec (tbl_insert db_intent_diffs db_intent_diffs_update idr_id (diff_row run ts d)) w = (True, w1)"
    using Cons.prems by (auto split: prod.splits if_splits)
  obtain n w2 where w2: "insert_intent_edges run ts (diff_edges d) seq w1 = ((True, n), w2)"
    "insert_diffs run ts ds n w2 = (True, w')"
    using Cons.prems w1 by (auto split: prod.splits if_splits)
  with diff_inserted [OF w1] insert_edges_adds [OF w2(1)] Cons.IH [OF w2(2)] show ?case by (simp add: adds_rows_simps edge_rows_append)
qed (simp add: adds_rows_simps)

definition other_edges :: "string \<Rightarrow> db \<Rightarrow> graph_edge list" where
  "other_edges run d = filter (\<lambda>e. \<not> (ge_run_id e = run \<and> ge_edge_type e \<in> set intent_edge_types)) (db_graph_edges d)"

definition other_diffs :: "string \<Rightarrow> db \<Rightarrow> intent_diff_row list" where
  "other_diffs run d = filter (\<lambda>r. idr_run_id r \<noteq> run) (db_intent_diffs d)"

definition rediffed :: "string \<Rightarrow> string \<Rightarrow> runtime_diff list \<Rightarrow> db \<Rightarrow> db" where
  "rediffed run ts ds d = d\<lparr>db_intent_diffs := other_diffs run d @ map (diff_row run ts) ds,
     db_graph_edges := other_edges run d @ edge_rows run ts 0 (concat (map diff_edges ds))\<rparr>"

lemma cleared_diffs:
  "run_statements (clear_diffs run) w = (True, w') \<Longrightarrow>
     w_db w' = (w_db w)\<lparr>db_intent_diffs := other_diffs run (w_db w), db_graph_edges := other_edges run (w_db w)\<rparr>"
  by (auto simp: clear_diffs_def tbl_delete_def other_diffs_def other_edges_def
      split: prod.splits if_splits dest!: exec_total_db)

text \<open>C19: The diffs of a run are written all or not at all: a failure leaves the database as it was, success leaves
exactly the rows and the numbered edges of the new diffs in place of the run's old ones, every other table and every
row of another run unchanged.\<close>
theorem diffs_all_or_nothing:
  "case persist_diffs run ds w of
     (Some _, w') \<Rightarrow> w_db w' = w_db w
   | (None, w') \<Rightarrow> \<exists>ts. w_db w' = rediffed run ts ds (w_db w)"
proof (cases "fst (persist_diffs run ds w)")
  case None
  then obtain w1 w2 ts w3 w4 w5 where w: "tx_begin w = (True, w1)" "run_statements (clear_diffs run) w1 = (True, w2)"
    "now w2 = (ts, w3)" "insert_diffs run ts ds 0 w3 = (True, w4)" "tx_commit w4 = (True, w5)"
    "persist_diffs run ds w = (None, w5)"
    by (auto simp: persist_diffs_def Let_def split: prod.splits if_splits)
  have "w_db w1 = w_db w" "w_db w5 = w_db w4" "w_db w3 = w_db w2"
    using w(1,5) now_db [of w2] w(3) by (simp_all add: tx_begin_def tx_commit_def exec_total_db)
  with cleared_diffs [OF w(2)] insert_diffs_adds [OF w(4)] have "w_db w5 = rediffed run ts ds (w_db w)"
    by (simp add: rediffed_def adds_rows_def)
  with w(6) show ?thesis by auto
next
  case (Some e)
  then show ?thesis
    by (auto simp: persist_diffs_def Let_def rollback_def tx_begin_def split: prod.splits if_splits dest!: exec_total_db)
qed

text \<open>C40: The identifier of a diff is that of its contract, \<open>msg-1\<close> for the first message of every run, and
it alone is the key of the table: while another run holds a diff of the same identifier, no diff of this run is
ever written.\<close>
theorem shared_diff_id_blocks_run:
  assumes "d \<in> set ds" and "r \<in> set (db_intent_diffs (w_db w))" and "idr_run_id r \<noteq> run" and "idr_id r = df_id d"
  shows "fst (persist_diffs run ds w) = Some SqlError \<and> w_db (snd (persist_diffs run ds w)) = w_db w"
proof -
  have "insert_diffs run ts xs seq v \<noteq> (True, v')"
    if "d \<in> set xs" "r \<in> set (db_intent_diffs (w_db v))" for xs seq v v' ts
    using that
  proof (induction xs arbitrary: seq v)
    case (Cons x xs)
    show ?case
    proof
      assume a: "insert_diffs run ts (x # xs) seq v = (True, v')"
      then obtain w1 n w2 where w1: "exec (tbl_insert db_intent_diffs db_intent_diffs_update idr_id (diff_row run ts x)) v = (True, w1)"
        and w2: "insert_intent_edges run ts (diff_edges x) seq w1 = ((True, n), w2)" "insert_diffs run ts xs n w2 = (True, v')"
        by (auto split: prod.splits if_splits)
      have "idr_id r \<noteq> df_id x" "r \<in> set (db_intent_diffs (w_db w1))"
        using diff_inserted [OF w1] Cons.prems(2) by (auto simp: adds_rows_def diff_row_def)
      with insert_edges_adds [OF w2(1)] Cons.prems(1) assms(4) Cons.IH [of w2 n] w2(2) show False
        by (auto simp: adds_rows_def)
    qed
  qed simp
  note never = this
  have "fst (persist_diffs run ds w) \<noteq> None"
  proof
    assume "fst (persist_diffs run ds w) = None"
    then obtain w1 w2 ts w3 w4 where w: "tx_begin w = (True, w1)" "run_statements (clear_diffs run) w1 = (True, w2)"
      "now w2 = (ts, w3)" "insert_diffs run ts ds 0 w3 = (True, w4)"
      by (auto simp: persist_diffs_def Let_def split: prod.splits if_splits)
    have "w_db w1 = w_db w" "w_db w3 = w_db w2"
      using w(1) now_db [of w2] w(3) by (simp_all add: tx_begin_def exec_total_db)
    with cleared_diffs [OF w(2)] assms(2,3) have "r \<in> set (db_intent_diffs (w_db w3))" by (simp add: other_diffs_def)
    with never [OF assms(1)] w(4) show False by blast
  qed
  then show ?thesis
    by (auto simp: persist_diffs_def Let_def rollback_def tx_begin_def split: prod.splits if_splits dest!: exec_total_db)
qed

section \<open>What an attribution rests on\<close>

definition ran_around :: "tool_call \<Rightarrow> event \<Rightarrow> bool" where
  "ran_around t e =
     (case (parse_time (tc_started_at t), parse_time (ev_created_at e)) of
        (Some start, Some moment) \<Rightarrow>
          start - grace \<le> moment \<and>
          moment \<le> (case parse_time (tc_ended_at t) of Some finish \<Rightarrow> finish | None \<Rightarrow> start) + grace \<and>
          program_name (tc_command t) = to_lower (extract_comm (ev_payload e)) \<and> program_name (tc_command t) \<noteq> []
      | _ \<Rightarrow> False)"

definition links_event :: "string \<Rightarrow> db \<Rightarrow> tool_call \<Rightarrow> event \<Rightarrow> bool" where
  "links_event run d t e = list_ex (\<lambda>g. ge_run_id g = run \<and> ge_edge_type g = ''agent_syscall'' \<and> ge_from_id g = tc_id t \<and>
     trim_prefix (ge_to_id g) ''runtime_event/'' = ev_id e) (db_graph_edges d)"

definition fair_orders :: "intent_env \<Rightarrow> bool" where
  "fair_orders env \<longleftrightarrow> reorders (iv_calls env) \<and> reorders (iv_edges env) \<and> reorders (iv_events env)"

lemma last_of_SomeD: "last_of kvs k = Some v \<Longrightarrow> (k, v) \<in> set kvs"
  by (auto simp: last_of_def dest: map_of_SomeD)

lemma latest_window_mem: "latest_window ws = Some x \<Longrightarrow> x \<in> set ws"
  by (induction ws arbitrary: x) (auto split: option.splits if_splits)

lemma containing_brackets: "containing ws created comm = Some x \<Longrightarrow>
  x \<in> set ws \<and> (\<exists>t. parse_time created = Some t \<and> brackets t comm x)"
  by (auto simp: containing_def split: option.splits if_splits dest!: latest_window_mem)

lemma attribute_cases:
  assumes "attribute k e = (agent, tc, conf)" "agent \<noteq> []"
  obtains (link) l where "last_of (at_links k) (ev_id e) = Some l" "agent = agent_of_call k l"
      "tc = (if l \<noteq> [] then l else ev_tool_call_id e)"
  | (own) "last_of (at_links k) (ev_id e) = None" "agent = agent_of_call k (ev_tool_call_id e)" "tc = ev_tool_call_id e"
  | (dead) l where "last_of (at_links k) (ev_id e) = Some l" "agent_of_call k l = []"
  | (window) x t where "x \<in> set (at_windows k)" "parse_time (ev_created_at e) = Some t"
      "brackets t (extract_comm (ev_payload e)) x" "agent = wn_agent x" "tc = wn_call x" "conf \<le> 7 / 10"
proof (cases "last_of (at_links k) (ev_id e)")
  case (Some l)
  show ?thesis
  proof (cases "agent_of_call k l = []")
    case False
    with assms(1) Some have "agent = agent_of_call k l" "tc = (if l \<noteq> [] then l else ev_tool_call_id e)"
      by (auto simp: attribute_def Let_def coalesce_def)
    with Some show ?thesis by (rule link)
  qed (use Some in \<open>rule dead\<close>)
next
  case None
  show ?thesis
  proof (cases "agent_of_call k (ev_tool_call_id e) = []")
    case True
    note u = True None
    show ?thesis
    proof (cases "containing (at_windows k) (ev_created_at e) (extract_comm (ev_payload e))")
      case None
      with u assms show ?thesis by (simp add: attribute_def Let_def coalesce_def)
    next
      case (Some x)
      with u assms(1) have "agent = wn_agent x" "tc = wn_call x" "conf \<le> 7 / 10"
        by (auto simp: attribute_def Let_def coalesce_def split: if_splits)
      with containing_brackets [OF Some] window show ?thesis by blast
    qed
  next
    case False
    with None assms(1) show ?thesis by (intro own) (auto simp: attribute_def Let_def coalesce_def)
  qed
qed

lemma query_now: "query f w = (Some x, w') \<Longrightarrow> x = f (w_db w) \<and> w_db w' = w_db w"
  using query_db [of f w "Some x" w'] by simp

lemma agent_known: "agent_of_call k c \<noteq> [] \<Longrightarrow> (c, agent_of_call k c) \<in> set (at_agents k)"
  by (auto simp: agent_of_call_def coalesce_def dest!: last_of_SomeD split: option.splits)

text \<open>C18: An effect carries an agent only through a tool call of that agent in the run, and names the call: one that
a link ties to the event, the event's own, or one of the same program that ran within ten seconds of the event, at a
confidence of at most 7/10.\<close>
theorem attributed_effects_rest_on_calls:
  assumes "normalize_effects env run eng w = (Inr es, w')" and "fair_orders env"
    and "list_all (\<lambda>t. tc_id t \<noteq> []) (db_tool_calls (w_db w))"
    and "e \<in> set es" and "re_agent_id e \<noteq> []"
  shows "\<exists>t ev. t \<in> set (db_tool_calls (w_db w)) \<and> ev \<in> set (db_events (w_db w)) \<and> tc_run_id t = run \<and>
     ev_run_id ev = Some run \<and> re_event_id e = ev_id ev \<and> re_tool_call_id e = tc_id t \<and> re_agent_id e = tc_agent_id t \<and>
     (links_event run (w_db w) t ev \<or> ev_tool_call_id ev = tc_id t \<or> (ran_around t ev \<and> re_confidence e \<le> 7 / 10))"
proof -
  define d where "d = w_db w"
  define ts where "ts = iv_calls env (filter (\<lambda>t. tc_run_id t = run \<and> tc_agent_id t \<noteq> []) (db_tool_calls d))"
  define gs where "gs = iv_edges env (filter (\<lambda>e. ge_run_id e = run \<and> ge_edge_type e = ''agent_syscall'') (db_graph_edges d))"
  define as where "as = map (\<lambda>t. (tc_id t, tc_agent_id t)) ts"
  obtain w1 w2 ws w3 w4 evs where
    q: "query (\<lambda>d. iv_calls env (filter (\<lambda>t. tc_run_id t = run \<and> tc_agent_id t \<noteq> []) (db_tool_calls d))) w = (Some ts, w1)"
      "query (\<lambda>d. iv_edges env (filter (\<lambda>e. ge_run_id e = run \<and> ge_edge_type e = ''agent_syscall'') (db_graph_edges d))) w1 = (Some gs, w2)"
      "load_windows env run w2 = (ws, w3)"
      "query (\<lambda>d. iv_events env (filter (\<lambda>e. ev_run_id e = Some run \<and> ev_event_type e \<in> set effect_types) (db_events d))) w3 = (Some evs, w4)"
    and es: "es = concat (map (effect_of eng \<lparr>at_agents = as, at_links = linked_calls as gs, at_windows = ws\<rparr>) evs)"
    using assms(1) unfolding as_def ts_def gs_def d_def
    by (auto simp: normalize_effects_def Let_def split: prod.splits option.splits dest!: query_now)
  define k where "k = \<lparr>at_agents = as, at_links = linked_calls as gs, at_windows = ws\<rparr>"
  have d: "w_db w1 = d" "w_db w2 = d" using query_now [OF q(1)] query_now [OF q(2)] by (simp_all add: d_def)
  have w3: "w_db w3 = d" using q(3) d(2) by (auto simp: load_windows_def split: prod.splits option.splits dest!: query_db)
  have evs: "set evs = {e \<in> set (db_events d). ev_run_id e = Some run \<and> ev_event_type e \<in> set effect_types}"
    and ts: "set ts = {t \<in> set (db_tool_calls d). tc_run_id t = run \<and> tc_agent_id t \<noteq> []}"
    and gs: "set gs = {e \<in> set (db_graph_edges d). ge_run_id e = run \<and> ge_edge_type e = ''agent_syscall''}"
    using query_now [OF q(4)] w3 assms(2) by (auto simp: ts_def gs_def fair_orders_def reorders_set)
  have ws: "\<exists>t \<in> set (db_tool_calls d). tc_run_id t = run \<and> tc_agent_id t \<noteq> [] \<and> window_of_call t = Some x" if "x \<in> set ws" for x
    using q(3) that d(2) assms(2)
    by (auto simp: load_windows_def fair_orders_def reorders_set split: prod.splits option.splits dest!: query_db) metis
  obtain ev where ev: "ev \<in> set evs" "e \<in> set (effect_of eng k ev)" using assms(4) by (auto simp: es k_def)
  then have a: "attribute k ev = (re_agent_id e, re_tool_call_id e, re_confidence e)" "re_event_id e = ev_id ev"
    by (auto simp: effect_of_def split: option.splits prod.splits)
  have call: "\<exists>t. t \<in> set ts \<and> tc_id t = c \<and> tc_agent_id t = agent_of_call k c" if "agent_of_call k c \<noteq> []" for c
    using agent_known [OF that] by (auto simp: k_def as_def)
  have linked: "agent_of_call k l \<noteq> [] \<and> (\<exists>g \<in> set gs. ge_from_id g = l \<and> trim_prefix (ge_to_id g) ''runtime_event/'' = i)"
    if "last_of (at_links k) i = Some l" for i l
    using last_of_SomeD [OF that] by (auto simp: k_def linked_calls_def agent_of_call_def)
  have ids: "c \<noteq> []" if "t \<in> set ts" "tc_id t = c" for t c
    using assms(3) that by (auto simp: list_all_iff ts d_def)
  have "\<exists>t. t \<in> set (db_tool_calls d) \<and> tc_run_id t = run \<and> re_tool_call_id e = tc_id t \<and> re_agent_id e = tc_agent_id t \<and>
      (links_event run d t ev \<or> ev_tool_call_id ev = tc_id t \<or> (ran_around t ev \<and> re_confidence e \<le> 7 / 10))"
    using a(1) assms(5)
  proof (cases rule: attribute_cases)
    case (link l)
    with linked [of "ev_id ev" l] call [of l] obtain t g where "t \<in> set ts" "tc_id t = l" "tc_agent_id t = re_agent_id e"
      "g \<in> set gs" "ge_from_id g = l" "trim_prefix (ge_to_id g) ''runtime_event/'' = ev_id ev" by auto
    with link ids [of t l] ts gs show ?thesis by (intro exI [of _ t]) (auto simp: links_event_def list_ex_iff)
  next
    case own
    with call [of "ev_tool_call_id ev"] assms(5) ts show ?thesis by auto
  next
    case (dead l)
    with linked show ?thesis by blast
  next
    case (window x moment)
    with ws [of x] obtain t where t: "t \<in> set (db_tool_calls d)" "tc_run_id t = run" "window_of_call t = Some x"
      by (auto simp: k_def)
    with window show ?thesis
      by (intro exI [of _ t])
        (auto simp: window_of_call_def Let_def ran_around_def brackets_def split: option.splits if_splits)
  qed
  with a(2) ev(1) evs show ?thesis unfolding d_def by blast
qed

text \<open>The windows of calls that got the synthetic base time of the hooks bridge are kept: 2026 is not before 2020.\<close>
lemma synthetic_window_kept:
  assumes "tc_started_at t = format_time default_base"
  shows "window_of_call t \<noteq> None"
proof -
  have "parse_time (format_time default_base) = Some default_base" "year_text (format_time default_base) = 2026"
    by code_simp+
  with assms show ?thesis by (simp add: window_of_call_def Let_def)
qed

section \<open>Concrete runs\<close>

definition plain_intent_env :: intent_env where
  "plain_intent_env = \<lparr>iv_hooks = plain_env, iv_read = (\<lambda>_. None), iv_calls = (\<lambda>ts. ts), iv_edges = (\<lambda>es. es),
     iv_events = (\<lambda>es. es), iv_objects = (\<lambda>bs. bs), iv_order = (\<lambda>ks. ks), iv_gaps = (\<lambda>ks. ks)\<rparr>"

definition message_diff :: "string \<Rightarrow> runtime_diff" where
  "message_diff body = executed_diff (message_contract default_profiles [] ''agent/bob'' 1 body) []"

definition messages_world :: world where
  "messages_world = quiet_world (empty_db\<lparr>db_intent_diffs := [diff_row ''run-1'' (format_time 0) (message_diff ''run ls'')]\<rparr>)"

lemma shared_diff_id_blocks_run_witness:
  "fst (persist_diffs ''run-2'' [message_diff ''read notes''] messages_world) = Some SqlError"
proof -
  have "df_id (message_diff ''read notes'') = df_id (message_diff ''run ls'')"
    by (simp add: message_diff_def executed_diff_def message_contract_def Let_def blank_contract_def)
  then show ?thesis
    using shared_diff_id_blocks_run [of "message_diff ''read notes''" "[message_diff ''read notes'']"
        "diff_row ''run-1'' (format_time 0) (message_diff ''run ls'')" messages_world "''run-2''"]
    by (simp add: messages_world_def diff_row_def)
qed

definition cat_payload :: string where
  "cat_payload = CHR 0x7B # quote ''raw'' @ '':'' @ CHR 0x7B # quote ''comm'' @ '':'' @ quote ''cat'' @ [CHR 0x7D, CHR 0x7D]"

definition cat_call :: tool_call where
  "cat_call = call_row ''call-1'' ''run-1'' ''main'' ''cat notes'' ''asserted'' ''allow'' (format_time default_base)"

definition cat_event :: event where
  "cat_event = (kernel_row ''ev-1'' ''metadata_ip'' cat_payload)\<lparr>ev_created_at := format_time (default_base + 5000000000)\<rparr>"

definition cat_world :: world where
  "cat_world = quiet_world (empty_db\<lparr>db_tool_calls := [cat_call], db_events := [cat_event]\<rparr>)"

definition cat_window :: call_window where
  "cat_window = \<lparr>wn_agent = ''main'', wn_call = ''call-1'', wn_program = ''cat'', wn_start = default_base - grace,
     wn_end = default_base + grace\<rparr>"

lemma cat_texts:
  "parse_time (format_time default_base) = Some default_base" "year_text (format_time default_base) = 2026"
  "parse_time (format_time (default_base + 5000000000)) = Some (default_base + 5000000000)" "parse_time [] = None"
  "extract_comm cat_payload = ''cat''" "program_name ''cat notes'' = ''cat''" "to_lower ''cat'' = ''cat''"
  "classify_event default_engine ''metadata_ip'' cat_payload = Some (''metadata_egress'', ''169.254.169.254'')"
  by code_simp+

lemma cat_call_window: "window_of_call cat_call = Some cat_window"
  by (simp add: window_of_call_def cat_call_def call_row_def cat_texts cat_window_def)

lemma cat_attribute: "attribute \<lparr>at_agents = as, at_links = [], at_windows = [cat_window]\<rparr> cat_event =
   (if coalesce (last_of as []) = [] then (''main'', ''call-1'', 7 / 10) else (coalesce (last_of as []), [], 1))"
  by (simp add: attribute_def Let_def cat_event_def kernel_row_def agent_of_call_def last_of_def containing_def cat_texts
      brackets_def cat_window_def grace_def coalesce_def)

lemma cat_effects: "\<exists>w'. normalize_effects plain_intent_env ''run-1'' default_engine cat_world =
   (Inr [\<lparr>re_kind = ''metadata_egress'', re_target = ''169.254.169.254'', re_agent_id = ''main'',
      re_tool_call_id = ''call-1'', re_event_id = ''ev-1'', re_confidence = 7 / 10\<rparr>], w')"
proof -
  have [simp]: "tc_id cat_call = ''call-1''" "tc_run_id cat_call = ''run-1''" "tc_agent_id cat_call = ''main''"
    "tc_started_at cat_call \<noteq> []" "ev_run_id cat_event = Some ''run-1''" "ev_event_type cat_event = ''metadata_ip''"
    "ev_payload cat_event = cat_payload" "ev_id cat_event = ''ev-1''"
    by (simp_all add: cat_call_def call_row_def cat_event_def kernel_row_def)
  show ?thesis
    by (simp add: normalize_effects_def load_windows_def cat_world_def quiet_world_def query_def plain_intent_env_def
        linked_calls_def empty_db_def effect_types_def effect_of_def cat_call_window cat_attribute cat_texts last_of_def coalesce_def)
qed

lemma attributed_effects_rest_on_calls_witness:
  "ran_around cat_call cat_event"
proof -
  obtain w' where n: "normalize_effects plain_intent_env ''run-1'' default_engine cat_world =
   (Inr [\<lparr>re_kind = ''metadata_egress'', re_target = ''169.254.169.254'', re_agent_id = ''main'',
      re_tool_call_id = ''call-1'', re_event_id = ''ev-1'', re_confidence = 7 / 10\<rparr>], w')" using cat_effects by blast
  have d: "db_tool_calls (w_db cat_world) = [cat_call]" "db_events (w_db cat_world) = [cat_event]"
    "db_graph_edges (w_db cat_world) = []"
    by (simp_all add: cat_world_def empty_db_def)
  show ?thesis
    using attributed_effects_rest_on_calls [OF n]
    by (simp add: d fair_orders_def plain_intent_env_def reorders_def links_event_def)
      (simp add: cat_call_def call_row_def cat_event_def kernel_row_def)
qed

end
