(* ===== verification/Spec2Isabelle.thy ===== *)
theory Spec2Isabelle
  imports Attest Signals PolicyVerify Semantics Reassembler FileDiff Replay Redact EventPages IngestVerify Tlsmeta JsonlVerify Spool Retention Health Trajectory Objects Intent Hooks IntentStore
begin

text \<open>
  AgentProvenance records what an agent run does, correlates it with the tool call that caused it,
  judges it by policy, and proves afterwards that the record is complete. This development models the
  parts of the Go program that carry this logic. The sources are under \<open>src/internal\<close>.

  \<^bold>\<open>The parts and how they interact.\<close> Telemetry lines come in through \<open>telemetry\<close>: they are mapped to
  events, redacted (\<open>redact\<close>), resolved to a context binding (\<open>correlation\<close>) and stored with causality
  edges. The policy engine (\<open>security\<close>) evaluates stored events and leaves decisions, risk signals,
  response actions, cost samples and unified signals (\<open>signals\<close>). \<open>provenance\<close> reads all of this: it
  verifies a run, builds replay manifests, diffs and blames files. \<open>tlsintent\<close> reassembles HTTP messages
  from the plaintext the TLS probe sees, and \<open>attest\<close> signs statements about the result. All state is in
  one SQLite database.

  \<^bold>\<open>Theories.\<close>
  \<^item> \<open>GoPrelude\<close>, \<open>GoInt\<close>, \<open>GoTime\<close>, \<open>Json\<close>: what the program uses of Go's strings, 64-bit integers,
    RFC 3339 times and \<open>encoding/json\<close>, with the lemmas several components share.
  \<^item> \<open>Schema\<close>: the tables of \<open>store/store.go\<close> as records in one record \<open>db\<close>; SQL statements as functions
    on it; the locale \<open>table\<close> is their interface, interpreted for every table.
  \<^item> \<open>World\<close>: the state of a handler, that is the database, the identifiers of \<open>ids/ids.go\<close>, the clock, and
    the faults of the store as functions of a counter. Every handler is a function from a world to a result
    and a world; an error the code drops is dropped here too.
  \<^item> \<open>TelemetrySchema\<close> (\<open>telemetry/schema.go\<close>): payload validation, correlation classes.
  \<^item> \<open>Redact\<close> (\<open>redact/redact.go\<close>): the token patterns and the key/value pattern as matchers.
  \<^item> \<open>Correlation\<close> (\<open>correlation/binding.go\<close>): recording, closing and resolving bindings, with the contract
    of a resolution as a specification it refines.
  \<^item> \<open>Ingest\<close>, \<open>EventPages\<close> (\<open>telemetry/service.go\<close>): one event into the store, taint, and the paged
    listing; \<open>JsonEmbed\<close> and \<open>IngestVerify\<close> connect it with verification.
  \<^item> \<open>Tlsmeta\<close> (\<open>telemetry/tlsmeta.go\<close>): what a captured TLS window says.
  \<^item> \<open>JsonlMap\<close>, \<open>Jsonl\<close> (\<open>telemetry/jsonl.go\<close>): lines of the four formats become events to ingest; the
    two receivers, their per-line results and the batch record. \<open>Windows\<close> (\<open>telemetry/windows.go\<close>): the
    windows of a run, rebuilt from its events. \<open>JsonlVerify\<close>: what the receivers leave verifies.
  \<^item> \<open>Spool\<close> (\<open>telemetry/spool.go\<close>): the queue of files in front of ingestion, its backpressure and its
    processing. \<open>Retention\<close> (\<open>telemetry/retention.go\<close>): pruning of raw events. \<open>Health\<close>
    (\<open>telemetry/producer_health.go\<close>, \<open>telemetry/correlation_report.go\<close>): two reports over stored events.
  \<^item> \<open>Trajectory\<close> (\<open>provenance/trajectory.go\<close>): the attempts of a run with the files each changed, and the
    JSON of the four manifests. \<open>Objects\<close> (\<open>provenance/objects.go\<close>): the content-addressed objects of a run;
    the state adds the files and the context of a materialisation to the store. \<open>Intent\<close> (\<open>intent/effect.go\<close>,
    \<open>profile.go\<close>, \<open>diff.go\<close>): effects from events, contract profiles and their reconciliation.
  \<^item> \<open>Hooks\<close> (\<open>hooksbridge/bridge.go\<close>): the hook log of a harness becomes agents, judged tool calls and edges;
    the join of kernel events to tool calls. What an ingest writes is a step relation on the store.
  \<^item> \<open>IntentStore\<close> (\<open>intent/contract.go\<close>, \<open>intent/materialize.go\<close>): contracts from tool calls, messages and
    model responses, the agent of an effect, the diffs of a run as rows, edges and signals.
  \<^item> \<open>Policy\<close>, \<open>PolicyStore\<close> (\<open>security/policy.go\<close>): matching and evaluation; persistence, side effects and
    re-evaluation. \<open>PolicyChain\<close> and \<open>PolicyVerify\<close> show what a decision leaves behind and that it verifies.
  \<^item> \<open>Signals\<close> (\<open>signals\<close>): recording, projection, backfill, export and conformance.
  \<^item> \<open>Verify\<close> (\<open>provenance/verify.go\<close>): every check of \<open>graph verify\<close>.
  \<^item> \<open>Replay\<close> (\<open>provenance/replay.go\<close>), \<open>FileDiff\<close> (\<open>provenance/diff.go\<close>).
  \<^item> \<open>Framing\<close>, \<open>Http2\<close>, \<open>Reassembler\<close>, \<open>Semantics\<close> (\<open>tlsintent\<close>): a generic framing locale, its two
    interpretations, the reassembler and the two provider shapes.
  \<^item> \<open>Attest\<close> (\<open>attest/attest.go\<close>): DSSE envelopes over an abstract signature scheme.

  \<^bold>\<open>What the lemmas show.\<close> Safety of what is accepted (paths, tokens, payloads, detect rules); that handlers
  leave what verification asks for (decisions, events); refinement of resolution; independence from how the
  probe cuts a stream; round trips of cursors, chunks and envelopes; minimality of diffs; bounds on buffers;
  termination of the taint walk on cyclic graphs and of a client that follows cursors; and, where the code
  does not do what its comments say, a theorem about what it does instead.

  \<^bold>\<open>Bounds and fuel.\<close> Integers are \<open>int\<close> or \<open>nat\<close> where Go's cannot overflow, and wrap where they can
  (\<open>wrap\<close>, words in \<open>Http2\<close>). The JSON decoder takes fuel, twice the length of its input plus two: every
  recursive call but one per value consumes a character. All other loops terminate by a measure.

  \<^bold>\<open>Assumptions.\<close> SHA-256, ed25519, HPACK and the iteration order of Go maps are parameters. White space and
  letter case are those of ASCII. JSON numbers are exact rationals where the code does not convert them.
  Reads are taken to succeed in functions that only list, verify or report.

  \<^bold>\<open>Not modelled.\<close> The command line, the daemon, the dashboard and the printers (input and output around
  the functions modelled here); the kernel sensor, process launching, containers and Kubernetes (they need the
  operating system); the store's opening and migrations; issue and error messages; the YAML loader.
\<close>

end
